(* ===== verification/Prelude.thy ===== *)
theory Prelude
  imports Main "HOL-Library.Sublist"
begin

text \<open>
  Shared vocabulary of the development: the JavaScript string operations the sources call, modelled
  on character lists, and the generic list and option lemmas the components use.

  A JavaScript string is a sequence of UTF-16 code units. Every string the modelled code inspects
  character by character is a request path, a header value or an identifier; header values are byte
  strings by the Fetch standard, so a \<^typ>\<open>char\<close> (a code unit below 256) loses nothing there.
  The collection \<open>js_string\<close> holds the characterisations of the string operations.
\<close>

named_theorems js_string

subsection \<open>Prefix, suffix and substring tests\<close>

text \<open>\<open>s.startsWith(p)\<close>, \<open>s.endsWith(p)\<close> and \<open>s.includes(p)\<close>.\<close>

definition startsWith :: "string \<Rightarrow> string \<Rightarrow> bool" where
  "startsWith s p \<longleftrightarrow> take (length p) s = p"

definition endsWith :: "string \<Rightarrow> string \<Rightarrow> bool" where
  "endsWith s p \<longleftrightarrow> length p \<le> length s \<and> drop (length s - length p) s = p"

fun str_includes :: "string \<Rightarrow> string \<Rightarrow> bool" where
  "str_includes [] p = (p = [])"
| "str_includes (c # s) p = (startsWith (c # s) p \<or> str_includes s p)"

text \<open>\<open>s.split(c)\<close> for a one-character separator: never empty, and a separator at either end
  leaves an empty piece there. \<open>join\<close> puts a separator between the pieces.\<close>

fun splitOn :: "char \<Rightarrow> string \<Rightarrow> string list" where
  "splitOn c [] = [[]]"
| "splitOn c (x # xs) =
     (if x = c then [] # splitOn c xs
      else (case splitOn c xs of [] \<Rightarrow> [[x]] | w # ws \<Rightarrow> (x # w) # ws))"

fun joinWith :: "string \<Rightarrow> string list \<Rightarrow> string" where
  "joinWith sep [] = []"
| "joinWith sep [w] = w"
| "joinWith sep (w # v # ws) = w @ sep @ joinWith sep (v # ws)"

text \<open>\<open>s.indexOf(c)\<close> for one character: the position, or \<^term>\<open>None\<close> for the source's \<open>-1\<close>.\<close>

fun indexOf :: "char \<Rightarrow> string \<Rightarrow> nat option" where
  "indexOf c [] = None"
| "indexOf c (x # xs) = (if x = c then Some 0 else map_option Suc (indexOf c xs))"

subsection \<open>White space, case and character classes\<close>

text \<open>The white space and line terminators of ECMAScript among the code units below 256, as
  \<open>trim\<close> and the regular-expression class \<open>\s\<close> read them.\<close>

definition js_space :: "char \<Rightarrow> bool" where
  "js_space c \<longleftrightarrow> (let n = of_char c :: nat in (9 \<le> n \<and> n \<le> 13) \<or> n = 32 \<or> n = 160)"

definition trim :: "string \<Rightarrow> string" where
  "trim s = rev (dropWhile js_space (rev (dropWhile js_space s)))"

text \<open>\<open>toLowerCase\<close> on code units below 256: ASCII and Latin-1 letters.\<close>

definition lower_char :: "char \<Rightarrow> char" where
  "lower_char c = (let n = of_char c :: nat in
     if (65 \<le> n \<and> n \<le> 90) \<or> (192 \<le> n \<and> n \<le> 222 \<and> n \<noteq> 215) then char_of (n + 32) else c)"

definition lower :: "string \<Rightarrow> string" where
  "lower s = map lower_char s"

definition is_digit :: "char \<Rightarrow> bool" where
  "is_digit c \<longleftrightarrow> (let n = of_char c :: nat in 48 \<le> n \<and> n \<le> 57)"

definition is_lower_az :: "char \<Rightarrow> bool" where
  "is_lower_az c \<longleftrightarrow> (let n = of_char c :: nat in 97 \<le> n \<and> n \<le> 122)"

definition is_upper_az :: "char \<Rightarrow> bool" where
  "is_upper_az c \<longleftrightarrow> (let n = of_char c :: nat in 65 \<le> n \<and> n \<le> 90)"

definition is_alpha :: "char \<Rightarrow> bool" where
  "is_alpha c \<longleftrightarrow> is_lower_az c \<or> is_upper_az c"

definition is_alnum :: "char \<Rightarrow> bool" where
  "is_alnum c \<longleftrightarrow> is_alpha c \<or> is_digit c"

text \<open>The value of one hexadecimal digit of either case.\<close>

definition hex_val :: "char \<Rightarrow> nat option" where
  "hex_val c = (let n = of_char c :: nat in
     if 48 \<le> n \<and> n \<le> 57 then Some (n - 48)
     else if 65 \<le> n \<and> n \<le> 70 then Some (n - 55)
     else if 97 \<le> n \<and> n \<le> 102 then Some (n - 87)
     else None)"

text \<open>Decimal and hexadecimal digits.\<close>

fun show_nat :: "nat \<Rightarrow> string" where
  "show_nat n = (if n < 10 then [char_of (48 + n)] else show_nat (n div 10) @ [char_of (48 + n mod 10)])"

declare show_nat.simps [simp del]

definition hex_char :: "nat \<Rightarrow> char" where
  "hex_char n = ''0123456789abcdef'' ! n"

subsection \<open>Lemmas on the string operations\<close>

lemma startsWith_iff [js_string]: "startsWith s p \<longleftrightarrow> (\<exists>r. s = p @ r)"
proof
  assume "startsWith s p"
  then have "s = p @ drop (length p) s"
    by (metis append_take_drop_id startsWith_def)
  then show "\<exists>r. s = p @ r" ..
qed (auto simp: startsWith_def)

lemma startsWith_refl [simp]: "startsWith s s"
  by (simp add: startsWith_def)

lemma startsWith_append [simp]: "startsWith (p @ r) p"
  by (simp add: startsWith_def)

lemma startsWith_Nil [simp]: "startsWith s []"
  by (simp add: startsWith_def)

lemma startsWith_prefix: "startsWith s p \<longleftrightarrow> prefix p s"
  by (auto simp: startsWith_iff prefix_def)

lemma endsWith_iff [js_string]: "endsWith s p \<longleftrightarrow> (\<exists>r. s = r @ p)"
proof
  assume "endsWith s p"
  then have "s = take (length s - length p) s @ p"
    by (metis append_take_drop_id endsWith_def)
  then show "\<exists>r. s = r @ p" ..
qed (auto simp: endsWith_def)

lemma str_includes_iff [js_string]: "str_includes s p \<longleftrightarrow> (\<exists>a b. s = a @ p @ b)"
proof (induction s)
  case Nil
  then show ?case by auto
next
  case (Cons c s)
  show ?case
  proof
    assume "str_includes (c # s) p"
    then consider r where "c # s = p @ r" | a b where "s = a @ p @ b"
      using Cons by (auto simp: startsWith_iff)
    then show "\<exists>a b. c # s = a @ p @ b"
    proof cases
      case (1 r)
      then have "c # s = [] @ p @ r" by simp
      then show ?thesis by blast
    next
      case (2 a b)
      then have "c # s = (c # a) @ p @ b" by simp
      then show ?thesis by blast
    qed
  next
    assume "\<exists>a b. c # s = a @ p @ b"
    then obtain a b where ab: "c # s = a @ p @ b" by blast
    show "str_includes (c # s) p"
    proof (cases a)
      case Nil
      with ab have "startsWith (c # s) p" by (simp add: startsWith_def)
      then show ?thesis by simp
    next
      case 2: (Cons d a')
      with ab have "s = a' @ p @ b" by simp
      with Cons.IH show ?thesis by auto
    qed
  qed
qed

lemma splitOn_not_Nil [simp]: "splitOn c s \<noteq> []"
  by (cases s) (auto split: list.splits)

lemma splitOn_no_sep: "w \<in> set (splitOn c s) \<Longrightarrow> c \<notin> set w"
proof (induction s arbitrary: w)
  case (Cons x xs)
  then show ?case by (auto split: if_splits list.splits)
qed simp

lemma joinWith_Cons [simp]: "ws \<noteq> [] \<Longrightarrow> joinWith sep (w # ws) = w @ sep @ joinWith sep ws"
  by (cases ws) auto

lemma join_split [simp]: "joinWith [c] (splitOn c s) = s"
proof (induction s)
  case (Cons x xs)
  show ?case
  proof (cases "splitOn c xs")
    case (Cons w ws)
    then show ?thesis
      using Cons.IH by (cases ws) auto
  qed simp
qed simp

lemma splitOn_inj: "splitOn c s = splitOn c t \<Longrightarrow> s = t"
  by (metis join_split)

lemma splitOn_no_occ: "c \<notin> set s \<Longrightarrow> splitOn c s = [s]"
  by (induction s) auto

lemma splitOn_append: "c \<notin> set w \<Longrightarrow> splitOn c (w @ c # s) = w # splitOn c s"
  by (induction w) auto

lemma split_join: "ws \<noteq> [] \<Longrightarrow> (\<forall>w\<in>set ws. c \<notin> set w) \<Longrightarrow> splitOn c (joinWith [c] ws) = ws"
proof (induction ws)
  case (Cons w ws)
  then show ?case
    by (cases ws) (auto simp: splitOn_no_occ splitOn_append)
qed simp

lemma splitOn_infix: "w \<in> set (splitOn c s) \<Longrightarrow> \<exists>u v. s = u @ w @ v"
proof (induction s arbitrary: w)
  case (Cons x xs)
  obtain y ys where ys: "splitOn c xs = y # ys"
    by (cases "splitOn c xs") auto
  then obtain v where y: "xs = y @ v"
    by (metis append.assoc join_split joinWith.simps(2) joinWith_Cons append_Nil2)
  consider "w = []" | "w \<in> set (splitOn c xs)" | "w = x # y"
    using Cons.prems ys by (auto split: if_splits)
  then show ?case
  proof cases
    case 1
    then show ?thesis by (metis append_Nil)
  next
    case 2
    then show ?thesis using Cons.IH by (metis append_Cons)
  next
    case 3
    then have "x # xs = [] @ w @ v" using y by simp
    then show ?thesis by blast
  qed
qed simp

lemma splitOn_prefix_piece: "c \<notin> set w \<Longrightarrow> \<exists>v' ps. splitOn c (w @ v) = (w @ v') # ps"
proof (induction w)
  case Nil
  then show ?case by (cases "splitOn c v") auto
next
  case (Cons x w)
  then show ?case by auto
qed

lemma infix_in_piece:
  "c \<notin> set w \<Longrightarrow> w \<noteq> [] \<Longrightarrow> \<exists>p\<in>set (splitOn c (u @ w @ v)). \<exists>u' v'. p = u' @ w @ v'"
proof (induction u)
  case Nil
  then obtain v' ps where "splitOn c (w @ v) = (w @ v') # ps"
    using splitOn_prefix_piece by blast
  moreover have "w @ v' = [] @ w @ v'" by simp
  ultimately show ?case by (metis append_Nil list.set_intros(1))
next
  case (Cons x u)
  then obtain p u' v' where p: "p \<in> set (splitOn c (u @ w @ v))" "p = u' @ w @ v'" by blast
  show ?case
  proof (cases "x = c")
    case True
    with p show ?thesis by auto
  next
    case False
    obtain q qs where q: "splitOn c (u @ w @ v) = q # qs" by (cases "splitOn c (u @ w @ v)") auto
    with False have eq: "splitOn c ((x # u) @ w @ v) = (x # q) # qs" by simp
    show ?thesis
    proof (cases "p = q")
      case True
      with p have "x # q = (x # u') @ w @ v'" by simp
      with eq show ?thesis by (metis list.set_intros(1))
    next
      case False
      with p q have "p \<in> set qs" by auto
      with p eq show ?thesis by (metis list.set_intros(2))
    qed
  qed
qed

lemma indexOf_None [simp]: "indexOf c s = None \<longleftrightarrow> c \<notin> set s"
  by (induction s) auto

lemma indexOf_Some:
  "indexOf c s = Some i \<Longrightarrow> i < length s \<and> s ! i = c \<and> c \<notin> set (take i s)"
proof (induction s arbitrary: i)
  case (Cons x xs)
  then show ?case by (cases i) (auto split: if_splits)
qed simp

lemma indexOf_append: "c \<notin> set w \<Longrightarrow> indexOf c (w @ c # s) = Some (length w)"
  by (induction w) auto

lemma trim_set: "set (trim s) \<subseteq> set s"
  unfolding trim_def by (metis (no_types, lifting) set_dropWhileD set_rev subsetI)

lemma trim_nospace: "(\<forall>c\<in>set s. \<not> js_space c) \<Longrightarrow> trim s = s"
proof -
  assume ns: "\<forall>c\<in>set s. \<not> js_space c"
  have "dropWhile js_space t = t" if "\<forall>c\<in>set t. \<not> js_space c" for t
    using that by (cases t) auto
  from this [of s] this [of "rev s"] ns show ?thesis
    by (simp add: trim_def)
qed

end
