(* ===== verification/Json.thy ===== *)
theory Json
  imports Prelude Complex_Main
begin

text \<open>
  JSON values as the code receives them from \<open>JSON.parse\<close> and from the token library, and the
  structural readers of \<open>packages/auth-core/src/json.ts\<close>. A JavaScript \<open>undefined\<close> is
  \<^term>\<open>None\<close>. A finite number is a \<^typ>\<open>rat\<close> (every double is one); \<open>Infinity\<close> and \<open>NaN\<close> are the
  value \<open>JNonFinite\<close>. The properties of an object have distinct names.
\<close>

type_synonym number = rat

datatype json =
    JNull
  | JBool bool
  | JNum number
  | JNonFinite
  | JStr string
  | JArr "json list"
  | JObj "(string \<times> json) list"

text \<open>The index an array property name denotes: a decimal numeral without leading zeros.\<close>

definition array_index :: "string \<Rightarrow> nat option" where
  "array_index key =
     (if key \<noteq> [] \<and> list_all is_digit key \<and> (key = ''0'' \<or> hd key \<noteq> CHR ''0'')
      then Some (foldl (\<lambda>n c. 10 * n + (of_char c - 48)) 0 key) else None)"

text \<open>\<open>Object.hasOwn(value, key) ? Reflect.get(value, key) : undefined\<close>. An array is an object too:
  it owns its indices and \<open>length\<close>.\<close>

fun propOf :: "json option \<Rightarrow> string \<Rightarrow> json option" where
  "propOf (Some (JObj kvs)) key = map_of kvs key"
| "propOf (Some (JArr xs)) key =
     (if key = ''length'' then Some (JNum (of_nat (length xs)))
      else (case array_index key of
              Some i \<Rightarrow> if i < length xs then Some (xs ! i) else None
            | None \<Rightarrow> None))"
| "propOf _ key = None"

definition stringField :: "json option \<Rightarrow> string \<Rightarrow> string option" where
  "stringField value key = (case propOf value key of Some (JStr s) \<Rightarrow> Some s | _ \<Rightarrow> None)"

definition numberField :: "json option \<Rightarrow> string \<Rightarrow> number option" where
  "numberField value key = (case propOf value key of Some (JNum n) \<Rightarrow> Some n | _ \<Rightarrow> None)"

text \<open>The string entries of a JSON array. The text is parsed by \<open>JSON.parse\<close>, given as \<open>parsed\<close>:
  \<^term>\<open>None\<close> when it throws.\<close>

fun string_items :: "json list \<Rightarrow> string list" where
  "string_items [] = []"
| "string_items (JStr s # xs) = s # string_items xs"
| "string_items (_ # xs) = string_items xs"

definition parseJsonStringArray :: "(string \<Rightarrow> json option) \<Rightarrow> string \<Rightarrow> string list" where
  "parseJsonStringArray jsonParse text =
     (case jsonParse text of Some (JArr xs) \<Rightarrow> string_items xs | _ \<Rightarrow> [])"

text \<open>The quoted text of \<open>JSON.stringify\<close>.\<close>

definition json_escape :: "char \<Rightarrow> string" where
  "json_escape c =
     (let n = of_char c :: nat; bs = CHR 0x5C in
      if n = 34 \<or> n = 92 then [bs, c]
      else if n = 8 then [bs, CHR ''b''] else if n = 9 then [bs, CHR ''t''] else if n = 10 then [bs, CHR ''n'']
      else if n = 12 then [bs, CHR ''f''] else if n = 13 then [bs, CHR ''r'']
      else if n < 32 then bs # ''u00'' @ [hex_char (n div 16), hex_char (n mod 16)]
      else [c])"

definition json_quote :: "string \<Rightarrow> string" where
  "json_quote s = CHR 0x22 # concat (map json_escape s) @ [CHR 0x22]"

lemma prop_None [simp]: "propOf None key = None"
  by simp

lemma stringField_obj:
  "map_of kvs key = Some (JStr s) \<Longrightarrow> stringField (Some (JObj kvs)) key = Some s"
  by (simp add: stringField_def)

lemma numberField_obj:
  "map_of kvs key = Some (JNum n) \<Longrightarrow> numberField (Some (JObj kvs)) key = Some n"
  by (simp add: numberField_def)

end
