(* ===== verification/Canonical_Json.thy ===== *)
theory Canonical_Json
  imports Json "HOL-Library.List_Lexorder" "HOL-Library.Char_ord" "HOL-Library.Multiset"
begin

text \<open>
  The canonical JSON of \<open>packages/auth-core/src/contract-canonical.ts\<close>: \<open>JSON.stringify\<close> with every object's entries
  sorted by key, which every digest is taken over. The decimal text of a number is the runtime's, given as \<open>numText\<close>.
  The main result is that the text is exact: two values have one text precisely when they differ in nothing but the
  order of object keys.
\<close>

subsection \<open>The code\<close>

text \<open>The order in which a new object lists its properties: array indices first, ascending, then the others as they were
  added.\<close>

definition index_of :: "string \<Rightarrow> nat option" where
  "index_of k = (case array_index k of Some i \<Rightarrow> if i < 2 ^ 32 - 1 then Some i else None | None \<Rightarrow> None)"

definition own_order :: "(string \<times> 'a) list \<Rightarrow> (string \<times> 'a) list" where
  "own_order kvs =
     sort_key (\<lambda>(k, _). the (index_of k)) (filter (\<lambda>(k, _). index_of k \<noteq> None) kvs) @ filter (\<lambda>(k, _). index_of k = None) kvs"

text \<open>\<open>sortKeys\<close> of one object: its entries sorted in code-unit order, in a new object.\<close>

definition sortKeys :: "(string \<times> 'a) list \<Rightarrow> (string \<times> 'a) list" where
  "sortKeys kvs = own_order (sort_key fst kvs)"

text \<open>The value as \<open>JSON.stringify\<close> visits it through the replacer.\<close>

fun replaced :: "json \<Rightarrow> json" where
  "replaced (JArr xs) = JArr (map replaced xs)"
| "replaced (JObj kvs) = JObj (sortKeys (map (\<lambda>(k, v). (k, replaced v)) kvs))"
| "replaced v = v"

fun stringify :: "(number \<Rightarrow> string) \<Rightarrow> json \<Rightarrow> string" where
  "stringify numText JNull = ''null''"
| "stringify numText (JBool b) = (if b then ''true'' else ''false'')"
| "stringify numText (JNum n) = numText n"
| "stringify numText JNonFinite = ''null''"
| "stringify numText (JStr s) = json_quote s"
| "stringify numText (JArr xs) = ''['' @ joinWith '','' (map (stringify numText) xs) @ '']''"
| "stringify numText (JObj kvs) =
     ''{'' @ joinWith '','' (map (\<lambda>(k, v). json_quote k @ '':'' @ stringify numText v) kvs) @ ''}''"

definition canonicalJson :: "(number \<Rightarrow> string) \<Rightarrow> json \<Rightarrow> string" where
  "canonicalJson numText v = stringify numText (replaced v)"

subsection \<open>Quoted strings\<close>

text \<open>A reader of the rest of a quoted string: its characters and what follows the closing quote.\<close>

fun unquote :: "string \<Rightarrow> (string \<times> string) option" where
  "unquote [] = None"
| "unquote (c # cs) =
     (if c = CHR 0x22 then Some ([], cs)
      else if c \<noteq> CHR 0x5C then map_option (apfst (Cons c)) (unquote cs)
      else (case cs of
              [] \<Rightarrow> None
            | d # ds \<Rightarrow>
                (if d = CHR ''u'' then
                   (case ds of
                      z1 # z2 # h # l # rest \<Rightarrow>
                        map_option (apfst (Cons (char_of (16 * the (hex_val h) + the (hex_val l))))) (unquote rest)
                    | _ \<Rightarrow> None)
                 else map_option (apfst (Cons
                   (if d = CHR ''b'' then char_of (8 :: nat) else if d = CHR ''t'' then char_of (9 :: nat)
                    else if d = CHR ''n'' then char_of (10 :: nat) else if d = CHR ''f'' then char_of (12 :: nat)
                    else if d = CHR ''r'' then char_of (13 :: nat) else d))) (unquote ds))))"

declare unquote.simps [simp del]

lemma hex_val_hex_char: "n < 16 \<Longrightarrow> hex_val (hex_char n) = Some n"
proof -
  have "list_all (\<lambda>n. hex_val (hex_char n) = Some n) [0..<16]" by code_simp
  then show "n < 16 \<Longrightarrow> hex_val (hex_char n) = Some n" by (simp add: list_all_iff)
qed

lemma special_chars: "char_of (34 :: nat) = CHR 0x22" "char_of (92 :: nat) = CHR 0x5C"
  by code_simp+

lemma unquote_escape: "unquote (json_escape c @ t) = map_option (apfst (Cons c)) (unquote t)"
proof -
  define n where "n = (of_char c :: nat)"
  have c: "c = char_of n" by (simp add: n_def)
  consider "n = 34 \<or> n = 92 \<or> n = 8 \<or> n = 9 \<or> n = 10 \<or> n = 12 \<or> n = 13"
    | "n \<notin> {34, 92, 8, 9, 10, 12, 13}" "n < 32" | "n \<notin> {34, 92}" "32 \<le> n" by force
  then show ?thesis
  proof cases
    case 1
    then show ?thesis unfolding json_escape_def n_def [symmetric] by (auto simp: c special_chars unquote.simps)
  next
    case 2
    then have "char_of (16 * the (hex_val (hex_char (n div 16))) + the (hex_val (hex_char (n mod 16)))) = c"
      by (simp add: hex_val_hex_char c)
    with 2 show ?thesis unfolding json_escape_def n_def [symmetric] by (simp add: unquote.simps)
  next
    case 3
    then have "c \<noteq> CHR 0x22" "c \<noteq> CHR 0x5C" by (auto simp: n_def)
    with 3 show ?thesis unfolding json_escape_def n_def [symmetric] by (simp add: unquote.simps)
  qed
qed

lemma unquote_text: "unquote (concat (map json_escape s) @ CHR 0x22 # r) = Some (s, r)"
proof (induction s)
  case Nil
  show ?case by (simp add: unquote.simps(2))
next
  case (Cons a s)
  have "unquote (concat (map json_escape (a # s)) @ CHR 0x22 # r) = map_option (apfst (Cons a)) (unquote (concat (map json_escape s) @ CHR 0x22 # r))"
    using unquote_escape [of a "concat (map json_escape s) @ CHR 0x22 # r"] by (simp only: list.map concat.simps append_assoc)
  then show ?case by (simp only: Cons.IH option.map(2) apfst_conv)
qed

lemma quote_inj:
  assumes "json_quote s @ r = json_quote t @ r'"
  shows "s = t \<and> r = r'"
proof -
  have "concat (map json_escape s) @ CHR 0x22 # r = concat (map json_escape t) @ CHR 0x22 # r'"
    using assms unfolding json_quote_def by simp
  then have "unquote (concat (map json_escape s) @ CHR 0x22 # r) = unquote (concat (map json_escape t) @ CHR 0x22 # r')" by (rule arg_cong)
  then show ?thesis unfolding unquote_text by simp
qed

subsection \<open>Decimal texts\<close>

lemma show_nat_digits: "list_all is_digit (show_nat n) \<and> show_nat n \<noteq> []"
proof (induction n rule: show_nat.induct)
  case (1 n)
  have d: "list_all (\<lambda>k. is_digit (char_of (48 + k :: nat))) [0..<10]" by code_simp
  then have "is_digit (char_of (48 + k))" if "k < 10" for k :: nat using that by (simp add: list_all_iff)
  then show ?case using 1 by (subst (1 2) show_nat.simps) auto
qed

lemma show_nat_value: "foldl (\<lambda>n c. 10 * n + (of_char c - 48)) 0 (show_nat n) = n"
proof (induction n rule: show_nat.induct)
  case (1 n)
  have "list_all (\<lambda>k. of_char (char_of (48 + k :: nat)) = 48 + k) [0..<10]" by code_simp
  then have d: "of_char (char_of (48 + k)) = 48 + k" if "k < 10" for k :: nat using that by (simp add: list_all_iff)
  show ?case
  proof (cases "n < 10")
    case True
    then show ?thesis using d [of n] by (simp add: show_nat.simps [of n])
  next
    case False
    then have "show_nat n = show_nat (n div 10) @ [char_of (48 + n mod 10)]" by (subst show_nat.simps) simp
    then show ?thesis using 1 [OF False] d [of "n mod 10"] by simp
  qed
qed

lemma show_nat_inj: "show_nat m = show_nat n \<Longrightarrow> m = n"
  by (metis show_nat_value)

text \<open>What may follow a value inside a text.\<close>

definition delim :: "string \<Rightarrow> bool" where
  "delim r \<longleftrightarrow> r = [] \<or> hd r = CHR '','' \<or> hd r = CHR '']'' \<or> hd r = CHR ''}''"

lemma delim_simps [simp]: "delim (CHR '','' # r)" "delim (CHR '']'' # r)" "delim (CHR ''}'' # r)"
  by (simp_all add: delim_def)

lemma delim_no_digit: "delim r \<Longrightarrow> takeWhile is_digit r = []"
  by (cases r) (auto simp: delim_def is_digit_def)

lemma digits_inj:
  assumes "list_all is_digit d" "list_all is_digit d'" "delim r" "delim r'" "d @ r = d' @ r'"
  shows "d = d' \<and> r = r'"
proof -
  have "takeWhile is_digit (d @ r) = d" "takeWhile is_digit (d' @ r') = d'"
    using assms(1-4) by (simp_all add: takeWhile_append2 list_all_iff delim_no_digit)
  then show ?thesis using assms(5) by simp
qed

subsection \<open>The text of a value\<close>

text \<open>Values whose numbers are natural: the numbers of the rules a digest is taken over.\<close>

fun natural :: "json \<Rightarrow> bool" where
  "natural (JNum n) = (\<exists>k < 2 ^ 53. n = of_nat k)"
| "natural JNonFinite = False"
| "natural (JArr xs) = list_all natural xs"
| "natural (JObj kvs) = (distinct (map fst kvs) \<and> list_all natural (map snd kvs))"
| "natural _ = True"

definition decimal_naturals :: "(number \<Rightarrow> string) \<Rightarrow> bool" where
  "decimal_naturals numText \<longleftrightarrow> (\<forall>k < 2 ^ 53. numText (of_nat k) = show_nat k)"

text \<open>A comma-separated list is read back item by item.\<close>

lemma join_tail: "joinWith '','' (w # ws) = w @ concat (map (\<lambda>v. CHR '','' # v) ws)"
  by (induction ws arbitrary: w) simp_all

definition reads :: "('a \<Rightarrow> string) \<Rightarrow> 'a \<Rightarrow> 'a \<Rightarrow> bool" where
  "reads f x y \<longleftrightarrow> (\<forall>r r'. delim r \<longrightarrow> delim r' \<longrightarrow> f x @ r = f y @ r' \<longrightarrow> x = y \<and> r = r')"

lemma readsD: "reads f x y \<Longrightarrow> f x @ r = f y @ r' \<Longrightarrow> delim r \<Longrightarrow> delim r' \<Longrightarrow> x = y \<and> r = r'"
  by (auto simp: reads_def)

lemma tail_inj:
  assumes "c \<in> {CHR '']'', CHR ''}''}" and "\<And>x y. x \<in> set xs \<Longrightarrow> y \<in> set ys \<Longrightarrow> reads f x y"
  shows "concat (map (\<lambda>v. CHR '','' # v) (map f xs)) @ c # r = concat (map (\<lambda>v. CHR '','' # v) (map f ys)) @ c # r' \<Longrightarrow> xs = ys \<and> r = r'"
  using assms(2)
proof (induction xs arbitrary: ys)
  case Nil
  then show ?case using assms(1) by (cases ys) auto
next
  case (Cons x xs)
  show ?case
  proof (cases ys)
    case Nil
    then show ?thesis using Cons.prems(1) assms(1) by auto
  next
    case ys: (Cons y ys')
    have d: "delim (concat (map (\<lambda>v. CHR '','' # v) zs) @ c # q)" for zs q using assms(1) by (cases zs) auto
    have "f x @ concat (map (\<lambda>v. CHR '','' # v) (map f xs)) @ c # r = f y @ concat (map (\<lambda>v. CHR '','' # v) (map f ys')) @ c # r'"
      using Cons.prems(1) ys by simp
    from readsD [of f x y, OF _ this d d] Cons.prems(2) [of x y] ys
    have "x = y" "concat (map (\<lambda>v. CHR '','' # v) (map f xs)) @ c # r = concat (map (\<lambda>v. CHR '','' # v) (map f ys')) @ c # r'" by auto
    then show ?thesis using Cons.IH [of ys'] Cons.prems(2) ys by simp
  qed
qed

lemma join_inj:
  assumes c: "c \<in> {CHR '']'', CHR ''}''}" and rd: "\<And>x y. x \<in> set xs \<Longrightarrow> y \<in> set ys \<Longrightarrow> reads f x y"
    and start: "\<And>x. x \<in> set xs \<union> set ys \<Longrightarrow> f x \<noteq> [] \<and> hd (f x) \<noteq> c"
    and eq: "joinWith '','' (map f xs) @ c # r = joinWith '','' (map f ys) @ c # r'"
  shows "xs = ys \<and> r = r'"
proof (cases xs; cases ys)
  assume "xs = []" "ys = []"
  then show ?thesis using eq by simp
next
  fix y ys' assume "xs = []" "ys = y # ys'"
  then show ?thesis using eq start [of y] by (cases "f y") (auto simp: join_tail)
next
  fix x xs' assume "xs = x # xs'" "ys = []"
  then show ?thesis using eq start [of x] by (cases "f x") (auto simp: join_tail)
next
  fix x xs' y ys' assume xs: "xs = x # xs'" "ys = y # ys'"
  then have "concat (map (\<lambda>v. CHR '','' # v) (map f xs)) @ c # r = concat (map (\<lambda>v. CHR '','' # v) (map f ys)) @ c # r'"
    using eq by (simp only: list.map join_tail concat.simps append_assoc append_Cons)
  from tail_inj [OF c _ this] rd show ?thesis by blast
qed

text \<open>The first character of a text tells the kind of its value.\<close>

fun first_char :: "json \<Rightarrow> char \<Rightarrow> bool" where
  "first_char JNull c = (c = CHR ''n'')"
| "first_char (JBool b) c = (c = (if b then CHR ''t'' else CHR ''f''))"
| "first_char (JNum n) c = is_digit c"
| "first_char JNonFinite c = (c = CHR ''n'')"
| "first_char (JStr s) c = (c = CHR 0x22)"
| "first_char (JArr xs) c = (c = CHR ''['')"
| "first_char (JObj kvs) c = (c = CHR ''{'')"

lemma stringify_first:
  assumes "decimal_naturals nt" and "natural v"
  shows "\<exists>c cs. stringify nt v = c # cs \<and> first_char v c"
proof (cases v)
  case (JNum n)
  then obtain k where "k < 2 ^ 53" "n = of_nat k" using assms(2) by auto
  then have "stringify nt v = show_nat k" using JNum assms(1) by (auto simp: decimal_naturals_def)
  then show ?thesis using JNum show_nat_digits [of k] by (cases "show_nat k") auto
qed (use assms(2) in \<open>auto simp: json_quote_def\<close>)

lemma first_char_delim: "first_char v c \<Longrightarrow> c \<noteq> CHR '']'' \<and> c \<noteq> CHR ''}''"
  by (cases v) (auto simp: is_digit_def split: if_splits)

lemma first_char_same:
  assumes "first_char v c" and "first_char w c" and "natural v" and "natural w"
  shows "(v = JNull \<and> w = JNull) \<or> (\<exists>b. v = JBool b \<and> w = JBool b) \<or> (\<exists>m n. v = JNum m \<and> w = JNum n) \<or>
    (\<exists>s t. v = JStr s \<and> w = JStr t) \<or> (\<exists>xs ys. v = JArr xs \<and> w = JArr ys) \<or> (\<exists>a b. v = JObj a \<and> w = JObj b)"
  using assms by (cases v; cases w) (auto simp: is_digit_def split: if_splits)

lemma same_kind:
  assumes "decimal_naturals nt" and v: "natural v" and w: "natural w" and "stringify nt v @ r = stringify nt w @ r'"
  shows "(v = JNull \<and> w = JNull) \<or> (\<exists>b. v = JBool b \<and> w = JBool b) \<or> (\<exists>m n. v = JNum m \<and> w = JNum n) \<or>
    (\<exists>s t. v = JStr s \<and> w = JStr t) \<or> (\<exists>xs ys. v = JArr xs \<and> w = JArr ys) \<or> (\<exists>a b. v = JObj a \<and> w = JObj b)"
proof -
  obtain c cs d ds where "stringify nt v = c # cs" "first_char v c" "stringify nt w = d # ds" "first_char w d"
    using stringify_first [OF assms(1) v] stringify_first [OF assms(1) w] by blast
  then show ?thesis using first_char_same [OF _ _ v w, of c] assms(4) by simp
qed

lemma reads_pair:
  assumes "\<And>r r'. delim r \<Longrightarrow> delim r' \<Longrightarrow> f (snd p) @ r = f (snd q) @ r' \<Longrightarrow> snd p = snd q \<and> r = r'"
  shows "reads (\<lambda>(k, v). json_quote k @ '':'' @ f v) p q"
proof -
  have "p = q \<and> r = r'" if d: "delim r" "delim r'" and e: "(case p of (k, v) \<Rightarrow> json_quote k @ '':'' @ f v) @ r = (case q of (k, v) \<Rightarrow> json_quote k @ '':'' @ f v) @ r'" for r r'
  proof -
    obtain k v k' v' where p: "p = (k, v)" "q = (k', v')" by (cases p, cases q) auto
    have "json_quote k @ CHR '':'' # f v @ r = json_quote k' @ CHR '':'' # f v' @ r'" using e p by simp
    from quote_inj [OF this] have "k = k'" "f v @ r = f v' @ r'" by simp_all
    then show ?thesis using assms [OF d] p by simp
  qed
  then show ?thesis unfolding reads_def by blast
qed

lemma stringify_reads:
  assumes nt: "decimal_naturals nt"
  shows "natural v \<Longrightarrow> natural w \<Longrightarrow> delim r \<Longrightarrow> delim r' \<Longrightarrow> stringify nt v @ r = stringify nt w @ r' \<Longrightarrow> v = w \<and> r = r'"
proof (induction v arbitrary: w r r')
  case (JNum m)
  obtain n where w: "w = JNum n"
    using same_kind [OF nt JNum.prems(1,2,5)] by blast
  obtain k l where kl: "k < 2 ^ 53" "m = of_nat k" "l < 2 ^ 53" "n = of_nat l" using JNum.prems(1,2) w by auto
  then have "show_nat k @ r = show_nat l @ r'" using JNum.prems(5) w nt by (auto simp: decimal_naturals_def)
  from digits_inj [OF _ _ JNum.prems(3,4) this] show_nat_digits show ?case using show_nat_inj kl w by blast
next
  case (JArr xs)
  obtain ys where w: "w = JArr ys"
    using same_kind [OF nt JArr.prems(1,2,5)] by blast
  have "joinWith '','' (map (stringify nt) xs) @ CHR '']'' # r = joinWith '','' (map (stringify nt) ys) @ CHR '']'' # r'"
    using JArr.prems(5) w by simp
  moreover have "reads (stringify nt) x y" if "x \<in> set xs" "y \<in> set ys" for x y
    using JArr.IH [of x y] that JArr.prems(1,2) w unfolding reads_def by (auto simp: list_all_iff)
  moreover have "stringify nt x \<noteq> [] \<and> hd (stringify nt x) \<noteq> CHR '']''" if "x \<in> set xs \<union> set ys" for x
    using that JArr.prems(1,2) w stringify_first [OF nt, of x] first_char_delim by (fastforce simp: list_all_iff)
  ultimately show ?case using join_inj [of "CHR '']''" xs ys "stringify nt" r r'] w by blast
next
  case (JObj a)
  obtain b where w: "w = JObj b"
    using same_kind [OF nt JObj.prems(1,2,5)] by blast
  let ?f = "\<lambda>(k, v). json_quote k @ '':'' @ stringify nt v"
  have "joinWith '','' (map ?f a) @ CHR ''}'' # r = joinWith '','' (map ?f b) @ CHR ''}'' # r'"
    using JObj.prems(5) w by simp
  moreover have "reads ?f p q" if "p \<in> set a" "q \<in> set b" for p q
  proof (rule reads_pair)
    fix r r' assume "delim r" "delim r'" "stringify nt (snd p) @ r = stringify nt (snd q) @ r'"
    then show "snd p = snd q \<and> r = r'"
      using JObj.IH [of p "snd p" "snd q"] that JObj.prems(1,2) w by (auto simp: list_all_iff snds.simps)
  qed
  moreover have "?f p \<noteq> [] \<and> hd (?f p) \<noteq> CHR ''}''" for p by (simp add: json_quote_def split: prod.split)
  ultimately show ?case using join_inj [of "CHR ''}''" a b ?f r r'] w by blast
next
  case JNull
  then show ?case using same_kind [OF nt JNull(1,2,5)] by auto
next
  case (JBool b)
  then show ?case using same_kind [OF nt JBool(1,2,5)] by auto
next
  case JNonFinite
  then show ?case by simp
next
  case (JStr s)
  then obtain t where "w = JStr t" using same_kind [OF nt JStr(1,2,5)] by blast
  moreover have "json_quote s @ r = json_quote t @ r'" using JStr(5) calculation by simp
  ultimately show ?case using quote_inj by blast
qed

subsection \<open>Values up to the order of keys\<close>

inductive same_json :: "json \<Rightarrow> json \<Rightarrow> bool" where
  same_null: "same_json JNull JNull"
| same_bool: "same_json (JBool b) (JBool b)"
| same_num: "same_json (JNum n) (JNum n)"
| same_str: "same_json (JStr s) (JStr s)"
| same_arr: "list_all2 same_json xs ys \<Longrightarrow> same_json (JArr xs) (JArr ys)"
| same_obj: "(\<And>k. rel_option same_json (map_of a k) (map_of b k)) \<Longrightarrow> same_json (JObj a) (JObj b)"
monos list.rel_mono_strong option.rel_mono_strong

lemma own_order_mset: "mset (own_order kvs) = mset kvs"
proof -
  have "mset kvs = mset (filter (\<lambda>(k, _). index_of k \<noteq> None) kvs) + mset (filter (\<lambda>(k, _). index_of k = None) kvs)"
    by (induction kvs) (auto split: prod.split)
  then show ?thesis by (simp add: own_order_def)
qed

lemma sortKeys_mset [simp]: "mset (sortKeys kvs) = mset kvs"
  by (simp add: sortKeys_def own_order_mset)

lemma sortKeys_set [simp]: "set (sortKeys kvs) = set kvs"
  using sortKeys_mset [of kvs] by (rule mset_eq_setD)

lemma sortKeys_keys [simp]: "distinct (map fst (sortKeys kvs)) \<longleftrightarrow> distinct (map fst kvs)"
proof -
  have "mset (map fst (sortKeys kvs)) = mset (map fst kvs)" by simp
  then show ?thesis by (rule mset_eq_imp_distinct_iff)
qed

lemma sortKeys_cong:
  assumes "distinct (map fst a)" "distinct (map fst b)" "set a = set b"
  shows "sortKeys a = sortKeys b"
proof -
  have "sort_key fst a = sort_key fst b"
    using assms by (intro map_sorted_distinct_set_unique [of fst]) (auto simp: distinct_map)
  then show ?thesis by (simp add: sortKeys_def)
qed

lemma replaced_keys [simp]: "map fst (map (\<lambda>(k, v). (k, replaced v)) kvs) = map fst kvs"
  by (induction kvs) auto

lemma natural_replaced: "natural v \<Longrightarrow> natural (replaced v)"
proof (induction v)
  case (JObj kvs)
  then have "natural (replaced v)" if "(k, v) \<in> set kvs" for k v using that by (fastforce simp: list_all_iff snds.simps)
  then show ?case using JObj.prems by (auto simp: list_all_iff simp del: map_map)
qed (auto simp: list_all_iff)

lemma same_replaced: "same_json v w \<Longrightarrow> natural v \<Longrightarrow> natural w \<Longrightarrow> replaced v = replaced w"
proof (induction rule: same_json.induct)
  case (same_arr xs ys)
  then show ?case by (auto simp: list_all2_conv_all_nth list_all_length intro!: nth_equalityI)
next
  case (same_obj a b)
  let ?r = "map (\<lambda>(k, v). (k, replaced v))"
  have nat: "natural v" if "(k, v) \<in> set a \<union> set b" for k v using that same_obj.prems by (fastforce simp: list_all_iff)
  have "map_of (?r a) k = map_of (?r b) k" for k
  proof -
    have "map_option replaced (map_of a k) = map_option replaced (map_of b k)"
    proof (cases "map_of a k")
      case None
      then show ?thesis using same_obj.IH [of k] by simp
    next
      case (Some x)
      then obtain y where y: "map_of b k = Some y" "natural x \<longrightarrow> natural y \<longrightarrow> replaced x = replaced y"
        using same_obj.IH [of k] by (auto simp: option_rel_Some1)
      then show ?thesis using Some nat [of k x] nat [of k y] map_of_SomeD [OF Some] map_of_SomeD [OF y(1)] by simp
    qed
    then show ?thesis by (simp add: map_of_map)
  qed
  then have "map_of (?r a) = map_of (?r b)" by blast
  moreover have keys: "distinct (map fst (?r a))" "distinct (map fst (?r b))" using same_obj.prems by (simp_all del: map_map)
  ultimately have "p \<in> set (?r a) \<longleftrightarrow> p \<in> set (?r b)" for p
    using map_of_eq_Some_iff [OF keys(1), of "fst p" "snd p"] map_of_eq_Some_iff [OF keys(2), of "fst p" "snd p"]
    by (simp only: prod.collapse)
  then have "set (?r a) = set (?r b)" by (rule set_eqI)
  then show ?case using sortKeys_cong [OF keys] by simp
qed simp_all

lemma replaced_same: "replaced v = replaced w \<Longrightarrow> natural v \<Longrightarrow> natural w \<Longrightarrow> same_json v w"
proof (induction v arbitrary: w)
  case (JArr xs)
  from JArr.prems(1) obtain ys where w: "w = JArr ys" and eq: "map replaced xs = map replaced ys" by (cases w) auto
  then have len: "length xs = length ys" by (metis length_map)
  have "same_json (xs ! i) (ys ! i)" if "i < length xs" for i
  proof -
    have "replaced (xs ! i) = replaced (ys ! i)" using eq len that by (metis nth_map)
    then show ?thesis using JArr.IH [of "xs ! i" "ys ! i"] JArr.prems(2,3) w len that by (simp add: list_all_length)
  qed
  then show ?case unfolding w using len by (intro same_arr) (simp add: list_all2_conv_all_nth)
next
  case (JObj a)
  let ?r = "map (\<lambda>(k, v). (k, replaced v))"
  obtain b where w: "w = JObj b" and eq: "sortKeys (?r a) = sortKeys (?r b)" using JObj.prems(1) by (cases w) auto
  have sets: "set (?r a) = set (?r b)" using arg_cong [OF eq, of set] by simp
  have d: "distinct (map fst a)" "distinct (map fst b)" using JObj.prems(2,3) w by simp_all
  have nat: "natural v" if "(k, v) \<in> set a \<union> set b" for k v using that JObj.prems(2,3) w by (fastforce simp: list_all_iff)
  have mem: "map_of kvs k = Some v \<longleftrightarrow> (k, v) \<in> set kvs" if "distinct (map fst kvs)" for kvs :: "(string \<times> json) list" and k v
    using that by simp
  have half: "\<exists>y. (k, y) \<in> set b \<and> replaced x = replaced y" if "(k, x) \<in> set a" for k x
  proof -
    have "(k, replaced x) \<in> set (?r b)" using that sets by (metis (no_types, lifting) case_prod_conv image_eqI set_map)
    then show ?thesis by auto
  qed
  have half': "\<exists>x. (k, x) \<in> set a" if "(k, y) \<in> set b" for k y
  proof -
    have "(k, replaced y) \<in> set (?r a)" using that sets by (metis (no_types, lifting) case_prod_conv image_eqI set_map)
    then show ?thesis by auto
  qed
  have "rel_option same_json (map_of a k) (map_of b k)" for k
  proof (cases "map_of a k")
    case None
    then have "map_of b k = None" using half' mem [OF d(2), of k] mem [OF d(1), of k] by (cases "map_of b k") fastforce+
    then show ?thesis using None by simp
  next
    case (Some x)
    then have x: "(k, x) \<in> set a" using mem [OF d(1)] by simp
    then obtain y where y: "(k, y) \<in> set b" "replaced x = replaced y" using half by blast
    then have "same_json x y" using JObj.IH [OF x, of x y] nat x by (auto simp: snds.simps)
    then show ?thesis using Some y(1) d(2) by simp
  qed
  then show ?case unfolding w by (rule same_obj)
qed (case_tac w; auto intro: same_json.intros)+

lemma exact_text:
  assumes "decimal_naturals numText" and "natural v" and "natural w"
  shows "canonicalJson numText v = canonicalJson numText w \<longleftrightarrow> same_json v w"
proof
  assume "canonicalJson numText v = canonicalJson numText w"
  then have "stringify numText (replaced v) @ [] = stringify numText (replaced w) @ []" by (simp add: canonicalJson_def)
  then have "replaced v = replaced w"
    using stringify_reads [OF assms(1) natural_replaced [OF assms(2)] natural_replaced [OF assms(3)], of "[]" "[]"] by (simp add: delim_def)
  then show "same_json v w" using assms(2,3) by (rule replaced_same)
next
  assume "same_json v w"
  then show "canonicalJson numText v = canonicalJson numText w"
    using same_replaced [OF _ assms(2,3)] by (simp add: canonicalJson_def)
qed

text \<open>C34: the canonical text of a value is exact: two values have one text precisely when they differ in nothing but the order
  in which their objects list their keys, at any depth. So the digests of equal contracts agree whatever the order of
  declaration, and nothing else of a value is lost or confused before it is hashed. The numbers are naturals the runtime
  prints in decimal, and an object has each key once.\<close>

theorem canonicalJson_exact:
  assumes "decimal_naturals numText" and "natural v" and "natural w"
  shows "canonicalJson numText v = canonicalJson numText w \<longleftrightarrow> same_json v w"
  using assms by (rule exact_text)

definition natText :: "number \<Rightarrow> string" where
  "natText n = show_nat (nat \<lfloor>n\<rfloor>)"

lemma natText_decimal: "decimal_naturals natText"
  by (simp add: decimal_naturals_def natText_def)

theorem canonicalJson_exact_witness:
  "canonicalJson natText (JObj [(''b'', JNum 2), (''a'', JArr [JStr ''x'', JNull])]) =
   canonicalJson natText (JObj [(''a'', JArr [JStr ''x'', JNull]), (''b'', JNum 2)])"
proof -
  let ?v = "JObj [(''b'', JNum 2), (''a'', JArr [JStr ''x'', JNull])]" and ?w = "JObj [(''a'', JArr [JStr ''x'', JNull]), (''b'', JNum 2)]"
  have "\<exists>k < 2 ^ 53. (2 :: number) = of_nat k" by (rule exI [of _ 2]) simp
  then have n: "natural ?v" "natural ?w" by simp_all
  have "same_json ?v ?w" by (rule same_obj) (auto intro: same_json.intros)
  then show ?thesis using canonicalJson_exact [OF natText_decimal n] by blast
qed

text \<open>The keys of the text are sorted but for array indices, which an object lists first and by value: \<open>9\<close> comes before \<open>10\<close>,
  though \<open>10\<close> is the smaller text. The text is canonical all the same.\<close>

lemma index_keys_by_value:
  "sortKeys [(''10'', JNull), (''9'', JNull), (''a'', JNull)] = [(''9'', JNull), (''10'', JNull), (''a'', JNull)] \<and> ''10'' < ''9''"
proof -
  have less: "''10'' < ''9''" "''10'' < ''a''" "''9'' < ''a''" by code_simp+
  have "array_index ''10'' = Some 10" "array_index ''9'' = Some 9" "array_index ''a'' = None" by code_simp+
  then have "index_of ''10'' = Some 10" "index_of ''9'' = Some 9" "index_of ''a'' = None" by (simp_all add: index_of_def)
  with less show ?thesis by (simp add: sortKeys_def own_order_def)
qed

end
