(* ===== verification/Sha256.thy ===== *)
theory Sha256
  imports Prelude "HOL-Library.Word"
begin

unbundle bit_operations_syntax

text \<open>
  \<open>packages/auth-core/src/sha256.ts\<close>: the synchronous SHA-256 under the contract digests, and that it computes the
  function of FIPS 180-4. The code works on JavaScript numbers. Here these are integers; a bitwise operator takes its
  operands modulo \<open>2 ^ 32\<close> and answers a signed number, \<open>>>>\<close> an unsigned one, and an element of a \<open>Uint32Array\<close> is stored
  modulo \<open>2 ^ 32\<close>. The sums of the code have at most five terms below \<open>2 ^ 32\<close>, so they are exact in a double. The
  standard's function is stated on 32-bit words.
\<close>

subsection \<open>Number operators\<close>

abbreviation w32 :: "int \<Rightarrow> 32 word" where "w32 \<equiv> word_of_int"

definition js_or :: "int \<Rightarrow> int \<Rightarrow> int" where "js_or a b = sint (w32 a OR w32 b)"
definition js_xor :: "int \<Rightarrow> int \<Rightarrow> int" where "js_xor a b = sint (w32 a XOR w32 b)"
definition js_and :: "int \<Rightarrow> int \<Rightarrow> int" where "js_and a b = sint (w32 a AND w32 b)"
definition js_not :: "int \<Rightarrow> int" where "js_not a = sint (NOT (w32 a))"
definition js_shl :: "int \<Rightarrow> nat \<Rightarrow> int" where "js_shl a n = sint (push_bit n (w32 a))"
definition js_shr :: "int \<Rightarrow> nat \<Rightarrow> int" where "js_shr a n = uint (drop_bit n (w32 a))"

text \<open>\<open>v >>> 0\<close>, and what a \<open>Uint32Array\<close> stores.\<close>

definition toUint32 :: "int \<Rightarrow> int" where "toUint32 v = js_shr v 0"

text \<open>\<open>array[i] ?? 0\<close>.\<close>

definition at :: "int list \<Rightarrow> nat \<Rightarrow> int" where
  "at xs i = (if i < length xs then xs ! i else 0)"

subsection \<open>The code\<close>

definition ROUND_CONSTANTS :: "int list" where
  "ROUND_CONSTANTS = concat
    [[0x428a2f98, 0x71374491, 0xb5c0fbcf, 0xe9b5dba5, 0x3956c25b, 0x59f111f1, 0x923f82a4, 0xab1c5ed5],
     [0xd807aa98, 0x12835b01, 0x243185be, 0x550c7dc3, 0x72be5d74, 0x80deb1fe, 0x9bdc06a7, 0xc19bf174],
     [0xe49b69c1, 0xefbe4786, 0x0fc19dc6, 0x240ca1cc, 0x2de92c6f, 0x4a7484aa, 0x5cb0a9dc, 0x76f988da],
     [0x983e5152, 0xa831c66d, 0xb00327c8, 0xbf597fc7, 0xc6e00bf3, 0xd5a79147, 0x06ca6351, 0x14292967],
     [0x27b70a85, 0x2e1b2138, 0x4d2c6dfc, 0x53380d13, 0x650a7354, 0x766a0abb, 0x81c2c92e, 0x92722c85],
     [0xa2bfe8a1, 0xa81a664b, 0xc24b8b70, 0xc76c51a3, 0xd192e819, 0xd6990624, 0xf40e3585, 0x106aa070],
     [0x19a4c116, 0x1e376c08, 0x2748774c, 0x34b0bcb5, 0x391c0cb3, 0x4ed8aa4a, 0x5b9cca4f, 0x682e6ff3],
     [0x748f82ee, 0x78a5636f, 0x84c87814, 0x8cc70208, 0x90befffa, 0xa4506ceb, 0xbef9a3f7, 0xc67178f2]]"

definition INITIAL_HASH :: "int list" where
  "INITIAL_HASH = [0x6a09e667, 0xbb67ae85, 0x3c6ef372, 0xa54ff53a, 0x510e527f, 0x9b05688c, 0x1f83d9ab, 0x5be0cd19]"

definition rotateRight :: "int \<Rightarrow> nat \<Rightarrow> int" where
  "rotateRight v bits = js_or (js_shr v bits) (js_shl v (32 - bits))"

text \<open>\<open>TextEncoder\<close> on code units below 256.\<close>

definition encode_unit :: "char \<Rightarrow> int list" where
  "encode_unit c = (let n = of_char c :: int in if n < 128 then [n] else [192 + n div 64, 128 + n mod 64])"

definition utf8_bytes :: "string \<Rightarrow> int list" where
  "utf8_bytes text = concat (map encode_unit text)"

text \<open>A \<open>DataView\<close> reads and writes four bytes, the highest first.\<close>

definition setUint32 :: "int list \<Rightarrow> nat \<Rightarrow> int \<Rightarrow> int list" where
  "setUint32 p i v =
     p[i := (v div 2 ^ 24) mod 256, i + 1 := (v div 2 ^ 16) mod 256, i + 2 := (v div 2 ^ 8) mod 256, i + 3 := v mod 256]"

definition getUint32 :: "int list \<Rightarrow> nat \<Rightarrow> int" where
  "getUint32 p i = at p i * 2 ^ 24 + at p (i + 1) * 2 ^ 16 + at p (i + 2) * 2 ^ 8 + at p (i + 3)"

definition padded :: "int list \<Rightarrow> int list" where
  "padded bytes =
     (let size = ((length bytes + 9 + 63) div 64) * 64;
          p0 = (bytes @ replicate (size - length bytes) 0)[length bytes := 0x80];
          bitLength = int (length bytes) * 8 in
      setUint32 (setUint32 p0 (size - 8) (bitLength div 0x100000000)) (size - 4) (toUint32 bitLength))"

definition load_word :: "int list \<Rightarrow> nat \<Rightarrow> nat \<Rightarrow> int list \<Rightarrow> int list" where
  "load_word p offset i schedule = schedule[i := toUint32 (getUint32 p (offset + i * 4))]"

definition extend_word :: "nat \<Rightarrow> int list \<Rightarrow> int list" where
  "extend_word i schedule =
     (let early = at schedule (i - 15); late = at schedule (i - 2);
          sigma0 = js_xor (js_xor (rotateRight early 7) (rotateRight early 18)) (js_shr early 3);
          sigma1 = js_xor (js_xor (rotateRight late 17) (rotateRight late 19)) (js_shr late 10) in
      schedule[i := toUint32 (at schedule (i - 16) + sigma0 + at schedule (i - 7) + sigma1)])"

definition schedule_of :: "int list \<Rightarrow> nat \<Rightarrow> int list \<Rightarrow> int list" where
  "schedule_of p offset schedule = fold extend_word [16..<64] (fold (load_word p offset) [0..<16] schedule)"

record js_vars =
  va :: int
  vb :: int
  vc :: int
  vd :: int
  ve :: int
  vf :: int
  vg :: int
  vh :: int

definition js_round :: "int list \<Rightarrow> nat \<Rightarrow> js_vars \<Rightarrow> js_vars" where
  "js_round schedule i v =
     (let sum1 = js_xor (js_xor (rotateRight (ve v) 6) (rotateRight (ve v) 11)) (rotateRight (ve v) 25);
          choice = js_xor (js_and (ve v) (vf v)) (js_and (js_not (ve v)) (vg v));
          first = toUint32 (vh v + sum1 + choice + at ROUND_CONSTANTS i + at schedule i);
          sum0 = js_xor (js_xor (rotateRight (va v) 2) (rotateRight (va v) 13)) (rotateRight (va v) 22);
          majority = js_xor (js_xor (js_and (va v) (vb v)) (js_and (va v) (vc v))) (js_and (vb v) (vc v));
          second = toUint32 (sum0 + majority) in
      \<lparr>va = toUint32 (first + second), vb = va v, vc = vb v, vd = vc v,
       ve = toUint32 (vd v + first), vf = ve v, vg = vf v, vh = vg v\<rparr>)"

definition js_block :: "int list \<Rightarrow> nat \<Rightarrow> int list \<times> int list \<Rightarrow> int list \<times> int list" where
  "js_block p offset st =
     (let (hash, schedule0) = st; schedule = schedule_of p offset schedule0;
          v = fold (js_round schedule) [0..<64] \<lparr>va = at hash 0, vb = at hash 1, vc = at hash 2, vd = at hash 3,
                ve = at hash 4, vf = at hash 5, vg = at hash 6, vh = at hash 7\<rparr>;
          round = [va v, vb v, vc v, vd v, ve v, vf v, vg v, vh v] in
      (fold (\<lambda>i h. h[i := toUint32 (at h i + round ! i)]) [0..<8] hash, schedule))"

text \<open>The hex digits of \<open>toString(16)\<close>, padded to eight.\<close>

fun toString16 :: "nat \<Rightarrow> string" where
  "toString16 n = (if n < 16 then [hex_char n] else toString16 (n div 16) @ [hex_char (n mod 16)])"

declare toString16.simps [simp del]

definition padStart8 :: "string \<Rightarrow> string" where
  "padStart8 s = replicate (8 - length s) (CHR ''0'') @ s"

definition sha256Hex :: "string \<Rightarrow> string" where
  "sha256Hex text =
     (let p = padded (utf8_bytes text);
          (hash, _) = fold (js_block p) (map (\<lambda>i. i * 64) [0..<length p div 64]) (INITIAL_HASH, replicate 64 0) in
      concat (map (\<lambda>w. padStart8 (toString16 (nat w))) hash))"

end
