(* ===== verification/Sha256_Fips.thy ===== *)
theory Sha256_Fips
  imports Sha256
begin

text \<open>
  The function of FIPS 180-4 on 32-bit words, and that \<open>sha256Hex\<close> computes it: the loops over typed arrays and
  JavaScript numbers are related to the standard's equations through \<^term>\<open>w32\<close>.
\<close>

subsection \<open>The standard\<close>

definition fips_Ch :: "32 word \<Rightarrow> 32 word \<Rightarrow> 32 word \<Rightarrow> 32 word" where
  "fips_Ch x y z = (x AND y) XOR (NOT x AND z)"

definition fips_Maj :: "32 word \<Rightarrow> 32 word \<Rightarrow> 32 word \<Rightarrow> 32 word" where
  "fips_Maj x y z = (x AND y) XOR (x AND z) XOR (y AND z)"

definition fips_Sum0 :: "32 word \<Rightarrow> 32 word" where
  "fips_Sum0 x = word_rotr 2 x XOR word_rotr 13 x XOR word_rotr 22 x"

definition fips_Sum1 :: "32 word \<Rightarrow> 32 word" where
  "fips_Sum1 x = word_rotr 6 x XOR word_rotr 11 x XOR word_rotr 25 x"

definition fips_sigma0 :: "32 word \<Rightarrow> 32 word" where
  "fips_sigma0 x = word_rotr 7 x XOR word_rotr 18 x XOR drop_bit 3 x"

definition fips_sigma1 :: "32 word \<Rightarrow> 32 word" where
  "fips_sigma1 x = word_rotr 17 x XOR word_rotr 19 x XOR drop_bit 10 x"

text \<open>The message schedule of a block \<open>M\<close> of sixteen words.\<close>

fun fips_W :: "(nat \<Rightarrow> 32 word) \<Rightarrow> nat \<Rightarrow> 32 word" where
  "fips_W M t =
     (if t < 16 then M t
      else fips_sigma1 (fips_W M (t - 2)) + fips_W M (t - 7) + fips_sigma0 (fips_W M (t - 15)) + fips_W M (t - 16))"

declare fips_W.simps [simp del]

type_synonym fips_vars = "32 word \<times> 32 word \<times> 32 word \<times> 32 word \<times> 32 word \<times> 32 word \<times> 32 word \<times> 32 word"

definition fips_round :: "(nat \<Rightarrow> 32 word) \<Rightarrow> nat \<Rightarrow> fips_vars \<Rightarrow> fips_vars" where
  "fips_round W t v =
     (case v of (a, b, c, d, e, f, g, h) \<Rightarrow>
        let T1 = h + fips_Sum1 e + fips_Ch e f g + w32 (ROUND_CONSTANTS ! t) + W t;
            T2 = fips_Sum0 a + fips_Maj a b c in
        (T1 + T2, a, b, c, d + T1, e, f, g))"

definition fips_block :: "(nat \<Rightarrow> 32 word) \<Rightarrow> 32 word list \<Rightarrow> 32 word list" where
  "fips_block M H =
     (case fold (fips_round (fips_W M)) [0..<64] (H ! 0, H ! 1, H ! 2, H ! 3, H ! 4, H ! 5, H ! 6, H ! 7) of
        (a, b, c, d, e, f, g, h) \<Rightarrow>
          [H ! 0 + a, H ! 1 + b, H ! 2 + c, H ! 3 + d, H ! 4 + e, H ! 5 + f, H ! 6 + g, H ! 7 + h])"

text \<open>The padding, on whole bytes: a one bit, zeros up to 56 bytes modulo 64, and the length in bits as eight bytes.\<close>

definition fips_pad :: "int list \<Rightarrow> int list" where
  "fips_pad bytes =
     bytes @ [128] @ replicate (nat ((55 - int (length bytes)) mod 64)) 0 @
     map (\<lambda>i. int (length bytes) * 8 div 256 ^ (7 - i) mod 256) [0..<8]"

text \<open>Word \<open>i\<close> of block \<open>n\<close>.\<close>

definition fips_word :: "int list \<Rightarrow> nat \<Rightarrow> nat \<Rightarrow> 32 word" where
  "fips_word p n i = w32 (foldl (\<lambda>v b. v * 256 + b) 0 (take 4 (drop (64 * n + 4 * i) p)))"

definition fips_sha256 :: "int list \<Rightarrow> 32 word list" where
  "fips_sha256 bytes =
     (let p = fips_pad bytes in fold (\<lambda>n. fips_block (fips_word p n)) [0..<length p div 64] (map w32 INITIAL_HASH))"

definition fips_hex :: "32 word \<Rightarrow> string" where
  "fips_hex w = map (\<lambda>i. hex_char (unat (drop_bit (28 - 4 * i) w) mod 16)) [0..<8]"

subsection \<open>Numbers as words\<close>

lemma w32_ops [simp]:
  "w32 (js_or a b) = w32 a OR w32 b"
  "w32 (js_xor a b) = w32 a XOR w32 b"
  "w32 (js_and a b) = w32 a AND w32 b"
  "w32 (js_not a) = NOT (w32 a)"
  "w32 (js_shl a n) = push_bit n (w32 a)"
  "w32 (js_shr a n) = drop_bit n (w32 a)"
  "w32 (toUint32 a) = w32 a"
  by (simp_all add: js_or_def js_xor_def js_and_def js_not_def js_shl_def js_shr_def toUint32_def)

lemma rotr_split: "0 < n \<Longrightarrow> n < 32 \<Longrightarrow> word_rotr n (x :: 32 word) = drop_bit n x OR push_bit (32 - n) x"
proof (rule bit_word_eqI)
  fix m
  assume n: "0 < n" "n < 32" and m: "m < LENGTH(32)"
  have out: "\<not> bit x (n + m)" if "32 \<le> n + m" using that bit_imp_le_length [of x "n + m"] by auto
  have "(m + n) mod 32 = (if m + n < 32 then m + n else m + n - 32)" using n m by (simp add: mod_if)
  then show "bit (word_rotr n x) m = bit (drop_bit n x OR push_bit (32 - n) x) m"
    using n m out by (cases "m + n < 32") (auto simp: bit_word_rotr_iff bit_or_iff bit_drop_bit_eq bit_push_bit_iff add.commute)
qed

lemma w32_rotateRight [simp]: "0 < n \<Longrightarrow> n < 32 \<Longrightarrow> w32 (rotateRight v n) = word_rotr n (w32 v)"
  by (simp add: rotateRight_def rotr_split)

subsection \<open>The message schedule\<close>

lemma at_update: "at (xs[i := v]) j = (if j = i \<and> i < length xs then v else at xs j)"
  by (simp add: at_def)

lemma extend_word:
  assumes "length s = 64" and "16 \<le> t" and "t < 64" and "\<And>u. u < t \<Longrightarrow> w32 (at s u) = fips_W M u"
  shows "length (extend_word t s) = 64 \<and> (\<forall>u < Suc t. w32 (at (extend_word t s) u) = fips_W M u)"
proof -
  have "w32 (at (extend_word t s) t) = fips_W M t"
    using assms by (subst fips_W.simps) (simp add: extend_word_def Let_def at_update fips_sigma0_def fips_sigma1_def ac_simps xor.assoc)
  moreover have "at (extend_word t s) u = at s u" if "u \<noteq> t" for u
    using that by (simp add: extend_word_def Let_def at_update)
  ultimately show ?thesis using assms by (auto simp: less_Suc_eq extend_word_def Let_def)
qed

lemma extend_words:
  assumes "length s = 64" and "\<And>u. u < 16 \<Longrightarrow> w32 (at s u) = fips_W M u"
  shows "16 \<le> n \<Longrightarrow> n \<le> 64 \<Longrightarrow> length (fold extend_word [16..<n] s) = 64 \<and> (\<forall>u < n. w32 (at (fold extend_word [16..<n] s) u) = fips_W M u)"
proof (induction n rule: nat_induct_at_least)
  case base
  then show ?case using assms by simp
next
  case (Suc n)
  then show ?case using extend_word [of "fold extend_word [16..<n] s" n M] by simp
qed

lemma load_words:
  "n \<le> 16 \<Longrightarrow> length s = 64 \<Longrightarrow> length (fold (load_word p offset) [0..<n] s) = 64 \<and>
   (\<forall>u < n. w32 (at (fold (load_word p offset) [0..<n] s) u) = w32 (getUint32 p (offset + u * 4)))"
  by (induction n) (auto simp: load_word_def at_update less_Suc_eq)

lemma take_four: "k + 4 \<le> length p \<Longrightarrow> take 4 (drop k p) = [p ! k, p ! (k + 1), p ! (k + 2), p ! (k + 3)]"
  by (simp add: Cons_nth_drop_Suc [symmetric] eval_nat_numeral)

lemma fips_word_get:
  assumes "64 * n + 4 * i + 4 \<le> length p"
  shows "fips_word p n i = w32 (getUint32 p (n * 64 + i * 4))"
  using assms take_four [of "64 * n + 4 * i" p] by (simp add: fips_word_def getUint32_def at_def algebra_simps)

lemma schedule_fips:
  assumes "length s = 64" and "64 * n + 64 \<le> length p"
  shows "length (schedule_of p (n * 64) s) = 64 \<and> (\<forall>t < 64. w32 (at (schedule_of p (n * 64) s) t) = fips_W (fips_word p n) t)"
proof -
  let ?s = "fold (load_word p (n * 64)) [0..<16] s"
  have "w32 (at ?s u) = fips_W (fips_word p n) u" if "u < 16" for u
    using that load_words [of 16 s p "n * 64"] assms fips_word_get [of n u p] by (simp add: fips_W.simps)
  with load_words [of 16 s p "n * 64"] assms(1) show ?thesis
    using extend_words [of ?s "fips_word p n" 64] unfolding schedule_of_def by simp
qed

subsection \<open>The compression\<close>

definition vars_of :: "js_vars \<Rightarrow> fips_vars" where
  "vars_of v = (w32 (va v), w32 (vb v), w32 (vc v), w32 (vd v), w32 (ve v), w32 (vf v), w32 (vg v), w32 (vh v))"

lemma length_constants [simp]: "length ROUND_CONSTANTS = 64"
  by (simp add: ROUND_CONSTANTS_def)

lemma round_fips: "t < 64 \<Longrightarrow> w32 (at s t) = W t \<Longrightarrow> vars_of (js_round s t v) = fips_round W t (vars_of v)"
  by (simp add: js_round_def fips_round_def vars_of_def Let_def at_def [of ROUND_CONSTANTS] fips_Sum0_def fips_Sum1_def fips_Ch_def
      fips_Maj_def xor.assoc)

lemma rounds_fips:
  "(\<And>t. t \<in> set ts \<Longrightarrow> t < 64 \<and> w32 (at s t) = W t) \<Longrightarrow>
   vars_of (fold (js_round s) ts v) = fold (fips_round W) ts (vars_of v)"
  by (induction ts arbitrary: v) (simp_all add: round_fips)

text \<open>Eight numbers, each as a \<open>Uint32Array\<close> stores it.\<close>

definition stored8 :: "int list \<Rightarrow> bool" where
  "stored8 h \<longleftrightarrow> length h = 8 \<and> list_all (\<lambda>x. toUint32 x = x) h"

lemma toUint32_idem [simp]: "toUint32 (toUint32 x) = toUint32 x"
  by (simp add: toUint32_def js_shr_def)

lemma length8: "length xs = 8 \<longleftrightarrow> (\<exists>a b c d e f g h. xs = [a, b, c, d, e, f, g, h])"
  by (auto simp: numeral_eq_Suc length_Suc_conv)

lemma upt8: "[0..<8] = [0, 1, 2, 3, 4, 5, 6, 7]"
  by (simp add: upt_rec numeral_eq_Suc)

lemma add_round:
  "fold (\<lambda>i h. h[i := toUint32 (at h i + [a, b, c, d, e, f, g, k] ! i)]) [0..<8] [h0, h1, h2, h3, h4, h5, h6, h7] =
   [toUint32 (h0 + a), toUint32 (h1 + b), toUint32 (h2 + c), toUint32 (h3 + d), toUint32 (h4 + e), toUint32 (h5 + f),
    toUint32 (h6 + g), toUint32 (h7 + k)]"
  unfolding upt8 by (simp add: at_def)

lemma block_fips:
  assumes "stored8 h" and "length s = 64" and "64 * n + 64 \<le> length p" and "js_block p (n * 64) (h, s) = (h', s')"
  shows "stored8 h' \<and> length s' = 64 \<and> map w32 h' = fips_block (fips_word p n) (map w32 h)"
proof -
  from assms(1) obtain h0 h1 h2 h3 h4 h5 h6 h7 where h: "h = [h0, h1, h2, h3, h4, h5, h6, h7]"
    by (auto simp: stored8_def length8)
  let ?s = "schedule_of p (n * 64) s"
  let ?v0 = "\<lparr>va = h0, vb = h1, vc = h2, vd = h3, ve = h4, vf = h5, vg = h6, vh = h7\<rparr>"
  define v where "v = fold (js_round ?s) [0..<64] ?v0"
  note sch = schedule_fips [OF assms(2,3)]
  have vars: "vars_of v = fold (fips_round (fips_W (fips_word p n))) [0..<64] (vars_of ?v0)"
    unfolding v_def using sch by (intro rounds_fips) auto
  have h': "h' = [toUint32 (h0 + va v), toUint32 (h1 + vb v), toUint32 (h2 + vc v), toUint32 (h3 + vd v),
      toUint32 (h4 + ve v), toUint32 (h5 + vf v), toUint32 (h6 + vg v), toUint32 (h7 + vh v)]" and "s' = ?s"
  proof -
    have at: "at h 0 = h0" "at h 1 = h1" "at h 2 = h2" "at h 3 = h3" "at h 4 = h4" "at h 5 = h5" "at h 6 = h6" "at h 7 = h7"
      by (simp_all add: h at_def)
    have "js_block p (n * 64) (h, s) =
        (fold (\<lambda>i h. h[i := toUint32 (at h i + [va v, vb v, vc v, vd v, ve v, vf v, vg v, vh v] ! i)]) [0..<8] h, ?s)"
      unfolding js_block_def v_def Let_def split_conv at by (rule refl)
    then show "h' = [toUint32 (h0 + va v), toUint32 (h1 + vb v), toUint32 (h2 + vc v), toUint32 (h3 + vd v),
      toUint32 (h4 + ve v), toUint32 (h5 + vf v), toUint32 (h6 + vg v), toUint32 (h7 + vh v)]" and "s' = ?s"
      using assms(4) unfolding h add_round by simp_all
  qed
  have "fold (fips_round (fips_W (fips_word p n))) [0..<64] (w32 h0, w32 h1, w32 h2, w32 h3, w32 h4, w32 h5, w32 h6, w32 h7) =
      (w32 (va v), w32 (vb v), w32 (vc v), w32 (vd v), w32 (ve v), w32 (vf v), w32 (vg v), w32 (vh v))"
    using vars by (simp add: vars_of_def)
  then have "fips_block (fips_word p n) (map w32 h) = map w32 h'" unfolding h h' fips_block_def by simp
  then show ?thesis using sch \<open>s' = ?s\<close> by (simp add: stored8_def h')
qed

lemma blocks_fips:
  assumes "\<And>n. n \<in> set ns \<Longrightarrow> 64 * n + 64 \<le> length p"
  shows "stored8 h \<Longrightarrow> length s = 64 \<Longrightarrow> fold (js_block p) (map (\<lambda>i. i * 64) ns) (h, s) = (h', s') \<Longrightarrow>
    stored8 h' \<and> map w32 h' = fold (\<lambda>n. fips_block (fips_word p n)) ns (map w32 h)"
  using assms
proof (induction ns arbitrary: h s)
  case (Cons n ns)
  obtain h1 s1 where b: "js_block p (n * 64) (h, s) = (h1, s1)" by (cases "js_block p (n * 64) (h, s)")
  then have "stored8 h1 \<and> length s1 = 64 \<and> map w32 h1 = fips_block (fips_word p n) (map w32 h)"
    using block_fips [OF Cons.prems(1,2) _ b] Cons.prems(4) by simp
  moreover have "fold (js_block p) (map (\<lambda>i. i * 64) ns) (h1, s1) = (h', s')" using Cons.prems(3) b by simp
  ultimately show ?case using Cons.IH [of h1 s1] Cons.prems(4) by simp
qed simp

subsection \<open>The padding\<close>

lemma set_words:
  "setUint32 (setUint32 (pre @ replicate 8 0) (length pre) hi) (length pre + 4) lo =
   pre @ [hi div 2 ^ 24 mod 256, hi div 2 ^ 16 mod 256, hi div 2 ^ 8 mod 256, hi mod 256,
          lo div 2 ^ 24 mod 256, lo div 2 ^ 16 mod 256, lo div 2 ^ 8 mod 256, lo mod 256]"
  by (simp add: setUint32_def list_update_append numeral_eq_Suc)

lemma mod_div_mod: "0 < b \<Longrightarrow> 0 \<le> d \<Longrightarrow> (a :: int) mod (b * (256 * d)) div b mod 256 = a div b mod 256"
  by (subst zmod_zmult2_eq) (simp_all add: mod_mod_cancel)

lemma toUint32_mod: "toUint32 v = v mod 2 ^ 32"
  by (simp add: toUint32_def js_shr_def take_bit_eq_mod unsigned_of_int)

lemma low_bytes:
  fixes v :: int
  shows "v mod 2 ^ 32 div 2 ^ 24 mod 256 = v div 2 ^ 24 mod 256"
    "v mod 2 ^ 32 div 2 ^ 16 mod 256 = v div 2 ^ 16 mod 256"
    "v mod 2 ^ 32 div 2 ^ 8 mod 256 = v div 2 ^ 8 mod 256"
    "v mod 2 ^ 32 mod 256 = v mod 256"
proof -
  have e: "(2 :: int) ^ 32 = 2 ^ 24 * (256 * 1)" "(2 :: int) ^ 32 = 2 ^ 16 * (256 * 2 ^ 8)" "(2 :: int) ^ 32 = 2 ^ 8 * (256 * 2 ^ 16)"
    by simp_all
  show "v mod 2 ^ 32 div 2 ^ 24 mod 256 = v div 2 ^ 24 mod 256" unfolding e(1) by (rule mod_div_mod) simp_all
  show "v mod 2 ^ 32 div 2 ^ 16 mod 256 = v div 2 ^ 16 mod 256" unfolding e(2) by (rule mod_div_mod) simp_all
  show "v mod 2 ^ 32 div 2 ^ 8 mod 256 = v div 2 ^ 8 mod 256" unfolding e(3) by (rule mod_div_mod) simp_all
  show "v mod 2 ^ 32 mod 256 = v mod 256" by (rule mod_mod_cancel) simp
qed

lemma pad_size:
  fixes n :: nat
  defines "z \<equiv> nat ((55 - int n) mod 64)"
  shows "(n + 9 + 63) div 64 * 64 = n + 1 + z + 8"
proof -
  define q r where "q = n div 64" and "r = n mod 64"
  then have n: "n = 64 * q + r" and r: "r < 64" by simp_all
  have "55 - int n = 55 - int r + 64 * (- int q)" by (simp add: n)
  then have m: "(55 - int n) mod 64 = (55 - int r) mod 64" by (simp only: mod_mult_self2)
  show ?thesis
  proof (cases "r \<le> 55")
    case True
    have "(55 - int n) mod 64 = 55 - int r" unfolding m using True by (intro mod_pos_pos_trivial) simp_all
    moreover have "(n + 9 + 63) div 64 = q + 1" using True by (simp add: n)
    ultimately show ?thesis using True by (simp add: z_def n)
  next
    case False
    have "119 - int r = 55 - int r + 64 * 1" by simp
    then have "(119 - int r) mod 64 = (55 - int r) mod 64" by (simp only: mod_mult_self2)
    moreover have "(119 - int r) mod 64 = 119 - int r" using False r by (intro mod_pos_pos_trivial) simp_all
    ultimately have "(55 - int n) mod 64 = 119 - int r" using m by simp
    moreover have "(n + 9 + 63) div 64 = q + 2" using r False by (simp add: n)
    ultimately show ?thesis using False r by (simp add: z_def n)
  qed
qed

lemma padded_fips: "padded bytes = fips_pad bytes"
proof -
  let ?n = "length bytes"
  define z where "z = nat ((55 - int ?n) mod 64)"
  have size: "(?n + 9 + 63) div 64 * 64 = ?n + 1 + z + 8" unfolding z_def by (rule pad_size)
  let ?pre = "bytes @ 128 # replicate z 0"
  have "(bytes @ replicate (Suc k) 0)[?n := 128] = bytes @ 128 # replicate k (0 :: int)" for k
    by (simp add: list_update_append)
  from this [of "z + 8"] have first: "(bytes @ replicate (Suc (z + 8)) 0)[?n := 128] = ?pre @ replicate 8 (0 :: int)"
    unfolding replicate_add by simp
  have "padded bytes = setUint32 (setUint32 (?pre @ replicate 8 0) (length ?pre) (int ?n * 8 div 0x100000000)) (length ?pre + 4) (toUint32 (int ?n * 8))"
    unfolding padded_def Let_def size using first by simp
  then show ?thesis
    unfolding set_words fips_pad_def upt8 toUint32_mod low_bytes
    by (simp add: z_def zdiv_zmult2_eq [symmetric])
qed

lemma fips_pad_blocks: "length (fips_pad bytes) mod 64 = 0"
proof -
  have "length (fips_pad bytes) = (length bytes + 9 + 63) div 64 * 64"
    unfolding pad_size fips_pad_def by simp
  then show ?thesis by simp
qed

subsection \<open>The digits\<close>

lemma hex_digits:
  "n < 16 ^ Suc k \<Longrightarrow> replicate (Suc k - length (toString16 n)) (CHR ''0'') @ toString16 n =
   map (\<lambda>i. hex_char (n div 16 ^ (k - i) mod 16)) [0..<Suc k]"
proof (induction k arbitrary: n)
  case 0
  then show ?case by (simp add: toString16.simps)
next
  case (Suc k)
  have div: "n div 16 < 16 ^ Suc k" using Suc.prems by (simp add: less_mult_imp_div_less mult.commute)
  have ds: "map (\<lambda>i. hex_char (n div 16 ^ (Suc k - i) mod 16)) [0..<Suc (Suc k)] =
      map (\<lambda>i. hex_char (n div 16 div 16 ^ (k - i) mod 16)) [0..<Suc k] @ [hex_char (n mod 16)]"
    by (auto simp: Suc_diff_le div_mult2_eq)
  show ?case
  proof (cases "n < 16")
    case True
    then have "replicate (Suc k) (CHR ''0'') = map (\<lambda>i. hex_char (n div 16 div 16 ^ (k - i) mod 16)) [0..<Suc k]"
      by (intro nth_equalityI) (simp_all add: hex_char_def del: upt_Suc replicate_Suc)
    then show ?thesis using True unfolding ds by (simp add: toString16.simps)
  next
    case False
    then have "toString16 n = toString16 (n div 16) @ [hex_char (n mod 16)]" by (subst toString16.simps) simp
    then show ?thesis using Suc.IH [OF div] unfolding ds by simp
  qed
qed

lemma word_digits: "padStart8 (toString16 (unat w)) = fips_hex w"
proof -
  have "unat w < 16 ^ Suc 7" using unsigned_less [of w] by simp
  from hex_digits [OF this] have "padStart8 (toString16 (unat w)) = map (\<lambda>i. hex_char (unat w div 16 ^ (7 - i) mod 16)) [0..<8]"
    by (simp add: padStart8_def)
  also have "\<dots> = fips_hex w" unfolding fips_hex_def unat_drop_bit_eq by (simp add: upt8 drop_bit_eq_div)
  finally show ?thesis .
qed

lemma stored_digits: "toUint32 x = x \<Longrightarrow> padStart8 (toString16 (nat x)) = fips_hex (w32 x)"
  by (metis word_digits unat_eq_nat_uint toUint32_def js_shr_def drop_bit_0 id_apply)

lemma sha256Hex_words: "sha256Hex text = concat (map fips_hex (fips_sha256 (utf8_bytes text)))"
proof -
  let ?p = "fips_pad (utf8_bytes text)"
  let ?ns = "[0..<length ?p div 64]"
  obtain h s where f: "fold (js_block ?p) (map (\<lambda>i. i * 64) ?ns) (INITIAL_HASH, replicate 64 0) = (h, s)"
    by (cases "fold (js_block ?p) (map (\<lambda>i. i * 64) ?ns) (INITIAL_HASH, replicate 64 0)")
  have "64 * n + 64 \<le> length ?p" if "n \<in> set ?ns" for n
  proof -
    have "Suc n * 64 \<le> length ?p div 64 * 64" using that by (intro mult_le_mono1) simp
    then show ?thesis using div_times_less_eq_dividend [of "length ?p" 64] by simp
  qed
  moreover have "stored8 INITIAL_HASH" by (simp add: stored8_def INITIAL_HASH_def toUint32_mod)
  ultimately have h: "stored8 h" "map w32 h = fips_sha256 (utf8_bytes text)"
    using blocks_fips [of ?ns ?p INITIAL_HASH "replicate 64 0" h s] f by (auto simp: fips_sha256_def Let_def)
  have "map (\<lambda>w. padStart8 (toString16 (nat w))) h = map fips_hex (map w32 h)"
    using h(1) by (simp add: stored8_def list_all_iff stored_digits)
  then show ?thesis by (simp add: sha256Hex_def padded_fips Let_def f h(2))
qed

lemma length_fips_block [simp]: "length (fips_block M H) = 8"
  by (simp add: fips_block_def split: prod.split)

lemma length_fips_sha256: "length (fips_sha256 bytes) = 8"
proof -
  have "length H = 8 \<Longrightarrow> length (fold (\<lambda>n. fips_block (fips_word p n)) ns H) = 8" for p ns H
    by (induction ns arbitrary: H) simp_all
  then show ?thesis by (simp add: fips_sha256_def Let_def INITIAL_HASH_def)
qed

text \<open>So the text is 64 lower-case hex digits.\<close>

definition lower_hex :: "char \<Rightarrow> bool" where
  "lower_hex c \<longleftrightarrow> is_digit c \<or> c \<in> set ''abcdef''"

lemma hex_char_lower: "n < 16 \<Longrightarrow> lower_hex (hex_char n)"
proof -
  have "list_all (\<lambda>n. lower_hex (hex_char n)) [0..<16]" by code_simp
  then show "n < 16 \<Longrightarrow> lower_hex (hex_char n)" by (simp add: list_all_iff)
qed

lemma sha256Hex_form: "length (sha256Hex text) = 64 \<and> list_all lower_hex (sha256Hex text)"
proof -
  have len: "length (concat (map fips_hex ws)) = 8 * length ws" for ws by (induction ws) (simp_all add: fips_hex_def)
  have "list_all lower_hex (fips_hex w)" for w by (simp add: fips_hex_def list_all_iff hex_char_lower)
  then have "list_all lower_hex (concat (map fips_hex ws))" for ws by (induction ws) simp_all
  then show ?thesis unfolding sha256Hex_words using len by (simp add: length_fips_sha256)
qed


end
