(* ===== verification/Web_Url.thy ===== *)
theory Web_Url
  imports Prelude
begin

text \<open>
  Parsed URLs and the text predicates over URLs of \<open>packages/auth-core/src/oauth.ts\<close>. Parsing itself,
  \<open>new URL(text)\<close>, is the runtime's WHATWG parser: definitions that call it take it as a parameter
  \<open>parseUrl\<close>, which answers \<^term>\<open>None\<close> where the constructor throws.
\<close>

record url =
  protocol :: string
  hostname :: string
  port :: string
  pathname :: string
  search :: string

type_synonym url_parser = "string \<Rightarrow> url option"

text \<open>\<open>url.host\<close> and \<open>url.origin\<close> of the special schemes.\<close>

definition url_host :: "url \<Rightarrow> string" where
  "url_host u = (if port u = [] then hostname u else hostname u @ '':'' @ port u)"

definition url_origin :: "url \<Rightarrow> string" where
  "url_origin u = protocol u @ ''//'' @ url_host u"

text \<open>Cut a text at the first occurrence of a separator: what precedes it, and what follows it
  when it occurs.\<close>

fun breakOn :: "string \<Rightarrow> string \<Rightarrow> string \<times> string option" where
  "breakOn sep [] = ([], if sep = [] then Some [] else None)"
| "breakOn sep (c # cs) =
     (if startsWith (c # cs) sep then ([], Some (drop (length sep) (c # cs)))
      else (case breakOn sep cs of (a, b) \<Rightarrow> (c # a, b)))"

definition uri_stop :: "char \<Rightarrow> bool" where
  "uri_stop c \<longleftrightarrow> c = CHR ''/'' \<or> c = CHR ''?'' \<or> c = CHR ''#''"

subsection \<open>URI text\<close>

fun escapes_ok :: "string \<Rightarrow> bool" where
  "escapes_ok [] = True"
| "escapes_ok (c # cs) =
     ((c = CHR ''%'' \<longrightarrow> (case cs of a # b # _ \<Rightarrow> hex_val a \<noteq> None \<and> hex_val b \<noteq> None | _ \<Rightarrow> False))
      \<and> escapes_ok cs)"

definition uri_forbidden :: "char \<Rightarrow> bool" where
  "uri_forbidden c \<longleftrightarrow> js_space c \<or> c \<in> set [CHR 0x5C, CHR ''<'', CHR ''>'', CHR 0x22, CHR ''{'', CHR ''}'',
     CHR ''|'', CHR ''^'', CHR 0x60]"

text \<open>The last test of \<open>isUriText\<close>: a case-insensitive \<open>http://\<close> or \<open>https://\<close> and then a non-empty
  authority.\<close>

definition http_authority :: "string \<Rightarrow> bool" where
  "http_authority value =
     (let l = lower value;
          rest = (if startsWith l ''http://'' then Some (drop 7 value)
                  else if startsWith l ''https://'' then Some (drop 8 value) else None)
      in case rest of None \<Rightarrow> False | Some r \<Rightarrow> r \<noteq> [] \<and> \<not> uri_stop (hd r))"

definition isUriText :: "string \<Rightarrow> bool" where
  "isUriText value \<longleftrightarrow>
     0 < length value \<and> length value \<le> 2048 \<and> \<not> list_ex uri_forbidden value \<and>
     escapes_ok value \<and> http_authority value"

definition uriAuthority :: "string \<Rightarrow> string" where
  "uriAuthority value =
     (case breakOn ''://'' value of
        (_, None) \<Rightarrow> []
      | (_, Some rest) \<Rightarrow> takeWhile (\<lambda>c. \<not> uri_stop c) (fst (breakOn ''://'' rest)))"

definition isOAuthResourceUri :: "url_parser \<Rightarrow> string \<Rightarrow> bool" where
  "isOAuthResourceUri parseUrl value =
     (isUriText value \<and>
      (case parseUrl value of
         None \<Rightarrow> False
       | Some u \<Rightarrow>
           (let h = hostname u;
                local = (h = ''localhost'' \<or> endsWith h ''.localhost'' \<or> h = ''127.0.0.1'' \<or> h = ''[::1]'')
            in (protocol u = ''https:'' \<or> (protocol u = ''http:'' \<and> local)) \<and>
               \<not> str_includes (uriAuthority value) ''@'' \<and> \<not> str_includes value ''#'')))"

fun decode_dots :: "string \<Rightarrow> string" where
  "decode_dots (a # b # c # cs) =
     (if a = CHR ''%'' \<and> b = CHR ''2'' \<and> (c = CHR ''e'' \<or> c = CHR ''E'')
      then CHR ''.'' # decode_dots cs else a # decode_dots (b # c # cs))"
| "decode_dots cs = cs"

definition is_dots :: "string \<Rightarrow> bool" where
  "is_dots s \<longleftrightarrow> s = ''.'' \<or> s = ''..''"

definition isCimdClientId :: "url_parser \<Rightarrow> string \<Rightarrow> bool" where
  "isCimdClientId parseUrl value =
     (if \<not> isUriText value \<or> str_includes value ''#'' \<or> str_includes (uriAuthority value) ''@'' then False
      else (case parseUrl value of
         None \<Rightarrow> False
       | Some u \<Rightarrow>
           (let after = (case breakOn ''://'' value of (_, Some r) \<Rightarrow> r | (_, None) \<Rightarrow> drop 2 value);
                authorityAndPath = takeWhile (\<lambda>c. c \<noteq> CHR ''?'' \<and> c \<noteq> CHR ''#'') after
            in (case indexOf (CHR ''/'') authorityAndPath of
                  None \<Rightarrow> False
                | Some pathStart \<Rightarrow>
                    protocol u = ''https:'' \<and>
                    \<not> list_ex is_dots (map decode_dots (splitOn (CHR ''/'') (drop pathStart authorityAndPath)))))))"

text \<open>RFC 6749 scope tokens: printable ASCII but the quotation mark and the backslash.\<close>

definition scope_char :: "char \<Rightarrow> bool" where
  "scope_char c \<longleftrightarrow> (let n = of_char c :: nat in n = 33 \<or> (35 \<le> n \<and> n \<le> 91) \<or> (93 \<le> n \<and> n \<le> 126))"

fun oauth_scopes_loop :: "string list \<Rightarrow> string list \<Rightarrow> string list option" where
  "oauth_scopes_loop [] scopes = Some scopes"
| "oauth_scopes_loop (item # items) scopes =
     (if length item = 0 \<or> length item > 200 \<or> \<not> list_all scope_char item \<or> item \<in> set scopes then None
      else oauth_scopes_loop items (scopes @ [item]))"

definition parseOAuthScopes :: "string list \<Rightarrow> string list option" where
  "parseOAuthScopes value =
     (if length value = 0 \<or> length value > 64 then None else oauth_scopes_loop value [])"

definition scope_token :: "string \<Rightarrow> bool" where
  "scope_token s \<longleftrightarrow> s \<noteq> [] \<and> length s \<le> 200 \<and> list_all scope_char s"

lemma oauth_scopes_loop_iff:
  "oauth_scopes_loop items acc = Some r \<longleftrightarrow>
     list_all scope_token items \<and> distinct items \<and> set items \<inter> set acc = {} \<and> r = acc @ items"
  by (induction items acc rule: oauth_scopes_loop.induct)
     (auto simp: scope_token_def)

lemma parseOAuthScopes_iff:
  "parseOAuthScopes items = Some r \<longleftrightarrow>
     r = items \<and> items \<noteq> [] \<and> length items \<le> 64 \<and> list_all scope_token items \<and> distinct items"
  by (auto simp: parseOAuthScopes_def oauth_scopes_loop_iff)

lemma scope_token_no_space: "scope_token s \<Longrightarrow> CHR '' '' \<notin> set s"
  by (auto simp: scope_token_def scope_char_def list_all_iff Let_def)

end
