(* ===== verification/Canonical_Path.thy ===== *)
theory Canonical_Path
  imports Web_Url
begin

text \<open>
  Request targets and canonical paths (\<open>packages/auth-core/src/canonical-path.ts\<close>). The matcher of the
  proxy and the router of the application read the same raw path only if no hop rewrites it; the
  check here refuses every form some hop would read differently.
\<close>

record request_target =
  rt_pathname :: string
  rt_search :: string

subsection \<open>Percent escapes\<close>

text \<open>\<open>/%2f|%5c/i\<close>.\<close>

fun ENCODED_SEPARATOR :: "string \<Rightarrow> bool" where
  "ENCODED_SEPARATOR (a # b # c # cs) =
     ((a = CHR ''%'' \<and> ((b = CHR ''2'' \<and> (c = CHR ''f'' \<or> c = CHR ''F'')) \<or>
                       (b = CHR ''5'' \<and> (c = CHR ''c'' \<or> c = CHR ''C''))))
      \<or> ENCODED_SEPARATOR (b # c # cs))"
| "ENCODED_SEPARATOR _ = False"

definition hex_octet :: "char \<Rightarrow> char \<Rightarrow> nat option" where
  "hex_octet a b = (case (hex_val a, hex_val b) of (Some x, Some y) \<Rightarrow> Some (16 * x + y) | _ \<Rightarrow> None)"

text \<open>\<open>n\<close> escapes in a row, as octets, and the text after them.\<close>

fun take_escapes :: "nat \<Rightarrow> string \<Rightarrow> (nat list \<times> string) option" where
  "take_escapes 0 s = Some ([], s)"
| "take_escapes (Suc n) (p # a # b # s) =
     (if p = CHR ''%'' then
        (case hex_octet a b of
           None \<Rightarrow> None
         | Some v \<Rightarrow> map_option (\<lambda>(vs, r). (v # vs, r)) (take_escapes n s))
      else None)"
| "take_escapes (Suc n) _ = None"

definition utf8_length :: "nat \<Rightarrow> nat option" where
  "utf8_length b = (if b < 128 then Some 1 else if b < 192 then None else if b < 224 then Some 2
     else if b < 240 then Some 3 else if b < 248 then Some 4 else None)"

definition utf8_valid :: "nat list \<Rightarrow> bool" where
  "utf8_valid os =
     (case os of
        [b] \<Rightarrow> b < 128
      | b # c # cs \<Rightarrow>
          list_all (\<lambda>k. 128 \<le> k \<and> k < 192) (c # cs) \<and>
          (if b < 224 then 194 \<le> b
           else if b = 224 then 160 \<le> c
           else if b = 237 then c < 160
           else if b < 240 then True
           else if b = 240 then 144 \<le> c
           else if b < 244 then True
           else b = 244 \<and> c < 144)
      | [] \<Rightarrow> False)"

lemma take_escapes_length: "take_escapes n s = Some (os, r) \<Longrightarrow> length r \<le> length s"
  by (induction n s arbitrary: os r rule: take_escapes.induct)
     (fastforce split: if_splits option.splits)+

lemma take_escapes_shrinks: "take_escapes (Suc n) s = Some (os, r) \<Longrightarrow> length r < length s"
  by (cases "(Suc n, s)" rule: take_escapes.cases)
     (auto dest!: take_escapes_length split: if_splits option.splits)

text \<open>Whether \<open>decodeURIComponent\<close> returns: every escape is two hexadecimal digits, and the octets of a
  run of escapes are well-formed UTF-8.\<close>

function (sequential) decodeURIComponent_ok :: "string \<Rightarrow> bool" where
  "decodeURIComponent_ok [] = True"
| "decodeURIComponent_ok (c # cs) =
     (if c \<noteq> CHR ''%'' then decodeURIComponent_ok cs
      else (case take_escapes 1 (c # cs) of
              Some ([b], rest) \<Rightarrow>
                (case utf8_length b of
                   None \<Rightarrow> False
                 | Some n \<Rightarrow>
                     (case take_escapes (n - 1) rest of
                        None \<Rightarrow> False
                      | Some (os, rest') \<Rightarrow> utf8_valid (b # os) \<and> decodeURIComponent_ok rest'))
            | _ \<Rightarrow> False))"
  by pat_completeness auto
termination
  by (relation "measure length")
     (auto dest!: take_escapes_length take_escapes_shrinks [of 0, simplified] split: if_splits list.splits option.splits)

subsection \<open>Canonical paths\<close>

definition isDotSegment :: "string \<Rightarrow> bool" where
  "isDotSegment segment = (let decoded = decode_dots segment in decoded = ''.'' \<or> decoded = ''..'')"

definition isDecodable :: "string \<Rightarrow> bool" where
  "isDecodable segment = decodeURIComponent_ok segment"

text \<open>\<open>segments.every\<close> with its index: only the last segment may be empty.\<close>

fun segments_ok :: "string list \<Rightarrow> bool" where
  "segments_ok [] = True"
| "segments_ok (segment # rest) =
     ((segment \<noteq> [] \<or> rest = []) \<and> \<not> isDotSegment segment \<and> isDecodable segment \<and> segments_ok rest)"

definition isCanonicalPath :: "string \<Rightarrow> bool" where
  "isCanonicalPath path =
     (if path = ''/'' then True
      else if \<not> startsWith path ''/'' \<or> str_includes path [CHR 0x5C] \<or> ENCODED_SEPARATOR path then False
      else segments_ok (splitOn (CHR ''/'') (drop 1 path)))"

definition splitRequestTarget :: "string \<Rightarrow> request_target" where
  "splitRequestTarget target =
     (case indexOf (CHR ''?'') target of
        None \<Rightarrow> \<lparr>rt_pathname = target, rt_search = []\<rparr>
      | Some query \<Rightarrow> \<lparr>rt_pathname = take query target, rt_search = drop query target\<rparr>)"

definition authority_end :: "char \<Rightarrow> bool" where
  "authority_end c \<longleftrightarrow> c = CHR ''/'' \<or> c = CHR 0x5C \<or> c = CHR ''?''"

definition rawRequestTarget :: "string \<Rightarrow> request_target" where
  "rawRequestTarget url =
     (let afterScheme = (case breakOn ''://'' url of (_, Some rest) \<Rightarrow> rest | (_, None) \<Rightarrow> url);
          withoutFragment = takeWhile (\<lambda>c. c \<noteq> CHR ''#'') afterScheme;
          fromAuthorityEnd = dropWhile (\<lambda>c. \<not> authority_end c) withoutFragment
      in if fromAuthorityEnd = [] then \<lparr>rt_pathname = ''/'', rt_search = []\<rparr>
         else (let target = splitRequestTarget fromAuthorityEnd in
               if rt_pathname target = [] then \<lparr>rt_pathname = ''/'', rt_search = rt_search target\<rparr> else target))"

subsection \<open>What a decoding reader sees\<close>

text \<open>Percent-decoding once, octet by octet: what a hop that normalises a path reads. An escape that
  is no escape stays as it is.\<close>

fun percent_decode :: "string \<Rightarrow> string" where
  "percent_decode (p # a # b # s) =
     (if p = CHR ''%'' then
        (case hex_octet a b of
           Some v \<Rightarrow> char_of v # percent_decode s
         | None \<Rightarrow> p # percent_decode (a # b # s))
      else p # percent_decode (a # b # s))"
| "percent_decode s = s"

lemma of_char_nat_eq: "(of_char c :: nat) = n \<Longrightarrow> c = char_of n"
  by (metis char_of_char)

lemma hex_val_bound: "hex_val c = Some v \<Longrightarrow> v < 16"
  by (auto simp: hex_val_def Let_def split: if_splits)

lemma char_by_code: "(of_char c :: nat) = of_char d \<Longrightarrow> c = d"
  by simp

lemma hex_val_chars:
  "hex_val c = Some 2 \<Longrightarrow> c = CHR ''2''"
  "hex_val c = Some 5 \<Longrightarrow> c = CHR ''5''"
  "hex_val c = Some 12 \<Longrightarrow> c = CHR ''c'' \<or> c = CHR ''C''"
  "hex_val c = Some 14 \<Longrightarrow> c = CHR ''e'' \<or> c = CHR ''E''"
  "hex_val c = Some 15 \<Longrightarrow> c = CHR ''f'' \<or> c = CHR ''F''"
  by (auto simp: hex_val_def Let_def simp flip: of_char_eq_iff [where 'a = nat] split: if_splits)

lemma hex_octet_Some:
  "hex_octet a b = Some v \<Longrightarrow> hex_val a = Some (v div 16) \<and> hex_val b = Some (v mod 16)"
  by (auto simp: hex_octet_def dest!: hex_val_bound split: option.splits)

lemma hex_octet_dot: "hex_octet a b = Some 46 \<Longrightarrow> a = CHR ''2'' \<and> (b = CHR ''e'' \<or> b = CHR ''E'')"
  by (drule hex_octet_Some) (simp add: hex_val_chars)

lemma hex_octet_slash: "hex_octet a b = Some 47 \<Longrightarrow> a = CHR ''2'' \<and> (b = CHR ''f'' \<or> b = CHR ''F'')"
  by (drule hex_octet_Some) (simp add: hex_val_chars)

lemma hex_octet_backslash: "hex_octet a b = Some 92 \<Longrightarrow> a = CHR ''5'' \<and> (b = CHR ''c'' \<or> b = CHR ''C'')"
  by (drule hex_octet_Some) (simp add: hex_val_chars)

lemma hex_octet_bound: "hex_octet a b = Some v \<Longrightarrow> v < 256"
  by (auto simp: hex_octet_def dest!: hex_val_bound split: option.splits)

lemma char_of_eq: "v < 256 \<Longrightarrow> char_of v = c \<longleftrightarrow> v = (of_char c :: nat)"
  by (metis of_char_of char_of_char mod_less)

lemma char_of_slash: "char_of (47 :: nat) = CHR ''/''" "char_of (92 :: nat) = CHR 0x5C"
  by (simp_all add: char_of_eq)

lemma percent_decode_escape:
  "percent_decode s = c # t \<Longrightarrow> 
     (\<exists>r. s = c # r \<and> percent_decode r = t) \<or>
     (\<exists>a b r. s = CHR ''%'' # a # b # r \<and> hex_octet a b = Some (of_char c) \<and> percent_decode r = t)"
  by (cases s rule: percent_decode.cases)
     (auto simp: char_of_eq dest: hex_octet_bound split: if_splits option.splits)

lemma percent_decode_Nil [simp]: "percent_decode s = [] \<longleftrightarrow> s = []"
  by (cases s rule: percent_decode.cases) (auto split: option.splits)

lemma decode_dots_Cons: "c \<noteq> CHR ''%'' \<Longrightarrow> decode_dots (c # s) = c # decode_dots s"
  by (cases s; cases "tl s") auto

lemma decode_dots_step: "percent_decode s = CHR ''.'' # t \<Longrightarrow>
     \<exists>r. decode_dots s = CHR ''.'' # decode_dots r \<and> percent_decode r = t"
proof (drule percent_decode_escape, elim disjE exE conjE)
  fix r assume "s = CHR ''.'' # r" "percent_decode r = t"
  then show ?thesis by (auto simp: decode_dots_Cons)
next
  fix a b r assume "s = CHR ''%'' # a # b # r" "hex_octet a b = Some (of_char CHR ''.'')" "percent_decode r = t"
  then show ?thesis using hex_octet_dot [of a b] by auto
qed

lemma dot_segment_complete: "percent_decode s = ''.'' \<or> percent_decode s = ''..'' \<Longrightarrow> isDotSegment s"
  by (auto simp: isDotSegment_def Let_def dest!: decode_dots_step)

lemma percent_decode_mem:
  "c \<in> set (percent_decode s) \<Longrightarrow> c \<in> set s \<or>
     (\<exists>u a b v. s = u @ CHR ''%'' # a # b # v \<and> hex_octet a b = Some (of_char c))"
proof (induction s rule: percent_decode.induct)
  case (1 p a b s)
  show ?case
  proof (cases "p = CHR ''%'' \<and> hex_octet a b \<noteq> None")
    case True
    then obtain v where v: "hex_octet a b = Some v" and p: "p = CHR ''%''" by auto
    show ?thesis
    proof (cases "c = char_of v")
      case True
      then have "hex_octet a b = Some (of_char c)"
        using v hex_octet_bound [OF v] by (simp add: of_char_of)
      then have "p # a # b # s = [] @ CHR ''%'' # a # b # s \<and> hex_octet a b = Some (of_char c)"
        using p by simp
      then show ?thesis by blast
    next
      case False
      with "1.prems" v p have "c \<in> set (percent_decode s)" by simp
      with "1.IH" p v have "c \<in> set s \<or> (\<exists>u x y t. s = u @ CHR ''%'' # x # y # t \<and> hex_octet x y = Some (of_char c))"
        by auto
      then show ?thesis
        by (metis append_Cons list.set_intros(2))
    qed
  next
    case False
    with "1.prems" have "c = p \<or> c \<in> set (percent_decode (a # b # s))"
      by (auto split: if_splits option.splits)
    moreover have "c \<in> set (percent_decode (a # b # s)) \<Longrightarrow> c \<in> set (a # b # s) \<or>
      (\<exists>u x y v. a # b # s = u @ CHR ''%'' # x # y # v \<and> hex_octet x y = Some (of_char c))"
      using False "1.IH" by (cases "p = CHR ''%''") auto
    ultimately show ?thesis
      by (metis append_Cons list.set_intros)
  qed
qed auto

lemma encoded_separator_append:
  "(a = CHR ''2'' \<and> (b = CHR ''f'' \<or> b = CHR ''F'')) \<or> (a = CHR ''5'' \<and> (b = CHR ''c'' \<or> b = CHR ''C'')) \<Longrightarrow>
   ENCODED_SEPARATOR (u @ CHR ''%'' # a # b # v)"
proof (induction u)
  case (Cons x u)
  then show ?case by (cases u; cases "tl u") auto
qed auto

lemma encoded_separatorD:
  "ENCODED_SEPARATOR s \<Longrightarrow> \<exists>u a b v. s = u @ [CHR ''%'', a, b] @ v \<and>
     (hex_octet a b = Some 47 \<or> hex_octet a b = Some 92) \<and> CHR ''/'' \<notin> {a, b}"
proof (induction s rule: ENCODED_SEPARATOR.induct)
  case (1 a b c cs)
  show ?case
  proof (cases "ENCODED_SEPARATOR (b # c # cs)")
    case True
    with 1 obtain u x y v where "b # c # cs = u @ [CHR ''%'', x, y] @ v"
      "hex_octet x y = Some 47 \<or> hex_octet x y = Some 92" "CHR ''/'' \<notin> {x, y}" by blast
    then have "a # b # c # cs = (a # u) @ [CHR ''%'', x, y] @ v" by simp
    with \<open>hex_octet x y = Some 47 \<or> _\<close> \<open>CHR ''/'' \<notin> {x, y}\<close> show ?thesis by blast
  next
    case False
    with "1.prems" have "a # b # c # cs = [] @ [CHR ''%'', b, c] @ cs \<and>
      (hex_octet b c = Some 47 \<or> hex_octet b c = Some 92) \<and> CHR ''/'' \<notin> {b, c}"
      by (auto simp: hex_octet_def hex_val_def)
    then show ?thesis by blast
  qed
qed auto

lemma hex_octet_percent [simp]: "hex_octet CHR ''%'' b = None" "hex_octet a CHR ''%'' = None"
  by (auto simp: hex_octet_def hex_val_def split: option.splits)

lemma escape_decodes:
  "hex_octet a b = Some v \<Longrightarrow> char_of v \<in> set (percent_decode (u @ CHR ''%'' # a # b # s))"
proof (induction u rule: percent_decode.induct)
  case (1 p x y u)
  show ?case
  proof (cases "p = CHR ''%'' \<and> hex_octet x y \<noteq> None")
    case True
    with 1 show ?thesis by auto
  next
    case False
    with 1 show ?thesis by (cases "p = CHR ''%''") auto
  qed
qed (auto split: if_splits)

lemma percent_decode_Cons: "c \<noteq> CHR ''%'' \<Longrightarrow> percent_decode (c # s) = c # percent_decode s"
  by (cases s; cases "tl s") auto

lemma decode_dots_unstep:
  assumes "decode_dots s = CHR ''.'' # t"
  shows "\<exists>r. decode_dots r = t \<and> percent_decode s = CHR ''.'' # percent_decode r"
proof (cases s)
  case (Cons c s')
  show ?thesis
  proof (cases "c = CHR ''%''")
    case True
    with Cons assms obtain b r where "s = CHR ''%'' # CHR ''2'' # b # r" "b = CHR ''e'' \<or> b = CHR ''E''" "decode_dots r = t"
      by (cases s rule: decode_dots.cases) (auto split: if_splits)
    then show ?thesis
      by (auto simp: hex_octet_def hex_val_def char_of_eq)
  next
    case False
    with Cons assms show ?thesis
      by (auto simp: decode_dots_Cons percent_decode_Cons)
  qed
qed (use assms in simp)

lemma decode_dots_Nil [simp]: "decode_dots s = [] \<longleftrightarrow> s = []"
  by (cases s rule: decode_dots.cases) auto

lemma isDotSegment_iff: "isDotSegment s \<longleftrightarrow> percent_decode s \<in> {''.'', ''..''}"
  using dot_segment_complete [of s]
  by (auto simp: isDotSegment_def Let_def dest!: decode_dots_unstep)

lemma segments_ok_iff:
  "segments_ok segs \<longleftrightarrow> [] \<notin> set (butlast segs) \<and>
     (\<forall>seg\<in>set segs. \<not> isDotSegment seg \<and> isDecodable seg)"
  by (induction segs) auto

text \<open>What the canonical form promises of one segment to every reader, decoding or not.\<close>

definition unambiguous_segment :: "string \<Rightarrow> bool" where
  "unambiguous_segment seg \<longleftrightarrow> decodeURIComponent_ok seg \<and>
     percent_decode seg \<notin> {''.'', ''..''} \<and>
     CHR ''/'' \<notin> set (percent_decode seg) \<and> CHR 0x5C \<notin> set (percent_decode seg)"

lemma separator_free_iff:
  assumes "CHR ''/'' \<notin> set seg"
  shows "CHR ''/'' \<notin> set (percent_decode seg) \<and> CHR 0x5C \<notin> set (percent_decode seg) \<longleftrightarrow>
     CHR 0x5C \<notin> set seg \<and> \<not> ENCODED_SEPARATOR seg"
proof -
  have "c \<in> set (percent_decode seg) \<Longrightarrow> c \<in> {CHR ''/'', CHR 0x5C} \<Longrightarrow>
      c \<in> set seg \<or> ENCODED_SEPARATOR seg" for c
    using percent_decode_mem [of c seg] encoded_separator_append hex_octet_slash hex_octet_backslash
    by auto
  moreover have "c \<in> set seg \<Longrightarrow> c \<noteq> CHR ''%'' \<Longrightarrow> hex_val c = None \<Longrightarrow> c \<in> set (percent_decode seg)" for c
    by (induction seg rule: percent_decode.induct)
       (auto simp: hex_octet_def split: option.splits if_splits)
  moreover have "ENCODED_SEPARATOR seg \<Longrightarrow> \<exists>c\<in>{CHR ''/'', CHR 0x5C}. c \<in> set (percent_decode seg)"
  proof -
    assume "ENCODED_SEPARATOR seg"
    then obtain u a b v where seg: "seg = u @ CHR ''%'' # a # b # v"
      and "hex_octet a b = Some 47 \<or> hex_octet a b = Some 92" using encoded_separatorD by fastforce
    then show ?thesis
      using escape_decodes [of a b 47 u v] escape_decodes [of a b 92 u v] by (auto simp: seg char_of_slash)
  qed
  ultimately show ?thesis
    using assms by (auto simp: hex_val_def)
qed

lemma path_backslash_iff:
  "str_includes (CHR ''/'' # rest) [CHR 0x5C] \<longleftrightarrow> (\<exists>seg\<in>set (splitOn (CHR ''/'') rest). CHR 0x5C \<in> set seg)"
proof
  assume "str_includes (CHR ''/'' # rest) [CHR 0x5C]"
  then obtain u v where "rest = u @ [CHR 0x5C] @ v"
    unfolding str_includes_iff by (auto simp: Cons_eq_append_conv)
  then obtain seg x y where "seg \<in> set (splitOn (CHR ''/'') rest)" "seg = x @ [CHR 0x5C] @ y"
    using infix_in_piece [of "CHR ''/''" "[CHR 0x5C]" u v] by auto
  then show "\<exists>seg\<in>set (splitOn (CHR ''/'') rest). CHR 0x5C \<in> set seg"
    by (intro bexI [of _ seg]) auto
next
  assume "\<exists>seg\<in>set (splitOn (CHR ''/'') rest). CHR 0x5C \<in> set seg"
  then have "CHR 0x5C \<in> set (CHR ''/'' # rest)"
    using splitOn_infix by fastforce
  then show "str_includes (CHR ''/'' # rest) [CHR 0x5C]"
    unfolding str_includes_iff by (metis append_Cons append_Nil split_list)
qed

lemma path_encoded_separator_iff:
  "ENCODED_SEPARATOR (CHR ''/'' # rest) \<longleftrightarrow> (\<exists>seg\<in>set (splitOn (CHR ''/'') rest). ENCODED_SEPARATOR seg)"
proof
  assume "ENCODED_SEPARATOR (CHR ''/'' # rest)"
  then obtain u a b v where "CHR ''/'' # rest = u @ [CHR ''%'', a, b] @ v"
    and ab: "hex_octet a b = Some 47 \<or> hex_octet a b = Some 92" "CHR ''/'' \<notin> {a, b}"
    using encoded_separatorD by blast
  then obtain u' where "rest = u' @ [CHR ''%'', a, b] @ v"
    by (auto simp: Cons_eq_append_conv)
  then obtain seg x y where "seg \<in> set (splitOn (CHR ''/'') rest)" "seg = x @ [CHR ''%'', a, b] @ y"
    using infix_in_piece [of "CHR ''/''" "[CHR ''%'', a, b]" u' v] ab by auto
  then show "\<exists>seg\<in>set (splitOn (CHR ''/'') rest). ENCODED_SEPARATOR seg"
    using ab encoded_separator_append hex_octet_slash hex_octet_backslash by fastforce
next
  assume "\<exists>seg\<in>set (splitOn (CHR ''/'') rest). ENCODED_SEPARATOR seg"
  then obtain seg u v where "rest = u @ seg @ v" "ENCODED_SEPARATOR seg"
    using splitOn_infix by blast
  moreover from this(2) obtain x a b y where "seg = x @ [CHR ''%'', a, b] @ y"
    "hex_octet a b = Some 47 \<or> hex_octet a b = Some 92" using encoded_separatorD by blast
  ultimately have "CHR ''/'' # rest = (CHR ''/'' # u @ x) @ CHR ''%'' # a # b # (y @ v)" by simp
  then show "ENCODED_SEPARATOR (CHR ''/'' # rest)"
    using \<open>hex_octet a b = Some 47 \<or> _\<close> encoded_separator_append hex_octet_slash hex_octet_backslash by metis
qed

text \<open>A path is canonical exactly when it is the root, or a \<open>/\<close> followed by segments, only the last of
  which may be empty, that every reader sees alike: each one percent-decodes without error, and
  decoded it is neither \<open>.\<close> nor \<open>..\<close> and holds no \<open>/\<close> and no backslash. So a hop that decodes or
  normalises the path cannot make it name another endpoint.\<close>

theorem isCanonicalPath_iff:
  "isCanonicalPath path \<longleftrightarrow> path = ''/'' \<or>
     (\<exists>segs. segs = splitOn (CHR ''/'') (drop 1 path) \<and> startsWith path ''/'' \<and>
        [] \<notin> set (butlast segs) \<and> list_all unambiguous_segment segs)"
proof (cases "path \<noteq> ''/'' \<and> startsWith path ''/''")
  case True
  then obtain rest where path: "path = CHR ''/'' # rest" by (auto simp: startsWith_iff)
  let ?segs = "splitOn (CHR ''/'') rest"
  have "unambiguous_segment seg \<longleftrightarrow> \<not> isDotSegment seg \<and> isDecodable seg \<and> CHR 0x5C \<notin> set seg \<and> \<not> ENCODED_SEPARATOR seg"
    if "seg \<in> set ?segs" for seg
    using separator_free_iff [OF splitOn_no_sep [OF that]]
    by (auto simp: unambiguous_segment_def isDotSegment_iff isDecodable_def)
  then show ?thesis
    using True by (auto simp: isCanonicalPath_def segments_ok_iff list_all_iff path path_backslash_iff path_encoded_separator_iff
          simp del: str_includes.simps ENCODED_SEPARATOR.simps)
qed (auto simp: isCanonicalPath_def)

subsection \<open>Request targets\<close>

lemma splitRequestTarget_append:
  assumes "CHR ''?'' \<notin> set path" and "query = [] \<or> startsWith query ''?''"
  shows "splitRequestTarget (path @ query) = \<lparr>rt_pathname = path, rt_search = query\<rparr>"
proof (cases query)
  case (Cons c cs)
  with assms(2) have "query = CHR ''?'' # cs" by (auto simp: startsWith_iff)
  with assms(1) show ?thesis
    by (simp add: splitRequestTarget_def indexOf_append)
qed (simp add: splitRequestTarget_def indexOf_None [THEN iffD2, OF assms(1)])

lemma breakOn_scheme: "CHR '':'' \<notin> set scheme \<Longrightarrow> breakOn ''://'' (scheme @ ''://'' @ rest) = (scheme, Some rest)"
proof (induction scheme)
  case (Cons c cs)
  then have "\<not> startsWith (c # cs @ ''://'' @ rest) ''://''" by (auto simp: startsWith_iff)
  with Cons show ?case by simp
qed (simp add: startsWith_def)

text \<open>\<open>rawRequestTarget\<close> returns the path and the query of an absolute URL exactly as written, dot
  segments and escapes included, and drops the fragment.\<close>

theorem rawRequestTarget_as_written:
  assumes "CHR '':'' \<notin> set scheme" and auth: "list_all (\<lambda>c. \<not> authority_end c \<and> c \<noteq> CHR ''#'') authority"
    and path: "startsWith path ''/''" "CHR ''?'' \<notin> set path" "CHR ''#'' \<notin> set path"
    and query: "query = [] \<or> startsWith query ''?''" "CHR ''#'' \<notin> set query"
    and frag: "fragment = [] \<or> startsWith fragment ''#''"
  shows "rawRequestTarget (scheme @ ''://'' @ authority @ path @ query @ fragment)
    = \<lparr>rt_pathname = path, rt_search = query\<rparr>"
proof -
  have 1: "takeWhile (\<lambda>c. c \<noteq> CHR ''#'') (authority @ path @ query @ fragment) = authority @ path @ query"
  proof -
    have "\<forall>c\<in>set (authority @ path @ query). c \<noteq> CHR ''#''"
      using auth path(3) query(2) by (auto simp: list_all_iff)
    then show ?thesis
      using frag takeWhile_append2 [of "authority @ path @ query" "\<lambda>c. c \<noteq> CHR ''#''" fragment]
      by (cases fragment) (auto simp: startsWith_iff)
  qed
  obtain p where p: "path = CHR ''/'' # p" using path(1) by (auto simp: startsWith_iff)
  have 2: "dropWhile (\<lambda>c. \<not> authority_end c) (authority @ path @ query) = path @ query"
    using auth by (simp add: p list_all_iff authority_end_def dropWhile_append2)
  show ?thesis
    unfolding rawRequestTarget_def Let_def breakOn_scheme [OF assms(1)] prod.case option.case 1 2
      splitRequestTarget_append [OF path(2) query(1)]
    by (simp add: p)
qed

theorem rawRequestTarget_as_written_witness:
  "rawRequestTarget (''https'' @ ''://'' @ ''app.example:8443'' @ ''/a/%2e%2e/b'' @ ''?q=/../'' @ ''#top'')
     = \<lparr>rt_pathname = ''/a/%2e%2e/b'', rt_search = ''?q=/../''\<rparr>"
  by (rule rawRequestTarget_as_written) (simp_all add: authority_end_def startsWith_def)

end
