(* ===== verification/Endpoints.thy ===== *)
theory Endpoints
  imports Canonical_Path "HOL-Library.List_Lexorder" "HOL-Library.Multiset"
begin

text \<open>
  The endpoint matcher of \<open>packages/auth-core/src/endpoints.ts\<close>: patterns, the validation of a table
  when it is compiled, and the selection of one endpoint per request. Rows are records that extend
  \<open>endpoint_pattern\<close>, so the same matcher serves every table, as in the source. The problems an invalid
  table reports are values of \<open>table_problem\<close> in place of their texts, and the key of the shape map is
  the list of segment shapes in place of its JSON text.
\<close>

subsection \<open>Data\<close>

datatype segment = Literal string | Param string | Wildcard

record endpoint_pattern =
  ep_id :: string
  ep_method :: string
  ep_path :: string

type_synonym 'a row = "'a endpoint_pattern_scheme"
type_synonym 'a compiled_endpoint = "'a row \<times> segment list"

record 'a pattern_table =
  endpoints :: "'a row list"
  reservedPrefixes :: "string list"

record 'a compiled_table =
  c_endpoints :: "'a compiled_endpoint list"
  c_reservedPrefixes :: "string list"

type_synonym params = "(string \<times> string) list"

datatype 'r endpoint_plan = NonCanonical | NoEndpoint | Endpoint 'r params

datatype pattern_problem =
  NotCanonical | WildcardNotLast | WildcardInSegment | BadParameter | PrototypeName string | DuplicateParameter string

datatype table_problem =
    DuplicateId string
  | InvalidPath string string pattern_problem
  | SameShape string string string string
  | InvalidPrefix string
  | DuplicatePrefix string

subsection \<open>Patterns\<close>

definition ANY_METHOD :: string where "ANY_METHOD = ''*''"

definition splitPath :: "string \<Rightarrow> string list" where
  "splitPath path = (if path = ''/'' then [] else splitOn (CHR ''/'') (drop 1 path))"

definition PROTOTYPE_NAMES :: "string list" where
  "PROTOTYPE_NAMES = [''__proto__'', ''constructor'', ''prototype'']"

definition parameterName :: "string \<Rightarrow> string option" where
  "parameterName segment =
     (case segment of
        c # n # ns \<Rightarrow>
          if c = CHR '':'' \<and> (is_alpha n \<or> n = CHR ''_'') \<and> list_all (\<lambda>x. is_alnum x \<or> x = CHR ''_'') ns
          then Some (n # ns) else None
      | _ \<Rightarrow> None)"

fun parse_segments :: "string list \<Rightarrow> string set \<Rightarrow> pattern_problem + segment list" where
  "parse_segments [] names = Inr []"
| "parse_segments (segment # rest) names =
     (if segment = ''*'' then (if rest \<noteq> [] then Inl WildcardNotLast else Inr [Wildcard])
      else if str_includes segment ''*'' then Inl WildcardInSegment
      else if startsWith segment '':'' then
        (case parameterName segment of
           None \<Rightarrow> Inl BadParameter
         | Some name \<Rightarrow>
             if name \<in> set PROTOTYPE_NAMES then Inl (PrototypeName name)
             else if name \<in> names then Inl (DuplicateParameter name)
             else (case parse_segments rest (insert name names) of
                     Inl p \<Rightarrow> Inl p | Inr segs \<Rightarrow> Inr (Param name # segs)))
      else (case parse_segments rest names of
              Inl p \<Rightarrow> Inl p | Inr segs \<Rightarrow> Inr (Literal segment # segs)))"

definition parsePattern :: "string \<Rightarrow> pattern_problem + segment list" where
  "parsePattern path =
     (if \<not> isCanonicalPath path then Inl NotCanonical else parse_segments (splitPath path) {})"

definition is_literal :: "segment \<Rightarrow> bool" where
  "is_literal s = (case s of Literal _ \<Rightarrow> True | _ \<Rightarrow> False)"

definition isReservedPrefix :: "string \<Rightarrow> bool" where
  "isReservedPrefix pre =
     (case parsePattern pre of
        Inl _ \<Rightarrow> False
      | Inr segments \<Rightarrow> 0 < length segments \<and> \<not> endsWith pre ''/'' \<and> list_all is_literal segments)"

definition isUnder :: "string \<Rightarrow> string \<Rightarrow> bool" where
  "isUnder path pre = startsWith path (pre @ ''/'')"

fun longest_loop :: "string \<Rightarrow> string list \<Rightarrow> string option \<Rightarrow> string option" where
  "longest_loop path [] longest = longest"
| "longest_loop path (pre # pres) longest =
     (if isUnder path pre \<and> (case longest of None \<Rightarrow> True | Some l \<Rightarrow> length pre > length l)
      then longest_loop path pres (Some pre) else longest_loop path pres longest)"

definition longestPrefixOf :: "string \<Rightarrow> string list \<Rightarrow> string option" where
  "longestPrefixOf path pres = longest_loop path pres None"

fun shapeOf :: "segment \<Rightarrow> string" where
  "shapeOf (Literal v) = ''='' @ v"
| "shapeOf (Param n) = ''param''"
| "shapeOf Wildcard = ''wildcard''"

definition methodsOverlap :: "string \<Rightarrow> string \<Rightarrow> bool" where
  "methodsOverlap declared other \<longleftrightarrow> declared = other \<or> declared = ANY_METHOD \<or> other = ANY_METHOD"

definition servesMethod :: "string \<Rightarrow> string \<Rightarrow> bool" where
  "servesMethod declared requested \<longleftrightarrow> declared = ANY_METHOD \<or> declared = requested"

subsection \<open>Compiling a table\<close>

text \<open>The loop over the rows, with the source's \<open>problems\<close>, \<open>endpoints\<close>, \<open>ids\<close> and \<open>shapes\<close>; \<open>shapes\<close> maps a
  shape to the rows of it so far.\<close>

fun analyse_rows ::
  "'a row list \<Rightarrow> table_problem list \<Rightarrow> 'a compiled_endpoint list \<Rightarrow> string set \<Rightarrow>
   (string list \<Rightarrow> 'a row list) \<Rightarrow> table_problem list \<times> 'a compiled_endpoint list" where
  "analyse_rows [] problems eps ids shapes = (problems, eps)"
| "analyse_rows (row # rows) problems eps ids shapes =
     (let problems1 = (if ep_id row \<in> ids then problems @ [DuplicateId (ep_id row)] else problems);
          ids1 = insert (ep_id row) ids
      in case parsePattern (ep_path row) of
           Inl p \<Rightarrow> analyse_rows rows (problems1 @ [InvalidPath (ep_id row) (ep_path row) p]) eps ids1 shapes
         | Inr segments \<Rightarrow>
             (let shape = map shapeOf segments;
                  sameShape = shapes shape;
                  problems2 = (case find (\<lambda>other. methodsOverlap (ep_method other) (ep_method row)) sameShape of
                                 None \<Rightarrow> problems1
                               | Some previous \<Rightarrow> problems1 @ [SameShape (ep_id row) (ep_id previous) (ep_method row) (ep_path row)])
              in analyse_rows rows problems2 (eps @ [(row, segments)]) ids1
                   (shapes(shape := sameShape @ [row]))))"

fun analyse_prefixes :: "string list \<Rightarrow> table_problem list \<Rightarrow> string set \<Rightarrow> table_problem list" where
  "analyse_prefixes [] problems seen = problems"
| "analyse_prefixes (pre # rest) problems seen =
     analyse_prefixes rest
       (if \<not> isReservedPrefix pre then problems @ [InvalidPrefix pre]
        else if pre \<in> seen then problems @ [DuplicatePrefix pre] else problems)
       (insert pre seen)"

definition analyse :: "'a pattern_table \<Rightarrow> table_problem list + 'a compiled_endpoint list" where
  "analyse table =
     (let (problems, eps) = analyse_rows (endpoints table) [] [] {} (\<lambda>_. []);
          all = analyse_prefixes (reservedPrefixes table) problems {}
      in if length all > 0 then Inl all else Inr eps)"

definition compileEndpointTable :: "'a pattern_table \<Rightarrow> table_problem list + 'a compiled_table" where
  "compileEndpointTable table =
     (case analyse table of
        Inl problems \<Rightarrow> Inl problems
      | Inr eps \<Rightarrow> Inr \<lparr>c_endpoints = eps, c_reservedPrefixes = reservedPrefixes table\<rparr>)"

subsection \<open>Selecting an endpoint\<close>

fun matchSegments_at :: "nat \<Rightarrow> segment list \<Rightarrow> string list \<Rightarrow> params \<Rightarrow> params option" where
  "matchSegments_at index (Wildcard # segs) path ps = (if index = 0 \<or> path \<noteq> [] then Some ps else None)"
| "matchSegments_at index (Param n # segs) (v # path) ps =
     (if v = [] then None else matchSegments_at (Suc index) segs path (ps @ [(n, v)]))"
| "matchSegments_at index (Literal l # segs) (v # path) ps =
     (if l \<noteq> v then None else matchSegments_at (Suc index) segs path ps)"
| "matchSegments_at index (_ # segs) [] ps = None"
| "matchSegments_at index [] path ps = (if path = [] then Some ps else None)"

definition matchSegments :: "segment list \<Rightarrow> string list \<Rightarrow> params option" where
  "matchSegments segments path = matchSegments_at 0 segments path []"

fun RANK :: "segment \<Rightarrow> nat" where
  "RANK (Literal _) = 0"
| "RANK (Param _) = 1"
| "RANK Wildcard = 2"

text \<open>The common prefix is compared segment by segment; \<open>a.length - b.length\<close> decides otherwise.\<close>

fun compareSpecificity :: "segment list \<Rightarrow> segment list \<Rightarrow> int" where
  "compareSpecificity (l # a) (r # b) =
     (let order = int (RANK l) - int (RANK r) in if order \<noteq> 0 then order else compareSpecificity a b)"
| "compareSpecificity a b = int (length a) - int (length b)"

fun select_loop ::
  "string \<Rightarrow> string list \<Rightarrow> string option \<Rightarrow> 'a compiled_endpoint list \<Rightarrow>
   ('a compiled_endpoint \<times> params) option \<Rightarrow> bool \<Rightarrow> ('a compiled_endpoint \<times> params) option \<times> bool" where
  "select_loop m path reserved [] best tied = (best, tied)"
| "select_loop m path reserved (endpoint # eps) best tied =
     (if \<not> servesMethod (ep_method (fst endpoint)) m \<or>
         (case reserved of None \<Rightarrow> False | Some r \<Rightarrow> \<not> isUnder (ep_path (fst endpoint)) r)
      then select_loop m path reserved eps best tied
      else (case matchSegments (snd endpoint) path of
              None \<Rightarrow> select_loop m path reserved eps best tied
            | Some ps \<Rightarrow>
                (let order = (case best of None \<Rightarrow> -1 | Some (b, _) \<Rightarrow> compareSpecificity (snd endpoint) (snd b))
                 in if order < 0 then select_loop m path reserved eps (Some (endpoint, ps)) False
                    else if order = 0 then select_loop m path reserved eps best True
                    else select_loop m path reserved eps best tied)))"

definition select_endpoint :: "'a compiled_endpoint list \<Rightarrow> string list \<Rightarrow> string \<Rightarrow> string \<Rightarrow> 'a row endpoint_plan" where
  "select_endpoint eps pres m rawPath =
     (if \<not> isCanonicalPath rawPath then NonCanonical
      else (case select_loop m (splitPath rawPath) (longestPrefixOf rawPath pres) eps None False of
              (None, _) \<Rightarrow> NoEndpoint
            | (Some (endpoint, ps), tied) \<Rightarrow> if tied then NoEndpoint else Endpoint (fst endpoint) ps))"

definition planEndpoint :: "'a compiled_table \<Rightarrow> string \<Rightarrow> string \<Rightarrow> 'a row endpoint_plan" where
  "planEndpoint table m rawPath = select_endpoint (c_endpoints table) (c_reservedPrefixes table) m rawPath"

subsection \<open>Specificity is the lexicographic order of the ranks\<close>

abbreviation ranks :: "segment list \<Rightarrow> nat list" where
  "ranks segs \<equiv> map RANK segs"

lemma RANK_simps [simp]:
  "RANK s = 0 \<longleftrightarrow> (\<exists>v. s = Literal v)" "RANK s = Suc 0 \<longleftrightarrow> (\<exists>n. s = Param n)" "RANK s = 2 \<longleftrightarrow> s = Wildcard"
  by (cases s; simp)+

lemma compareSpecificity_zero: "compareSpecificity a b = 0 \<longleftrightarrow> ranks a = ranks b"
  by (induction a b rule: compareSpecificity.induct) (auto simp: Let_def)

lemma ranks_pos: "[] < ranks b \<longleftrightarrow> b \<noteq> []"
  by (cases b) auto

lemma compareSpecificity_neg: "compareSpecificity a b < 0 \<longleftrightarrow> ranks a < ranks b"
  by (induction a b rule: compareSpecificity.induct) (auto simp: Let_def ranks_pos)

subsection \<open>Patterns that match one path\<close>

lemma matchSegments_same_ranks:
  "ranks a = ranks b \<Longrightarrow> matchSegments_at i a path ps \<noteq> None \<Longrightarrow> matchSegments_at i b path qs \<noteq> None \<Longrightarrow>
   list_all (\<lambda>s. s \<noteq> Wildcard) (butlast a) \<Longrightarrow> map shapeOf a = map shapeOf b"
proof (induction a arbitrary: b i path ps qs)
  case (Cons s a)
  then obtain t b' where b: "b = t # b'" and rt: "RANK s = RANK t" and rb: "ranks a = ranks b'"
    by (auto simp: Cons_eq_map_conv)
  have step: "map shapeOf a = map shapeOf b'" if sw: "s \<noteq> Wildcard"
  proof -
    have "t \<noteq> Wildcard" using sw rt by (cases s; cases t) auto
    then obtain path' ps' qs' where
      "matchSegments_at (Suc i) a path' ps' \<noteq> None" "matchSegments_at (Suc i) b' path' qs' \<noteq> None"
      using Cons.prems(2,3) b sw by (cases s; cases t; cases path) (auto split: if_splits)
    moreover have "list_all (\<lambda>s. s \<noteq> Wildcard) (butlast a)"
      using Cons.prems(4) by (auto split: if_splits)
    ultimately show ?thesis using Cons.IH [OF rb] by blast
  qed
  show ?case
  proof (cases "s = Wildcard")
    case True
    then have "a = []" using Cons.prems(4) by (auto split: if_splits)
    with True rt rb b show ?thesis by (cases t) auto
  next
    case False
    with step b rt Cons.prems(2,3) show ?thesis
      by (cases s; cases t; cases path) (auto split: if_splits)
  qed
qed simp

lemma parse_segments_wildcard:
  "parse_segments raw names = Inr segs \<Longrightarrow> list_all (\<lambda>s. s \<noteq> Wildcard) (butlast segs)"
proof (induction raw arbitrary: names segs)
  case (Cons r raw)
  then show ?case
    by (fastforce split: if_splits option.splits sum.splits)
qed simp

lemma parsePattern_wildcard: "parsePattern path = Inr segs \<Longrightarrow> list_all (\<lambda>s. s \<noteq> Wildcard) (butlast segs)"
  unfolding parsePattern_def by (auto split: if_splits dest: parse_segments_wildcard)

subsection \<open>What a compiled table guarantees\<close>

definition segs_of :: "string \<Rightarrow> segment list" where
  "segs_of path = (case parsePattern path of Inr segs \<Rightarrow> segs | Inl _ \<Rightarrow> [])"

definition parses :: "'a row \<Rightarrow> bool" where
  "parses r \<longleftrightarrow> (\<exists>segs. parsePattern (ep_path r) = Inr segs)"

definition clash :: "'a row \<Rightarrow> 'a row \<Rightarrow> bool" where
  "clash r s \<longleftrightarrow> map shapeOf (segs_of (ep_path r)) = map shapeOf (segs_of (ep_path s)) \<and>
     methodsOverlap (ep_method r) (ep_method s)"

definition compile_row :: "'a row \<Rightarrow> 'a compiled_endpoint" where
  "compile_row r = (r, segs_of (ep_path r))"

text \<open>A table is unambiguous when every path parses, no id is declared twice and no two rows of
  overlapping methods have the same shape; and its reserved prefixes are literal and distinct.\<close>

definition rows_ok :: "'a row list \<Rightarrow> bool" where
  "rows_ok rows \<longleftrightarrow> (\<forall>r\<in>set rows. parses r) \<and> distinct (map ep_id rows) \<and>
     sorted_wrt (\<lambda>r s. \<not> clash r s) rows"

definition prefixes_ok :: "string list \<Rightarrow> bool" where
  "prefixes_ok ps \<longleftrightarrow> (\<forall>p\<in>set ps. isReservedPrefix p) \<and> distinct ps"

lemma clash_sym: "clash r s \<longleftrightarrow> clash s r"
  by (auto simp: clash_def methodsOverlap_def)

lemma segs_of_parses: "parsePattern p = Inr segs \<Longrightarrow> segs_of p = segs"
  by (simp add: segs_of_def)

lemma find_None_set: "find P xs = None \<longleftrightarrow> (\<forall>x\<in>set xs. \<not> P x)"
  by (auto simp: find_None_iff)

text \<open>The shape map holds exactly the accepted rows of each shape.\<close>

lemma analyse_rows_spec:
  assumes "\<And>sh. set (shapes sh) = {r \<in> set seen. map shapeOf (segs_of (ep_path r)) = sh}"
    and "ids = ep_id ` set all" and "set seen \<subseteq> set all"
    and "analyse_rows rows problems eps ids shapes = (ps, out)"
  shows "length problems \<le> length ps \<and>
    (ps = [] \<longleftrightarrow> problems = [] \<and> (\<forall>r\<in>set rows. parses r) \<and> distinct (map ep_id rows) \<and>
        (\<forall>r\<in>set rows. ep_id r \<notin> ids) \<and>
        sorted_wrt (\<lambda>r s. \<not> clash r s) rows \<and> (\<forall>r\<in>set rows. \<forall>s\<in>set seen. \<not> clash s r)) \<and>
    (ps = [] \<longrightarrow> out = eps @ map compile_row rows)"
  using assms
proof (induction rows arbitrary: problems eps ids shapes seen all)
  case (Cons row rows)
  define problems1 where
    "problems1 = (if ep_id row \<in> ids then problems @ [DuplicateId (ep_id row)] else problems)"
  have p1: "problems1 = [] \<longleftrightarrow> problems = [] \<and> ep_id row \<notin> ids" "length problems \<le> length problems1"
    by (auto simp: problems1_def)
  have ids1: "insert (ep_id row) ids = ep_id ` set (row # all)" using Cons.prems(2) by auto
  show ?case
  proof (cases "parsePattern (ep_path row)")
    case (Inl p)
    with Cons.prems(4) have "analyse_rows rows (problems1 @ [InvalidPath (ep_id row) (ep_path row) p]) eps
        (insert (ep_id row) ids) shapes = (ps, out)"
      by (simp add: problems1_def Let_def)
    from Cons.IH [OF Cons.prems(1) ids1 _ this] Cons.prems(3)
    have "length (problems1 @ [InvalidPath (ep_id row) (ep_path row) p]) \<le> length ps" by auto
    moreover have "\<not> parses row" using Inl by (simp add: parses_def)
    ultimately show ?thesis using p1(2) by auto
  next
    case (Inr segs)
    define shape where "shape = map shapeOf segs"
    define problems2 where
      "problems2 = (case find (\<lambda>other. methodsOverlap (ep_method other) (ep_method row)) (shapes shape) of
         None \<Rightarrow> problems1
       | Some previous \<Rightarrow> problems1 @ [SameShape (ep_id row) (ep_id previous) (ep_method row) (ep_path row)])"
    have segs: "segs_of (ep_path row) = segs" using Inr by (rule segs_of_parses)
    have row: "parses row" "compile_row row = (row, segs)" using Inr segs by (auto simp: parses_def compile_row_def)
    have p2: "problems2 = [] \<longleftrightarrow> problems1 = [] \<and> (\<forall>s\<in>set seen. \<not> clash s row)" "length problems1 \<le> length problems2"
      using Cons.prems(1) [of shape] segs
      by (auto simp: problems2_def clash_def shape_def find_None_set split: option.splits)
        (auto simp: find_Some_iff)
    have rec: "analyse_rows rows problems2 (eps @ [(row, segs)]) (insert (ep_id row) ids)
        (shapes(shape := shapes shape @ [row])) = (ps, out)"
      using Cons.prems(4) Inr unfolding problems2_def problems1_def shape_def by (simp add: Let_def)
    have sh: "set ((shapes(shape := shapes shape @ [row])) sh) =
        {r \<in> set (row # seen). map shapeOf (segs_of (ep_path r)) = sh}" for sh
      using Cons.prems(1) segs by (auto simp: shape_def)
    have sub: "set (row # seen) \<subseteq> set (row # all)" using Cons.prems(3) by auto
    have len: "length problems \<le> length ps" using Cons.IH [OF sh ids1 sub rec] p1(2) p2(2) by linarith
    have out: "ps = [] \<longrightarrow> out = eps @ map compile_row (row # rows)"
      using Cons.IH [OF sh ids1 sub rec] row(2) by simp
    have iff: "ps = [] \<longleftrightarrow> problems2 = [] \<and> (\<forall>r\<in>set rows. parses r) \<and> distinct (map ep_id rows) \<and>
        (\<forall>r\<in>set rows. ep_id r \<notin> insert (ep_id row) ids) \<and> sorted_wrt (\<lambda>r s. \<not> clash r s) rows \<and>
        (\<forall>r\<in>set rows. \<forall>s\<in>set (row # seen). \<not> clash s r)"
      using Cons.IH [OF sh ids1 sub rec] by blast
    have d: "distinct (map ep_id (row # rows)) \<longleftrightarrow> (\<forall>r\<in>set rows. ep_id r \<noteq> ep_id row) \<and> distinct (map ep_id rows)"
      by (simp add: image_iff) metis
    show ?thesis using len out row(1) unfolding iff d p2(1) p1(1) by auto
  qed
qed auto

lemma analyse_prefixes_spec:
  "analyse_prefixes ps problems seen = [] \<longleftrightarrow>
     problems = [] \<and> (\<forall>p\<in>set ps. isReservedPrefix p \<and> p \<notin> seen) \<and> distinct ps"
  by (induction ps arbitrary: problems seen) auto

text \<open>The compiler accepts exactly the unambiguous tables, and keeps their rows in order.\<close>

lemma compileEndpointTable_iff:
  "compileEndpointTable t = Inr c \<longleftrightarrow> rows_ok (endpoints t) \<and> prefixes_ok (reservedPrefixes t) \<and>
     c = \<lparr>c_endpoints = map compile_row (endpoints t), c_reservedPrefixes = reservedPrefixes t\<rparr>"
proof -
  obtain ps out where ar: "analyse_rows (endpoints t) [] [] {} (\<lambda>_. []) = (ps, out)" by fastforce
  have spec: "ps = [] \<longleftrightarrow> rows_ok (endpoints t)" "ps = [] \<Longrightarrow> out = map compile_row (endpoints t)"
    using analyse_rows_spec [of "\<lambda>_. []" "[]" "{}" "[]" "endpoints t" "[]" "[]" ps out] ar
    by (auto simp: rows_ok_def)
  have "analyse t = (if analyse_prefixes (reservedPrefixes t) ps {} = [] then Inr out
                     else Inl (analyse_prefixes (reservedPrefixes t) ps {}))"
    using ar by (simp add: analyse_def Let_def)
  then show ?thesis
    using spec by (auto simp: compileEndpointTable_def analyse_prefixes_spec prefixes_ok_def)
qed

lemma rows_ok_pairwise:
  "rows_ok rows \<longleftrightarrow> (\<forall>r\<in>set rows. parses r) \<and> distinct (map ep_id rows) \<and>
     (\<forall>r\<in>set rows. \<forall>s\<in>set rows. r \<noteq> s \<longrightarrow> \<not> clash r s)"
proof -
  have "sorted_wrt (\<lambda>r s. \<not> clash r s) xs \<longleftrightarrow> (\<forall>r\<in>set xs. \<forall>s\<in>set xs. r \<noteq> s \<longrightarrow> \<not> clash r s)"
    if "distinct xs" for xs :: "'a row list"
    using that by (induction xs) (auto simp: clash_sym)
  then show ?thesis by (auto simp: rows_ok_def distinct_map)
qed

subsection \<open>Selection\<close>

text \<open>The rows that compete for a request.\<close>

definition competes :: "string list \<Rightarrow> string \<Rightarrow> string \<Rightarrow> 'a compiled_endpoint \<Rightarrow> bool" where
  "competes pres m rawPath e \<longleftrightarrow> servesMethod (ep_method (fst e)) m \<and>
     (case longestPrefixOf rawPath pres of None \<Rightarrow> True | Some r \<Rightarrow> isUnder (ep_path (fst e)) r) \<and>
     matchSegments (snd e) (splitPath rawPath) \<noteq> None"

abbreviation rank_of :: "'a compiled_endpoint \<Rightarrow> nat list" where
  "rank_of e \<equiv> ranks (snd e)"

lemma competing_clash:
  assumes "competes pres m p (compile_row r)" "competes pres m p (compile_row s)"
    and "parses r" "rank_of (compile_row r) = rank_of (compile_row s)"
  shows "clash r s"
proof -
  have "list_all (\<lambda>s. s \<noteq> Wildcard) (butlast (segs_of (ep_path r)))"
    using assms(3) parsePattern_wildcard by (auto simp: parses_def segs_of_parses)
  moreover have "matchSegments (segs_of (ep_path r)) (splitPath p) \<noteq> None"
      "matchSegments (segs_of (ep_path s)) (splitPath p) \<noteq> None"
    using assms(1,2) by (auto simp: competes_def compile_row_def)
  ultimately have "map shapeOf (segs_of (ep_path r)) = map shapeOf (segs_of (ep_path s))"
    using matchSegments_same_ranks assms(4) by (fastforce simp: matchSegments_def compile_row_def)
  then show ?thesis
    using assms(1,2) by (auto simp: clash_def competes_def compile_row_def methodsOverlap_def servesMethod_def)
qed

text \<open>Over candidates of different ranks the loop ends with the least of them, and no tie.\<close>

definition best_list :: "('a compiled_endpoint \<times> params) option \<Rightarrow> 'a compiled_endpoint list" where
  "best_list best = (case best of None \<Rightarrow> [] | Some (b, _) \<Rightarrow> [b])"

lemma select_loop_least:
  assumes "\<And>e. cand e \<longleftrightarrow> servesMethod (ep_method (fst e)) m \<and>
      (case reserved of None \<Rightarrow> True | Some r \<Rightarrow> isUnder (ep_path (fst e)) r) \<and> matchSegments (snd e) path \<noteq> None"
    and "distinct (map rank_of (best_list best @ filter cand eps))"
    and "\<And>b ps. best = Some (b, ps) \<Longrightarrow> matchSegments (snd b) path = Some ps"
  shows "\<exists>out. select_loop m path reserved eps best False = (out, False) \<and>
    (case out of
       None \<Rightarrow> best = None \<and> filter cand eps = []
     | Some (e, ps) \<Rightarrow> e \<in> set (best_list best @ filter cand eps) \<and> matchSegments (snd e) path = Some ps \<and>
         (\<forall>q\<in>set (best_list best @ filter cand eps). rank_of e \<le> rank_of q))"
  using assms(2,3)
proof (induction eps arbitrary: best)
  case Nil
  then show ?case by (auto simp: best_list_def split: option.splits)
next
  case (Cons e eps)
  show ?case
  proof (cases "cand e")
    case False
    then have sl: "select_loop m path reserved (e # eps) best False = select_loop m path reserved eps best False"
      using assms(1) by (auto split: option.splits)
    have fl: "filter cand (e # eps) = filter cand eps" using False by simp
    show ?thesis unfolding sl fl by (rule Cons.IH [OF Cons.prems(1) [unfolded fl] Cons.prems(2)])
  next
    case True
    then obtain ps where ps: "matchSegments (snd e) path = Some ps" using assms(1) by blast
    define nxt where
      "nxt = (if (case best of None \<Rightarrow> True | Some (b, _) \<Rightarrow> rank_of e < rank_of b) then Some (e, ps) else best)"
    have sl: "select_loop m path reserved (e # eps) best False = select_loop m path reserved eps nxt False"
      using True assms(1) [of e] ps Cons.prems(1)
      by (auto simp: Let_def nxt_def best_list_def compareSpecificity_neg compareSpecificity_zero split: option.splits)
    have dist: "distinct (map rank_of (best_list nxt @ filter cand eps))"
      using Cons.prems(1) True by (auto simp: nxt_def best_list_def split: option.splits)
    have match: "matchSegments (snd b) path = Some qs" if "nxt = Some (b, qs)" for b qs
      using that ps Cons.prems(2) by (auto simp: nxt_def split: if_splits)
    have nxt_le: "nxt \<noteq> None" "set (best_list nxt) \<subseteq> insert e (set (best_list best))"
      "\<forall>q\<in>insert e (set (best_list best)). \<exists>b\<in>set (best_list nxt). rank_of b \<le> rank_of q"
      by (cases e; auto simp: nxt_def best_list_def split: option.splits)+
    obtain out where out: "select_loop m path reserved eps nxt False = (out, False)"
      "case out of None \<Rightarrow> nxt = None \<and> filter cand eps = []
       | Some (e', ps) \<Rightarrow> e' \<in> set (best_list nxt @ filter cand eps) \<and> matchSegments (snd e') path = Some ps \<and>
         (\<forall>q\<in>set (best_list nxt @ filter cand eps). rank_of e' \<le> rank_of q)"
      using Cons.IH [OF dist match] by blast
    then obtain e' ps' where e': "out = Some (e', ps')" "e' \<in> set (best_list nxt @ filter cand eps)"
      "matchSegments (snd e') path = Some ps'" "\<forall>q\<in>set (best_list nxt @ filter cand eps). rank_of e' \<le> rank_of q"
      using nxt_le(1) by (auto split: option.splits)
    have "rank_of e' \<le> rank_of q" if "q \<in> set (best_list best @ filter cand (e # eps))" for q
    proof -
      from that consider "q \<in> insert e (set (best_list best))" | "q \<in> set (filter cand eps)"
        by (auto split: if_splits)
      then show ?thesis
      proof cases
        case 1
        then obtain b where b: "b \<in> set (best_list nxt)" "rank_of b \<le> rank_of q" using nxt_le(3) by blast
        then have "rank_of e' \<le> rank_of b" using e'(4) by simp
        with b(2) show ?thesis by (rule order_trans [rotated])
      next
        case 2
        then show ?thesis using e'(4) by simp
      qed
    qed
    moreover have "e' \<in> set (best_list best @ filter cand (e # eps))"
      using e'(2) nxt_le(2) True by auto
    ultimately show ?thesis unfolding sl out(1) using e'(1,3) by auto
  qed
qed

lemma best_list_None [simp]: "best_list None = []"
  by (simp add: best_list_def)

lemma competing_distinct:
  assumes "rows_ok rows"
  shows "distinct (map rank_of (filter (competes pres m p) (map compile_row rows)))"
proof -
  have d: "distinct (filter (\<lambda>r. competes pres m p (compile_row r)) rows)"
    using assms by (simp add: rows_ok_def distinct_map)
  have "inj_on (rank_of \<circ> compile_row) (set (filter (\<lambda>r. competes pres m p (compile_row r)) rows))"
  proof (rule inj_onI)
    fix r s
    assume rs: "r \<in> set (filter (\<lambda>r. competes pres m p (compile_row r)) rows)"
      "s \<in> set (filter (\<lambda>r. competes pres m p (compile_row r)) rows)"
      "(rank_of \<circ> compile_row) r = (rank_of \<circ> compile_row) s"
    then have "clash r s" using competing_clash assms by (fastforce simp: rows_ok_def)
    with rs show "r = s" using assms by (auto simp: rows_ok_pairwise)
  qed
  with d show ?thesis by (simp add: filter_map distinct_map comp_def)
qed

text \<open>The row a request selects, in one description: the least competing one, or none.\<close>

lemma planEndpoint_cases:
  assumes "rows_ok rows" and "isCanonicalPath p"
    and "c = \<lparr>c_endpoints = map compile_row rows, c_reservedPrefixes = pres\<rparr>"
  shows "planEndpoint c m p = NoEndpoint \<and> (\<forall>r\<in>set rows. \<not> competes pres m p (compile_row r)) \<or>
    (\<exists>r ps. planEndpoint c m p = Endpoint r ps \<and> r \<in> set rows \<and> competes pres m p (compile_row r) \<and>
       matchSegments (segs_of (ep_path r)) (splitPath p) = Some ps \<and>
       (\<forall>s\<in>set rows. competes pres m p (compile_row s) \<longrightarrow> rank_of (compile_row r) \<le> rank_of (compile_row s)))"
proof -
  let ?eps = "map compile_row rows"
  obtain out where out: "select_loop m (splitPath p) (longestPrefixOf p pres) ?eps None False = (out, False)"
    "case out of None \<Rightarrow> filter (competes pres m p) ?eps = []
     | Some (e, ps) \<Rightarrow> e \<in> set (filter (competes pres m p) ?eps) \<and> matchSegments (snd e) (splitPath p) = Some ps \<and>
         (\<forall>q\<in>set (filter (competes pres m p) ?eps). rank_of e \<le> rank_of q)"
  proof -
    have "\<exists>out. select_loop m (splitPath p) (longestPrefixOf p pres) ?eps None False = (out, False) \<and>
      (case out of None \<Rightarrow> (None :: ('a compiled_endpoint \<times> params) option) = None \<and> filter (competes pres m p) ?eps = []
       | Some (e, ps) \<Rightarrow> e \<in> set (best_list None @ filter (competes pres m p) ?eps) \<and>
           matchSegments (snd e) (splitPath p) = Some ps \<and>
           (\<forall>q\<in>set (best_list None @ filter (competes pres m p) ?eps). rank_of e \<le> rank_of q))"
      by (rule select_loop_least [OF competes_def]) (simp_all add: competing_distinct [OF assms(1)])
    then show ?thesis
      unfolding best_list_None append_Nil simp_thms using that by blast
  qed
  show ?thesis
  proof (cases out)
    case None
    with out have "planEndpoint c m p = NoEndpoint" using assms(2,3) by (simp add: planEndpoint_def select_endpoint_def)
    moreover have "\<forall>r\<in>set rows. \<not> competes pres m p (compile_row r)"
      using None out(2) by (auto simp: filter_empty_conv)
    ultimately show ?thesis by blast
  next
    case (Some o')
    obtain e ps where e: "o' = (e, ps)" by fastforce
    then obtain r where r: "e = compile_row r" "r \<in> set rows" using Some out(2) by auto
    have "planEndpoint c m p = Endpoint r ps"
      using Some out(1) e r assms(2,3) by (simp add: planEndpoint_def select_endpoint_def compile_row_def)
    with Some out(2) e r show ?thesis by (auto simp: compile_row_def)
  qed
qed

lemma planEndpoint_NonCanonical: "planEndpoint c m p = NonCanonical \<longleftrightarrow> \<not> isCanonicalPath p"
  by (auto simp: planEndpoint_def select_endpoint_def split: option.splits prod.splits if_splits)

lemma competing_strict:
  assumes "rows_ok rows" "r \<in> set rows" "s \<in> set rows" "r \<noteq> s"
    "competes pres m p (compile_row r)" "competes pres m p (compile_row s)"
    "rank_of (compile_row r) \<le> rank_of (compile_row s)"
  shows "compareSpecificity (segs_of (ep_path r)) (segs_of (ep_path s)) < 0"
proof -
  have "rank_of (compile_row r) \<noteq> rank_of (compile_row s)"
    using assms competing_clash by (fastforce simp: rows_ok_pairwise)
  with assms(7) show ?thesis by (simp add: compareSpecificity_neg compile_row_def)
qed

text \<open>C19: in a table the compiler accepts, a canonical request selects an endpoint exactly when one competes for it
  (it serves the method, matches the path and lies under the longest reserved prefix of the path), and the selected
  one is strictly more specific than every other competitor, so the \<open>tied\<close> branch of \<open>select\<close> is never taken.\<close>

theorem planEndpoint_most_specific:
  assumes "compileEndpointTable t = Inr c"
  shows "case planEndpoint c m p of
      NonCanonical \<Rightarrow> \<not> isCanonicalPath p
    | NoEndpoint \<Rightarrow> isCanonicalPath p \<and> (\<forall>r\<in>set (endpoints t). \<not> competes (reservedPrefixes t) m p (compile_row r))
    | Endpoint r ps \<Rightarrow> isCanonicalPath p \<and> r \<in> set (endpoints t) \<and> competes (reservedPrefixes t) m p (compile_row r) \<and>
        matchSegments (segs_of (ep_path r)) (splitPath p) = Some ps \<and>
        (\<forall>s\<in>set (endpoints t). s \<noteq> r \<and> competes (reservedPrefixes t) m p (compile_row s) \<longrightarrow>
           compareSpecificity (segs_of (ep_path r)) (segs_of (ep_path s)) < 0)"
proof (cases "isCanonicalPath p")
  case False
  then have "planEndpoint c m p = NonCanonical" by (simp add: planEndpoint_NonCanonical)
  with False show ?thesis by simp
next
  case True
  have c: "c = \<lparr>c_endpoints = map compile_row (endpoints t), c_reservedPrefixes = reservedPrefixes t\<rparr>"
    and ok: "rows_ok (endpoints t)"
    using assms by (auto simp: compileEndpointTable_iff)
  from planEndpoint_cases [OF ok True c, of m] show ?thesis
    using True competing_strict [OF ok] by fastforce
qed

lemma planEndpoint_perm:
  assumes "rows_ok rows" "rows_ok rows'" "set rows = set rows'"
    and "c = \<lparr>c_endpoints = map compile_row rows, c_reservedPrefixes = pres\<rparr>"
    and "c' = \<lparr>c_endpoints = map compile_row rows', c_reservedPrefixes = pres\<rparr>"
  shows "planEndpoint c m p = planEndpoint c' m p"
proof (cases "isCanonicalPath p")
  case False
  then show ?thesis by (metis planEndpoint_NonCanonical)
next
  case True
  note 1 = planEndpoint_cases [OF assms(1) True assms(4), of m]
  note 2 = planEndpoint_cases [OF assms(2) True assms(5), of m]
  show ?thesis
  proof (cases "\<exists>r\<in>set rows. competes pres m p (compile_row r)")
    case False
    with 1 2 assms(3) show ?thesis by metis
  next
    case ex: True
    obtain r ps where r: "planEndpoint c m p = Endpoint r ps" "r \<in> set rows" "competes pres m p (compile_row r)"
      "matchSegments (segs_of (ep_path r)) (splitPath p) = Some ps"
      "\<forall>s\<in>set rows. competes pres m p (compile_row s) \<longrightarrow> rank_of (compile_row r) \<le> rank_of (compile_row s)"
      using ex 1 by blast
    obtain s qs where s: "planEndpoint c' m p = Endpoint s qs" "s \<in> set rows" "competes pres m p (compile_row s)"
      "matchSegments (segs_of (ep_path s)) (splitPath p) = Some qs"
      "\<forall>r\<in>set rows. competes pres m p (compile_row r) \<longrightarrow> rank_of (compile_row s) \<le> rank_of (compile_row r)"
      using ex 2 assms(3) by blast
    have "rank_of (compile_row r) = rank_of (compile_row s)"
      using r(2,3,5) s(2,3,5) by (meson antisym)
    then have "r = s" using competing_clash [OF r(3) s(3)] r(2) s(2) assms(1) by (auto simp: rows_ok_pairwise)
    with r s show ?thesis by simp
  qed
qed

text \<open>C20: the order in which a table lists its rows carries no meaning: a permutation of an accepted table is accepted,
  and every request selects the same row with the same parameters in both.\<close>

theorem table_order_irrelevant:
  assumes "compileEndpointTable t = Inr c" and "mset (endpoints t') = mset (endpoints t)"
    and "reservedPrefixes t' = reservedPrefixes t"
  shows "\<exists>c'. compileEndpointTable t' = Inr c' \<and> (\<forall>m p. planEndpoint c' m p = planEndpoint c m p)"
proof -
  have ok: "rows_ok (endpoints t)" and pre: "prefixes_ok (reservedPrefixes t)"
    and c: "c = \<lparr>c_endpoints = map compile_row (endpoints t), c_reservedPrefixes = reservedPrefixes t\<rparr>"
    using assms(1) by (auto simp: compileEndpointTable_iff)
  have st: "set (endpoints t') = set (endpoints t)" using assms(2) by (metis set_mset_mset)
  have "mset (map ep_id (endpoints t')) = mset (map ep_id (endpoints t))" using assms(2) by simp
  then have "distinct (map ep_id (endpoints t')) = distinct (map ep_id (endpoints t))"
    by (metis distinct_count_atmost_1 set_mset_mset)
  then have ok': "rows_ok (endpoints t')" using ok st by (auto simp: rows_ok_pairwise)
  define c' where "c' = \<lparr>c_endpoints = map compile_row (endpoints t'), c_reservedPrefixes = reservedPrefixes t\<rparr>"
  have "compileEndpointTable t' = Inr c'"
    using ok' pre assms(3) by (simp add: compileEndpointTable_iff c'_def)
  moreover have "\<forall>m p. planEndpoint c' m p = planEndpoint c m p"
    using planEndpoint_perm [OF ok' ok st] c by (simp add: c'_def)
  ultimately show ?thesis by blast
qed

text \<open>A small table in which the competitors differ only in specificity, and its reversal.\<close>

definition sample_rows :: "unit row list" where
  "sample_rows =
     [\<lparr>ep_id = ''fallback'', ep_method = ''*'', ep_path = ''/notes/*''\<rparr>,
      \<lparr>ep_id = ''read'', ep_method = ''GET'', ep_path = ''/notes/:id''\<rparr>,
      \<lparr>ep_id = ''mine'', ep_method = ''GET'', ep_path = ''/notes/mine''\<rparr>,
      \<lparr>ep_id = ''hook'', ep_method = ''POST'', ep_path = ''/hooks/in''\<rparr>]"

definition sample_table :: "unit pattern_table" where
  "sample_table = \<lparr>endpoints = sample_rows, reservedPrefixes = [''/hooks'']\<rparr>"

definition sample_compiled :: "unit compiled_table" where
  "sample_compiled = \<lparr>c_endpoints = map compile_row sample_rows, c_reservedPrefixes = [''/hooks'']\<rparr>"

lemma sample_compiles: "compileEndpointTable sample_table = Inr sample_compiled"
  by code_simp

theorem planEndpoint_most_specific_witness:
  "compileEndpointTable sample_table = Inr sample_compiled \<and>
   planEndpoint sample_compiled ''GET'' ''/notes/mine'' =
     Endpoint \<lparr>ep_id = ''mine'', ep_method = ''GET'', ep_path = ''/notes/mine''\<rparr> [] \<and>
   compareSpecificity (segs_of ''/notes/mine'') (segs_of ''/notes/:id'') < 0"
proof -
  have "planEndpoint sample_compiled ''GET'' ''/notes/mine'' =
     Endpoint \<lparr>ep_id = ''mine'', ep_method = ''GET'', ep_path = ''/notes/mine''\<rparr> []"
    by code_simp
  moreover have "competes (reservedPrefixes sample_table) ''GET'' ''/notes/mine''
      (compile_row \<lparr>ep_id = ''read'', ep_method = ''GET'', ep_path = ''/notes/:id''\<rparr>)"
    by code_simp
  ultimately show ?thesis
    using planEndpoint_most_specific [OF sample_compiles, where m = "''GET''" and p = "''/notes/mine''"] sample_compiles
    by (simp add: sample_table_def sample_rows_def)
qed

theorem table_order_irrelevant_witness:
  "\<exists>c'. compileEndpointTable (sample_table\<lparr>endpoints := rev sample_rows\<rparr>) = Inr c' \<and>
     (\<forall>m p. planEndpoint c' m p = planEndpoint sample_compiled m p)"
  by (rule table_order_irrelevant [OF sample_compiles]) (simp_all add: sample_table_def)

end
