(* ===== verification/Permissions.thy ===== *)
theory Permissions
  imports Prelude
begin

text \<open>
  The policy matcher of \<open>packages/auth-core/src/permissions.ts\<close> over the permission entries of
  \<open>types.ts\<close>: wildcard actions, scoped grants, the scope values a principal holds an action on,
  and the check of an action pattern against an application's catalogue.
\<close>

subsection \<open>Permission entries\<close>

record scope =
  scope_type :: string
  scope_value :: string

datatype permission_source = Grant | Bootstrap | Terminal | Group string

record permission_entry =
  pe_action :: string
  pe_scope :: "scope option"
  pe_source :: permission_source

subsection \<open>Operations\<close>

definition matchAction :: "string \<Rightarrow> string \<Rightarrow> bool" where
  "matchAction pattern action =
     (if pattern = ''*'' then True
      else if endsWith pattern ''.*'' then startsWith action (butlast pattern)
      else pattern = action)"

fun permits :: "permission_entry list \<Rightarrow> string \<Rightarrow> scope option \<Rightarrow> bool" where
  "permits [] action scope = False"
| "permits (entry # entries) action scope =
     (let scopeOk = (case pe_scope entry of
                       None \<Rightarrow> True
                     | Some es \<Rightarrow> (case scope of
                         None \<Rightarrow> False
                       | Some sc \<Rightarrow> scope_type es = scope_type sc \<and> scope_value es = scope_value sc))
      in if scopeOk \<and> matchAction (pe_action entry) action then True
         else permits entries action scope)"

text \<open>The loop of \<open>scopedValues\<close>: \<open>values\<close> is the array built so far and \<open>seen\<close> the set beside it.
  \<^term>\<open>None\<close> is the source's \<open>null\<close>.\<close>

fun scopedValues_loop ::
  "permission_entry list \<Rightarrow> string \<Rightarrow> string \<Rightarrow> string list \<Rightarrow> string set \<Rightarrow> string list option" where
  "scopedValues_loop [] action dimension values seen = Some values"
| "scopedValues_loop (entry # entries) action dimension values seen =
     (if \<not> matchAction (pe_action entry) action then
        scopedValues_loop entries action dimension values seen
      else (case pe_scope entry of
          None \<Rightarrow> None
        | Some es \<Rightarrow>
            if scope_type es \<noteq> dimension then
              scopedValues_loop entries action dimension values seen
            else if scope_value es \<notin> seen then
              scopedValues_loop entries action dimension
                (values @ [scope_value es]) (insert (scope_value es) seen)
            else scopedValues_loop entries action dimension values seen))"

definition scopedValues :: "permission_entry list \<Rightarrow> string \<Rightarrow> string \<Rightarrow> string list option" where
  "scopedValues entries action dimension = scopedValues_loop entries action dimension [] {}"

definition isActionAllowed :: "string \<Rightarrow> string list \<Rightarrow> bool" where
  "isActionAllowed pattern catalog =
     (if pattern = ''*'' then True
      else if pattern \<in> set catalog then True
      else if endsWith pattern ''.*'' then list_ex (\<lambda>entry. startsWith entry (butlast pattern)) catalog
      else False)"

subsection \<open>The action matcher\<close>

text \<open>A scope coordinate is the pair of its two fields.\<close>

lemma scope_eq_iff:
  "(a :: scope) = b \<longleftrightarrow> scope_type a = scope_type b \<and> scope_value a = scope_value b"
  by (cases a; cases b) auto

lemma endsWith_wildcard: "endsWith p ''.*'' \<longleftrightarrow> (\<exists>q. p = q @ ''.*'')"
  by (simp add: endsWith_iff)

lemma matchAction_star [simp]: "matchAction ''*'' a"
  by (simp add: matchAction_def)

lemma matchAction_exact:
  "p \<noteq> ''*'' \<Longrightarrow> \<not> endsWith p ''.*'' \<Longrightarrow> matchAction p a \<longleftrightarrow> p = a"
  by (simp add: matchAction_def)

lemma matchAction_namespace: "matchAction (q @ ''.*'') a \<longleftrightarrow> startsWith a (q @ ''.'')"
  by (auto simp: matchAction_def endsWith_wildcard butlast_append)

lemma matchAction_refl: "matchAction p p"
  by (auto simp: matchAction_def endsWith_wildcard butlast_append startsWith_iff)

text \<open>A pattern grants exactly the actions its form names: \<open>*\<close> every action, \<open>q.*\<close> the actions
  that begin with \<open>q\<close> followed by a dot (so never a sibling namespace that merely shares the
  letters of \<open>q\<close>), and any other pattern only itself.\<close>

theorem matchAction_forms:
  "matchAction p a \<longleftrightarrow>
     p = ''*'' \<or> (\<exists>q r. p = q @ ''.*'' \<and> a = q @ ''.'' @ r) \<or> (p = a \<and> \<not> endsWith p ''.*'')"
proof (cases "endsWith p ''.*''")
  case True
  then obtain q where p: "p = q @ ''.*''" by (auto simp: endsWith_wildcard)
  show ?thesis
  proof (cases "p = ''*''")
    case False
    have "matchAction p a \<longleftrightarrow> startsWith a (q @ ''.'')"
      unfolding p by (rule matchAction_namespace)
    then show ?thesis
      using True False p by (auto simp: startsWith_iff)
  qed simp
next
  case False
  then have "\<nexists>q. p = q @ ''.*''" by (simp add: endsWith_wildcard)
  with False show ?thesis
    by (cases "p = ''*''") (auto simp: matchAction_exact)
qed

subsection \<open>Granted scopes\<close>

definition scope_ok :: "permission_entry \<Rightarrow> scope option \<Rightarrow> bool" where
  "scope_ok e sc \<longleftrightarrow> pe_scope e = None \<or> (sc \<noteq> None \<and> pe_scope e = sc)"

lemma permits_iff:
  "permits es a sc \<longleftrightarrow> (\<exists>e\<in>set es. scope_ok e sc \<and> matchAction (pe_action e) a)"
  by (induction es)
     (auto simp: scope_ok_def scope_eq_iff Let_def split: option.splits)

lemma permits_global: "permits es a None \<longleftrightarrow> (\<exists>e\<in>set es. pe_scope e = None \<and> matchAction (pe_action e) a)"
  by (auto simp: permits_iff scope_ok_def)

lemma permits_mono: "set es \<subseteq> set es' \<Longrightarrow> permits es a sc \<Longrightarrow> permits es' a sc"
  by (auto simp: permits_iff)

lemma permits_global_everywhere: "permits es a None \<Longrightarrow> permits es a sc"
  by (auto simp: permits_iff scope_ok_def)

text \<open>What the loop adds to the values it was given: the values of the matching entries of the
  dimension, each once; and a matching global entry ends it with \<open>null\<close>.\<close>

definition scoped_set :: "permission_entry list \<Rightarrow> string \<Rightarrow> string \<Rightarrow> string set" where
  "scoped_set es a d = {v. \<exists>e\<in>set es. matchAction (pe_action e) a \<and>
      pe_scope e = Some \<lparr>scope_type = d, scope_value = v\<rparr>}"

lemma scoped_set_Cons:
  "scoped_set (e # es) a d =
     (case pe_scope e of
        Some sc \<Rightarrow> if matchAction (pe_action e) a \<and> scope_type sc = d
                   then insert (scope_value sc) (scoped_set es a d) else scoped_set es a d
      | None \<Rightarrow> scoped_set es a d)"
  by (auto simp: scoped_set_def scope_eq_iff split: option.splits)

lemma scopedValues_loop_None:
  "scopedValues_loop es a d vs seen = None \<longleftrightarrow> permits es a None"
  by (induction es arbitrary: vs seen) (auto simp: permits_iff scope_ok_def Let_def split: option.splits)

lemma scopedValues_loop_Some:
  "scopedValues_loop es a d vs seen = Some ws \<Longrightarrow> set vs = seen \<Longrightarrow> distinct vs \<Longrightarrow>
     set ws = seen \<union> scoped_set es a d \<and> distinct ws"
proof (induction es arbitrary: vs seen)
  case Nil
  then show ?case by (simp add: scoped_set_def)
next
  case (Cons e es)
  show ?case
  proof (cases "matchAction (pe_action e) a \<and> pe_scope e \<noteq> None")
    case False
    with Cons show ?thesis
      by (auto simp: scoped_set_Cons split: if_splits option.splits)
  next
    case True
    then obtain sc where sc: "pe_scope e = Some sc" and m: "matchAction (pe_action e) a" by auto
    show ?thesis
    proof (cases "scope_type sc = d \<and> scope_value sc \<notin> seen")
      case True
      with Cons.prems sc m have
        "scopedValues_loop es a d (vs @ [scope_value sc]) (insert (scope_value sc) seen) = Some ws"
        by simp
      from Cons.IH [OF this] Cons.prems True sc m show ?thesis
        by (auto simp: scoped_set_Cons)
    next
      case False
      with Cons.prems sc m have "scopedValues_loop es a d vs seen = Some ws"
        by (auto split: if_splits)
      from Cons.IH [OF this] Cons.prems False sc m show ?thesis
        by (auto simp: scoped_set_Cons)
    qed
  qed
qed

lemma scoped_set_permits:
  "\<not> permits es a None \<Longrightarrow>
     v \<in> scoped_set es a d \<longleftrightarrow> permits es a (Some \<lparr>scope_type = d, scope_value = v\<rparr>)"
  by (auto simp: scoped_set_def permits_iff scope_ok_def)

text \<open>C35: \<open>scopedValues\<close> agrees with \<open>permits\<close>: it answers \<open>null\<close> exactly when the action is held
  globally, and otherwise lists, each once, exactly the values of the dimension the action is
  permitted on. A list filter built from it therefore shows what the per-object check admits.\<close>

theorem scopedValues_agrees_with_permits:
  "(case scopedValues es a d of
      None \<Rightarrow> permits es a None
    | Some vs \<Rightarrow> \<not> permits es a None \<and> distinct vs \<and>
        (\<forall>v. v \<in> set vs \<longleftrightarrow> permits es a (Some \<lparr>scope_type = d, scope_value = v\<rparr>)))"
proof (cases "scopedValues es a d")
  case None
  then have "permits es a None"
    using scopedValues_loop_None [of es a d "[]" "{}"] by (simp add: scopedValues_def)
  with None show ?thesis by simp
next
  case (Some vs)
  then have "\<not> permits es a None"
    using scopedValues_loop_None [of es a d "[]" "{}"] by (auto simp: scopedValues_def)
  moreover from Some have "set vs = scoped_set es a d \<and> distinct vs"
    using scopedValues_loop_Some [of es a d "[]" "{}" vs] by (simp add: scopedValues_def)
  ultimately show ?thesis
    using Some by (simp add: scoped_set_permits)
qed

subsection \<open>Catalogue validation\<close>

text \<open>A pattern passes the catalogue check exactly when it is the universal wildcard or matches
  some action the application exposes: no accepted pattern grants nothing, and no pattern that
  grants something is refused.\<close>

theorem isActionAllowed_iff_matches:
  "isActionAllowed p catalog \<longleftrightarrow> p = ''*'' \<or> (\<exists>a\<in>set catalog. matchAction p a)"
proof (cases "p = ''*'' \<or> p \<in> set catalog")
  case True
  then show ?thesis
    using matchAction_refl by (auto simp: isActionAllowed_def)
next
  case False
  then show ?thesis
    by (auto simp: isActionAllowed_def matchAction_def list_ex_iff)
qed

end
