(* ===== verification/Token.thy ===== *)
theory Token
  imports Permissions Json Web_Url "HOL-Library.Monad_Syntax"
begin

text \<open>
  The access token of \<open>packages/auth-core/src/token.ts\<close>: the claims IAM builds before it signs them
  and the parser that narrows a verified payload back into claims, with the names of
  \<open>workloads.ts\<close> and the mailbox form of \<open>membership.ts\<close> they check. A parser that answers a value,
  \<open>null\<close> or \<open>undefined\<close> has a doubly optional result: \<^term>\<open>None\<close> is \<open>undefined\<close> (malformed),
  \<^term>\<open>Some None\<close> is \<open>null\<close> (absent).
\<close>

subsection \<open>Claims\<close>

datatype token_principal_type = Pt_user | Pt_service | Pt_job | Pt_webhook | Pt_public | Pt_app

fun isWorkloadKind :: "token_principal_type \<Rightarrow> bool" where
  "isWorkloadKind Pt_user = False"
| "isWorkloadKind Pt_service = False"
| "isWorkloadKind Pt_job = True"
| "isWorkloadKind Pt_webhook = True"
| "isWorkloadKind Pt_public = True"
| "isWorkloadKind Pt_app = True"

record terminal_claims =
  terminal_id :: string
  terminal_label :: string

record link_claims =
  link_mount :: string
  link_chain :: "scope list"

record oauth_claims =
  oa_app :: string
  oa_clientId :: string
  oa_scopes :: "string list"
  oa_grantId :: string
  oa_tokenId :: string

record access_token_claims =
  iss :: string
  aud :: string
  sub :: string
  iat :: number
  exp_at :: number
  perms :: "permission_entry list"
  label :: "string option"
  ptype :: "token_principal_type option"
  workload :: "string option"
  email :: "string option"
  session :: bool
  amr :: "string option"
  terminal :: "terminal_claims option"
  oauth :: "oauth_claims option"
  link :: "link_claims option"

datatype token_audience_profile = AppProfile string | ResourceProfile string string

definition TERMINAL_AUTHENTICATION_METHOD :: string where
  "TERMINAL_AUTHENTICATION_METHOD = ''terminal_assertion''"

definition TOKEN_REFRESH_SKEW_SECONDS :: number where
  "TOKEN_REFRESH_SKEW_SECONDS = 30"

definition API_KEY_PREFIX :: string where "API_KEY_PREFIX = ''px_''"
definition FABRIKA_COOKIE_PREFIX :: string where "FABRIKA_COOKIE_PREFIX = ''__Host-px_''"
definition SESSION_COOKIE :: string where "SESSION_COOKIE = FABRIKA_COOKIE_PREFIX @ ''session''"

datatype principal_kind = Kind token_principal_type | Kind_link

definition principalKind :: "access_token_claims \<Rightarrow> principal_kind option" where
  "principalKind c =
     (case ptype c of Some t \<Rightarrow> Some (Kind t)
      | None \<Rightarrow> (case link c of None \<Rightarrow> None | Some _ \<Rightarrow> Some Kind_link))"

definition matchesTokenAudience :: "access_token_claims \<Rightarrow> token_audience_profile \<Rightarrow> bool" where
  "matchesTokenAudience c profile =
     (case profile of
        AppProfile app \<Rightarrow> oauth c = None \<and> aud c = app
      | ResourceProfile app resource \<Rightarrow>
          (case oauth c of None \<Rightarrow> False | Some oa \<Rightarrow> aud c = resource \<and> oa_app oa = app))"

subsection \<open>Names\<close>

definition name_char :: "char \<Rightarrow> bool" where
  "name_char c \<longleftrightarrow> is_alnum c \<or> c = CHR ''_''"

definition plainName :: "string \<Rightarrow> bool" where
  "plainName s \<longleftrightarrow> s \<noteq> [] \<and> is_alpha (hd s) \<and> list_all name_char (tl s)"

definition PUBLIC_WORKLOAD_NAME :: "string \<Rightarrow> bool" where
  "PUBLIC_WORKLOAD_NAME s = (let parts = splitOn (CHR ''.'') s in 2 \<le> length parts \<and> list_all plainName parts)"

definition isOwnWorkloadName :: "token_principal_type \<Rightarrow> string \<Rightarrow> bool" where
  "isOwnWorkloadName kind name =
     (if kind = Pt_public then length name \<le> 128 \<and> PUBLIC_WORKLOAD_NAME name
      else plainName name \<and> length name \<le> 64)"

definition WORKLOAD_NAME :: "string \<Rightarrow> bool" where
  "WORKLOAD_NAME s \<longleftrightarrow> s \<noteq> [] \<and> length s \<le> 64 \<and> is_alnum (hd s) \<and>
     list_all (\<lambda>c. is_alnum c \<or> c = CHR ''_'' \<or> c = CHR ''-'') (tl s)"

definition isWorkloadName :: "token_principal_type \<Rightarrow> string \<Rightarrow> bool" where
  "isWorkloadName kind value = (if kind = Pt_public then isOwnWorkloadName Pt_public value else WORKLOAD_NAME value)"

definition isNormalizedMailbox :: "string \<Rightarrow> bool" where
  "isNormalizedMailbox value \<longleftrightarrow>
     value = lower (trim value) \<and> \<not> list_ex js_space value \<and>
     (case splitOn (CHR ''@'') value of [a, b] \<Rightarrow> a \<noteq> [] \<and> b \<noteq> [] | _ \<Rightarrow> False)"

subsection \<open>Building claims\<close>

record access_token_params =
  p_iss :: string
  p_app :: string
  p_subject :: string
  p_type :: "token_principal_type option"
  p_workload :: "string option"
  p_label :: "string option"
  p_email :: "string option"
  p_session :: bool
  p_terminal :: "terminal_claims option"
  p_permissions :: "permission_entry list"
  p_issuedAt :: number
  p_expiresAt :: number
  p_link :: "link_claims option"

definition isTerminalClaims :: "terminal_claims \<Rightarrow> bool" where
  "isTerminalClaims t \<longleftrightarrow> terminal_id t \<noteq> [] \<and> terminal_label t \<noteq> []"

datatype claims_error = WorkloadName | Mailbox | SessionKind | TerminalKind | LinkPrincipal | ResourceClaims

text \<open>Each \<open>throw\<close> of the source is one \<open>Inl\<close>; the checks stand in the source's order.\<close>

definition buildAccessClaims :: "access_token_params \<Rightarrow> claims_error + access_token_claims" where
  "buildAccessClaims p =
     (let kind = (case p_type p of Some t \<Rightarrow> if isWorkloadKind t then Some t else None | None \<Rightarrow> None) in
      if (case kind of
            None \<Rightarrow> p_workload p \<noteq> None
          | Some k \<Rightarrow> (case p_workload p of None \<Rightarrow> True | Some w \<Rightarrow> \<not> isWorkloadName k w))
      then Inl WorkloadName
      else if (case p_email p of None \<Rightarrow> False
               | Some m \<Rightarrow> p_type p \<noteq> Some Pt_user \<or> \<not> isNormalizedMailbox m)
      then Inl Mailbox
      else if p_session p \<and> (case p_type p of None \<Rightarrow> True | Some t \<Rightarrow> isWorkloadKind t)
      then Inl SessionKind
      else if (case p_terminal p of None \<Rightarrow> False
               | Some t \<Rightarrow> p_type p \<noteq> Some Pt_user \<or> \<not> p_session p \<or> \<not> isTerminalClaims t)
      then Inl TerminalKind
      else if p_link p \<noteq> None \<and> p_type p \<noteq> None
      then Inl LinkPrincipal
      else Inr \<lparr>iss = p_iss p, aud = p_app p, sub = p_subject p, iat = p_issuedAt p, exp_at = p_expiresAt p,
        perms = p_permissions p, label = p_label p, ptype = p_type p, workload = p_workload p,
        email = p_email p, session = p_session p,
        amr = map_option (\<lambda>_. TERMINAL_AUTHENTICATION_METHOD) (p_terminal p),
        terminal = p_terminal p, oauth = None, link = p_link p\<rparr>)"

subsection \<open>Structural parsers\<close>

definition parseOptionalPrincipalType :: "json option \<Rightarrow> token_principal_type option option" where
  "parseOptionalPrincipalType value =
     (case value of
        None \<Rightarrow> Some None
      | Some JNull \<Rightarrow> Some None
      | Some (JStr s) \<Rightarrow>
          (if s = ''user'' then Some (Some Pt_user)
           else if s = ''service'' then Some (Some Pt_service)
           else if s = ''job'' then Some (Some Pt_job)
           else if s = ''webhook'' then Some (Some Pt_webhook)
           else if s = ''public'' then Some (Some Pt_public)
           else if s = ''app'' then Some (Some Pt_app)
           else None)
      | Some _ \<Rightarrow> None)"

definition parseNullableString :: "json option \<Rightarrow> string option option" where
  "parseNullableString value =
     (case value of None \<Rightarrow> Some None | Some JNull \<Rightarrow> Some None | Some (JStr s) \<Rightarrow> Some (Some s) | Some _ \<Rightarrow> None)"

definition parseScope :: "json option \<Rightarrow> scope option option" where
  "parseScope value =
     (if value = Some JNull then Some None
      else do {
        t \<leftarrow> stringField value ''type'';
        v \<leftarrow> stringField value ''value'';
        Some (Some \<lparr>scope_type = t, scope_value = v\<rparr>)
      })"

definition parseSource :: "json option \<Rightarrow> permission_source option" where
  "parseSource value =
     (case value of
        Some (JStr s) \<Rightarrow>
          (if s = ''grant'' then Some Grant
           else if s = ''bootstrap'' then Some Bootstrap
           else if s = ''terminal'' then Some Terminal
           else if startsWith s ''group:'' then Some (Group (drop 6 s))
           else None)
      | _ \<Rightarrow> None)"

fun parse_entries :: "json list \<Rightarrow> permission_entry list option" where
  "parse_entries [] = Some []"
| "parse_entries (item # items) = do {
     action \<leftarrow> stringField (Some item) ''action'';
     scope \<leftarrow> parseScope (propOf (Some item) ''scope'');
     source \<leftarrow> parseSource (propOf (Some item) ''source'');
     rest \<leftarrow> parse_entries items;
     Some (\<lparr>pe_action = action, pe_scope = scope, pe_source = source\<rparr> # rest)
   }"

definition parsePermissionEntries :: "json option \<Rightarrow> permission_entry list option" where
  "parsePermissionEntries value = (case value of Some (JArr items) \<Rightarrow> parse_entries items | _ \<Rightarrow> None)"

definition parseWorkload :: "json option \<Rightarrow> token_principal_type option \<Rightarrow> string option option" where
  "parseWorkload value pt =
     (case pt of
        Some k \<Rightarrow>
          (if isWorkloadKind k
           then (case value of Some (JStr s) \<Rightarrow> if isWorkloadName k s then Some (Some s) else None | _ \<Rightarrow> None)
           else if value = None then Some None else None)
      | None \<Rightarrow> if value = None then Some None else None)"

definition parseEmail :: "json option \<Rightarrow> token_principal_type option \<Rightarrow> string option option" where
  "parseEmail value pt =
     (case value of
        None \<Rightarrow> Some None
      | Some (JStr s) \<Rightarrow> if pt = Some Pt_user \<and> isNormalizedMailbox s then Some (Some s) else None
      | Some _ \<Rightarrow> None)"

definition parseTerminalClaims :: "json option \<Rightarrow> json option \<Rightarrow> terminal_claims option option" where
  "parseTerminalClaims amrValue value =
     (if amrValue = None \<and> value = None then Some None
      else if amrValue \<noteq> Some (JStr TERMINAL_AUTHENTICATION_METHOD) then None
      else do {
        i \<leftarrow> stringField value ''id'';
        l \<leftarrow> stringField value ''label'';
        if isTerminalClaims \<lparr>terminal_id = i, terminal_label = l\<rparr>
        then Some (Some \<lparr>terminal_id = i, terminal_label = l\<rparr>) else None
      })"

fun parse_chain :: "json list \<Rightarrow> scope list option" where
  "parse_chain [] = Some []"
| "parse_chain (item # items) =
     (case parseScope (Some item) of
        Some (Some sc) \<Rightarrow> map_option (\<lambda>chain. sc # chain) (parse_chain items)
      | _ \<Rightarrow> None)"

definition parseLinkClaims :: "json option \<Rightarrow> link_claims option option" where
  "parseLinkClaims value =
     (if value = None then Some None
      else (case (stringField value ''mount'', propOf value ''chain'') of
         (Some mount, Some (JArr items)) \<Rightarrow>
           (if mount = [] \<or> items = [] then None
            else map_option (\<lambda>chain. Some \<lparr>link_mount = mount, link_chain = chain\<rparr>) (parse_chain items))
       | _ \<Rightarrow> None))"

definition parseOAuthClaims :: "url_parser \<Rightarrow> json option \<Rightarrow> oauth_claims option option" where
  "parseOAuthClaims parseUrl payload =
     (let app = propOf payload ''app''; clientId = propOf payload ''client_id'';
          scope = propOf payload ''scope''; grantId = propOf payload ''grant''; tokenId = propOf payload ''jti'' in
      if app = None \<and> clientId = None \<and> scope = None \<and> grantId = None \<and> tokenId = None then Some None
      else do {
        a \<leftarrow> (case app of Some (JStr s) \<Rightarrow> if s = [] then None else Some s | _ \<Rightarrow> None);
        c \<leftarrow> (case clientId of Some (JStr s) \<Rightarrow> if isCimdClientId parseUrl s then Some s else None | _ \<Rightarrow> None);
        ss \<leftarrow> (case scope of Some (JStr s) \<Rightarrow> parseOAuthScopes (splitOn (CHR '' '') s) | _ \<Rightarrow> None);
        g \<leftarrow> (case grantId of Some (JStr s) \<Rightarrow> if s = [] then None else Some s | _ \<Rightarrow> None);
        t \<leftarrow> (case tokenId of Some (JStr s) \<Rightarrow> if s = [] then None else Some s | _ \<Rightarrow> None);
        Some (Some \<lparr>oa_app = a, oa_clientId = c, oa_scopes = ss, oa_grantId = g, oa_tokenId = t\<rparr>)
      })"

definition guardO :: "bool \<Rightarrow> unit option" where
  "guardO b = (if b then Some () else None)"

definition parseAccessClaims :: "url_parser \<Rightarrow> json option \<Rightarrow> access_token_claims option" where
  "parseAccessClaims parseUrl payload = do {
     iss \<leftarrow> stringField payload ''iss'';
     aud \<leftarrow> stringField payload ''aud'';
     sub \<leftarrow> stringField payload ''sub'';
     iat \<leftarrow> numberField payload ''iat'';
     exp \<leftarrow> numberField payload ''exp'';
     perms \<leftarrow> parsePermissionEntries (propOf payload ''perms'');
     label \<leftarrow> parseNullableString (propOf payload ''label'');
     ptype \<leftarrow> parseOptionalPrincipalType (propOf payload ''ptype'');
     oauth \<leftarrow> parseOAuthClaims parseUrl payload;
     guardO (oauth = None \<or> (ptype = Some Pt_user \<and> isOAuthResourceUri parseUrl aud));
     link \<leftarrow> parseLinkClaims (propOf payload ''link'');
     guardO (link = None \<or> (ptype = None \<and> oauth = None));
     workload \<leftarrow> parseWorkload (propOf payload ''workload'') ptype;
     email \<leftarrow> parseEmail (propOf payload ''email'') ptype;
     guardO (propOf payload ''session'' = None \<or>
       (propOf payload ''session'' = Some (JBool True) \<and>
        (case ptype of None \<Rightarrow> False | Some t \<Rightarrow> \<not> isWorkloadKind t) \<and> oauth = None));
     terminal \<leftarrow> parseTerminalClaims (propOf payload ''amr'') (propOf payload ''terminal'');
     guardO (terminal = None \<or>
       (ptype = Some Pt_user \<and> propOf payload ''session'' = Some (JBool True) \<and> oauth = None));
     Some \<lparr>iss = iss, aud = aud, sub = sub, iat = iat, exp_at = exp, perms = perms, label = label,
       ptype = ptype, workload = workload, email = email,
       session = (propOf payload ''session'' = Some (JBool True)),
       amr = map_option (\<lambda>_. TERMINAL_AUTHENTICATION_METHOD) terminal,
       terminal = terminal, oauth = oauth, link = link\<rparr>
   }"

subsection \<open>Resource tokens\<close>

record resource_access_token_params =
  r_iss :: string
  r_app :: string
  r_resource :: string
  r_subject :: string
  r_label :: "string option"
  r_permissions :: "permission_entry list"
  r_issuedAt :: number
  r_expiresAt :: number
  r_clientId :: string
  r_scopes :: "string list"
  r_grantId :: string
  r_tokenId :: string

text \<open>The JSON of the claim objects: what \<open>JSON.stringify\<close> writes and \<open>JSON.parse\<close> reads back. An
  absent (\<open>undefined\<close>) property is not written.\<close>

definition scopeJson :: "scope \<Rightarrow> json" where
  "scopeJson s = JObj [(''type'', JStr (scope_type s)), (''value'', JStr (scope_value s))]"

fun sourceText :: "permission_source \<Rightarrow> string" where
  "sourceText Grant = ''grant''"
| "sourceText Bootstrap = ''bootstrap''"
| "sourceText Terminal = ''terminal''"
| "sourceText (Group ref) = ''group:'' @ ref"

definition entryJson :: "permission_entry \<Rightarrow> json" where
  "entryJson e = JObj [(''action'', JStr (pe_action e)),
     (''scope'', case pe_scope e of None \<Rightarrow> JNull | Some s \<Rightarrow> scopeJson s),
     (''source'', JStr (sourceText (pe_source e)))]"

fun ptypeText :: "token_principal_type \<Rightarrow> string" where
  "ptypeText Pt_user = ''user''"
| "ptypeText Pt_service = ''service''"
| "ptypeText Pt_job = ''job''"
| "ptypeText Pt_webhook = ''webhook''"
| "ptypeText Pt_public = ''public''"
| "ptypeText Pt_app = ''app''"

definition nullableJson :: "string option \<Rightarrow> json" where
  "nullableJson v = (case v of None \<Rightarrow> JNull | Some s \<Rightarrow> JStr s)"

definition opt_field :: "string \<Rightarrow> json option \<Rightarrow> (string \<times> json) list" where
  "opt_field k v = (case v of None \<Rightarrow> [] | Some j \<Rightarrow> [(k, j)])"

definition linkJson :: "link_claims \<Rightarrow> json" where
  "linkJson l = JObj [(''mount'', JStr (link_mount l)), (''chain'', JArr (map scopeJson (link_chain l)))]"

definition terminalJson :: "terminal_claims \<Rightarrow> json" where
  "terminalJson t = JObj [(''id'', JStr (terminal_id t)), (''label'', JStr (terminal_label t))]"

text \<open>The wire form of an app token's claims.\<close>

definition claimsJson :: "access_token_claims \<Rightarrow> json" where
  "claimsJson c = JObj (
     [(''iss'', JStr (iss c)), (''aud'', JStr (aud c)), (''sub'', JStr (sub c)),
      (''iat'', JNum (iat c)), (''exp'', JNum (exp_at c)),
      (''perms'', JArr (map entryJson (perms c))), (''label'', nullableJson (label c))]
     @ opt_field ''ptype'' (map_option (\<lambda>t. JStr (ptypeText t)) (ptype c))
     @ opt_field ''workload'' (map_option JStr (workload c))
     @ opt_field ''email'' (map_option JStr (email c))
     @ opt_field ''session'' (if session c then Some (JBool True) else None)
     @ opt_field ''amr'' (map_option JStr (amr c))
     @ opt_field ''terminal'' (map_option terminalJson (terminal c))
     @ opt_field ''link'' (map_option linkJson (link c)))"

definition resourcePayload :: "resource_access_token_params \<Rightarrow> json" where
  "resourcePayload p = JObj
     [(''iss'', JStr (r_iss p)), (''aud'', JStr (r_resource p)), (''sub'', JStr (r_subject p)),
      (''iat'', JNum (r_issuedAt p)), (''exp'', JNum (r_expiresAt p)),
      (''perms'', JArr (map entryJson (r_permissions p))), (''ptype'', JStr ''user''),
      (''label'', nullableJson (r_label p)), (''app'', JStr (r_app p)),
      (''client_id'', JStr (r_clientId p)), (''scope'', JStr (joinWith '' '' (r_scopes p))),
      (''grant'', JStr (r_grantId p)), (''jti'', JStr (r_tokenId p))]"

definition buildResourceAccessClaims :: "url_parser \<Rightarrow> resource_access_token_params \<Rightarrow> claims_error + json" where
  "buildResourceAccessClaims parseUrl p =
     (case parseAccessClaims parseUrl (Some (resourcePayload p)) of
        None \<Rightarrow> Inl ResourceClaims
      | Some c \<Rightarrow> if oauth c = None then Inl ResourceClaims else Inr (resourcePayload p))"

record resolved_principal =
  rp_id :: string
  rp_type :: token_principal_type
  rp_label :: string
  rp_permissions :: "permission_entry list"
  rp_requestId :: string

definition accessClaimsToResolved :: "access_token_claims \<Rightarrow> string \<Rightarrow> resolved_principal option" where
  "accessClaimsToResolved c requestId =
     (case ptype c of
        None \<Rightarrow> None
      | Some t \<Rightarrow> if isWorkloadKind t then None else
          Some \<lparr>rp_id = sub c, rp_type = t,
            rp_label = (case label c of Some l \<Rightarrow> l | None \<Rightarrow> sub c),
            rp_permissions = perms c, rp_requestId = requestId\<rparr>)"

subsection \<open>Reading back what was written\<close>

lemma map_of_opt_field:
  "map_of (opt_field k v @ rest) key = (if key = k \<and> v \<noteq> None then v else map_of rest key)"
  by (cases v) (auto simp: opt_field_def)

lemma map_of_opt_field_last:
  "map_of (opt_field k v) key = (if key = k then v else None)"
  by (cases v) (auto simp: opt_field_def)

lemmas opt_field_simps = map_of_opt_field map_of_opt_field_last

lemma guardO_bind [simp]: "Option.bind (guardO b) f = (if b then f () else None)"
  by (simp add: guardO_def)

lemma parseScope_scopeJson [simp]: "parseScope (Some (scopeJson s)) = Some (Some s)"
  by (simp add: parseScope_def scopeJson_def stringField_def)

lemma parseScope_nullable [simp]:
  "parseScope (Some (case sc of None \<Rightarrow> JNull | Some s \<Rightarrow> scopeJson s)) = Some sc"
  by (cases sc) (simp_all add: parseScope_def scopeJson_def stringField_def)

lemma parseSource_sourceText [simp]: "parseSource (Some (JStr (sourceText s))) = Some s"
  by (cases s) (simp_all add: parseSource_def startsWith_def)

lemma parse_entries_entryJson [simp]: "parse_entries (map entryJson es) = Some es"
  by (induction es) (simp_all add: entryJson_def stringField_def)

lemma parse_chain_scopeJson [simp]: "parse_chain (map scopeJson ss) = Some ss"
  by (induction ss) simp_all

lemma parseOptionalPrincipalType_text [simp]:
  "parseOptionalPrincipalType (map_option (\<lambda>t. JStr (ptypeText t)) pt) = Some pt"
proof (cases pt)
  case (Some t)
  then show ?thesis by (cases t) (simp_all add: parseOptionalPrincipalType_def)
qed (simp add: parseOptionalPrincipalType_def)

lemma parseNullableString_json [simp]: "parseNullableString (Some (nullableJson v)) = Some v"
  by (cases v) (simp_all add: parseNullableString_def nullableJson_def)

text \<open>What a share link's claims need to be read back: a mount and a non-empty chain.\<close>

definition link_readable :: "link_claims option \<Rightarrow> bool" where
  "link_readable l = (case l of None \<Rightarrow> True | Some lc \<Rightarrow> link_mount lc \<noteq> [] \<and> link_chain lc \<noteq> [])"

lemma parseLinkClaims_json:
  "link_readable l \<Longrightarrow> parseLinkClaims (map_option linkJson l) = Some l"
  by (cases l) (simp_all add: link_readable_def parseLinkClaims_def linkJson_def stringField_def)

lemma parseTerminalClaims_json:
  "(\<And>t. tc = Some t \<Longrightarrow> isTerminalClaims t) \<Longrightarrow>
   parseTerminalClaims (map_option JStr (map_option (\<lambda>_. TERMINAL_AUTHENTICATION_METHOD) tc))
     (map_option terminalJson tc) = Some tc"
  by (cases tc) (simp_all add: parseTerminalClaims_def terminalJson_def stringField_def isTerminalClaims_def)

text \<open>The invariant of every claim set the parser accepts: a workload token and only it names its
  workload, only a person's token has a mailbox, only a person's or service's token is a session,
  a terminal belongs to a person's session, an OAuth token is a person's and a share link has no
  principal.\<close>

definition wf_claims :: "access_token_claims \<Rightarrow> bool" where
  "wf_claims c \<longleftrightarrow>
     (case ptype c of
        None \<Rightarrow> workload c = None
      | Some t \<Rightarrow> (case workload c of None \<Rightarrow> \<not> isWorkloadKind t | Some w \<Rightarrow> isWorkloadKind t \<and> isWorkloadName t w)) \<and>
     (case email c of None \<Rightarrow> True | Some m \<Rightarrow> ptype c = Some Pt_user \<and> isNormalizedMailbox m) \<and>
     (session c \<longrightarrow> ptype c \<in> {Some Pt_user, Some Pt_service} \<and> oauth c = None) \<and>
     (case terminal c of None \<Rightarrow> amr c = None
      | Some t \<Rightarrow> amr c = Some TERMINAL_AUTHENTICATION_METHOD \<and> isTerminalClaims t \<and>
          ptype c = Some Pt_user \<and> session c \<and> oauth c = None) \<and>
     (oauth c \<noteq> None \<longrightarrow> ptype c = Some Pt_user) \<and>
     (link c \<noteq> None \<longrightarrow> ptype c = None \<and> oauth c = None)"

lemma parseWorkload_wf:
  "parseWorkload v pt = Some w \<Longrightarrow>
   (case pt of
      None \<Rightarrow> w = None
    | Some t \<Rightarrow> (case w of None \<Rightarrow> \<not> isWorkloadKind t | Some n \<Rightarrow> isWorkloadKind t \<and> isWorkloadName t n))"
  by (auto simp: parseWorkload_def split: option.splits json.splits if_splits)

lemma parseEmail_wf:
  "parseEmail v pt = Some e \<Longrightarrow>
   (case e of None \<Rightarrow> True | Some m \<Rightarrow> pt = Some Pt_user \<and> isNormalizedMailbox m)"
  by (auto simp: parseEmail_def split: option.splits json.splits if_splits)

lemma parseTerminalClaims_wf:
  "parseTerminalClaims a v = Some tm \<Longrightarrow> (case tm of None \<Rightarrow> True | Some t \<Rightarrow> isTerminalClaims t)"
  by (auto simp: parseTerminalClaims_def bind_eq_Some_conv split: if_splits)

lemma not_workload_kind: "\<not> isWorkloadKind t \<longleftrightarrow> t = Pt_user \<or> t = Pt_service"
  by (cases t) auto

text \<open>C25: Every claim set \<open>parseAccessClaims\<close> accepts satisfies the claim invariant, whatever the
  payload is and whatever the URL parser answers.\<close>

theorem parseAccessClaims_wf:
  assumes "parseAccessClaims parseUrl payload = Some c"
  shows "wf_claims c"
proof -
  have shape: "wf_claims \<lparr>iss = i, aud = a, sub = su, iat = t0, exp_at = t1, perms = ps, label = la,
      ptype = pt, workload = wl, email = em, session = (s = Some (JBool True)),
      amr = map_option (\<lambda>_. TERMINAL_AUTHENTICATION_METHOD) tm, terminal = tm, oauth = oa, link = ln\<rparr>"
    if "oa = None \<or> (pt = Some Pt_user \<and> isOAuthResourceUri parseUrl a)"
      and "ln = None \<or> (pt = None \<and> oa = None)"
      and wl: "parseWorkload wj pt = Some wl" and em: "parseEmail ej pt = Some em"
      and "s = None \<or> (s = Some (JBool True) \<and>
        (case pt of None \<Rightarrow> False | Some t \<Rightarrow> \<not> isWorkloadKind t) \<and> oa = None)"
      and tm: "parseTerminalClaims aj tj = Some tm"
      and "tm = None \<or> (pt = Some Pt_user \<and> s = Some (JBool True) \<and> oa = None)"
    for i a su t0 t1 ps la pt wl em s tm oa ln wj ej aj tj
    unfolding wf_claims_def access_token_claims.simps
    using that parseWorkload_wf [OF wl] parseEmail_wf [OF em] parseTerminalClaims_wf [OF tm]
    by (intro conjI) (auto simp: not_workload_kind split: option.splits)
  from assms show ?thesis
    unfolding parseAccessClaims_def guardO_def bind_eq_Some_conv
    by (elim exE conjE) (simp split: if_splits, erule (6) shape [THEN back_subst [of wf_claims]])
qed

lemma buildAccessClaims_checks:
  assumes "buildAccessClaims p = Inr c"
  shows "oauth c = None" and "link c = p_link p" and "aud c = p_app p"
    and "amr c = map_option (\<lambda>_. TERMINAL_AUTHENTICATION_METHOD) (terminal c)"
    and "\<And>t. terminal c = Some t \<Longrightarrow> isTerminalClaims t \<and> ptype c = Some Pt_user \<and> session c"
    and "link c \<noteq> None \<Longrightarrow> ptype c = None"
    and "session c \<Longrightarrow> (case ptype c of None \<Rightarrow> False | Some t \<Rightarrow> \<not> isWorkloadKind t)"
    and "\<And>m. email c = Some m \<Longrightarrow> ptype c = Some Pt_user \<and> isNormalizedMailbox m"
    and "case ptype c of None \<Rightarrow> workload c = None
      | Some t \<Rightarrow> (case workload c of None \<Rightarrow> \<not> isWorkloadKind t | Some w \<Rightarrow> isWorkloadKind t \<and> isWorkloadName t w)"
  using assms
  by (auto simp: buildAccessClaims_def Let_def split: if_splits) (auto split: option.splits if_splits)

lemma buildAccessClaims_wf:
  assumes "buildAccessClaims p = Inr c"
  shows "wf_claims c"
proof -
  note f = buildAccessClaims_checks [OF assms]
  have "session c \<Longrightarrow> ptype c \<in> {Some Pt_user, Some Pt_service}"
    using f(7) by (auto simp: not_workload_kind split: option.splits)
  then show ?thesis
    unfolding wf_claims_def using f(1,4,5,6,8,9)
    by (intro conjI) (auto split: option.splits)
qed

lemma parseWorkload_json:
  "wf_claims c \<Longrightarrow> parseWorkload (map_option JStr (workload c)) (ptype c) = Some (workload c)"
  by (auto simp: wf_claims_def parseWorkload_def split: option.splits)

lemma parseEmail_json:
  "wf_claims c \<Longrightarrow> parseEmail (map_option JStr (email c)) (ptype c) = Some (email c)"
  by (auto simp: wf_claims_def parseEmail_def split: option.splits)

text \<open>The fields of the wire object, one lookup each.\<close>

lemma claimsJson_fields:
  "propOf (Some (claimsJson c)) ''ptype'' = map_option (\<lambda>t. JStr (ptypeText t)) (ptype c)"
  "propOf (Some (claimsJson c)) ''workload'' = map_option JStr (workload c)"
  "propOf (Some (claimsJson c)) ''email'' = map_option JStr (email c)"
  "propOf (Some (claimsJson c)) ''session'' = (if session c then Some (JBool True) else None)"
  "propOf (Some (claimsJson c)) ''amr'' = map_option JStr (amr c)"
  "propOf (Some (claimsJson c)) ''terminal'' = map_option terminalJson (terminal c)"
  "propOf (Some (claimsJson c)) ''link'' = map_option linkJson (link c)"
  "propOf (Some (claimsJson c)) ''perms'' = Some (JArr (map entryJson (perms c)))"
  "propOf (Some (claimsJson c)) ''label'' = Some (nullableJson (label c))"
  "parseOAuthClaims parseUrl (Some (claimsJson c)) = Some None"
  "stringField (Some (claimsJson c)) ''iss'' = Some (iss c)"
  "stringField (Some (claimsJson c)) ''aud'' = Some (aud c)"
  "stringField (Some (claimsJson c)) ''sub'' = Some (sub c)"
  "numberField (Some (claimsJson c)) ''iat'' = Some (iat c)"
  "numberField (Some (claimsJson c)) ''exp'' = Some (exp_at c)"
  by (simp_all add: claimsJson_def opt_field_simps parseOAuthClaims_def stringField_def numberField_def
      del: map_of_append)

lemma claims_record_eq:
  assumes "session c = b" and "oauth c = None" and "amr c = map_option (\<lambda>_. TERMINAL_AUTHENTICATION_METHOD) (terminal c)"
  shows "\<lparr>iss = iss c, aud = aud c, sub = sub c, iat = iat c, exp_at = exp_at c, perms = perms c,
    label = label c, ptype = ptype c, workload = workload c, email = email c, session = b,
    amr = map_option (\<lambda>_. TERMINAL_AUTHENTICATION_METHOD) (terminal c), terminal = terminal c,
    oauth = None, link = link c\<rparr> = c"
  using assms by (cases c) simp

text \<open>C26: What \<open>buildAccessClaims\<close> assembles, \<open>parseAccessClaims\<close> reads back unchanged from its JSON,
  for every principal kind, session, terminal and share link; a link only has to name a mount and
  a chain, which the builder itself does not check.\<close>

theorem build_parse_roundtrip:
  assumes built: "buildAccessClaims p = Inr c" and link: "link_readable (p_link p)"
  shows "parseAccessClaims parseUrl (Some (claimsJson c)) = Some c"
proof -
  note c = buildAccessClaims_checks [OF built]
  note wf = buildAccessClaims_wf [OF built]
  have trm: "parseTerminalClaims (map_option JStr (amr c)) (map_option terminalJson (terminal c)) = Some (terminal c)"
    unfolding c(4) by (rule parseTerminalClaims_json) (simp add: c(5))
  have lnk: "parseLinkClaims (map_option linkJson (link c)) = Some (link c)"
    using link c(2) by (simp add: parseLinkClaims_json)
  have g1: "link c = None \<or> ptype c = None"
    by (metis c(6))
  have g2: "session c \<longrightarrow> (case ptype c of None \<Rightarrow> False | Some t \<Rightarrow> \<not> isWorkloadKind t)"
    using c(7) by simp
  have g3: "terminal c = None \<or> ptype c = Some Pt_user \<and> session c"
    using c(5) by (cases "terminal c") auto
  show ?thesis
    unfolding parseAccessClaims_def claimsJson_fields trm lnk
    using g1 g2 g3
    by (cases "session c")
       (simp_all add: parsePermissionEntries_def parseWorkload_json [OF wf] parseEmail_json [OF wf]
          claims_record_eq c(1,4))
qed

theorem build_parse_roundtrip_witness:
  "parseAccessClaims (\<lambda>_. None) (Some (claimsJson
     \<lparr>iss = ''https://iam'', aud = ''crm'', sub = ''u1'', iat = 0, exp_at = 300,
      perms = [\<lparr>pe_action = ''note.*'', pe_scope = Some \<lparr>scope_type = ''ws'', scope_value = ''7''\<rparr>, pe_source = Group ''o/t''\<rparr>],
      label = Some ''Ann'', ptype = Some Pt_user, workload = None, email = None, session = True,
      amr = Some TERMINAL_AUTHENTICATION_METHOD,
      terminal = Some \<lparr>terminal_id = ''t'', terminal_label = ''Desk''\<rparr>, oauth = None, link = None\<rparr>)) \<noteq> None"
proof -
  let ?p = "\<lparr>p_iss = ''https://iam'', p_app = ''crm'', p_subject = ''u1'', p_type = Some Pt_user,
    p_workload = None, p_label = Some ''Ann'', p_email = None, p_session = True,
    p_terminal = Some \<lparr>terminal_id = ''t'', terminal_label = ''Desk''\<rparr>,
    p_permissions = [\<lparr>pe_action = ''note.*'', pe_scope = Some \<lparr>scope_type = ''ws'', scope_value = ''7''\<rparr>, pe_source = Group ''o/t''\<rparr>],
    p_issuedAt = 0, p_expiresAt = 300, p_link = None\<rparr>"
  have b: "buildAccessClaims ?p = Inr
     \<lparr>iss = ''https://iam'', aud = ''crm'', sub = ''u1'', iat = 0, exp_at = 300,
      perms = [\<lparr>pe_action = ''note.*'', pe_scope = Some \<lparr>scope_type = ''ws'', scope_value = ''7''\<rparr>, pe_source = Group ''o/t''\<rparr>],
      label = Some ''Ann'', ptype = Some Pt_user, workload = None, email = None, session = True,
      amr = Some TERMINAL_AUTHENTICATION_METHOD,
      terminal = Some \<lparr>terminal_id = ''t'', terminal_label = ''Desk''\<rparr>, oauth = None, link = None\<rparr>"
    by (simp add: buildAccessClaims_def isTerminalClaims_def)
  have l: "link_readable (p_link ?p)" by (simp add: link_readable_def)
  show ?thesis
    using build_parse_roundtrip [OF b l, of "\<lambda>_. None"] by simp
qed

subsection \<open>Token audiences\<close>

text \<open>The claims a resource payload is read back as. The scopes come back as they were given when
  none of them holds a space.\<close>

lemma resourcePayload_parse:
  assumes "parseAccessClaims parseUrl (Some (resourcePayload p)) = Some c"
  shows "\<exists>oa. oauth c = Some oa \<and> oa_app oa = r_app p \<and>
      parseOAuthScopes (splitOn (CHR '' '') (joinWith '' '' (r_scopes p))) = Some (oa_scopes oa)"
    and "aud c = r_resource p"
  using assms
  by (auto simp: parseAccessClaims_def resourcePayload_def stringField_def numberField_def bind_eq_Some_conv
        parseOAuthClaims_def split: if_splits)

lemma buildAccessClaims_audience:
  assumes "buildAccessClaims p = Inr c"
  shows "matchesTokenAudience c prof \<longleftrightarrow> prof = AppProfile (p_app p)"
  using buildAccessClaims_checks(1,3) [OF assms]
  by (cases prof) (auto simp: matchesTokenAudience_def)

text \<open>C27: A token is accepted by exactly the audience profile it was minted for. A resource token the
  builder assembles is accepted for its own application and resource and by no application
  profile; a built application token is accepted by its own application's profile and by no
  resource profile.\<close>

theorem token_profiles_separate:
  assumes app: "buildAccessClaims p = Inr c"
    and res: "buildResourceAccessClaims parseUrl q = Inr payload"
  shows "(\<forall>prof. matchesTokenAudience c prof \<longleftrightarrow> prof = AppProfile (p_app p)) \<and>
    (\<exists>d. parseAccessClaims parseUrl (Some payload) = Some d \<and>
      (\<forall>prof. matchesTokenAudience d prof \<longleftrightarrow> prof = ResourceProfile (r_app q) (r_resource q)))"
proof -
  from res obtain d where d: "parseAccessClaims parseUrl (Some payload) = Some d"
    and payload: "payload = resourcePayload q"
    by (auto simp: buildResourceAccessClaims_def split: option.splits if_splits)
  have "matchesTokenAudience d prof \<longleftrightarrow> prof = ResourceProfile (r_app q) (r_resource q)" for prof
    using resourcePayload_parse [OF d [unfolded payload]]
    by (cases prof) (auto simp: matchesTokenAudience_def)
  with d buildAccessClaims_audience [OF app] show ?thesis
    by blast
qed

definition example_url :: url where
  "example_url = \<lparr>protocol = ''https:'', hostname = ''mcp.example'', port = [], pathname = ''/x'', search = []\<rparr>"

definition example_resource :: resource_access_token_params where
  "example_resource = \<lparr>r_iss = ''https://iam'', r_app = ''control'', r_resource = ''https://mcp.example/x'',
     r_subject = ''u1'', r_label = None, r_permissions = [], r_issuedAt = 0, r_expiresAt = 300,
     r_clientId = ''https://client.example/c'', r_scopes = [''read'', ''write''], r_grantId = ''g'', r_tokenId = ''t''\<rparr>"

definition example_service :: access_token_params where
  "example_service = \<lparr>p_iss = ''https://iam'', p_app = ''crm'', p_subject = ''s1'', p_type = Some Pt_job,
     p_workload = Some ''nightly'', p_label = None, p_email = None, p_session = False, p_terminal = None,
     p_permissions = [], p_issuedAt = 0, p_expiresAt = 300, p_link = None\<rparr>"

lemma example_resource_builds:
  "buildResourceAccessClaims (\<lambda>_. Some example_url) example_resource = Inr (resourcePayload example_resource)"
  by code_simp

theorem parseAccessClaims_wf_witness:
  "\<exists>d. parseAccessClaims (\<lambda>_. Some example_url) (Some (resourcePayload example_resource)) = Some d \<and>
     oauth d \<noteq> None \<and> wf_claims d"
proof -
  obtain d where d: "parseAccessClaims (\<lambda>_. Some example_url) (Some (resourcePayload example_resource)) = Some d"
    and "oauth d \<noteq> None"
    using example_resource_builds by (auto simp: buildResourceAccessClaims_def split: option.splits if_splits)
  with parseAccessClaims_wf [OF d] show ?thesis by blast
qed

theorem token_profiles_separate_witness:
  "\<exists>c d. buildAccessClaims example_service = Inr c \<and>
     parseAccessClaims (\<lambda>_. Some example_url) (Some (resourcePayload example_resource)) = Some d \<and>
     matchesTokenAudience c (AppProfile ''crm'') \<and> \<not> matchesTokenAudience d (AppProfile ''control'') \<and>
     matchesTokenAudience d (ResourceProfile ''control'' ''https://mcp.example/x'')"
proof -
  obtain c where c: "buildAccessClaims example_service = Inr c"
    by (simp add: buildAccessClaims_def example_service_def isWorkloadName_def WORKLOAD_NAME_def
          is_alnum_def is_alpha_def is_lower_az_def is_digit_def is_upper_az_def)
  show ?thesis
    using token_profiles_separate [OF c example_resource_builds] c
    by (auto simp: example_service_def example_resource_def)
qed

end
