(* ===== verification/Requirement.thy ===== *)
theory Requirement
  imports Token
begin

text \<open>
  Endpoint requirements (\<open>packages/auth-core/src/contract.ts\<close>, \<open>installation-endpoint.ts\<close>) and the
  checks of \<open>requirement.ts\<close>: whether a token's permissions meet a requirement, and which kind of
  caller a token presents. The caller strings \<open>human\<close>, \<open>machine\<close>, \<open>link\<close>, \<open>oauth\<close> and \<open>app:<id>\<close> are the
  constructors of \<open>token_caller\<close>.
\<close>

datatype access_form =
    Over string
  | In string string
  | On string "string option"
  | Creates string
  | AppForm

datatype endpoint_requirement =
    Authenticated
  | Member
  | ActionReq string access_form
  | Capabilities "(string \<times> string \<times> access_form) list"

datatype token_caller = Human | Machine | LinkCaller | OAuthCaller | AppCaller string

definition CONNECT_PREFIX :: string where
  "CONNECT_PREFIX = ''/__fabrika/connect''"

definition holdsAction :: "string \<Rightarrow> access_form \<Rightarrow> permission_entry list \<Rightarrow> bool" where
  "holdsAction action access ps =
     (if access = AppForm then list_ex (\<lambda>entry. permits [entry] action None) ps
      else list_ex (\<lambda>entry. permits [entry] action (pe_scope entry)) ps)"

fun satisfies :: "endpoint_requirement \<Rightarrow> permission_entry list \<Rightarrow> bool" where
  "satisfies Authenticated ps = True"
| "satisfies Member ps = (0 < length ps)"
| "satisfies (Capabilities cs) ps = list_all (\<lambda>(name, action, access). holdsAction action access ps) cs"
| "satisfies (ActionReq action access) ps = holdsAction action access ps"

definition callerOf :: "access_token_claims \<Rightarrow> token_caller option" where
  "callerOf c =
     (if oauth c \<noteq> None then Some OAuthCaller
      else (case ptype c of
          Some Pt_user \<Rightarrow> Some Human
        | Some Pt_service \<Rightarrow> Some Machine
        | Some Pt_app \<Rightarrow> map_option AppCaller (workload c)
        | Some Pt_job \<Rightarrow> None
        | Some Pt_webhook \<Rightarrow> None
        | Some Pt_public \<Rightarrow> None
        | None \<Rightarrow> Some LinkCaller))"

definition callerAdmittedAt :: "token_caller \<Rightarrow> string \<Rightarrow> bool" where
  "callerAdmittedAt caller path =
     ((case caller of AppCaller _ \<Rightarrow> False | _ \<Rightarrow> True) \<or> startsWith path (CONNECT_PREFIX @ ''/''))"

subsection \<open>What the checks mean\<close>

lemma holdsAction_app: "holdsAction action AppForm ps \<longleftrightarrow> permits ps action None"
  by (simp add: holdsAction_def list_ex_iff permits_iff scope_ok_def)

lemma holdsAction_scoped:
  "access \<noteq> AppForm \<Longrightarrow> holdsAction action access ps \<longleftrightarrow> (\<exists>sc. permits ps action sc)"
  by (auto simp: holdsAction_def list_ex_iff permits_iff scope_ok_def)

lemma holdsAction_mono: "set ps \<subseteq> set qs \<Longrightarrow> holdsAction a f ps \<Longrightarrow> holdsAction a f qs"
  by (auto simp: holdsAction_def list_ex_iff simp del: permits.simps) blast+

text \<open>The requirement in terms of \<open>permits\<close>: what a requirement asks of a permission set.\<close>

definition action_granted :: "string \<Rightarrow> access_form \<Rightarrow> permission_entry list \<Rightarrow> bool" where
  "action_granted a f ps \<longleftrightarrow> (if f = AppForm then permits ps a None else \<exists>sc. permits ps a sc)"

fun requires :: "endpoint_requirement \<Rightarrow> permission_entry list \<Rightarrow> bool" where
  "requires Authenticated ps = True"
| "requires Member ps = (ps \<noteq> [])"
| "requires (ActionReq a f) ps = action_granted a f ps"
| "requires (Capabilities cs) ps = list_all (\<lambda>(n, a, f). action_granted a f ps) cs"

lemma holdsAction_granted: "holdsAction a f ps \<longleftrightarrow> action_granted a f ps"
  by (simp add: action_granted_def holdsAction_app holdsAction_scoped)

lemma satisfies_mono: "satisfies req ps \<Longrightarrow> set ps \<subseteq> set qs \<Longrightarrow> satisfies req qs"
  using holdsAction_mono [of ps qs]
  by (cases req) (auto simp: list_all_iff)

text \<open>\<open>satisfies\<close>, which asks each permission entry by itself, decides the requirement over the whole
  permission set: an \<open>app\<close> form is exactly a global grant of the action, every other form a grant
  of it at some scope, several capabilities each of their actions, and membership any entry.\<close>

theorem satisfies_iff_requires: "satisfies req ps \<longleftrightarrow> requires req ps"
  by (cases req) (simp_all add: holdsAction_granted)

lemma callerOf_wf:
  assumes "wf_claims c"
  shows "callerOf c = Some k \<Longrightarrow>
    (case k of
       OAuthCaller \<Rightarrow> oauth c \<noteq> None \<and> ptype c = Some Pt_user
     | Human \<Rightarrow> ptype c = Some Pt_user \<and> oauth c = None
     | Machine \<Rightarrow> ptype c = Some Pt_service \<and> oauth c = None
     | LinkCaller \<Rightarrow> ptype c = None \<and> oauth c = None
     | AppCaller i \<Rightarrow> ptype c = Some Pt_app \<and> workload c = Some i \<and> oauth c = None)"
  using assms
  by (auto simp: callerOf_def wf_claims_def split: option.splits token_principal_type.splits if_splits)

end
