(* ===== verification/Base64.thy ===== *)
theory Base64
  imports Prelude
begin

text \<open>
  \<open>btoa\<close> and \<open>atob\<close> of the web platform on binary strings (every \<^typ>\<open>char\<close> is one byte): RFC 4648 base64, and the
  forgiving decoder of the HTML standard. The code decodes Basic credentials with one and encodes random
  values and digests with the other.
\<close>

definition b64_char :: "nat \<Rightarrow> char" where
  "b64_char n =
     (if n < 26 then char_of (65 + n) else if n < 52 then char_of (71 + n) else if n < 62 then char_of (n - 4)
      else if n = 62 then CHR ''+'' else CHR ''/'')"

definition b64_val :: "char \<Rightarrow> nat option" where
  "b64_val c = (let n = of_char c :: nat in
     if 65 \<le> n \<and> n \<le> 90 then Some (n - 65)
     else if 97 \<le> n \<and> n \<le> 122 then Some (n - 71)
     else if 48 \<le> n \<and> n \<le> 57 then Some (n + 4)
     else if c = CHR ''+'' then Some 62
     else if c = CHR ''/'' then Some 63
     else None)"

fun sextets :: "nat list \<Rightarrow> nat list" where
  "sextets [] = []"
| "sextets [a] = [a div 4, a mod 4 * 16]"
| "sextets [a, b] = [a div 4, a mod 4 * 16 + b div 16, b mod 16 * 4]"
| "sextets (a # b # c # rest) =
     [a div 4, a mod 4 * 16 + b div 16, b mod 16 * 4 + c div 64, c mod 64] @ sextets rest"

fun octets :: "nat list \<Rightarrow> nat list" where
  "octets (w # x # y # z # rest) =
     [w * 4 + x div 16, x mod 16 * 16 + y div 4, y mod 4 * 64 + z] @ octets rest"
| "octets [w, x, y] = [w * 4 + x div 16, x mod 16 * 16 + y div 4]"
| "octets [w, x] = [w * 4 + x div 16]"
| "octets _ = []"

definition b64_pad :: "nat \<Rightarrow> string" where
  "b64_pad n = (if n mod 3 = 1 then ''=='' else if n mod 3 = 2 then ''='' else [])"

definition btoa :: "string \<Rightarrow> string" where
  "btoa s = map b64_char (sextets (map of_char s)) @ b64_pad (length s)"

definition strip_pad :: "string \<Rightarrow> string" where
  "strip_pad s =
     (if length s mod 4 = 0 then (if endsWith s ''=='' then take (length s - 2) s
        else if endsWith s ''='' then take (length s - 1) s else s)
      else s)"

definition b64_space :: "char \<Rightarrow> bool" where
  "b64_space c \<longleftrightarrow> (let n = of_char c :: nat in n = 9 \<or> n = 10 \<or> n = 12 \<or> n = 13 \<or> n = 32)"

definition atob :: "string \<Rightarrow> string option" where
  "atob s =
     (let t = strip_pad (filter (\<lambda>c. \<not> b64_space c) s) in
      if length t mod 4 = 1 \<or> list_ex (\<lambda>c. b64_val c = None) t then None
      else Some (map char_of (octets (map (\<lambda>c. the (b64_val c)) t))))"

subsection \<open>Encoding and decoding\<close>

lemma b64_val_char: "n < 64 \<Longrightarrow> b64_val (b64_char n) = Some n"
  by (auto simp: b64_char_def b64_val_def Let_def of_char_of)

lemma sextets_small: "\<forall>n\<in>set bs. n < 256 \<Longrightarrow> \<forall>n\<in>set (sextets bs). n < 64"
  by (induction bs rule: sextets.induct) auto

lemma octets_sextets: "\<forall>n\<in>set bs. n < 256 \<Longrightarrow> octets (sextets bs) = bs"
proof (induction bs rule: sextets.induct)
  case (4 a b c rest)
  then have "a < 256" "b < 256" "c < 256" by auto
  then show ?case using 4 by auto
qed auto

lemma length_sextets: "length (sextets bs) = (4 * length bs + 2) div 3"
  by (induction bs rule: sextets.induct) auto

lemma b64_char_no_space: "n < 64 \<Longrightarrow> \<not> b64_space (b64_char n)"
  by (auto simp: b64_char_def b64_space_def Let_def of_char_of)

lemma b64_char_no_pad: "n < 64 \<Longrightarrow> b64_char n \<noteq> CHR ''=''"
  using b64_val_char [of n] by (auto simp: b64_val_def)

lemma strip_pad_encoded:
  assumes "\<forall>n\<in>set ss. n < 64" and "length ss = (4 * k + 2) div 3"
  shows "strip_pad (map b64_char ss @ b64_pad k) = map b64_char ss"
proof -
  have last: "\<not> endsWith (map b64_char ss) (p @ ''='')" for p
  proof
    assume "endsWith (map b64_char ss) (p @ ''='')"
    then have "CHR ''='' \<in> b64_char ` set ss" by (metis endsWith_iff append.assoc in_set_conv_decomp list.set_map)
    with assms(1) b64_char_no_pad show False by force
  qed
  have noend: "\<not> endsWith (map b64_char ss) ''==''" "\<not> endsWith (map b64_char ss) ''=''"
    using last [of "''=''"] last [of "[]"] by simp_all
  consider "k mod 3 = 0" | "k mod 3 = 1" | "k mod 3 = 2" by linarith
  then show ?thesis
  proof cases
    case 1
    then show ?thesis using noend by (simp add: strip_pad_def b64_pad_def)
  next
    case 2
    then obtain q where "k = 3 * q + 1" by (metis mult_div_mod_eq)
    then have "length ss = 4 * q + 2" using assms(2) by simp
    then have "length (map b64_char ss @ ''=='') mod 4 = 0" by simp
    then show ?thesis using 2 by (simp add: strip_pad_def b64_pad_def endsWith_def)
  next
    case 3
    then obtain q where "k = 3 * q + 2" by (metis mult_div_mod_eq)
    then have "length ss = 4 * q + 3" using assms(2) by simp
    then have l: "length (map b64_char ss @ ''='') mod 4 = 0" by simp
    have "\<not> endsWith (map b64_char ss @ ''='') ''==''"
    proof
      assume "endsWith (map b64_char ss @ ''='') ''==''"
      then obtain r where "map b64_char ss @ ''='' = (r @ ''='') @ ''=''" by (auto simp: endsWith_iff)
      then have "map b64_char ss = r @ ''=''" by (metis append_same_eq)
      with noend(2) show False by (auto simp: endsWith_iff)
    qed
    moreover have "endsWith (map b64_char ss @ ''='') ''=''" by (simp add: endsWith_def)
    ultimately show ?thesis using l 3 by (simp add: strip_pad_def b64_pad_def)
  qed
qed

lemma atob_btoa: "atob (btoa s) = Some s"
proof -
  let ?bs = "map of_char s :: nat list"
  let ?ss = "sextets ?bs"
  have bs: "\<forall>n\<in>set ?bs. n < 256" by auto
  then have ss: "\<forall>n\<in>set ?ss. n < 64" by (rule sextets_small)
  have len: "length ?ss = (4 * length s + 2) div 3" by (simp add: length_sextets)
  have "filter (\<lambda>c. \<not> b64_space c) (btoa s) = btoa s"
    using ss b64_char_no_space by (auto simp: btoa_def b64_pad_def filter_id_conv b64_space_def)
  then have t: "strip_pad (filter (\<lambda>c. \<not> b64_space c) (btoa s)) = map b64_char ?ss"
    using strip_pad_encoded [OF ss len] by (simp add: btoa_def)
  have "map (\<lambda>c. the (b64_val c)) (map b64_char ?ss) = ?ss"
    using ss by (auto simp: b64_val_char intro: map_idI)
  moreover have "\<not> list_ex (\<lambda>c. b64_val c = None) (map b64_char ?ss)"
    using ss by (auto simp: list_ex_iff b64_val_char)
  moreover have "length (map b64_char ?ss) mod 4 \<noteq> 1"
  proof -
    have "(4 * k + 2) div 3 mod 4 \<noteq> (1 :: nat)" for k by presburger
    then show ?thesis by (simp add: len)
  qed
  ultimately show ?thesis
    unfolding atob_def Let_def t by (simp add: octets_sextets [OF bs] map_idI)
qed

end
