(* ===== verification/Credentials.thy ===== *)
theory Credentials
  imports Base64 Token
begin

text \<open>
  Reading a credential off a request (\<open>packages/proxy-core/src/credentials.ts\<close>) and the sign-in handoff values
  (\<open>handoff.ts\<close>). A \<open>Headers\<close> object is an association list from lower-case names to the combined value;
  header values are byte strings. The random source and the SHA-256 of WebCrypto are parameters.
\<close>

subsection \<open>Headers\<close>

type_synonym headers = "(string \<times> string) list"

definition hdr_get :: "headers \<Rightarrow> string \<Rightarrow> string option" where
  "hdr_get h name = map_of h (lower name)"

definition hdr_delete :: "headers \<Rightarrow> string \<Rightarrow> headers" where
  "hdr_delete h name = filter (\<lambda>(n, _). n \<noteq> lower name) h"

definition hdr_set :: "headers \<Rightarrow> string \<Rightarrow> string \<Rightarrow> headers" where
  "hdr_set h name value = (lower name, value) # hdr_delete h name"

lemma map_of_filter_ne: "map_of (filter (\<lambda>(n, _). n \<noteq> k) h) k' = (if k' = k then None else map_of h k')"
  by (induction h) auto

lemma hdr_get_delete [simp]: "hdr_get (hdr_delete h n) m = (if lower m = lower n then None else hdr_get h m)"
  by (simp add: hdr_get_def hdr_delete_def map_of_filter_ne)

lemma hdr_get_set [simp]: "hdr_get (hdr_set h n v) m = (if lower m = lower n then Some v else hdr_get h m)"
  by (simp add: hdr_get_def hdr_set_def hdr_delete_def map_of_filter_ne)

subsection \<open>Bearer and Basic credentials\<close>

definition line_terminator :: "char \<Rightarrow> bool" where
  "line_terminator c \<longleftrightarrow> c = CHR 0x0A \<or> c = CHR 0x0D"

text \<open>\<open>/^<scheme>\s+(<chars>+)$/i\<close> on a trimmed header: the text after the scheme and its white space.\<close>

definition scheme_value :: "string \<Rightarrow> (char \<Rightarrow> bool) \<Rightarrow> string \<Rightarrow> string option" where
  "scheme_value scheme ok h =
     (let rest = drop (length scheme) h; v = dropWhile js_space rest in
      if lower (take (length scheme) h) = scheme \<and> rest \<noteq> [] \<and> js_space (hd rest) \<and> v \<noteq> [] \<and> list_all ok v
      then Some v else None)"

definition readBearer :: "string option \<Rightarrow> string option" where
  "readBearer header =
     (case header of
        None \<Rightarrow> None
      | Some h \<Rightarrow> map_option trim (scheme_value ''bearer'' (\<lambda>c. \<not> line_terminator c) (trim h)))"

definition basic_char :: "char \<Rightarrow> bool" where
  "basic_char c \<longleftrightarrow> is_alnum c \<or> c = CHR ''+'' \<or> c = CHR ''/'' \<or> c = CHR ''=''"

definition carriesPlatformKey :: "string \<Rightarrow> string \<Rightarrow> bool" where
  "carriesPlatformKey header keyPrefix =
     (if str_includes header keyPrefix then True
      else (case scheme_value ''basic'' basic_char (trim header) of
              None \<Rightarrow> False
            | Some basic \<Rightarrow> (case atob basic of None \<Rightarrow> False | Some s \<Rightarrow> str_includes s keyPrefix)))"

subsection \<open>Cookies\<close>

fun find_cookie :: "string \<Rightarrow> string list \<Rightarrow> string option" where
  "find_cookie name [] = None"
| "find_cookie name (part # parts) =
     (case indexOf (CHR ''='') part of
        None \<Rightarrow> find_cookie name parts
      | Some eq \<Rightarrow>
          (if trim (take eq part) = name
           then (let value = trim (drop (eq + 1) part) in if value = [] then None else Some value)
           else find_cookie name parts))"

definition readCookie :: "string option \<Rightarrow> string \<Rightarrow> string option" where
  "readCookie header name =
     (case header of
        None \<Rightarrow> None
      | Some h \<Rightarrow> if h = [] then None else find_cookie name (splitOn (CHR '';'') h))"

text \<open>Whether a trimmed cookie part is the application's own.\<close>

definition keeps_cookie :: "string \<Rightarrow> bool" where
  "keeps_cookie part =
     (let name = (case indexOf (CHR ''='') part of None \<Rightarrow> part | Some i \<Rightarrow> trim (take i part)) in
      \<not> startsWith name FABRIKA_COOKIE_PREFIX)"

definition stripFabrikaCookies :: "headers \<Rightarrow> headers" where
  "stripFabrikaCookies h =
     (case hdr_get h ''Cookie'' of
        None \<Rightarrow> h
      | Some raw \<Rightarrow>
          (let kept = filter keeps_cookie (map trim (splitOn (CHR '';'') raw)) in
           if length kept = 0 then hdr_delete h ''Cookie'' else hdr_set h ''Cookie'' (joinWith ''; '' kept)))"

subsection \<open>The handoff\<close>

definition HANDOFF_COOKIE_PREFIX :: string where "HANDOFF_COOKIE_PREFIX = ''__Host-px_handoff_''"

definition handoff_char :: "char \<Rightarrow> bool" where
  "handoff_char c \<longleftrightarrow> is_alnum c \<or> c = CHR ''_'' \<or> c = CHR ''-''"

definition HANDOFF_VALUE_PATTERN :: "string \<Rightarrow> bool" where
  "HANDOFF_VALUE_PATTERN s \<longleftrightarrow> 16 \<le> length s \<and> length s \<le> 128 \<and> list_all handoff_char s"

definition handoffCookieName :: "string option \<Rightarrow> string option" where
  "handoffCookieName state =
     (case state of
        None \<Rightarrow> None
      | Some s \<Rightarrow> if HANDOFF_VALUE_PATTERN s then Some (HANDOFF_COOKIE_PREFIX @ s) else None)"

definition url_char :: "char \<Rightarrow> char" where
  "url_char c = (if c = CHR ''+'' then CHR ''-'' else if c = CHR ''/'' then CHR ''_'' else c)"

definition base64url :: "string \<Rightarrow> string" where
  "base64url bs = filter (\<lambda>c. c \<noteq> CHR ''='') (map url_char (btoa bs))"

record handoff_attempt =
  ha_state :: string
  ha_verifier :: string
  ha_challenge :: string

type_synonym 'w random_source = "nat \<Rightarrow> 'w \<Rightarrow> string \<times> 'w"

definition randomToken :: "'w random_source \<Rightarrow> nat \<Rightarrow> 'w \<Rightarrow> string \<times> 'w" where
  "randomToken rnd n w = (let (bs, w1) = rnd n w in (base64url bs, w1))"

definition handoffChallenge :: "(string \<Rightarrow> string) \<Rightarrow> string \<Rightarrow> string" where
  "handoffChallenge sha verifier = base64url (sha verifier)"

definition createHandoffAttempt :: "'w random_source \<Rightarrow> (string \<Rightarrow> string) \<Rightarrow> 'w \<Rightarrow> handoff_attempt \<times> 'w" where
  "createHandoffAttempt rnd sha w =
     (let (state, w1) = randomToken rnd 16 w; (verifier, w2) = randomToken rnd 32 w1 in
      (\<lparr>ha_state = state, ha_verifier = verifier, ha_challenge = handoffChallenge sha verifier\<rparr>, w2))"

definition unmatchedVerifier :: "'w random_source \<Rightarrow> 'w \<Rightarrow> string \<times> 'w" where
  "unmatchedVerifier rnd w = randomToken rnd 32 w"

subsection \<open>Trimming\<close>

lemma dropWhile_spaces: "list_all js_space a \<Longrightarrow> dropWhile js_space (a @ x) = dropWhile js_space x"
  by (induction a) auto

definition tight :: "string \<Rightarrow> bool" where
  "tight t \<longleftrightarrow> t = [] \<or> \<not> js_space (hd t) \<and> \<not> js_space (last t)"

lemma trim_unique:
  assumes "list_all js_space a" "list_all js_space b" "tight t"
  shows "trim (a @ t @ b) = t"
proof (cases "t = []")
  case True
  have "dropWhile js_space (a @ b) = []" using assms(1,2) by (auto simp: dropWhile_eq_Nil_conv list_all_iff)
  moreover have "trim (a @ b) = rev (dropWhile js_space (rev (dropWhile js_space (a @ b))))" by (rule trim_def)
  ultimately have "trim (a @ b) = []" by (simp only: rev.simps dropWhile.simps)
  with True show ?thesis by simp
next
  case False
  have "dropWhile js_space (a @ t @ b) = t @ b"
    using False assms(1,3) by (cases t) (simp_all add: dropWhile_spaces tight_def)
  moreover have "dropWhile js_space (rev b @ rev t) = rev t"
    using False assms(2,3) by (cases t rule: rev_cases) (simp_all add: dropWhile_spaces tight_def)
  ultimately show ?thesis by (simp add: trim_def)
qed

lemma trim_decomp: "\<exists>a b. s = a @ trim s @ b \<and> list_all js_space a \<and> list_all js_space b \<and> tight (trim s)"
proof -
  let ?d = "dropWhile js_space s"
  let ?e = "dropWhile js_space (rev ?d)"
  have 1: "s = takeWhile js_space s @ ?d" by simp
  have 2: "?d = rev ?e @ rev (takeWhile js_space (rev ?d))"
    by (metis rev_append rev_rev_ident takeWhile_dropWhile_id)
  have "tight (trim s)"
  proof (cases "?e = []")
    case False
    have ne: "?d \<noteq> []" using False by (metis dropWhile.simps(1) rev.simps(1))
    have "\<not> js_space (hd ?e)" using False by (rule hd_dropWhile)
    moreover have "hd (rev ?e) = hd ?d" using False 2 by (metis hd_append2 rev_is_Nil_conv)
    moreover have "\<not> js_space (hd ?d)" using ne by (rule hd_dropWhile)
    ultimately have "tight (rev ?e)" by (simp add: tight_def last_rev)
    then show ?thesis by (simp only: trim_def)
  qed (simp add: tight_def trim_def)
  moreover have "s = takeWhile js_space s @ trim s @ rev (takeWhile js_space (rev ?d))"
    using 1 2 by (simp add: trim_def)
  moreover have "list_all js_space (takeWhile js_space x)" for x
    by (auto simp: list_all_iff dest: set_takeWhileD)
  ultimately show ?thesis by (metis list_all_rev)
qed

lemma trim_spaces:
  assumes "list_all js_space a" "list_all js_space b"
  shows "trim (a @ x @ b) = trim x"
proof -
  obtain c d where x: "x = c @ trim x @ d" "list_all js_space c" "list_all js_space d" "tight (trim x)"
    using trim_decomp by blast
  have "a @ x @ b = (a @ c) @ trim x @ (d @ b)" using x(1) by (metis append.assoc)
  moreover have "trim ((a @ c) @ trim x @ (d @ b)) = trim x"
    using assms x(2-4) by (intro trim_unique) simp_all
  ultimately show ?thesis by (simp only:)
qed

lemmas trim_left = trim_spaces [where b = "[]", simplified]
lemmas trim_right = trim_spaces [where a = "[]", simplified]

lemma trim_tight: "tight t \<Longrightarrow> trim t = t"
  using trim_unique [of "[]" "[]" t] by simp

lemma tight_trim [simp]: "tight (trim s)"
  using trim_decomp by blast

lemma trim_trim [simp]: "trim (trim s) = trim s"
  by (simp add: trim_tight)

subsection \<open>Cookie parts\<close>

text \<open>The name and value of a cookie part, as \<open>readCookie\<close> takes them apart.\<close>

definition part_pair :: "string \<Rightarrow> (string \<times> string) option" where
  "part_pair part = map_option (\<lambda>eq. (trim (take eq part), trim (drop (eq + 1) part))) (indexOf (CHR ''='') part)"

lemma find_cookie_part:
  "find_cookie name (part # parts) =
     (case part_pair part of
        None \<Rightarrow> find_cookie name parts
      | Some (n, v) \<Rightarrow> if n = name then (if v = [] then None else Some v) else find_cookie name parts)"
  by (cases "indexOf (CHR ''='') part") (simp_all add: part_pair_def Let_def del: indexOf_None)

lemma part_pair_None: "part_pair p = None \<longleftrightarrow> CHR ''='' \<notin> set p"
  by (simp add: part_pair_def)

lemma part_pair_eq: "CHR ''='' \<notin> set n \<Longrightarrow> part_pair (n @ CHR ''='' # v) = Some (trim n, trim v)"
  by (simp add: part_pair_def indexOf_append)

lemma eq_not_space: "\<not> js_space (CHR ''='')"
  by (simp add: js_space_def)

lemma part_pair_spaces:
  assumes "list_all js_space a" "list_all js_space b"
  shows "part_pair (a @ p @ b) = part_pair p"
proof -
  have ns: "CHR ''='' \<notin> set a" "CHR ''='' \<notin> set b" using assms eq_not_space by (auto simp: list_all_iff)
  show ?thesis
  proof (cases "CHR ''='' \<in> set p")
    case False
    with ns show ?thesis by (metis Un_iff part_pair_None set_append)
  next
    case True
    then obtain n v where p: "p = n @ CHR ''='' # v" "CHR ''='' \<notin> set n" by (meson split_list_first)
    have "part_pair ((a @ n) @ CHR ''='' # (v @ b)) = Some (trim (a @ n), trim (v @ b))"
      using p(2) ns by (intro part_pair_eq) simp
    with p assms show ?thesis by (simp add: part_pair_eq trim_left trim_right)
  qed
qed

lemma part_pair_trim: "part_pair (trim p) = part_pair p"
  by (metis trim_decomp part_pair_spaces)

lemma part_pair_space: "part_pair (CHR '' '' # p) = part_pair p"
  using part_pair_spaces [of "'' ''" "[]" p] by (simp add: js_space_def)

lemma find_cookie_cong:
  "map part_pair ps = map part_pair qs \<Longrightarrow> find_cookie name ps = find_cookie name qs"
proof (induction ps arbitrary: qs)
  case (Cons p ps)
  then show ?case by (cases qs) (auto simp: find_cookie_part simp del: find_cookie.simps split: option.splits)
qed simp

lemma joinWith_cookie:
  "ps \<noteq> [] \<Longrightarrow> joinWith ''; '' ps = joinWith '';'' (hd ps # map (\<lambda>p. CHR '' '' # p) (tl ps))"
proof (induction ps rule: induct_list012)
  case (3 p q ps)
  then show ?case by (cases ps) auto
qed auto

lemma parts_joined:
  assumes "ps \<noteq> []" "\<forall>p\<in>set ps. CHR '';'' \<notin> set p"
  shows "map part_pair (splitOn (CHR '';'') (joinWith ''; '' ps)) = map part_pair ps"
proof -
  let ?qs = "hd ps # map (\<lambda>p. CHR '' '' # p) (tl ps)"
  have "\<forall>w\<in>set ?qs. CHR '';'' \<notin> set w" using assms by (cases ps) auto
  then have "splitOn (CHR '';'') (joinWith '';'' ?qs) = ?qs" by (intro split_join) auto
  then show ?thesis using assms(1) by (cases ps) (simp_all add: joinWith_cookie part_pair_space comp_def)
qed

text \<open>What the filter keeps, in terms of names.\<close>

lemma keeps_cookie_pair:
  "part_pair p = Some (n, v) \<Longrightarrow> keeps_cookie p \<longleftrightarrow> \<not> startsWith n FABRIKA_COOKIE_PREFIX"
  by (auto simp: keeps_cookie_def part_pair_def)

lemma find_cookie_kept:
  "find_cookie name (filter keeps_cookie ps) =
     (if startsWith name FABRIKA_COOKIE_PREFIX then None else find_cookie name ps)"
proof (induction ps)
  case (Cons p ps)
  then show ?case
    by (cases "part_pair p")
       (auto simp: find_cookie_part keeps_cookie_pair simp del: find_cookie.simps split: if_splits)
qed simp

lemma strip_parts:
  "readCookie (hdr_get (stripFabrikaCookies h) ''Cookie'') name =
     (case hdr_get h ''Cookie'' of
        None \<Rightarrow> None
      | Some raw \<Rightarrow> find_cookie name (filter keeps_cookie (map trim (splitOn (CHR '';'') raw))))"
proof (cases "hdr_get h ''Cookie''")
  case None
  then show ?thesis by (simp add: stripFabrikaCookies_def readCookie_def)
next
  case (Some raw)
  let ?kept = "filter keeps_cookie (map trim (splitOn (CHR '';'') raw))"
  show ?thesis
  proof (cases "?kept = []")
    case True
    with Some show ?thesis by (simp add: stripFabrikaCookies_def readCookie_def del: filter_map)
  next
    case False
    have "\<forall>p\<in>set ?kept. CHR '';'' \<notin> set p"
      using splitOn_no_sep trim_set by fastforce
    then have eq: "find_cookie name (splitOn (CHR '';'') (joinWith ''; '' ?kept)) = find_cookie name ?kept"
      using False by (intro find_cookie_cong parts_joined)
    have "hdr_get (stripFabrikaCookies h) ''Cookie'' = Some (joinWith ''; '' ?kept)"
      using Some False by (simp add: stripFabrikaCookies_def)
    moreover have "joinWith ''; '' ?kept = [] \<Longrightarrow> find_cookie name ?kept = None"
      using eq by (simp del: filter_map)
    ultimately show ?thesis using Some eq by (auto simp: readCookie_def simp del: filter_map)
  qed
qed

text \<open>the cookie header an application receives gives it every one of its own cookies as the browser sent it, and
  no cookie of the reserved prefix, whatever white space or order the browser used: no session, no handoff verifier.\<close>

theorem stripFabrikaCookies_readCookie:
  "readCookie (hdr_get (stripFabrikaCookies h) ''Cookie'') name =
     (if startsWith name FABRIKA_COOKIE_PREFIX then None else readCookie (hdr_get h ''Cookie'') name)"
proof (cases "hdr_get h ''Cookie''")
  case None
  then show ?thesis unfolding strip_parts by (simp add: readCookie_def)
next
  case (Some raw)
  have "find_cookie name (map trim (splitOn (CHR '';'') raw)) = find_cookie name (splitOn (CHR '';'') raw)"
    by (rule find_cookie_cong) (simp add: part_pair_trim)
  with Some show ?thesis unfolding strip_parts by (auto simp: find_cookie_kept readCookie_def)
qed

subsection \<open>Keys in Authorization headers\<close>

lemma b64_char_class: "n < 64 \<Longrightarrow> is_alnum (b64_char n) \<or> b64_char n = CHR ''+'' \<or> b64_char n = CHR ''/''"
  by (auto simp: b64_char_def is_alnum_def is_alpha_def is_lower_az_def is_upper_az_def is_digit_def Let_def of_char_of)

lemma btoa_chars: "c \<in> set (btoa s) \<Longrightarrow> is_alnum c \<or> c = CHR ''+'' \<or> c = CHR ''/'' \<or> c = CHR ''=''"
proof -
  assume "c \<in> set (btoa s)"
  then consider n where "n \<in> set (sextets (map of_char s))" "c = b64_char n" | "c = CHR ''=''"
    by (auto simp: btoa_def b64_pad_def split: if_splits)
  then show ?thesis
  proof cases
    case 1
    then have "n < 64" using sextets_small [of "map of_char s"] by auto
    with 1 show ?thesis using b64_char_class by blast
  qed simp
qed

lemma alnum_not_space: "is_alnum c \<Longrightarrow> \<not> js_space c"
  by (auto simp: is_alnum_def is_alpha_def is_lower_az_def is_upper_az_def is_digit_def js_space_def Let_def)

lemma basic_char_not_space: "basic_char c \<Longrightarrow> \<not> js_space c"
  using alnum_not_space by (auto simp: basic_char_def js_space_def)

lemma lower_space: "js_space c \<Longrightarrow> lower_char c = c"
  by (auto simp: js_space_def lower_char_def Let_def)

lemma btoa_eq_Nil [simp]: "btoa s = [] \<longleftrightarrow> s = []"
proof
  assume "btoa s = []"
  then have "sextets (map of_char s) = []" by (simp add: btoa_def)
  then show "s = []" using length_sextets [of "map of_char s"] by (cases s) auto
qed (simp add: btoa_def b64_pad_def)

lemma scheme_value_match:
  assumes "lower scheme = name" "name \<noteq> []" "list_all (\<lambda>c. \<not> js_space c) name" "list_all js_space ws" "ws \<noteq> []"
    and "v \<noteq> []" "list_all ok v" "tight v"
  shows "scheme_value name ok (trim (scheme @ ws @ v)) = Some v"
proof -
  have len: "length name = length scheme" using assms(1) by (auto simp: lower_def)
  have "\<not> js_space (hd scheme)"
    using assms(1-3) lower_space by (cases scheme) (auto simp: lower_def)
  then have "tight (scheme @ ws @ v)"
    using assms(1,2,6,8) by (auto simp: tight_def lower_def)
  then have tr: "trim (scheme @ ws @ v) = scheme @ ws @ v" by (rule trim_tight)
  have dw: "dropWhile js_space (ws @ v) = v"
    using assms(4,6,8) by (cases v) (simp_all add: dropWhile_spaces tight_def)
  have sp: "js_space (hd (ws @ v))" using assms(4,5) by (cases ws) auto
  have parts: "drop (length name) (scheme @ ws @ v) = ws @ v" "take (length name) (scheme @ ws @ v) = scheme"
    using len by simp_all
  show ?thesis unfolding scheme_value_def Let_def tr parts dw using assms(1,5,6,7) sp by simp
qed

text \<open>a platform key is recognised wherever an \<open>Authorization\<close> value can carry it: in the header text itself, or
  in the user or password of Basic credentials, in any case of the scheme and any white space after it. Such a value
  is what \<open>forwardsAuthorization\<close> never forwards.\<close>

theorem carriesPlatformKey_complete:
  assumes "str_includes creds key"
  shows "carriesPlatformKey (before @ creds @ after) key \<and>
    (lower scheme = ''basic'' \<and> ws \<noteq> [] \<and> list_all js_space ws \<longrightarrow> carriesPlatformKey (scheme @ ws @ btoa creds) key)"
proof (intro conjI impI)
  obtain a b where "creds = a @ key @ b" using assms by (auto simp: str_includes_iff)
  then have "before @ creds @ after = (before @ a) @ key @ (b @ after)" by simp
  then have "str_includes (before @ creds @ after) key" unfolding str_includes_iff by blast
  then show "carriesPlatformKey (before @ creds @ after) key" by (simp add: carriesPlatformKey_def)
next
  assume sc: "lower scheme = ''basic'' \<and> ws \<noteq> [] \<and> list_all js_space ws"
  show "carriesPlatformKey (scheme @ ws @ btoa creds) key"
  proof (cases "creds = []")
    case True
    then have "key = []" using assms by (simp add: str_includes_iff)
    then have "scheme @ ws @ btoa creds = [] @ key @ (scheme @ ws @ btoa creds)" by simp
    then have "str_includes (scheme @ ws @ btoa creds) key" unfolding str_includes_iff by blast
    then show ?thesis by (simp add: carriesPlatformKey_def)
  next
    case False
    have all: "list_all basic_char (btoa creds)" using btoa_chars by (auto simp: list_all_iff basic_char_def)
    then have "tight (btoa creds)"
      using False basic_char_not_space by (auto simp: tight_def list_all_iff)
    then have "scheme_value ''basic'' basic_char (trim (scheme @ ws @ btoa creds)) = Some (btoa creds)"
      using sc all False by (intro scheme_value_match) (auto simp: js_space_def)
    then show ?thesis using assms by (simp add: carriesPlatformKey_def atob_btoa)
  qed
qed

theorem carriesPlatformKey_complete_witness:
  "carriesPlatformKey (''BASIC '' @ btoa ''user:px_secret'') ''px_''"
proof -
  have "lower ''BASIC'' = ''basic''" "list_all js_space '' ''" "str_includes ''user:px_secret'' ''px_''" by code_simp+
  then show ?thesis
    using carriesPlatformKey_complete [where creds = "''user:px_secret''" and key = "''px_''" and scheme = "''BASIC''"
        and ws = "'' ''" and before = "[]" and after = "[]"]
    by simp
qed

lemma readBearer_token:
  "t \<noteq> [] \<Longrightarrow> list_all (\<lambda>c. \<not> js_space c \<and> \<not> line_terminator c) t \<Longrightarrow> readBearer (Some (''Bearer '' @ t)) = Some t"
proof -
  assume t: "t \<noteq> []" "list_all (\<lambda>c. \<not> js_space c \<and> \<not> line_terminator c) t"
  then have tt: "tight t" by (auto simp: tight_def list_all_iff)
  have "scheme_value ''bearer'' (\<lambda>c. \<not> line_terminator c) (trim (''Bearer'' @ '' '' @ t)) = Some t"
  proof (rule scheme_value_match)
    show "lower ''Bearer'' = ''bearer''" "list_all (\<lambda>c. \<not> js_space c) ''bearer''" "list_all js_space '' ''" by code_simp+
  qed (use t tt in \<open>auto simp: list_all_iff\<close>)
  then show ?thesis using tt by (simp add: readBearer_def trim_tight)
qed

subsection \<open>The handoff attempt\<close>

lemma base64url_map: "base64url bs = map (url_char \<circ> b64_char) (sextets (map of_char bs))"
proof -
  let ?ss = "sextets (map of_char bs) :: nat list"
  have small: "\<forall>n\<in>set ?ss. n < 64" by (rule sextets_small) auto
  have "filter (\<lambda>c. c \<noteq> CHR ''='') (map url_char (map b64_char ?ss)) = map url_char (map b64_char ?ss)"
    unfolding filter_id_conv
  proof
    fix c assume "c \<in> set (map url_char (map b64_char ?ss))"
    then obtain n where "n < 64" "c = url_char (b64_char n)" using small by auto
    then show "c \<noteq> CHR ''=''" using b64_char_no_pad [of n] by (simp add: url_char_def)
  qed
  moreover have "filter (\<lambda>c. c \<noteq> CHR ''='') (map url_char (b64_pad (length bs))) = []"
    by (simp add: b64_pad_def url_char_def)
  ultimately show ?thesis by (simp add: base64url_def btoa_def)
qed

lemma base64url_chars: "list_all handoff_char (base64url bs)"
proof -
  have small: "\<forall>n\<in>set (sextets (map of_char bs)). n < 64" by (rule sextets_small) auto
  then have "handoff_char (url_char (b64_char n))" if "n \<in> set (sextets (map of_char bs))" for n
    using that b64_char_class [of n]
    by (auto simp: handoff_char_def url_char_def is_alnum_def is_alpha_def is_lower_az_def is_upper_az_def is_digit_def)
  then show ?thesis by (auto simp: base64url_map list_all_iff)
qed

lemma length_base64url: "length (base64url bs) = (4 * length bs + 2) div 3"
  by (simp add: base64url_map length_sextets)

lemma handoff_char_plain: "handoff_char c \<Longrightarrow> \<not> js_space c \<and> c \<noteq> CHR '';'' \<and> c \<noteq> CHR ''=''"
  using alnum_not_space
  by (auto simp: handoff_char_def js_space_def is_alnum_def is_alpha_def is_lower_az_def is_upper_az_def is_digit_def)

lemma list_all_handoff_PREFIX: "list_all handoff_char HANDOFF_COOKIE_PREFIX"
  by (simp add: HANDOFF_COOKIE_PREFIX_def handoff_char_def is_alnum_def is_alpha_def is_lower_az_def is_upper_az_def)

lemma handoff_trim: "list_all handoff_char t \<Longrightarrow> trim t = t"
  using handoff_char_plain by (intro trim_nospace) (auto simp: list_all_iff)

lemma readCookie_single:
  assumes "list_all handoff_char n" "list_all handoff_char v" "v \<noteq> []"
  shows "readCookie (Some (n @ ''='' @ v)) n = Some v"
proof -
  have "CHR '';'' \<notin> set (n @ ''='' @ v)" using assms(1,2) handoff_char_plain by (auto simp: list_all_iff)
  then have s: "splitOn (CHR '';'') (n @ ''='' @ v) = [n @ ''='' @ v]" by (rule splitOn_no_occ)
  have "CHR ''='' \<notin> set n" using assms(1) handoff_char_plain by (auto simp: list_all_iff)
  then have "part_pair (n @ CHR ''='' # v) = Some (n, v)"
    using assms(1,2) by (simp add: part_pair_eq handoff_trim)
  with s assms(3) show ?thesis
    by (simp add: readCookie_def find_cookie_part del: find_cookie.simps(2))
qed

text \<open>with a source that returns as many bytes as it is asked for, every handoff attempt the proxy creates can be
  completed: its state is a valid cookie suffix, and the verifier is read back from the cookie named by the state.\<close>

theorem handoff_attempt_readable:
  assumes "\<And>n w. length (fst (rnd n w)) = n"
  shows "let a = fst (createHandoffAttempt rnd sha w); name = HANDOFF_COOKIE_PREFIX @ ha_state a in
    handoffCookieName (Some (ha_state a)) = Some name \<and>
    readCookie (Some (name @ ''='' @ ha_verifier a)) name = Some (ha_verifier a) \<and>
    ha_challenge a = handoffChallenge sha (ha_verifier a)"
proof -
  obtain bs w1 where r1: "rnd 16 w = (bs, w1)" by fastforce
  obtain cs w2 where r2: "rnd 32 w1 = (cs, w2)" by fastforce
  have len: "length bs = 16" "length cs = 32" using assms [of 16 w] assms [of 32 w1] r1 r2 by simp_all
  have a: "fst (createHandoffAttempt rnd sha w) =
      \<lparr>ha_state = base64url bs, ha_verifier = base64url cs, ha_challenge = handoffChallenge sha (base64url cs)\<rparr>"
    using r1 r2 by (simp add: createHandoffAttempt_def randomToken_def)
  have "HANDOFF_VALUE_PATTERN (base64url bs)"
    by (simp add: HANDOFF_VALUE_PATTERN_def length_base64url len base64url_chars)
  moreover have "readCookie (Some ((HANDOFF_COOKIE_PREFIX @ base64url bs) @ ''='' @ base64url cs)) (HANDOFF_COOKIE_PREFIX @ base64url bs)
      = Some (base64url cs)"
  proof (rule readCookie_single)
    show "base64url cs \<noteq> []" using length_base64url [of cs] len(2) by auto
  qed (simp_all add: list_all_handoff_PREFIX base64url_chars)
  ultimately show ?thesis unfolding a by (simp add: handoffCookieName_def)
qed

theorem handoff_attempt_readable_witness:
  "handoffCookieName (Some (ha_state (fst (createHandoffAttempt (\<lambda>n w. (replicate n (CHR ''x''), w)) (\<lambda>s. s) ())))) \<noteq> None"
  using handoff_attempt_readable [where rnd = "\<lambda>n w. (replicate n (CHR ''x''), w)" and sha = "\<lambda>s. s" and w = "()"]
  by (simp add: Let_def)

end
