(* ===== verification/Header_Policy.thy ===== *)
theory Header_Policy
  imports Credentials
begin

text \<open>
  The response header policy of \<open>packages/proxy-core/src/headers.ts\<close>: the content security policy with its named
  origins, the headers an application may not send, the cross-origin answer, the file treatment and the cache rule. A
  function that mutates a \<open>Headers\<close> object returns the updated one.
\<close>

subsection \<open>Data\<close>

type_synonym header_policy = "(string \<times> string) list"

record csp_origins =
  connectSrc :: "string list"
  imgSrc :: "string list"
  frameAncestors :: "string list"
  scriptSrc :: "string list"
  frameSrc :: "string list"
  styleSrc :: "string list"
  fontSrc :: "string list"
  workerSrc :: "string list option"

datatype public_scheme = Http | Https

datatype endpoint_response = FileResponse | InlineFileResponse

datatype endpoint_cache = Immutable | MaxAge nat

definition PERMISSIONS_POLICY_FEATURES :: "string list" where
  "PERMISSIONS_POLICY_FEATURES =
    [''accelerometer'', ''ambient-light-sensor'', ''autoplay'', ''bluetooth'', ''browsing-topics'', ''camera'',
     ''clipboard-read'', ''display-capture'', ''encrypted-media'', ''fullscreen'', ''gamepad'', ''geolocation'',
     ''gyroscope'', ''hid'', ''identity-credentials-get'', ''idle-detection'', ''local-fonts'', ''magnetometer'',
     ''microphone'', ''midi'', ''otp-credentials'', ''payment'', ''picture-in-picture'',
     ''publickey-credentials-create'', ''publickey-credentials-get'', ''screen-wake-lock'', ''serial'',
     ''storage-access'', ''usb'', ''web-share'', ''window-management'', ''xr-spatial-tracking'']"

definition PERMISSIONS_POLICY :: string where
  "PERMISSIONS_POLICY = joinWith '', '' (map (\<lambda>f. f @ ''=()'') PERMISSIONS_POLICY_FEATURES)"

definition WORKER_BLOB_SOURCE :: string where "WORKER_BLOB_SOURCE = ''blob:''"

text \<open>\<open>HOSTNAME\<close> and the manifest's \<open>HOST_LABEL\<close>: LDH labels joined by dots.\<close>

definition ldh_char :: "char \<Rightarrow> bool" where
  "ldh_char c \<longleftrightarrow> is_lower_az c \<or> is_digit c"

definition host_label :: "string \<Rightarrow> bool" where
  "host_label l \<longleftrightarrow> l \<noteq> [] \<and> ldh_char (hd l) \<and> ldh_char (last l) \<and> list_all (\<lambda>c. ldh_char c \<or> c = CHR ''-'') l"

definition HOSTNAME :: "string \<Rightarrow> bool" where
  "HOSTNAME h \<longleftrightarrow> list_all host_label (splitOn (CHR ''.'') h)"

definition isPolicyOrigin :: "url_parser \<Rightarrow> string \<Rightarrow> string list \<Rightarrow> bool" where
  "isPolicyOrigin parseUrl value protocols =
     (case parseUrl value of
        None \<Rightarrow> False
      | Some u \<Rightarrow> protocol u \<in> set protocols \<and> url_origin u = value \<and> HOSTNAME (hostname u))"

definition isCrossOrigin :: "url_parser \<Rightarrow> string \<Rightarrow> bool" where
  "isCrossOrigin parseUrl value = isPolicyOrigin parseUrl value [''https:'', ''http:'']"

definition MAX_CSP_ORIGINS :: nat where "MAX_CSP_ORIGINS = 16"
definition MAX_CROSS_ORIGINS :: nat where "MAX_CROSS_ORIGINS = 16"

definition NO_CSP_ORIGINS :: csp_origins where
  "NO_CSP_ORIGINS = \<lparr>connectSrc = [], imgSrc = [], frameAncestors = [], scriptSrc = [], frameSrc = [],
     styleSrc = [], fontSrc = [], workerSrc = None\<rparr>"

subsection \<open>The policy\<close>

text \<open>A CSP keyword in its single quotes.\<close>

definition quoted :: "string \<Rightarrow> string" where
  "quoted s = CHR 0x27 # s @ [CHR 0x27]"

abbreviation SELF :: string where "SELF \<equiv> quoted ''self''"
abbreviation NONE :: string where "NONE \<equiv> quoted ''none''"

definition csp_directives :: "csp_origins \<Rightarrow> string option \<Rightarrow> string list" where
  "csp_directives origins operationsOrigin =
     (let connect = [SELF] @ (case operationsOrigin of None \<Rightarrow> [] | Some ops \<Rightarrow> [ops]) @ connectSrc origins;
          frame_ancestors = (if length (frameAncestors origins) = 0 then [NONE] else frameAncestors origins) in
      [''default-src '' @ SELF,
       ''script-src '' @ joinWith '' '' ([SELF] @ scriptSrc origins),
       ''style-src '' @ joinWith '' '' ([SELF, quoted ''unsafe-inline''] @ styleSrc origins),
       ''img-src '' @ joinWith '' '' ([SELF, ''data:'', ''blob:''] @ imgSrc origins),
       ''font-src '' @ joinWith '' '' ([SELF, ''data:''] @ fontSrc origins),
       ''connect-src '' @ joinWith '' '' connect,
       ''form-action '' @ SELF,
       ''object-src '' @ NONE,
       ''base-uri '' @ NONE,
       ''frame-ancestors '' @ joinWith '' '' frame_ancestors]
      @ (if length (frameSrc origins) = 0 then [] else [''frame-src '' @ joinWith '' '' ([SELF] @ frameSrc origins)])
      @ (if (case workerSrc origins of None \<Rightarrow> False | Some ws \<Rightarrow> WORKER_BLOB_SOURCE \<in> set ws)
         then [''worker-src '' @ SELF @ '' '' @ WORKER_BLOB_SOURCE] else []))"

definition headerPolicy :: "csp_origins \<Rightarrow> string option \<Rightarrow> header_policy" where
  "headerPolicy origins operationsOrigin =
     [(''Content-Security-Policy'', joinWith ''; '' (csp_directives origins operationsOrigin)),
      (''X-Content-Type-Options'', ''nosniff''),
      (''Cache-Control'', ''no-store''),
      (''Referrer-Policy'', ''no-referrer''),
      (''Cross-Origin-Opener-Policy'', ''same-origin''),
      (''Permissions-Policy'', PERMISSIONS_POLICY)]"

definition STRICT_TRANSPORT_SECURITY :: string where "STRICT_TRANSPORT_SECURITY = ''max-age=31536000''"

definition transportPolicy :: "public_scheme \<Rightarrow> header_policy" where
  "transportPolicy scheme = (if scheme = Https then [(''Strict-Transport-Security'', STRICT_TRANSPORT_SECURITY)] else [])"

definition TRANSPORT_HEADERS :: "string list" where "TRANSPORT_HEADERS = [''Strict-Transport-Security'']"

definition appHeaderPolicy :: "csp_origins \<Rightarrow> string option \<Rightarrow> public_scheme \<Rightarrow> header_policy" where
  "appHeaderPolicy csp operationsOrigin scheme = headerPolicy csp operationsOrigin @ transportPolicy scheme"

definition BASE_HEADER_POLICY :: header_policy where
  "BASE_HEADER_POLICY = headerPolicy NO_CSP_ORIGINS None"

definition REMOVED_RESPONSE_HEADERS :: "string list" where
  "REMOVED_RESPONSE_HEADERS =
     [''Content-Security-Policy-Report-Only'', ''Report-To'', ''Reporting-Endpoints'', ''NEL'',
      ''Access-Control-Allow-Origin'', ''Access-Control-Allow-Credentials'', ''Access-Control-Allow-Methods'',
      ''Access-Control-Allow-Headers'', ''Access-Control-Expose-Headers'', ''Access-Control-Max-Age'']"

subsection \<open>Rewriting an answer's headers\<close>

definition hdr_append :: "headers \<Rightarrow> string \<Rightarrow> string \<Rightarrow> headers" where
  "hdr_append h name value =
     hdr_set h name (case hdr_get h name of None \<Rightarrow> value | Some held \<Rightarrow> held @ '', '' @ value)"

definition applyHeaderPolicy :: "headers \<Rightarrow> header_policy \<Rightarrow> headers" where
  "applyHeaderPolicy h policy =
     foldl (\<lambda>h (name, value). hdr_set h name value)
       (foldl hdr_delete h (REMOVED_RESPONSE_HEADERS @ TRANSPORT_HEADERS)) policy"

definition crossOriginHeaders :: "string \<Rightarrow> header_policy" where
  "crossOriginHeaders allowOrigin =
     (if allowOrigin = ''*'' then [(''Access-Control-Allow-Origin'', ''*'')]
      else [(''Access-Control-Allow-Origin'', allowOrigin), (''Vary'', ''Origin'')])"

definition CROSS_ORIGIN_REQUEST_HEADERS :: string where "CROSS_ORIGIN_REQUEST_HEADERS = ''Authorization, Content-Type''"
definition CROSS_ORIGIN_MAX_AGE :: string where "CROSS_ORIGIN_MAX_AGE = ''600''"

definition preflightHeaders :: "string \<Rightarrow> string \<Rightarrow> header_policy" where
  "preflightHeaders allowOrigin m =
     crossOriginHeaders allowOrigin
     @ [(''Access-Control-Allow-Methods'', m),
        (''Access-Control-Allow-Headers'', CROSS_ORIGIN_REQUEST_HEADERS),
        (''Access-Control-Max-Age'', CROSS_ORIGIN_MAX_AGE)]"

definition applyCrossOriginHeaders :: "headers \<Rightarrow> header_policy \<Rightarrow> headers" where
  "applyCrossOriginHeaders h policy =
     foldl (\<lambda>h (name, value). if name = ''Vary'' then hdr_append h name value else hdr_set h name value) h policy"

definition INLINE_FILE_TYPES :: "string list" where
  "INLINE_FILE_TYPES = [''image/png'', ''image/jpeg'', ''image/gif'', ''image/webp'']"

definition INLINE_DOCUMENT_TYPES :: "string list" where
  "INLINE_DOCUMENT_TYPES = [''application/xml'', ''text/xml'', ''application/rss+xml'', ''application/atom+xml'']"

definition inlineFileTypes :: "endpoint_response option \<Rightarrow> string list" where
  "inlineFileTypes response =
     (if response = Some InlineFileResponse then INLINE_FILE_TYPES @ INLINE_DOCUMENT_TYPES else INLINE_FILE_TYPES)"

definition FILE_TREATMENT :: header_policy where
  "FILE_TREATMENT =
     [(''X-Content-Type-Options'', ''nosniff''),
      (''Content-Security-Policy'', ''sandbox; default-src '' @ NONE),
      (''Cache-Control'', ''private, no-store'')]"

definition appFileTreatment :: "public_scheme \<Rightarrow> header_policy" where
  "appFileTreatment scheme = FILE_TREATMENT @ transportPolicy scheme"

definition fileDisposition :: "string option \<Rightarrow> string list \<Rightarrow> string" where
  "fileDisposition contentType inline_types =
     (case contentType of
        None \<Rightarrow> ''attachment''
      | Some t \<Rightarrow> if t \<in> set inline_types then ''inline'' else ''attachment'')"

definition applyFileTreatment :: "headers \<Rightarrow> header_policy \<Rightarrow> string list \<Rightarrow> headers" where
  "applyFileTreatment h treatment inline_types =
     (let h1 = applyHeaderPolicy h treatment;
          parameters = (case hdr_get h1 ''Content-Disposition'' of
                          None \<Rightarrow> [] | Some d \<Rightarrow> dropWhile (\<lambda>c. c \<noteq> CHR '';'') d) in
      hdr_set h1 ''Content-Disposition'' (fileDisposition (hdr_get h1 ''Content-Type'') inline_types @ parameters))"

definition cacheControlOf :: "endpoint_cache \<Rightarrow> string" where
  "cacheControlOf cache =
     (case cache of
        Immutable \<Rightarrow> ''public, max-age=31536000, immutable''
      | MaxAge seconds \<Rightarrow> ''public, max-age='' @ show_nat seconds)"

definition applyAnswerCache :: "headers \<Rightarrow> endpoint_cache option \<Rightarrow> nat \<Rightarrow> headers" where
  "applyAnswerCache h cache status =
     (case cache of
        None \<Rightarrow> h
      | Some c \<Rightarrow> if status = 200 then hdr_set h ''Cache-Control'' (cacheControlOf c) else h)"

subsection \<open>What an answer carries\<close>

abbreviation low_names :: "header_policy \<Rightarrow> header_policy" where
  "low_names policy \<equiv> map (\<lambda>(n, v). (lower n, v)) policy"

lemma hdr_get_deletes: "hdr_get (foldl hdr_delete h names) m = (if lower m \<in> lower ` set names then None else hdr_get h m)"
  by (induction names arbitrary: h) auto

lemma hdr_get_sets:
  "hdr_get (foldl (\<lambda>h (name, value). hdr_set h name value) h policy) m =
     (case map_of (rev (low_names policy)) (lower m) of Some v \<Rightarrow> Some v | None \<Rightarrow> hdr_get h m)"
  by (induction policy arbitrary: h) (auto simp: map_add_def split: option.splits)

lemma hdr_get_applyHeaderPolicy:
  "hdr_get (applyHeaderPolicy h policy) m =
     (case map_of (rev (low_names policy)) (lower m) of
        Some v \<Rightarrow> Some v
      | None \<Rightarrow> if lower m \<in> lower ` set (REMOVED_RESPONSE_HEADERS @ TRANSPORT_HEADERS) then None else hdr_get h m)"
  by (auto simp: applyHeaderPolicy_def hdr_get_sets hdr_get_deletes split: option.splits)

text \<open>Names in lower case, computed once.\<close>

lemma lower_names [simp]:
  "lower ''Content-Security-Policy'' = ''content-security-policy''"
  "lower ''X-Content-Type-Options'' = ''x-content-type-options''"
  "lower ''Cache-Control'' = ''cache-control''"
  "lower ''Referrer-Policy'' = ''referrer-policy''"
  "lower ''Cross-Origin-Opener-Policy'' = ''cross-origin-opener-policy''"
  "lower ''Permissions-Policy'' = ''permissions-policy''"
  "lower ''Strict-Transport-Security'' = ''strict-transport-security''"
  "lower ''Content-Security-Policy-Report-Only'' = ''content-security-policy-report-only''"
  "lower ''Report-To'' = ''report-to''"
  "lower ''Reporting-Endpoints'' = ''reporting-endpoints''"
  "lower ''NEL'' = ''nel''"
  "lower ''Access-Control-Allow-Origin'' = ''access-control-allow-origin''"
  "lower ''Access-Control-Allow-Credentials'' = ''access-control-allow-credentials''"
  "lower ''Access-Control-Allow-Methods'' = ''access-control-allow-methods''"
  "lower ''Access-Control-Allow-Headers'' = ''access-control-allow-headers''"
  "lower ''Access-Control-Expose-Headers'' = ''access-control-expose-headers''"
  "lower ''Access-Control-Max-Age'' = ''access-control-max-age''"
  "lower ''Vary'' = ''vary''"
  "lower ''Content-Disposition'' = ''content-disposition''"
  "lower ''Content-Type'' = ''content-type''"
  by code_simp+

lemmas policy_defs = appHeaderPolicy_def headerPolicy_def transportPolicy_def REMOVED_RESPONSE_HEADERS_def TRANSPORT_HEADERS_def

text \<open>The names the policy of an application sets.\<close>

definition policy_names :: "string list" where
  "policy_names = [''Content-Security-Policy'', ''X-Content-Type-Options'', ''Cache-Control'', ''Referrer-Policy'',
     ''Cross-Origin-Opener-Policy'', ''Permissions-Policy'']"

lemma policy_lookup:
  "map_of (rev (low_names (appHeaderPolicy csp ops scheme))) m =
     (if m = ''strict-transport-security'' then (if scheme = Https then Some STRICT_TRANSPORT_SECURITY else None)
      else map_of (low_names (headerPolicy csp ops)) m)"
  by (cases scheme) (auto simp: policy_defs)

lemma policy_lookup_None:
  "lower m \<notin> lower ` set policy_names \<Longrightarrow> map_of (low_names (headerPolicy csp ops)) (lower m) = None"
  by (auto simp: policy_names_def headerPolicy_def)

text \<open>whatever a handler set, the answer of an application carries exactly the policy's security headers, none of
  the reporting and cross-origin headers it may not send, HSTS exactly on an \<open>https\<close> host, and every other header as
  the handler left it.\<close>

theorem app_answer_headers:
  "(\<forall>(name, value)\<in>set (headerPolicy csp ops).
      hdr_get (applyHeaderPolicy h (appHeaderPolicy csp ops scheme)) name = Some value) \<and>
   (\<forall>name\<in>set REMOVED_RESPONSE_HEADERS. hdr_get (applyHeaderPolicy h (appHeaderPolicy csp ops scheme)) name = None) \<and>
   hdr_get (applyHeaderPolicy h (appHeaderPolicy csp ops scheme)) ''Strict-Transport-Security'' =
     (if scheme = Https then Some STRICT_TRANSPORT_SECURITY else None) \<and>
   (lower m \<notin> lower ` set (policy_names @ REMOVED_RESPONSE_HEADERS @ TRANSPORT_HEADERS) \<longrightarrow>
      hdr_get (applyHeaderPolicy h (appHeaderPolicy csp ops scheme)) m = hdr_get h m)"
proof (intro conjI)
  show "\<forall>(name, value)\<in>set (headerPolicy csp ops).
      hdr_get (applyHeaderPolicy h (appHeaderPolicy csp ops scheme)) name = Some value"
    by (simp add: hdr_get_applyHeaderPolicy policy_lookup headerPolicy_def)
  show "\<forall>name\<in>set REMOVED_RESPONSE_HEADERS. hdr_get (applyHeaderPolicy h (appHeaderPolicy csp ops scheme)) name = None"
    by (simp add: hdr_get_applyHeaderPolicy policy_lookup headerPolicy_def REMOVED_RESPONSE_HEADERS_def)
  show "hdr_get (applyHeaderPolicy h (appHeaderPolicy csp ops scheme)) ''Strict-Transport-Security'' =
     (if scheme = Https then Some STRICT_TRANSPORT_SECURITY else None)"
    by (simp add: hdr_get_applyHeaderPolicy policy_lookup TRANSPORT_HEADERS_def)
  show "lower m \<notin> lower ` set (policy_names @ REMOVED_RESPONSE_HEADERS @ TRANSPORT_HEADERS) \<longrightarrow>
      hdr_get (applyHeaderPolicy h (appHeaderPolicy csp ops scheme)) m = hdr_get h m"
  proof
    assume m: "lower m \<notin> lower ` set (policy_names @ REMOVED_RESPONSE_HEADERS @ TRANSPORT_HEADERS)"
    then have "map_of (low_names (headerPolicy csp ops)) (lower m) = None" by (intro policy_lookup_None) auto
    with m show "hdr_get (applyHeaderPolicy h (appHeaderPolicy csp ops scheme)) m = hdr_get h m"
      by (simp add: hdr_get_applyHeaderPolicy policy_lookup TRANSPORT_HEADERS_def image_Un)
  qed
qed

theorem app_answer_headers_witness:
  "hdr_get (applyHeaderPolicy [(''x-app'', ''1''), (''cache-control'', ''public'')] (appHeaderPolicy NO_CSP_ORIGINS None Https)) ''X-App''
     = Some ''1''"
proof -
  have "lower ''X-App'' = ''x-app''" by code_simp
  moreover have "lower ''X-App'' \<notin> lower ` set (policy_names @ REMOVED_RESPONSE_HEADERS @ TRANSPORT_HEADERS)" by code_simp
  ultimately show ?thesis
    using app_answer_headers [where h = "[(''x-app'', ''1''), (''cache-control'', ''public'')]" and csp = NO_CSP_ORIGINS
        and ops = None and scheme = Https and m = "''X-App''"]
    by (simp add: hdr_get_def)
qed

text \<open>an answer to an admitted cross-origin request carries that origin and never the credentials header, whatever
  the handler set: a session does not cross origins. A listed origin is added to the handler's \<open>Vary\<close>, which is kept.\<close>

theorem cross_origin_answer:
  "let r = applyCrossOriginHeaders (applyHeaderPolicy h (appHeaderPolicy csp ops scheme)) (crossOriginHeaders allowOrigin) in
   hdr_get r ''Access-Control-Allow-Origin'' = Some allowOrigin \<and>
   hdr_get r ''Access-Control-Allow-Credentials'' = None \<and>
   hdr_get r ''Vary'' =
     (if allowOrigin = ''*'' then hdr_get h ''Vary''
      else Some (case hdr_get h ''Vary'' of None \<Rightarrow> ''Origin'' | Some v \<Rightarrow> v @ '', '' @ ''Origin''))"
proof -
  let ?p = "applyHeaderPolicy h (appHeaderPolicy csp ops scheme)"
  have v: "hdr_get ?p ''Vary'' = hdr_get h ''Vary''"
    by (simp add: hdr_get_applyHeaderPolicy policy_lookup headerPolicy_def REMOVED_RESPONSE_HEADERS_def TRANSPORT_HEADERS_def)
  have c: "hdr_get ?p ''Access-Control-Allow-Credentials'' = None"
    by (simp add: hdr_get_applyHeaderPolicy policy_lookup headerPolicy_def REMOVED_RESPONSE_HEADERS_def)
  show ?thesis
    using v c by (simp add: Let_def applyCrossOriginHeaders_def crossOriginHeaders_def hdr_append_def)
qed

subsection \<open>The directives of the policy\<close>

text \<open>An origin text that cannot end a directive or a source: no \<open>;\<close>, no white space.\<close>

definition source_text :: "string \<Rightarrow> bool" where
  "source_text s \<longleftrightarrow> s \<noteq> [] \<and> CHR '';'' \<notin> set s \<and> CHR '' '' \<notin> set s"

lemma host_label_chars: "host_label l \<Longrightarrow> c \<in> set l \<Longrightarrow> c \<noteq> CHR '';'' \<and> c \<noteq> CHR '' ''"
  by (auto simp: host_label_def list_all_iff ldh_char_def is_lower_az_def is_digit_def Let_def)

lemma splitOn_covers: "set h \<subseteq> insert c (\<Union>w\<in>set (splitOn c h). set w)"
proof (induction h)
  case (Cons x xs)
  show ?case
  proof (cases "splitOn c xs")
    case (Cons w ws)
    with Cons.IH show ?thesis by (cases "x = c") auto
  qed simp
qed simp

lemma HOSTNAME_chars: "HOSTNAME h \<Longrightarrow> CHR '';'' \<notin> set h \<and> CHR '' '' \<notin> set h"
proof -
  assume "HOSTNAME h"
  then have pieces: "\<forall>w\<in>set (splitOn (CHR ''.'') h). \<forall>c\<in>set w. c \<noteq> CHR '';'' \<and> c \<noteq> CHR '' ''"
    using host_label_chars by (auto simp: HOSTNAME_def list_all_iff)
  have "c \<noteq> CHR '';'' \<and> c \<noteq> CHR '' ''" if c: "c \<in> set h" for c
  proof -
    consider "c = CHR ''.''" | w where "w \<in> set (splitOn (CHR ''.'') h)" "c \<in> set w"
      using c splitOn_covers [of h "CHR ''.''"] by blast
    then show ?thesis using pieces by cases simp_all
  qed
  then show ?thesis by blast
qed

lemma policy_origin_source:
  assumes "isPolicyOrigin parseUrl value protocols" "set protocols \<subseteq> {''https:'', ''http:''}"
    and "\<And>t u. parseUrl t = Some u \<Longrightarrow> list_all is_digit (port u)"
  shows "source_text value"
proof -
  obtain u where u: "parseUrl value = Some u" "protocol u \<in> {''https:'', ''http:''}" "url_origin u = value" "HOSTNAME (hostname u)"
    using assms(1,2) by (auto simp: isPolicyOrigin_def split: option.splits)
  have "CHR '';'' \<notin> set (port u)" "CHR '' '' \<notin> set (port u)"
    using assms(3) [OF u(1)] by (auto simp: list_all_iff is_digit_def)
  then show ?thesis
    using u(2,4) HOSTNAME_chars [of "hostname u"] unfolding u(3) [symmetric]
    by (auto simp: source_text_def url_origin_def url_host_def)
qed

definition all_sources :: "csp_origins \<Rightarrow> string option \<Rightarrow> string list" where
  "all_sources csp ops = connectSrc csp @ imgSrc csp @ frameAncestors csp @ scriptSrc csp @ frameSrc csp @ styleSrc csp @
     fontSrc csp @ (case ops of None \<Rightarrow> [] | Some ops \<Rightarrow> [ops])"

lemma join_no_semicolon:
  "\<forall>w\<in>set ws. CHR '';'' \<notin> set w \<Longrightarrow> CHR '';'' \<notin> set (joinWith '' '' ws)"
proof (induction ws)
  case (Cons w ws)
  then show ?case by (cases ws) auto
qed simp

lemma csp_directives_text:
  assumes "\<forall>s\<in>set (all_sources csp ops). source_text s"
  shows "\<forall>d\<in>set (csp_directives csp ops). CHR '';'' \<notin> set d"
proof -
  have j: "CHR '';'' \<notin> set (joinWith '' '' ws)" if "set ws \<subseteq> set (all_sources csp ops) \<union> {SELF, NONE, quoted ''unsafe-inline'', ''data:'', ''blob:''}" for ws
  proof (rule join_no_semicolon, rule ballI)
    fix w assume "w \<in> set ws"
    with that have "w \<in> set (all_sources csp ops) \<or> w \<in> {SELF, NONE, quoted ''unsafe-inline'', ''data:'', ''blob:''}" by blast
    then show "CHR '';'' \<notin> set w" using assms by (auto simp: source_text_def quoted_def)
  qed
  have "CHR '';'' \<notin> set (joinWith '' '' (SELF # scriptSrc csp))"
    "CHR '';'' \<notin> set (joinWith '' '' (SELF # quoted ''unsafe-inline'' # styleSrc csp))"
    "CHR '';'' \<notin> set (joinWith '' '' (SELF # ''data:'' # ''blob:'' # imgSrc csp))"
    "CHR '';'' \<notin> set (joinWith '' '' (SELF # ''data:'' # fontSrc csp))"
    "CHR '';'' \<notin> set (joinWith '' '' (SELF # (case ops of None \<Rightarrow> [] | Some ops \<Rightarrow> [ops]) @ connectSrc csp))"
    "CHR '';'' \<notin> set (joinWith '' '' (if frameAncestors csp = [] then [NONE] else frameAncestors csp))"
    "CHR '';'' \<notin> set (joinWith '' '' (SELF # frameSrc csp))"
    by (rule j; auto simp: all_sources_def)+
  then show ?thesis
    by (auto simp: csp_directives_def Let_def quoted_def WORKER_BLOB_SOURCE_def split: if_splits)
qed

lemma splitOn_semicolon_space:
  assumes "ws \<noteq> []" "\<forall>w\<in>set ws. CHR '';'' \<notin> set w"
  shows "splitOn (CHR '';'') (joinWith ''; '' ws) = hd ws # map (\<lambda>w. CHR '' '' # w) (tl ws)"
proof -
  have "\<forall>w\<in>set (hd ws # map (\<lambda>w. CHR '' '' # w) (tl ws)). CHR '';'' \<notin> set w" using assms by (cases ws) auto
  then show ?thesis unfolding joinWith_cookie [OF assms(1)] by (intro split_join) auto
qed

text \<open>when every named origin is one the manifest admits (and the URL parser writes ports in digits), cutting the
  policy header at its semicolons gives back exactly the intended directives: no named origin can add a directive,
  and the script, object, base and form directives stay as the proxy wrote them.\<close>

theorem csp_no_injection:
  assumes "\<forall>s\<in>set (all_sources csp ops). isPolicyOrigin parseUrl s [''https:'', ''http:'']"
    and "\<And>t u. parseUrl t = Some u \<Longrightarrow> list_all is_digit (port u)"
  shows "map trim (splitOn (CHR '';'') (snd (hd (headerPolicy csp ops)))) = map trim (csp_directives csp ops) \<and>
    (workerSrc csp = None \<and> frameSrc csp = [] \<longrightarrow> length (csp_directives csp ops) = 10)"
proof
  have src: "\<forall>s\<in>set (all_sources csp ops). source_text s"
    using assms policy_origin_source [where parseUrl = parseUrl and protocols = "[''https:'', ''http:'']"] by auto
  have ne: "csp_directives csp ops \<noteq> []" by (simp add: csp_directives_def Let_def)
  have "map trim (splitOn (CHR '';'') (joinWith ''; '' (csp_directives csp ops))) =
      map trim (hd (csp_directives csp ops) # map (\<lambda>w. CHR '' '' # w) (tl (csp_directives csp ops)))"
    using splitOn_semicolon_space [OF ne csp_directives_text [OF src]] by (rule arg_cong)
  also have "\<dots> = map trim (csp_directives csp ops)"
    using ne trim_left [of "'' ''"] by (cases "csp_directives csp ops") (simp_all add: js_space_def)
  finally show "map trim (splitOn (CHR '';'') (snd (hd (headerPolicy csp ops)))) = map trim (csp_directives csp ops)"
    by (simp add: headerPolicy_def)
  show "workerSrc csp = None \<and> frameSrc csp = [] \<longrightarrow> length (csp_directives csp ops) = 10"
    by (simp add: csp_directives_def Let_def)
qed

definition cdn_parser :: url_parser where
  "cdn_parser t = (if t = ''https://cdn.example''
     then Some \<lparr>protocol = ''https:'', hostname = ''cdn.example'', port = [], pathname = ''/'', search = []\<rparr> else None)"

theorem csp_no_injection_witness:
  "length (csp_directives (NO_CSP_ORIGINS\<lparr>scriptSrc := [''https://cdn.example'']\<rparr>) None) = 10"
proof -
  have "isPolicyOrigin cdn_parser ''https://cdn.example'' [''https:'', ''http:'']" by code_simp
  then have 1: "\<forall>s\<in>set (all_sources (NO_CSP_ORIGINS\<lparr>scriptSrc := [''https://cdn.example'']\<rparr>) None).
      isPolicyOrigin cdn_parser s [''https:'', ''http:'']"
    by (simp add: all_sources_def NO_CSP_ORIGINS_def)
  have 2: "\<And>t u. cdn_parser t = Some u \<Longrightarrow> list_all is_digit (port u)"
    by (auto simp: cdn_parser_def split: if_splits)
  show ?thesis using csp_no_injection [OF 1 2] by (simp add: NO_CSP_ORIGINS_def)
qed

text \<open>every answer of a row that serves a stored file is sandboxed, unsniffable and uncached, and is shown inline
  exactly when its content type is one of the row's allowlisted types; the file name the handler chose is kept.\<close>

theorem file_answer_treatment:
  "let r = applyFileTreatment h (appFileTreatment scheme) (inlineFileTypes response) in
   hdr_get r ''Content-Security-Policy'' = Some (''sandbox; default-src '' @ NONE) \<and>
   hdr_get r ''X-Content-Type-Options'' = Some ''nosniff'' \<and>
   hdr_get r ''Cache-Control'' = Some ''private, no-store'' \<and>
   hdr_get r ''Content-Disposition'' =
     Some ((case hdr_get h ''Content-Type'' of
              Some t \<Rightarrow> if t \<in> set (inlineFileTypes response) then ''inline'' else ''attachment''
            | None \<Rightarrow> ''attachment'')
       @ (case hdr_get h ''Content-Disposition'' of None \<Rightarrow> [] | Some d \<Rightarrow> dropWhile (\<lambda>c. c \<noteq> CHR '';'') d))"
proof -
  let ?h1 = "applyHeaderPolicy h (appFileTreatment scheme)"
  have keep: "hdr_get ?h1 ''Content-Type'' = hdr_get h ''Content-Type''"
    "hdr_get ?h1 ''Content-Disposition'' = hdr_get h ''Content-Disposition''"
    by (cases scheme; simp add: hdr_get_applyHeaderPolicy appFileTreatment_def FILE_TREATMENT_def policy_defs)+
  have sets: "hdr_get ?h1 ''Content-Security-Policy'' = Some (''sandbox; default-src '' @ NONE)"
    "hdr_get ?h1 ''X-Content-Type-Options'' = Some ''nosniff''" "hdr_get ?h1 ''Cache-Control'' = Some ''private, no-store''"
    by (cases scheme; simp add: hdr_get_applyHeaderPolicy appFileTreatment_def FILE_TREATMENT_def policy_defs)+
  show ?thesis
    unfolding Let_def applyFileTreatment_def hdr_get_set keep sets
    by (simp add: fileDisposition_def keep sets split: option.splits)
qed

end
