(* ===== verification/Endpoint_Digest.thy ===== *)
theory Endpoint_Digest
  imports Canonical_Json Sha256_Fips Endpoints Requirement Header_Policy
begin

text \<open>
  The rules the proxy applies to an endpoint and their digest (\<open>packages/auth-core/src/endpoint-digest.ts\<close>,
  \<open>contract-canonical.ts\<close>). The proxy sends the digest with every allowed request and the application compares it with its
  own. A row extends \<open>endpoint_pattern\<close>, so \<open>Endpoints\<close> selects among rows; an optional property of an object is an
  \<open>option\<close>. The digests of whole contracts and exports, over the same canonical JSON, are not modelled.
\<close>

subsection \<open>Rows\<close>

datatype endpoint_kind =
    Query | Mutation | Spa | Upload | Download
  | Health | Form | Webhook | LinkSpa | PublicSpa | Public
  | Service | Protocol

datatype cross_origin_form = Environment | AnyOrigin

datatype endpoint_delegation = Members | Creates_value

record body_admission =
  contentTypes :: "string list"
  adm_maxBytes :: "nat option"

record manifest_row = endpoint_pattern +
  row_kind :: endpoint_kind
  row_callers :: "token_caller list"
  row_requirement :: "endpoint_requirement option"
  row_admission :: "body_admission option"
  row_crossOrigin :: "cross_origin_form option"
  row_response :: "endpoint_response option"
  row_cache :: "endpoint_cache option"
  row_forwardAuthorization :: bool
  row_oauth :: "string list option"
  row_delegation :: "endpoint_delegation option"
  row_digest :: string

subsection \<open>The canonical form\<close>

definition kind_text :: "endpoint_kind \<Rightarrow> string" where
  "kind_text k = (case k of Query \<Rightarrow> ''query'' | Mutation \<Rightarrow> ''mutation'' | Spa \<Rightarrow> ''spa'' | Upload \<Rightarrow> ''upload''
     | Download \<Rightarrow> ''download'' | Health \<Rightarrow> ''health'' | Form \<Rightarrow> ''form'' | Webhook \<Rightarrow> ''webhook'' | LinkSpa \<Rightarrow> ''link-spa''
     | PublicSpa \<Rightarrow> ''public-spa'' | Public \<Rightarrow> ''public'' | Service \<Rightarrow> ''service'' | Protocol \<Rightarrow> ''protocol'')"

definition caller_text :: "token_caller \<Rightarrow> string" where
  "caller_text c = (case c of Human \<Rightarrow> ''human'' | Machine \<Rightarrow> ''machine'' | LinkCaller \<Rightarrow> ''link'' | OAuthCaller \<Rightarrow> ''oauth''
     | AppCaller a \<Rightarrow> ''app:'' @ a)"

definition access_fields :: "access_form \<Rightarrow> (string \<times> json) list" where
  "access_fields f = (case f of
       Over d \<Rightarrow> [(''form'', JStr ''over''), (''dimension'', JStr d)]
     | In d x \<Rightarrow> [(''form'', JStr ''in''), (''dimension'', JStr d), (''from'', JStr x)]
     | On d x \<Rightarrow> [(''form'', JStr ''on''), (''dimension'', JStr d), (''from'', case x of None \<Rightarrow> JNull | Some y \<Rightarrow> JStr y)]
     | Creates d \<Rightarrow> [(''form'', JStr ''creates''), (''dimension'', JStr d)]
     | AppForm \<Rightarrow> [(''form'', JStr ''app'')])"

definition capability_json :: "string \<times> access_form \<Rightarrow> json" where
  "capability_json c = JObj [(''action'', JStr (fst c)), (''access'', JObj (access_fields (snd c)))]"

definition requirement_fields :: "endpoint_requirement \<Rightarrow> (string \<times> json) list" where
  "requirement_fields q = (case q of
       Authenticated \<Rightarrow> [(''kind'', JStr ''authenticated'')]
     | Member \<Rightarrow> [(''kind'', JStr ''member'')]
     | ActionReq a f \<Rightarrow> [(''kind'', JStr ''action''), (''action'', JStr a), (''access'', JObj (access_fields f))]
     | Capabilities cs \<Rightarrow> [(''kind'', JStr ''capabilities''), (''capabilities'', JObj (map (\<lambda>(n, c). (n, capability_json c)) cs))])"

text \<open>\<open>sorted\<close> and \<open>sortedCodeUnits\<close>: code-unit order.\<close>

definition sorted_units :: "string list \<Rightarrow> string list" where
  "sorted_units xs = sort xs"

definition canonicalAdmission :: "body_admission \<Rightarrow> body_admission" where
  "canonicalAdmission adm = \<lparr>contentTypes = sorted_units (contentTypes adm), adm_maxBytes = adm_maxBytes adm\<rparr>"

definition admission_json :: "body_admission \<Rightarrow> json" where
  "admission_json adm = JObj [(''contentTypes'', JArr (map JStr (contentTypes adm))),
     (''maxBytes'', case adm_maxBytes adm of None \<Rightarrow> JNull | Some n \<Rightarrow> JNum (of_nat n))]"

definition delegation_json :: "endpoint_delegation option \<Rightarrow> json" where
  "delegation_json d = (case d of None \<Rightarrow> JNull | Some Members \<Rightarrow> JStr ''members'' | Some Creates_value \<Rightarrow> JStr ''creates'')"

definition crossOrigin_json :: "cross_origin_form \<Rightarrow> json" where
  "crossOrigin_json f = JStr (case f of Environment \<Rightarrow> ''environment'' | AnyOrigin \<Rightarrow> ''any'')"

definition response_json :: "endpoint_response \<Rightarrow> json" where
  "response_json r = JStr (case r of FileResponse \<Rightarrow> ''file'' | InlineFileResponse \<Rightarrow> ''inline-file'')"

definition cache_json :: "endpoint_cache \<Rightarrow> json" where
  "cache_json c = (case c of Immutable \<Rightarrow> JStr ''immutable'' | MaxAge n \<Rightarrow> JObj [(''maxAgeSeconds'', JNum (of_nat n))])"

definition optional_field :: "string \<Rightarrow> ('a \<Rightarrow> json) \<Rightarrow> 'a option \<Rightarrow> (string \<times> json) list" where
  "optional_field k f x = (case x of None \<Rightarrow> [] | Some y \<Rightarrow> [(k, f y)])"

definition rules_fields :: "manifest_row \<Rightarrow> (string \<times> json) list" where
  "rules_fields row =
     [(''kind'', JStr (kind_text (row_kind row))), (''method'', JStr (ep_method row)), (''path'', JStr (ep_path row)),
      (''callers'', JArr (map JStr (sorted_units (map caller_text (row_callers row))))),
      (''requirement'', case row_requirement row of None \<Rightarrow> JNull | Some q \<Rightarrow> JObj (requirement_fields q)),
      (''admission'', case row_admission row of None \<Rightarrow> JNull | Some adm \<Rightarrow> admission_json (canonicalAdmission adm)),
      (''delegation'', delegation_json (row_delegation row))] @
     optional_field ''oauth'' (\<lambda>scopes. JObj [(''scopes'', JArr (map JStr (sorted_units scopes)))]) (row_oauth row) @
     optional_field ''crossOrigin'' crossOrigin_json (row_crossOrigin row) @
     optional_field ''response'' response_json (row_response row) @
     optional_field ''cache'' cache_json (row_cache row) @
     optional_field ''authorization'' JStr (if row_forwardAuthorization row then Some ''forward'' else None)"

subsection \<open>Digests\<close>

definition digestOf :: "string \<Rightarrow> string" where
  "digestOf j = ''sha256:'' @ sha256Hex j"

definition requirementText :: "manifest_row \<Rightarrow> string" where
  "requirementText row = canonicalJson natText (JObj (rules_fields row))"

definition requirementDigest :: "manifest_row \<Rightarrow> string" where
  "requirementDigest row = digestOf (requirementText row)"

definition isDigest :: "string \<Rightarrow> bool" where
  "isDigest v \<longleftrightarrow>
     take 7 v = ''sha256:'' \<and> length v = 71 \<and> list_all lower_hex (drop 7 v)"

definition installationTableDigest :: "manifest_row list \<Rightarrow> string list \<Rightarrow> string" where
  "installationTableDigest table prefs =
     digestOf (canonicalJson natText (JObj
       [(''endpoints'', JArr (map JStr (sorted_units
           (map (\<lambda>row. ep_id row @ ''@'' @ requirementDigest (row\<lparr>row_delegation := None\<rparr>)) table)))),
        (''reservedPrefixes'', JArr (map JStr (sorted_units prefs)))]))"

text \<open>The dimensions of an artifact: the \<open>members.manage\<close> action of each that has one.\<close>

definition endpointDelegation :: "(string \<times> string option) list \<Rightarrow> endpoint_requirement option \<Rightarrow> endpoint_delegation option" where
  "endpointDelegation dims q =
     (case q of
        Some (ActionReq action access) \<Rightarrow>
          (let member = (\<lambda>d. if map_of dims d = Some (Some action) then Some Members else None) in
           case access of Creates _ \<Rightarrow> Some Creates_value | AppForm \<Rightarrow> None
             | Over d \<Rightarrow> member d | In d _ \<Rightarrow> member d | On d _ \<Rightarrow> member d)
      | _ \<Rightarrow> None)"

definition endpointDigest :: "(string \<times> string option) list \<Rightarrow> manifest_row \<Rightarrow> string" where
  "endpointDigest dims row = requirementDigest (row\<lparr>row_delegation := endpointDelegation dims (row_requirement row)\<rparr>)"

definition formatEndpointHeader :: "string \<Rightarrow> string \<Rightarrow> string" where
  "formatEndpointHeader i digest = i @ ''@'' @ digest"

text \<open>\<open>value.lastIndexOf('@')\<close>.\<close>

fun lastIndexOf :: "char \<Rightarrow> string \<Rightarrow> nat option" where
  "lastIndexOf c [] = None"
| "lastIndexOf c (d # ds) = (case lastIndexOf c ds of Some i \<Rightarrow> Some (Suc i) | None \<Rightarrow> if d = c then Some 0 else None)"

definition parseEndpointHeader :: "string \<Rightarrow> (string \<times> string) option" where
  "parseEndpointHeader v =
     (case lastIndexOf (CHR ''@'') v of
        None \<Rightarrow> None
      | Some separator \<Rightarrow>
          (let i = take separator v; digest = drop (separator + 1) v in
           if separator = 0 \<or> \<not> isDigest digest then None else Some (i, digest)))"

subsection \<open>The header\<close>

lemma isDigest_digestOf: "isDigest (digestOf j)"
  using sha256Hex_form [of j] by (simp add: isDigest_def digestOf_def)

lemma isDigest_requirementDigest [simp]: "isDigest (requirementDigest row)"
  by (simp add: requirementDigest_def isDigest_digestOf)

text \<open>A row's own id and digest are not among its rules.\<close>

lemma requirementDigest_id [simp]: "requirementDigest (row\<lparr>row_digest := d\<rparr>) = requirementDigest row"
  "requirementDigest (row\<lparr>ep_id := i\<rparr>) = requirementDigest row"
  by (simp_all add: requirementDigest_def requirementText_def rules_fields_def)

lemma isDigest_no_at:
  assumes "isDigest d"
  shows "CHR ''@'' \<notin> set d"
proof -
  have "d = ''sha256:'' @ drop 7 d" using assms append_take_drop_id [of 7 d] by (simp add: isDigest_def)
  moreover have "\<not> lower_hex (CHR ''@'')" by code_simp
  then have "CHR ''@'' \<notin> set (drop 7 d)" using assms by (auto simp: isDigest_def list_all_iff)
  moreover have "CHR ''@'' \<notin> set ''sha256:''" by code_simp
  ultimately show ?thesis by (metis Un_iff set_append)
qed

lemma lastIndexOf_None: "lastIndexOf c s = None \<longleftrightarrow> c \<notin> set s"
  by (induction s) (auto split: option.splits)

lemma lastIndexOf_append: "c \<notin> set t \<Longrightarrow> lastIndexOf c (s @ c # t) = Some (length s)"
  using lastIndexOf_None [of c t] by (induction s) simp_all

lemma lastIndexOf_Some: "lastIndexOf c s = Some i \<Longrightarrow> s = take i s @ c # drop (Suc i) s"
  by (induction s arbitrary: i) (auto split: option.splits if_splits)

text \<open>the endpoint header is read back exactly: of a non-empty id and a digest the parser recovers both from the text the
  proxy sends, also when the id holds an \<open>@\<close>, and a text it reads is the one the proxy would send for what it read.\<close>

theorem endpoint_header_roundtrip:
  "parseEndpointHeader v = Some (i, d) \<longleftrightarrow> v = formatEndpointHeader i d \<and> i \<noteq> [] \<and> isDigest d"
proof
  assume p: "parseEndpointHeader v = Some (i, d)"
  then obtain n where l: "lastIndexOf (CHR ''@'') v = Some n" by (cases "lastIndexOf (CHR ''@'') v") (simp_all add: parseEndpointHeader_def)
  then have n: "lastIndexOf (CHR ''@'') v = Some n" "n \<noteq> 0" "isDigest d" "i = take n v" "d = drop (Suc n) v"
    using p unfolding parseEndpointHeader_def l option.case Let_def by (simp_all split: if_splits)
  have "v = i @ CHR ''@'' # d" unfolding n(4,5) by (rule lastIndexOf_Some [OF n(1)])
  moreover from this have "i \<noteq> []" using n(2,4) by (cases v) auto
  ultimately show "v = formatEndpointHeader i d \<and> i \<noteq> [] \<and> isDigest d" using n(3) by (simp add: formatEndpointHeader_def)
next
  assume "v = formatEndpointHeader i d \<and> i \<noteq> [] \<and> isDigest d"
  then have v: "v = i @ CHR ''@'' # d" "i \<noteq> []" and d: "isDigest d" by (simp_all add: formatEndpointHeader_def)
  then have "lastIndexOf (CHR ''@'') v = Some (length i)" using lastIndexOf_append [OF isDigest_no_at [OF d]] by simp
  then show "parseEndpointHeader v = Some (i, d)" using v d by (simp add: parseEndpointHeader_def Let_def)
qed

subsection \<open>What a digest covers\<close>

text \<open>Rules that differ only in what carries no meaning: the order of callers, content types, scopes and capabilities.\<close>

definition same_requirement :: "endpoint_requirement \<Rightarrow> endpoint_requirement \<Rightarrow> bool" where
  "same_requirement q q' \<longleftrightarrow>
     (case (q, q') of (Capabilities cs, Capabilities cs') \<Rightarrow> set cs = set cs' | _ \<Rightarrow> q = q')"

definition same_admission :: "body_admission \<Rightarrow> body_admission \<Rightarrow> bool" where
  "same_admission a a' \<longleftrightarrow> mset (contentTypes a) = mset (contentTypes a') \<and> adm_maxBytes a = adm_maxBytes a'"

definition same_rules :: "manifest_row \<Rightarrow> manifest_row \<Rightarrow> bool" where
  "same_rules r r' \<longleftrightarrow>
     row_kind r = row_kind r' \<and> ep_method r = ep_method r' \<and> ep_path r = ep_path r' \<and>
     mset (row_callers r) = mset (row_callers r') \<and>
     rel_option same_requirement (row_requirement r) (row_requirement r') \<and>
     rel_option same_admission (row_admission r) (row_admission r') \<and>
     row_delegation r = row_delegation r' \<and> map_option mset (row_oauth r) = map_option mset (row_oauth r') \<and>
     row_crossOrigin r = row_crossOrigin r' \<and> row_response r = row_response r' \<and> row_cache r = row_cache r' \<and>
     row_forwardAuthorization r = row_forwardAuthorization r'"

text \<open>An object has each key once, and its numbers are safe integers.\<close>

definition rules_wf :: "manifest_row \<Rightarrow> bool" where
  "rules_wf r \<longleftrightarrow>
     (case row_requirement r of Some (Capabilities cs) \<Rightarrow> distinct (map fst cs) | _ \<Rightarrow> True) \<and>
     (case row_admission r of None \<Rightarrow> True | Some a \<Rightarrow> (case adm_maxBytes a of None \<Rightarrow> True | Some n \<Rightarrow> n < 2 ^ 53)) \<and>
     (case row_cache r of Some (MaxAge n) \<Rightarrow> n < 2 ^ 53 | _ \<Rightarrow> True)"

inductive_simps same_json_simps [simp]:
  "same_json JNull w" "same_json w JNull" "same_json (JBool b) w" "same_json (JNum n) w"
  "same_json (JStr s) (JArr ys)" "same_json (JStr s) (JObj b)" "same_json (JObj a) (JStr t)" "same_json (JArr xs) (JArr ys)"

lemma same_json_str [simp]: "same_json (JStr s) (JStr t) \<longleftrightarrow> s = t"
  by (auto intro: same_str elim: same_json.cases)

inductive_simps same_json_obj: "same_json (JObj a) (JObj b)"

lemma same_strings: "list_all2 same_json (map JStr xs) (map JStr ys) \<longleftrightarrow> xs = ys"
  by (simp add: list_all2_map1 list_all2_map2 list.rel_eq)

lemma sorted_units_eq: "sorted_units xs = sorted_units ys \<longleftrightarrow> mset xs = mset ys"
  unfolding sorted_units_def by (metis mset_sort properties_for_sort sorted_sort)

lemma caller_text_inj: "caller_text c = caller_text d \<Longrightarrow> c = d"
  by (cases c; cases d) (simp_all add: caller_text_def)

lemma kind_text_inj: "kind_text k = kind_text l \<longleftrightarrow> k = l"
  by (cases k; cases l) (simp_all add: kind_text_def)

lemma callers_eq: "mset (map caller_text cs) = mset (map caller_text ds) \<longleftrightarrow> mset cs = mset ds"
proof -
  have "inj caller_text" by (rule injI) (rule caller_text_inj)
  then have "inj (image_mset caller_text)" by (rule multiset.inj_map)
  then show ?thesis by (auto dest: injD)
qed

lemma access_same: "same_json (JObj (access_fields f)) (JObj (access_fields g)) \<longleftrightarrow> f = g"
proof
  assume "same_json (JObj (access_fields f)) (JObj (access_fields g))"
  then have fields: "rel_option same_json (map_of (access_fields f) k) (map_of (access_fields g) k)" for k
    by (simp add: same_json_obj)
  show "f = g"
    using fields [of "''form''"] fields [of "''dimension''"] fields [of "''from''"]
    by (cases f; cases g) (simp_all add: access_fields_def split: option.splits)
next
  show "f = g \<Longrightarrow> same_json (JObj (access_fields f)) (JObj (access_fields g))"
    by (cases f) (auto simp: access_fields_def same_json_obj split: option.splits)
qed

lemma capability_same: "same_json (capability_json c) (capability_json d) \<longleftrightarrow> c = d"
proof
  assume "same_json (capability_json c) (capability_json d)"
  then have fields: "rel_option same_json (map_of [(''action'', JStr (fst c)), (''access'', JObj (access_fields (snd c)))] k)
      (map_of [(''action'', JStr (fst d)), (''access'', JObj (access_fields (snd d)))] k)" for k
    by (simp add: capability_json_def same_json_obj)
  show "c = d" using fields [of "''action''"] fields [of "''access''"] by (simp add: access_same prod_eq_iff)
next
  show "c = d \<Longrightarrow> same_json (capability_json c) (capability_json d)"
    unfolding capability_json_def by (rule same_obj) (simp add: access_same)
qed

lemma capabilities_same:
  assumes "distinct (map fst cs)" "distinct (map fst ds)"
  shows "same_json (JObj (map (\<lambda>(n, c). (n, capability_json c)) cs)) (JObj (map (\<lambda>(n, c). (n, capability_json c)) ds)) \<longleftrightarrow> set cs = set ds"
proof -
  have "rel_option same_json (map_option capability_json x) (map_option capability_json y) \<longleftrightarrow> x = y" for x y
    by (cases x; cases y) (simp_all add: capability_same)
  then have "same_json (JObj (map (\<lambda>(n, c). (n, capability_json c)) cs)) (JObj (map (\<lambda>(n, c). (n, capability_json c)) ds)) \<longleftrightarrow>
      map_of cs = map_of ds"
    unfolding same_json_obj map_of_map by (simp add: fun_eq_iff)
  also have "\<dots> \<longleftrightarrow> set cs = set ds" using assms by (rule map_of_inject_set)
  finally show ?thesis .
qed

lemma requirement_same:
  assumes "case q of Capabilities cs \<Rightarrow> distinct (map fst cs) | _ \<Rightarrow> True" "case p of Capabilities cs \<Rightarrow> distinct (map fst cs) | _ \<Rightarrow> True"
  shows "same_json (JObj (requirement_fields q)) (JObj (requirement_fields p)) \<longleftrightarrow> same_requirement q p"
proof
  assume "same_json (JObj (requirement_fields q)) (JObj (requirement_fields p))"
  then have fields: "rel_option same_json (map_of (requirement_fields q) k) (map_of (requirement_fields p) k)" for k
    by (simp add: same_json_obj)
  show "same_requirement q p"
    using fields [of "''kind''"] fields [of "''action''"] fields [of "''access''"] fields [of "''capabilities''"] assms
    by (cases q; cases p) (simp_all add: requirement_fields_def same_requirement_def access_same capabilities_same)
next
  show "same_requirement q p \<Longrightarrow> same_json (JObj (requirement_fields q)) (JObj (requirement_fields p))"
    using assms by (intro same_obj, cases q; cases p)
      (simp_all add: requirement_fields_def same_requirement_def access_same capabilities_same)
qed

definition rule_keys :: "string list" where
  "rule_keys = [''kind'', ''method'', ''path'', ''callers'', ''requirement'', ''admission'', ''delegation'', ''oauth'', ''crossOrigin'',
     ''response'', ''cache'', ''authorization'']"

lemma rules_lookup:
  "map_of (rules_fields r) ''kind'' = Some (JStr (kind_text (row_kind r)))"
  "map_of (rules_fields r) ''method'' = Some (JStr (ep_method r))"
  "map_of (rules_fields r) ''path'' = Some (JStr (ep_path r))"
  "map_of (rules_fields r) ''callers'' = Some (JArr (map JStr (sorted_units (map caller_text (row_callers r)))))"
  "map_of (rules_fields r) ''requirement'' = Some (case row_requirement r of None \<Rightarrow> JNull | Some q \<Rightarrow> JObj (requirement_fields q))"
  "map_of (rules_fields r) ''admission'' = Some (case row_admission r of None \<Rightarrow> JNull | Some a \<Rightarrow> admission_json (canonicalAdmission a))"
  "map_of (rules_fields r) ''delegation'' = Some (delegation_json (row_delegation r))"
  "map_of (rules_fields r) ''oauth'' = map_option (\<lambda>scopes. JObj [(''scopes'', JArr (map JStr (sorted_units scopes)))]) (row_oauth r)"
  "map_of (rules_fields r) ''crossOrigin'' = map_option crossOrigin_json (row_crossOrigin r)"
  "map_of (rules_fields r) ''response'' = map_option response_json (row_response r)"
  "map_of (rules_fields r) ''cache'' = map_option cache_json (row_cache r)"
  "map_of (rules_fields r) ''authorization'' = (if row_forwardAuthorization r then Some (JStr ''forward'') else None)"
  by (simp_all add: rules_fields_def optional_field_def split: option.split)

lemma rules_keys_subset: "set (map fst (rules_fields r)) \<subseteq> set rule_keys"
  by (auto simp: rules_fields_def optional_field_def rule_keys_def split: option.splits)

lemma rules_keys_distinct: "distinct (map fst (rules_fields r))"
  by (cases "row_oauth r"; cases "row_crossOrigin r"; cases "row_response r"; cases "row_cache r") (simp_all add: rules_fields_def optional_field_def)

lemma admission_same:
  "same_json (admission_json (canonicalAdmission a)) (admission_json (canonicalAdmission b)) \<longleftrightarrow> same_admission a b"
proof -
  let ?f = "\<lambda>a. [(''contentTypes'', JArr (map JStr (sorted_units (contentTypes a)))),
     (''maxBytes'', case adm_maxBytes a of None \<Rightarrow> JNull | Some n \<Rightarrow> JNum (of_nat n))]"
  have "same_json (JObj (?f a)) (JObj (?f b)) \<longleftrightarrow> same_admission a b"
  proof
    assume "same_json (JObj (?f a)) (JObj (?f b))"
    then have f: "rel_option same_json (map_of (?f a) k) (map_of (?f b) k)" for k by (simp only: same_json_obj)
    show "same_admission a b"
      using f [of "''contentTypes''"] f [of "''maxBytes''"] by (simp add: same_strings sorted_units_eq same_admission_def split: option.splits)
  next
    assume "same_admission a b"
    then show "same_json (JObj (?f a)) (JObj (?f b))"
      by (intro same_obj) (simp add: same_strings sorted_units_eq same_admission_def split: option.splits)
  qed
  then show ?thesis by (simp add: admission_json_def canonicalAdmission_def)
qed

lemma scopes_same:
  "same_json (JObj [(''scopes'', JArr (map JStr (sorted_units xs)))]) (JObj [(''scopes'', JArr (map JStr (sorted_units ys)))]) \<longleftrightarrow> mset xs = mset ys"
  by (auto simp: same_json_obj same_strings sorted_units_eq split: if_splits)

lemma cache_same: "same_json (cache_json c) (cache_json d) \<longleftrightarrow> c = d"
  by (cases c; cases d) (auto simp: cache_json_def same_json_obj split: if_splits)

lemma small_same:
  "same_json (delegation_json x) (delegation_json y) \<longleftrightarrow> x = y"
  "same_json (crossOrigin_json f) (crossOrigin_json g) \<longleftrightarrow> f = g"
  "same_json (response_json p) (response_json q) \<longleftrightarrow> p = q"
  by (auto simp: delegation_json_def crossOrigin_json_def response_json_def
      split: option.splits endpoint_delegation.splits cross_origin_form.splits endpoint_response.splits)

lemma rel_option_same:
  assumes "\<And>x y. same_json (f x) (f y) \<longleftrightarrow> R x y"
  shows "rel_option same_json (map_option f a) (map_option f b) \<longleftrightarrow> rel_option R a b"
  by (cases a; cases b) (simp_all add: assms)

lemma rel_option_mset: "rel_option (\<lambda>xs ys. mset xs = mset ys) a b \<longleftrightarrow> map_option mset a = map_option mset b"
  by (cases a; cases b) simp_all

lemma rules_same:
  assumes "rules_wf r" "rules_wf r'"
  shows "same_json (JObj (rules_fields r)) (JObj (rules_fields r')) \<longleftrightarrow> same_rules r r'"
proof -
  have out: "map_of (rules_fields r) k = None" if "k \<notin> set rule_keys" for r k
    using rules_keys_subset [of r] that by (auto simp: map_of_eq_None_iff)
  have "same_json (JObj (rules_fields r)) (JObj (rules_fields r')) \<longleftrightarrow>
      (\<forall>k. rel_option same_json (map_of (rules_fields r) k) (map_of (rules_fields r') k))" by (rule same_json_obj)
  also have "\<dots> \<longleftrightarrow> (\<forall>k \<in> set rule_keys. rel_option same_json (map_of (rules_fields r) k) (map_of (rules_fields r') k))"
    using out by (metis option.rel_inject(1))
  also have "\<dots> \<longleftrightarrow> same_rules r r'"
  proof -
    have req: "same_json (case row_requirement r of None \<Rightarrow> JNull | Some q \<Rightarrow> JObj (requirement_fields q))
        (case row_requirement r' of None \<Rightarrow> JNull | Some q \<Rightarrow> JObj (requirement_fields q)) \<longleftrightarrow>
        rel_option same_requirement (row_requirement r) (row_requirement r')"
      using assms requirement_same unfolding rules_wf_def
      by (cases "row_requirement r"; cases "row_requirement r'") (simp_all split: endpoint_requirement.splits)
    have adm: "same_json (case row_admission r of None \<Rightarrow> JNull | Some a \<Rightarrow> admission_json (canonicalAdmission a))
        (case row_admission r' of None \<Rightarrow> JNull | Some a \<Rightarrow> admission_json (canonicalAdmission a)) \<longleftrightarrow>
        rel_option same_admission (row_admission r) (row_admission r')"
      by (cases "row_admission r"; cases "row_admission r'") (simp_all add: admission_same, simp_all add: admission_json_def)
    show ?thesis
      unfolding rule_keys_def same_rules_def
      by (simp add: rules_lookup req adm kind_text_inj same_strings sorted_units_eq callers_eq small_same rel_option_same
          scopes_same cache_same rel_option_mset option.rel_eq conj_ac del: mset_map)
  qed
  finally show ?thesis .
qed

lemma fields_natural:
  "natural (JObj (access_fields f))"
  "natural (capability_json c)"
  "natural (delegation_json x)" "natural (crossOrigin_json g)" "natural (response_json p)"
proof -
  show a: "natural (JObj (access_fields f))" for f by (cases f) (simp_all add: access_fields_def split: option.split)
  show "natural (capability_json c)" using a by (simp add: capability_json_def)
qed (simp_all add: delegation_json_def crossOrigin_json_def response_json_def split: option.split endpoint_delegation.split)

lemma requirement_natural:
  "(case q of Capabilities cs \<Rightarrow> distinct (map fst cs) | _ \<Rightarrow> True) \<Longrightarrow> natural (JObj (requirement_fields q))"
proof (cases q)
  case (Capabilities cs)
  assume "case q of Capabilities cs \<Rightarrow> distinct (map fst cs) | _ \<Rightarrow> True"
  moreover have "map fst (map (\<lambda>(n, c). (n, capability_json c)) cs) = map fst cs" by (induction cs) auto
  moreover have "list_all natural (map snd (map (\<lambda>(n, c). (n, capability_json c)) cs))" by (induction cs) (auto simp: fields_natural)
  ultimately show ?thesis using Capabilities by (simp add: requirement_fields_def del: map_map)
qed (use fields_natural(1) in \<open>simp_all add: requirement_fields_def\<close>)

lemma rules_natural:
  assumes "rules_wf r"
  shows "natural (JObj (rules_fields r))"
proof -
  have strs: "list_all natural (map JStr xs)" for xs by (simp add: list_all_iff)
  have "natural v" if "(k, v) \<in> set (rules_fields r)" for k v
  proof -
    have v: "map_of (rules_fields r) k = Some v" using that rules_keys_distinct by simp
    moreover have "k \<in> set rule_keys" using that rules_keys_subset [of r] by force
    moreover have "natural (case row_requirement r of None \<Rightarrow> JNull | Some q \<Rightarrow> JObj (requirement_fields q))"
      using assms requirement_natural by (auto simp: rules_wf_def split: option.splits)
    moreover have "natural (case row_admission r of None \<Rightarrow> JNull | Some a \<Rightarrow> admission_json (canonicalAdmission a))"
      using assms by (auto simp: rules_wf_def admission_json_def canonicalAdmission_def strs split: option.splits)
    moreover have "row_cache r = Some c \<Longrightarrow> natural (cache_json c)" for c
      using assms by (cases c) (auto simp: rules_wf_def cache_json_def)
    ultimately show ?thesis
      unfolding rule_keys_def by (auto simp: rules_lookup fields_natural strs split: if_splits)
  qed
  then show ?thesis using rules_keys_distinct by (auto simp: list_all_iff)
qed

text \<open>C21: an endpoint digest is taken over exactly the rules the proxy applies: two rows have one digested text precisely when
  they agree on kind, method, path, callers, requirement, admission, delegation, OAuth scopes, cross-origin form, file
  profile, cache and \<open>Authorization\<close> forwarding, up to the order of callers, content types, scopes and capabilities. So a
  digest that matches means, up to a collision of SHA-256, that the proxy and the application apply the same rules; and
  the digest always has the form the header parser admits.\<close>

theorem requirementDigest_exact:
  assumes "rules_wf r" and "rules_wf r'"
  shows "(requirementText r = requirementText r' \<longleftrightarrow> same_rules r r') \<and>
    requirementDigest r = ''sha256:'' @ sha256Hex (requirementText r) \<and> isDigest (requirementDigest r)"
  using exact_text [OF natText_decimal rules_natural [OF assms(1)] rules_natural [OF assms(2)]] rules_same [OF assms]
    isDigest_requirementDigest [of r]
  by (intro conjI) (simp_all only: requirementText_def requirementDigest_def digestOf_def)

definition sample_rules :: "token_caller list \<Rightarrow> manifest_row" where
  "sample_rules callers = \<lparr>ep_id = ''notes.list'', ep_method = ''GET'', ep_path = ''/api/notes'', row_kind = Query,
     row_callers = callers, row_requirement = Some (ActionReq ''note.read'' AppForm), row_admission = None,
     row_crossOrigin = None, row_response = None, row_cache = None, row_forwardAuthorization = False, row_oauth = None,
     row_delegation = None, row_digest = []\<rparr>"

theorem requirementDigest_exact_witness:
  "requirementText (sample_rules [Human, Machine]) = requirementText (sample_rules [Machine, Human]) \<and>
   requirementText (sample_rules [Human, Machine]) \<noteq> requirementText (sample_rules [Human])"
proof -
  have wf: "rules_wf (sample_rules cs)" for cs by (simp add: rules_wf_def sample_rules_def)
  show ?thesis
    using requirementDigest_exact [OF wf wf, of "[Human, Machine]" "[Machine, Human]"]
      requirementDigest_exact [OF wf wf, of "[Human, Machine]" "[Human]"]
    by (simp add: same_rules_def same_requirement_def sample_rules_def)
qed

end
