(* ===== verification/Proxy_Manifest.thy ===== *)
theory Proxy_Manifest
  imports Endpoint_Digest
begin

text \<open>
  The proxy's manifest (\<open>packages/proxy-core/src/manifest.ts\<close>): the entries, application environments and installation services, and the rules the manifest parser checks over whole
  entries. The rows extend \<open>endpoint_pattern\<close>, so \<open>Endpoints\<close> selects among them. The shape of the JSON (zod's part
  of the parser) is the record types; an optional property of an object is an \<open>option\<close>.
\<close>

subsection \<open>Rows\<close>

definition answersFile :: "manifest_row \<Rightarrow> bool" where
  "answersFile row \<longleftrightarrow> row_kind row = Download \<or> row_response row \<noteq> None"

definition CROSS_ORIGIN_KINDS :: "endpoint_kind list" where "CROSS_ORIGIN_KINDS = [Query, Mutation, Form, Public]"
definition ANY_ORIGIN_KINDS :: "endpoint_kind list" where "ANY_ORIGIN_KINDS = [Form, Public]"
definition FILE_RESPONSE_KINDS :: "endpoint_kind list" where "FILE_RESPONSE_KINDS = [Query, Mutation, Public]"

subsection \<open>Entries\<close>

record oauth_protected_resource =
  resource :: string
  resourceMetadata :: string
  authorizationServers :: "string list"
  scopesSupported :: "string list"

record contract_part =
  snapshot :: string
  csp :: csp_origins
  operationsOrigin :: "string option"
  crossOrigins :: "string list option"
  audience :: "string option"
  upstreamHost :: "string option"

datatype entry_form = Contract contract_part | Installation "oauth_protected_resource list option"

record proxy_app =
  app_id :: string
  hosts :: "string list"
  upstream :: string
  scheme :: public_scheme
  app_endpoints :: "manifest_row list"
  app_reservedPrefixes :: "string list"
  form :: entry_form

definition scheme_text :: "public_scheme \<Rightarrow> string" where
  "scheme_text s = (case s of Http \<Rightarrow> ''http'' | Https \<Rightarrow> ''https'')"

definition audienceOf :: "proxy_app \<Rightarrow> string" where
  "audienceOf entry =
     (case form entry of
        Contract c \<Rightarrow> (case audience c of Some a \<Rightarrow> a | None \<Rightarrow> app_id entry)
      | Installation _ \<Rightarrow> app_id entry)"

definition isApplicationEntry :: "proxy_app \<Rightarrow> bool" where
  "isApplicationEntry app = (case form app of Contract _ \<Rightarrow> True | Installation _ \<Rightarrow> False)"

type_synonym rules = "unit manifest_row_ext"

definition tableOf :: "proxy_app \<Rightarrow> rules pattern_table" where
  "tableOf app = \<lparr>endpoints = app_endpoints app, reservedPrefixes = app_reservedPrefixes app\<rparr>"

subsection \<open>Ids\<close>

definition APP_ENVIRONMENT_SEPARATOR :: string where "APP_ENVIRONMENT_SEPARATOR = ''@''"

definition isAppEnvironmentPart :: "string \<Rightarrow> bool" where
  "isAppEnvironmentPart value \<longleftrightarrow> value \<noteq> [] \<and> \<not> str_includes value APP_ENVIRONMENT_SEPARATOR"

definition appEnvironmentId :: "string \<Rightarrow> string \<Rightarrow> string option" where
  "appEnvironmentId app env =
     (if \<not> isAppEnvironmentPart app \<or> \<not> isAppEnvironmentPart env then None
      else Some (app @ APP_ENVIRONMENT_SEPARATOR @ env))"

definition parseAppEnvironmentId :: "string \<Rightarrow> (string \<times> string) option" where
  "parseAppEnvironmentId i =
     (case splitOn (CHR ''@'') i of
        [app, env] \<Rightarrow> if isAppEnvironmentPart app \<and> isAppEnvironmentPart env then Some (app, env) else None
      | _ \<Rightarrow> None)"

definition isProxyHost :: "string \<Rightarrow> bool" where
  "isProxyHost host \<longleftrightarrow> length host > 0 \<and> length host \<le> 253 \<and>
     list_all (\<lambda>label. length label \<le> 63 \<and> host_label label) (splitOn (CHR ''.'') host)"

definition DEV_SANDBOX_APP_ID :: "string \<Rightarrow> bool" where
  "DEV_SANDBOX_APP_ID s \<longleftrightarrow> s \<noteq> [] \<and> ldh_char (hd s) \<and> list_all (\<lambda>c. ldh_char c \<or> c = CHR ''-'') s"

definition DEV_SANDBOX_WORKSPACE_ID :: "string \<Rightarrow> bool" where
  "DEV_SANDBOX_WORKSPACE_ID s \<longleftrightarrow>
     (let parts = splitOn (CHR ''-'') s in map length parts = [8, 4, 4, 4, 12] \<and> list_all (list_all lower_hex) parts)"

definition parseDevSandboxEntryId :: "string \<Rightarrow> (string \<times> string) option" where
  "parseDevSandboxEntryId i =
     (case splitOn (CHR '':'') i of
        [pre, appId, workspaceId] \<Rightarrow>
          if pre = ''dev'' \<and> DEV_SANDBOX_APP_ID appId \<and> DEV_SANDBOX_WORKSPACE_ID workspaceId then Some (appId, workspaceId) else None
      | _ \<Rightarrow> None)"

definition devSandboxEntryId :: "string \<Rightarrow> string \<Rightarrow> string option" where
  "devSandboxEntryId appId workspaceId =
     (let i = ''dev'' @ '':'' @ appId @ '':'' @ workspaceId in
      if parseDevSandboxEntryId i = None then None else Some i)"

subsection \<open>The parser's rules over an entry\<close>

definition checkAudience :: "string \<Rightarrow> string option \<Rightarrow> bool" where
  "checkAudience i named =
     (case parseDevSandboxEntryId i of
        None \<Rightarrow> named = None
      | Some (appId, _) \<Rightarrow>
          (case named of None \<Rightarrow> False | Some a \<Rightarrow> (case parseAppEnvironmentId a of Some (app, _) \<Rightarrow> app = appId | None \<Rightarrow> False)))"

definition proxyAppId :: "string \<Rightarrow> bool" where
  "proxyAppId i \<longleftrightarrow> i \<noteq> [] \<and> (\<not> str_includes i APP_ENVIRONMENT_SEPARATOR \<or> parseAppEnvironmentId i \<noteq> None)"

text \<open>\<open>new URL\<close> of a resource the element schema accepted does not throw; a text it cannot parse fails the check.\<close>

fun checkOAuthResources_loop ::
  "url_parser \<Rightarrow> proxy_app \<Rightarrow> oauth_protected_resource list \<Rightarrow> string set \<Rightarrow> string set \<Rightarrow> bool" where
  "checkOAuthResources_loop parseUrl app [] resources metadata = True"
| "checkOAuthResources_loop parseUrl app (r # rs) resources metadata =
     ((case parseUrl (resource r) of
         None \<Rightarrow> False
       | Some u \<Rightarrow> \<not> (resource r \<in> resources \<or> resourceMetadata r \<in> metadata \<or> hostname u \<notin> set (hosts app)
                     \<or> protocol u \<noteq> scheme_text (scheme app) @ '':'')) \<and>
      checkOAuthResources_loop parseUrl app rs (insert (resource r) resources) (insert (resourceMetadata r) metadata))"

definition checkOAuthResources :: "url_parser \<Rightarrow> proxy_app \<Rightarrow> oauth_protected_resource list option \<Rightarrow> bool" where
  "checkOAuthResources parseUrl app rs =
     checkOAuthResources_loop parseUrl app (case rs of None \<Rightarrow> [] | Some rs \<Rightarrow> rs) {} {}"

definition crossOriginAllowed :: "endpoint_kind \<Rightarrow> cross_origin_form option \<Rightarrow> bool" where
  "crossOriginAllowed kind f =
     (case f of
        None \<Rightarrow> True
      | Some x \<Rightarrow> kind \<in> set CROSS_ORIGIN_KINDS \<and> (x \<noteq> AnyOrigin \<or> kind \<in> set ANY_ORIGIN_KINDS))"

definition checkCrossOrigins :: "url_parser \<Rightarrow> string list \<Rightarrow> string list option \<Rightarrow> bool" where
  "checkCrossOrigins parseUrl hs listed =
     (let origins = (case listed of None \<Rightarrow> [] | Some xs \<Rightarrow> xs) in
      distinct origins \<and>
      \<not> list_ex (\<lambda>origin. \<not> isCrossOrigin parseUrl origin \<or>
           (case parseUrl origin of None \<Rightarrow> True | Some u \<Rightarrow> hostname u \<in> set hs)) origins)"

definition oauthResourceOfRow :: "url_parser \<Rightarrow> oauth_protected_resource list option \<Rightarrow> string \<Rightarrow> oauth_protected_resource option" where
  "oauthResourceOfRow parseUrl rs path =
     (case rs of
        None \<Rightarrow> None
      | Some rs \<Rightarrow> find (\<lambda>r. case parseUrl (resource r) of None \<Rightarrow> False | Some u \<Rightarrow> pathname u = path) rs)"

definition checkEndpointTable :: "proxy_app \<Rightarrow> bool" where
  "checkEndpointTable app = (case compileEndpointTable (tableOf app) of Inr _ \<Rightarrow> True | Inl _ \<Rightarrow> False)"

fun duplicate_loop :: "string list \<Rightarrow> string set \<Rightarrow> string option" where
  "duplicate_loop [] seen = None"
| "duplicate_loop (host # hs) seen = (if host \<in> seen then Some host else duplicate_loop hs (insert host seen))"

definition findDuplicateProxyHost :: "proxy_app list \<Rightarrow> string option" where
  "findDuplicateProxyHost apps = duplicate_loop (concat (map hosts apps)) {}"

definition callerSchema :: "token_caller \<Rightarrow> bool" where
  "callerSchema c = (case c of
       Human \<Rightarrow> True | Machine \<Rightarrow> True | LinkCaller \<Rightarrow> True | OAuthCaller \<Rightarrow> False
     | AppCaller a \<Rightarrow> a \<noteq> [] \<and> list_all (\<lambda>ch. \<not> js_space ch \<and> ch \<noteq> CHR ''@'') a)"

definition accessFormSchema :: "access_form \<Rightarrow> bool" where
  "accessFormSchema f = (case f of Over d \<Rightarrow> d \<noteq> [] | In d x \<Rightarrow> d \<noteq> [] \<and> x \<noteq> [] | On d x \<Rightarrow> d \<noteq> [] \<and> x \<noteq> Some []
     | Creates d \<Rightarrow> d \<noteq> [] | AppForm \<Rightarrow> True)"

definition capabilityFormSchema :: "access_form \<Rightarrow> bool" where
  "capabilityFormSchema f = (case f of Over d \<Rightarrow> d \<noteq> [] | In d x \<Rightarrow> d \<noteq> [] \<and> x \<noteq> []
     | On d (Some x) \<Rightarrow> d \<noteq> [] \<and> x \<noteq> [] | _ \<Rightarrow> False)"

text \<open>A record has each name once.\<close>

definition requirementSchema :: "endpoint_requirement \<Rightarrow> bool" where
  "requirementSchema q = (case q of
       Authenticated \<Rightarrow> False
     | Member \<Rightarrow> True
     | ActionReq a f \<Rightarrow> a \<noteq> [] \<and> accessFormSchema f
     | Capabilities cs \<Rightarrow> distinct (map fst cs) \<and> length cs \<ge> 2 \<and>
         list_all (\<lambda>(n, a, f). n \<noteq> [] \<and> a \<noteq> [] \<and> capabilityFormSchema f) cs)"

definition admissionSchema :: "body_admission \<Rightarrow> bool" where
  "admissionSchema adm \<longleftrightarrow> contentTypes adm \<noteq> [] \<and> [] \<notin> set (contentTypes adm) \<and> adm_maxBytes adm \<noteq> Some 0"

definition MAX_CACHE_AGE_SECONDS :: nat where "MAX_CACHE_AGE_SECONDS = 31536000"

text \<open>The row schemas. A declared row is credentialed, anonymous or a public SPA; an installation row is a service or
  anonymous. A row whose digest does not describe its rules is refused.\<close>

definition declared_kinds_ok :: "manifest_row \<Rightarrow> bool" where
  "declared_kinds_ok row \<longleftrightarrow>
     (row_kind row \<in> {Query, Mutation, Spa, Upload, Download} \<and> row_callers row \<noteq> [] \<and> list_all callerSchema (row_callers row) \<and>
        (case row_requirement row of None \<Rightarrow> False | Some q \<Rightarrow> requirementSchema q) \<and>
        row_crossOrigin row \<noteq> Some AnyOrigin \<and> row_cache row = None \<and> \<not> row_forwardAuthorization row) \<or>
     (row_kind row \<in> {Health, Form, Webhook, LinkSpa, Public} \<and> row_callers row = [] \<and>
        row_requirement row = None \<and> row_delegation row = None \<and>
        (case row_cache row of Some (MaxAge n) \<Rightarrow> 1 \<le> n \<and> n \<le> MAX_CACHE_AGE_SECONDS | _ \<Rightarrow> True)) \<or>
     (row_kind row = PublicSpa \<and> ep_method row = ''GET'' \<and> row_admission row = None \<and> row_callers row = [] \<and>
        row_requirement row = None \<and> row_delegation row = None \<and> row_crossOrigin row = None \<and> row_response row = None \<and>
        row_cache row = None \<and> \<not> row_forwardAuthorization row)"

definition proxyEndpointRow_shape :: "manifest_row \<Rightarrow> bool" where
  "proxyEndpointRow_shape row \<longleftrightarrow>
     ep_id row \<noteq> [] \<and> ep_method row \<in> {''GET'', ''POST''} \<and> startsWith (ep_path row) ''/'' \<and>
     (case row_admission row of None \<Rightarrow> True | Some adm \<Rightarrow> admissionSchema adm) \<and>
     row_oauth row = None \<and> declared_kinds_ok row \<and>
     crossOriginAllowed (row_kind row) (row_crossOrigin row) \<and>
     (row_response row = None \<or> row_kind row \<in> set FILE_RESPONSE_KINDS) \<and>
     (row_cache row = None \<or> (row_kind row = Public \<and> ep_method row = ''GET'')) \<and>
     (\<not> row_forwardAuthorization row \<or> row_kind row = Webhook)"

definition proxyEndpointRow_ok :: "manifest_row \<Rightarrow> bool" where
  "proxyEndpointRow_ok row \<longleftrightarrow>
     proxyEndpointRow_shape row \<and> isDigest (row_digest row) \<and> row_digest row = requirementDigest row"

definition installationProxyEndpointRow_shape :: "manifest_row \<Rightarrow> bool" where
  "installationProxyEndpointRow_shape row \<longleftrightarrow>
     ep_id row \<noteq> [] \<and> ep_method row \<in> {''GET'', ''POST'', ''*''} \<and> startsWith (ep_path row) ''/'' \<and>
     (case row_admission row of None \<Rightarrow> True | Some adm \<Rightarrow> admissionSchema adm) \<and>
     row_delegation row = None \<and> row_crossOrigin row = None \<and> row_response row = None \<and> row_cache row = None \<and>
     \<not> row_forwardAuthorization row \<and>
     (row_kind row = Service \<and> row_callers row \<noteq> [] \<and> set (row_callers row) \<subseteq> {Human, Machine, OAuthCaller} \<and>
        row_requirement row = Some Authenticated \<and>
        (case row_oauth row of None \<Rightarrow> True | Some scopes \<Rightarrow> parseOAuthScopes scopes \<noteq> None) \<and>
        (OAuthCaller \<in> set (row_callers row) \<longleftrightarrow> row_oauth row \<noteq> None) \<or>
      row_kind row \<in> {Protocol, Health} \<and> row_callers row = [] \<and> row_requirement row = None \<and> row_oauth row = None)"

definition installationProxyEndpointRow_ok :: "manifest_row \<Rightarrow> bool" where
  "installationProxyEndpointRow_ok row \<longleftrightarrow>
     installationProxyEndpointRow_shape row \<and> isDigest (row_digest row) \<and> row_digest row = requirementDigest row"

definition OPS_PREFIX :: string where "OPS_PREFIX = ''/__fabrika/ops/''"
definition OPS_ROW_ID :: string where "OPS_ROW_ID = ''__fabrika.ops''"
definition OPS_ROW_MAX_BYTES :: nat where "OPS_ROW_MAX_BYTES = 64 * 1024"

definition opsProxyRow :: manifest_row where
  "opsProxyRow =
     (let rules = \<lparr>ep_id = OPS_ROW_ID, ep_method = ''POST'', ep_path = OPS_PREFIX @ ''*'', row_kind = Protocol, row_callers = [],
            row_requirement = None,
            row_admission = Some \<lparr>contentTypes = [''application/json''], adm_maxBytes = Some OPS_ROW_MAX_BYTES\<rparr>,
            row_crossOrigin = None, row_response = None, row_cache = None, row_forwardAuthorization = False, row_oauth = None,
            row_delegation = None, row_digest = []\<rparr> in
      rules\<lparr>row_digest := requirementDigest rules\<rparr>)"

definition app_fields_ok :: "proxy_app \<Rightarrow> bool" where
  "app_fields_ok app \<longleftrightarrow> proxyAppId (app_id app) \<and> hosts app \<noteq> [] \<and> list_all isProxyHost (hosts app) \<and> upstream app \<noteq> []"

definition contractProxyApp_ok :: "url_parser \<Rightarrow> proxy_app \<Rightarrow> contract_part \<Rightarrow> bool" where
  "contractProxyApp_ok parseUrl app c \<longleftrightarrow>
     app_fields_ok app \<and> isDigest (snapshot c) \<and> list_all (\<lambda>row. proxyEndpointRow_ok row \<or> row = opsProxyRow) (app_endpoints app) \<and>
     list_all (\<lambda>s. isPolicyOrigin parseUrl s [''https:''])
       (connectSrc (csp c) @ imgSrc (csp c) @ frameAncestors (csp c) @ scriptSrc (csp c) @ frameSrc (csp c) @ styleSrc (csp c) @ fontSrc (csp c)) \<and>
     list_all (\<lambda>xs. length xs \<le> MAX_CSP_ORIGINS)
       [connectSrc (csp c), imgSrc (csp c), frameAncestors (csp c), scriptSrc (csp c), frameSrc (csp c), styleSrc (csp c), fontSrc (csp c)] \<and>
     (case workerSrc (csp c) of None \<Rightarrow> True | Some ws \<Rightarrow> ws = [WORKER_BLOB_SOURCE]) \<and>
     (case operationsOrigin c of None \<Rightarrow> True | Some s \<Rightarrow> isPolicyOrigin parseUrl s [''https:'', ''http:'']) \<and>
     (case crossOrigins c of None \<Rightarrow> True
      | Some xs \<Rightarrow> xs \<noteq> [] \<and> length xs \<le> MAX_CROSS_ORIGINS \<and> list_all (isCrossOrigin parseUrl) xs) \<and>
     (case audience c of None \<Rightarrow> True | Some a \<Rightarrow> parseAppEnvironmentId a \<noteq> None) \<and>
     (case upstreamHost c of None \<Rightarrow> True | Some h \<Rightarrow> isProxyHost h) \<and>
     checkAudience (app_id app) (audience c) \<and> checkCrossOrigins parseUrl (hosts app) (crossOrigins c) \<and>
     \<not> list_ex (\<lambda>row. startsWith (ep_path row) OPS_PREFIX \<and> row_kind row \<noteq> Protocol) (app_endpoints app) \<and>
     checkEndpointTable app"

definition METADATA_PATH :: string where "METADATA_PATH = ''/.well-known/oauth-protected-resource''"

definition oauthProtectedResource_ok :: "url_parser \<Rightarrow> oauth_protected_resource \<Rightarrow> bool" where
  "oauthProtectedResource_ok parseUrl r \<longleftrightarrow>
     isOAuthResourceUri parseUrl (resource r) \<and> isOAuthResourceUri parseUrl (resourceMetadata r) \<and>
     length (authorizationServers r) = 1 \<and>
     list_all (\<lambda>server. isOAuthResourceUri parseUrl (server @ ''/'') \<and>
        (case parseUrl server of None \<Rightarrow> False | Some u \<Rightarrow> url_origin u = server)) (authorizationServers r) \<and>
     parseOAuthScopes (scopesSupported r) \<noteq> None \<and>
     (case (parseUrl (resource r), parseUrl (resourceMetadata r)) of
        (Some u, Some m) \<Rightarrow> url_origin u = url_origin m \<and>
          (pathname m = METADATA_PATH \<or> startsWith (pathname m) (METADATA_PATH @ ''/''))
      | _ \<Rightarrow> False)"

definition resource_paths :: "url_parser \<Rightarrow> oauth_protected_resource list option \<Rightarrow> string option list" where
  "resource_paths parseUrl rs =
     map (\<lambda>r. map_option pathname (parseUrl (resource r))) (case rs of None \<Rightarrow> [] | Some rs \<Rightarrow> rs)"

definition installationProxyApp_ok :: "url_parser \<Rightarrow> proxy_app \<Rightarrow> oauth_protected_resource list option \<Rightarrow> bool" where
  "installationProxyApp_ok parseUrl app rs \<longleftrightarrow>
     app_fields_ok app \<and> list_all installationProxyEndpointRow_ok (app_endpoints app) \<and> rs \<noteq> Some [] \<and>
     (case rs of None \<Rightarrow> True | Some rs \<Rightarrow> list_all (oauthProtectedResource_ok parseUrl) rs) \<and>
     \<not> str_includes (app_id app) APP_ENVIRONMENT_SEPARATOR \<and> checkOAuthResources parseUrl app rs \<and>
     distinct (resource_paths parseUrl rs) \<and>
     list_all (\<lambda>row. case row_oauth row of
         None \<Rightarrow> True
       | Some scopes \<Rightarrow> (case oauthResourceOfRow parseUrl rs (ep_path row) of
             None \<Rightarrow> False
           | Some r \<Rightarrow> list_all (\<lambda>sc. sc \<in> set (scopesSupported r)) scopes)) (app_endpoints app) \<and>
     checkEndpointTable app"

definition proxyApp_ok :: "url_parser \<Rightarrow> proxy_app \<Rightarrow> bool" where
  "proxyApp_ok parseUrl app =
     (case form app of
        Contract c \<Rightarrow> contractProxyApp_ok parseUrl app c
      | Installation rs \<Rightarrow> installationProxyApp_ok parseUrl app rs)"

definition proxyManifest_ok :: "url_parser \<Rightarrow> proxy_app list \<Rightarrow> bool" where
  "proxyManifest_ok parseUrl apps \<longleftrightarrow>
     list_all (proxyApp_ok parseUrl) apps \<and> distinct (map app_id apps) \<and> findDuplicateProxyHost apps = None"

subsection \<open>Round trips of the ids\<close>

lemma str_includes_one: "str_includes s [c] \<longleftrightarrow> c \<in> set s"
  by (auto simp: str_includes_iff in_set_conv_decomp)

lemma isAppEnvironmentPart_iff: "isAppEnvironmentPart v \<longleftrightarrow> v \<noteq> [] \<and> CHR ''@'' \<notin> set v"
  by (simp add: isAppEnvironmentPart_def APP_ENVIRONMENT_SEPARATOR_def str_includes_one)

text \<open>an application environment id is read back as the two parts it was built from, and every id that reads as two
  parts is the one built from them: ids and pairs correspond one to one.\<close>

theorem appEnvironmentId_roundtrip:
  "appEnvironmentId app env = Some i \<longleftrightarrow> parseAppEnvironmentId i = Some (app, env)"
proof
  assume "appEnvironmentId app env = Some i"
  then have p: "isAppEnvironmentPart app" "isAppEnvironmentPart env" and i: "i = app @ CHR ''@'' # env"
    by (auto simp: appEnvironmentId_def APP_ENVIRONMENT_SEPARATOR_def split: if_splits)
  then show "parseAppEnvironmentId i = Some (app, env)"
    by (simp add: parseAppEnvironmentId_def isAppEnvironmentPart_iff splitOn_append splitOn_no_occ)
next
  assume "parseAppEnvironmentId i = Some (app, env)"
  then have s: "splitOn (CHR ''@'') i = [app, env]" and p: "isAppEnvironmentPart app" "isAppEnvironmentPart env"
    by (auto simp: parseAppEnvironmentId_def split: list.splits if_splits)
  have "i = joinWith ''@'' [app, env]" using s join_split [of "CHR ''@''" i] by simp
  then show "appEnvironmentId app env = Some i" using p by (simp add: appEnvironmentId_def APP_ENVIRONMENT_SEPARATOR_def)
qed

lemma duplicate_loop_None: "duplicate_loop hs seen = None \<longleftrightarrow> distinct hs \<and> set hs \<inter> seen = {}"
  by (induction hs arbitrary: seen) auto

lemma distinct_concat_unique:
  "distinct (concat (map f xs)) \<Longrightarrow> a \<in> set xs \<Longrightarrow> b \<in> set xs \<Longrightarrow> h \<in> set (f a) \<Longrightarrow> h \<in> set (f b) \<Longrightarrow> a = b"
  by (induction xs) auto

text \<open>in an accepted manifest a host belongs to exactly one entry, and an entry to one id; every entry's table
  compiles, every row carries the digest of its own rules, and an installation entry is never an application
  environment.\<close>

theorem manifest_hosts_unique:
  assumes "proxyManifest_ok parseUrl apps"
    and "a \<in> set apps" "b \<in> set apps" "h \<in> set (hosts a)" "h \<in> set (hosts b)"
  shows "a = b \<and> (\<exists>t. compileEndpointTable (tableOf a) = Inr t) \<and>
    list_all (\<lambda>row. row_digest row = requirementDigest row) (app_endpoints a) \<and>
    (\<not> isApplicationEntry a \<longrightarrow> parseAppEnvironmentId (app_id a) = None)"
proof -
  have d: "distinct (concat (map hosts apps))"
    using assms(1) by (simp add: proxyManifest_ok_def findDuplicateProxyHost_def duplicate_loop_None)
  have "a = b" using distinct_concat_unique [OF d] assms(2-5) by blast
  have ok: "proxyApp_ok parseUrl a" using assms(1,2) by (auto simp: proxyManifest_ok_def list_all_iff)
  have "row_digest opsProxyRow = requirementDigest opsProxyRow"
    by (simp add: opsProxyRow_def Let_def) (simp add: requirementDigest_def requirementText_def rules_fields_def)
  then have digests: "list_all (\<lambda>row. row_digest row = requirementDigest row) (app_endpoints a)"
    using ok by (auto simp: proxyApp_ok_def contractProxyApp_ok_def installationProxyApp_ok_def proxyEndpointRow_ok_def
        installationProxyEndpointRow_ok_def list_all_iff split: entry_form.splits)
  have "checkEndpointTable a" "\<not> isApplicationEntry a \<longrightarrow> \<not> str_includes (app_id a) APP_ENVIRONMENT_SEPARATOR"
    using ok by (auto simp: proxyApp_ok_def contractProxyApp_ok_def installationProxyApp_ok_def isApplicationEntry_def
        split: entry_form.splits)
  moreover have "\<not> str_includes i APP_ENVIRONMENT_SEPARATOR \<Longrightarrow> parseAppEnvironmentId i = None" for i
    by (simp add: parseAppEnvironmentId_def APP_ENVIRONMENT_SEPARATOR_def str_includes_one splitOn_no_occ)
  ultimately show ?thesis
    using \<open>a = b\<close> digests by (auto simp: checkEndpointTable_def split: sum.splits)
qed

definition sample_row :: manifest_row where
  "sample_row = \<lparr>ep_id = ''notes.list'', ep_method = ''GET'', ep_path = ''/api/notes'', row_kind = Query,
     row_callers = [Human, Machine], row_requirement = Some (ActionReq ''note.read'' AppForm), row_admission = None,
     row_crossOrigin = None, row_response = None, row_cache = None, row_forwardAuthorization = False, row_oauth = None,
     row_delegation = None, row_digest = ''sha256:0''\<rparr>"

definition sample_app :: proxy_app where
  "sample_app = \<lparr>app_id = ''notes@prod'', hosts = [''notes.example''], upstream = ''notes:3000'', scheme = Https,
     app_endpoints = [sample_row], app_reservedPrefixes = [''/api''],
     form = Contract \<lparr>snapshot = ''sha256:0'', csp = NO_CSP_ORIGINS, operationsOrigin = None, crossOrigins = None,
       audience = None, upstreamHost = None\<rparr>\<rparr>"

subsection \<open>The producers\<close>

definition digested :: "manifest_row \<Rightarrow> manifest_row" where
  "digested row = row\<lparr>row_digest := requirementDigest row\<rparr>"

text \<open>The rows of \<open>contractProxyTable\<close>, from the artifact's rows and its dimensions.\<close>

definition contractProxyRows :: "(string \<times> string option) list \<Rightarrow> manifest_row list \<Rightarrow> bool \<Rightarrow> manifest_row list" where
  "contractProxyRows dims rows ops =
     map (\<lambda>row.
        if row_requirement row = None
        then digested (row\<lparr>row_delegation := None, row_oauth := None\<rparr>)
        else digested (row\<lparr>row_delegation := endpointDelegation dims (row_requirement row), row_oauth := None,
               row_cache := None, row_forwardAuthorization := False\<rparr>)) rows @
     (if ops then [opsProxyRow] else [])"

definition serviceProxyRows :: "manifest_row list \<Rightarrow> bool \<Rightarrow> manifest_row list" where
  "serviceProxyRows rows withOauth =
     map (\<lambda>row. digested (row\<lparr>row_delegation := None\<rparr>)) (filter (\<lambda>row. withOauth \<or> row_oauth row = None) rows)"

lemma digested_digest [simp]: "requirementDigest (digested row) = row_digest (digested row)"
  by (simp add: digested_def)

lemma digested_shape:
  "proxyEndpointRow_shape (digested row) = proxyEndpointRow_shape row"
  "installationProxyEndpointRow_shape (digested row) = installationProxyEndpointRow_shape row"
  by (simp_all add: digested_def proxyEndpointRow_shape_def installationProxyEndpointRow_shape_def declared_kinds_ok_def)

lemma digested_ok:
  "proxyEndpointRow_shape row \<Longrightarrow> proxyEndpointRow_ok (digested row)"
  "installationProxyEndpointRow_shape row \<Longrightarrow> installationProxyEndpointRow_ok (digested row)"
  by (simp_all add: proxyEndpointRow_ok_def installationProxyEndpointRow_ok_def digested_shape) (simp_all add: digested_def)

definition sample_digested :: "string \<Rightarrow> string \<Rightarrow> proxy_app" where
  "sample_digested d x = sample_app\<lparr>app_endpoints := [sample_row\<lparr>row_digest := d\<rparr>],
     form := Contract \<lparr>snapshot = x, csp = NO_CSP_ORIGINS, operationsOrigin = None, crossOrigins = None,
       audience = None, upstreamHost = None\<rparr>\<rparr>"

lemma sample_row_ok: "proxyEndpointRow_ok (sample_row\<lparr>row_digest := requirementDigest sample_row\<rparr>)"
proof -
  have "proxyEndpointRow_shape sample_row" by code_simp
  from digested_ok(1) [OF this] show ?thesis by (simp add: digested_def)
qed

lemma sample_table_ok: "checkEndpointTable (sample_digested d x)"
  by code_simp

definition sample_manifest :: "proxy_app list" where
  "sample_manifest = [sample_digested (requirementDigest sample_row) (digestOf ''{}'')]"

lemma sample_manifest_ok: "proxyManifest_ok (\<lambda>_. None) sample_manifest"
proof -
  let ?app = "sample_digested (requirementDigest sample_row) (digestOf ''{}'')"
  have parts: "app_fields_ok (sample_digested d x)" "checkAudience (app_id (sample_digested d x)) None"
    "\<not> startsWith (ep_path sample_row) OPS_PREFIX" "checkCrossOrigins (\<lambda>_. None) (hosts (sample_digested d x)) None"
    "findDuplicateProxyHost [sample_digested d x] = None" for d x
    by code_simp+
  have "contractProxyApp_ok (\<lambda>_. None) ?app \<lparr>snapshot = digestOf ''{}'', csp = NO_CSP_ORIGINS, operationsOrigin = None,
      crossOrigins = None, audience = None, upstreamHost = None\<rparr>"
    using parts sample_table_ok sample_row_ok isDigest_digestOf
    by (simp add: contractProxyApp_ok_def NO_CSP_ORIGINS_def) (simp add: sample_digested_def)
  then show ?thesis using parts(5)
    by (simp add: proxyManifest_ok_def sample_manifest_def proxyApp_ok_def) (simp add: sample_digested_def)
qed

theorem manifest_hosts_unique_witness:
  "\<exists>a \<in> set sample_manifest. (\<exists>t. compileEndpointTable (tableOf a) = Inr t) \<and>
     list_all (\<lambda>row. row_digest row = requirementDigest row) (app_endpoints a)"
proof -
  let ?app = "sample_digested (requirementDigest sample_row) (digestOf ''{}'')"
  have "?app \<in> set sample_manifest" "''notes.example'' \<in> set (hosts ?app)"
    by (simp_all add: sample_manifest_def sample_digested_def sample_app_def)
  with manifest_hosts_unique [OF sample_manifest_ok, of ?app ?app "''notes.example''"] show ?thesis by blast
qed

end
