(* ===== verification/Jwks_Verifier.thy ===== *)
theory Jwks_Verifier
  imports Token
begin

text \<open>
  The token verifier of \<open>packages/jwks/src/verifier.ts\<close>, which \<open>packages/proxy-core/src/verifier.ts\<close> wraps
  unchanged: the cached key set, the forced refetch on an unknown key, and the three-state result.

  The JOSE library, the transport that fetches the key set and the clock are not code of the repository:
  they are the fields of \<open>verifier_env\<close>, functions that also read and replace a world \<open>'w\<close>, so that a later
  call may answer differently from an earlier one. \<open>fetches\<close> and \<open>forced\<close> record what the verifier did (the
  number of key-set fetches and the times of the granted forced refetches, latest first); no operation
  reads them.
\<close>

subsection \<open>State and environment\<close>

datatype jose_outcome = Verified "json" "string option" | NoMatchingKey | JoseError

record ('w, 'j, 'k) verifier_env =
  env_now :: "'w \<Rightarrow> number \<times> 'w"
  env_getJwks :: "'w \<Rightarrow> 'j option \<times> 'w"
  env_createLocalJWKSet :: "'j \<Rightarrow> 'k option"
  env_jwtVerify :: "string \<Rightarrow> 'k \<Rightarrow> string \<Rightarrow> string \<Rightarrow> 'w \<Rightarrow> jose_outcome \<times> 'w"
  env_parseUrl :: url_parser
  env_issuer :: string
  env_ttlSeconds :: number
  env_refetchCooldownSeconds :: number

record ('w, 'k) verifier_state =
  world :: 'w
  entry :: "('k \<times> number) option"
  lastForcedAt :: "number option"
  fetches :: nat
  forced :: "number list"

datatype verify_result = Ok access_token_claims | Invalid | Unavailable

text \<open>What \<open>keySet\<close> can throw: its own error when the fetch failed, or the error of \<open>createLocalJWKSet\<close>.\<close>

datatype verify_exn = JwksUnavailableError | OtherError

datatype verified_payload = NO_KEY | NullPayload | Payload json

definition JWKS_TTL_SECONDS :: number where "JWKS_TTL_SECONDS = 600"
definition JWKS_REFETCH_COOLDOWN_SECONDS :: number where "JWKS_REFETCH_COOLDOWN_SECONDS = 30"
definition RESOURCE_ACCESS_TOKEN_TYP :: string where "RESOURCE_ACCESS_TOKEN_TYP = ''at+jwt''"

definition createJwksCache :: "'w \<Rightarrow> ('w, 'k) verifier_state" where
  "createJwksCache w = \<lparr>world = w, entry = None, lastForcedAt = None, fetches = 0, forced = []\<rparr>"

subsection \<open>Operations\<close>

definition keySet ::
  "('w, 'j, 'k) verifier_env \<Rightarrow> bool \<Rightarrow> ('w, 'k) verifier_state \<Rightarrow> (verify_exn + 'k) \<times> ('w, 'k) verifier_state" where
  "keySet E force s =
     (let (now, w1) = env_now E (world s); cached = entry s; s1 = s\<lparr>world := w1\<rparr> in
      if \<not> force \<and> (case cached of None \<Rightarrow> False | Some (_, expiresAt) \<Rightarrow> expiresAt > now)
      then (Inr (fst (the cached)), s1)
      else (case env_getJwks E w1 of
              (None, w2) \<Rightarrow> (Inl JwksUnavailableError, s1\<lparr>world := w2, fetches := Suc (fetches s)\<rparr>)
            | (Some jwks, w2) \<Rightarrow>
                (let s2 = s1\<lparr>world := w2, fetches := Suc (fetches s)\<rparr> in
                 case env_createLocalJWKSet E jwks of
                   None \<Rightarrow> (Inl OtherError, s2)
                 | Some keys \<Rightarrow> (Inr keys, s2\<lparr>entry := Some (keys, now + env_ttlSeconds E)\<rparr>))))"

definition verifyWith ::
  "('w, 'j, 'k) verifier_env \<Rightarrow> string \<Rightarrow> token_audience_profile \<Rightarrow> bool \<Rightarrow> ('w, 'k) verifier_state \<Rightarrow>
   (verify_exn + verified_payload) \<times> ('w, 'k) verifier_state" where
  "verifyWith E token profile force s =
     (case keySet E force s of
        (Inl err, s1) \<Rightarrow> (Inl err, s1)
      | (Inr keys, s1) \<Rightarrow>
          (let audience = (case profile of AppProfile app \<Rightarrow> app | ResourceProfile app resource \<Rightarrow> resource) in
           case env_jwtVerify E token keys (env_issuer E) audience (world s1) of
             (Verified payload typ, w2) \<Rightarrow>
               (Inr (if (case profile of AppProfile _ \<Rightarrow> False | ResourceProfile _ _ \<Rightarrow> typ \<noteq> Some RESOURCE_ACCESS_TOKEN_TYP)
                     then NullPayload else Payload payload), s1\<lparr>world := w2\<rparr>)
           | (NoMatchingKey, w2) \<Rightarrow> (Inr NO_KEY, s1\<lparr>world := w2\<rparr>)
           | (JoseError, w2) \<Rightarrow> (Inr NullPayload, s1\<lparr>world := w2\<rparr>)))"

definition mayForceRefetch ::
  "('w, 'j, 'k) verifier_env \<Rightarrow> ('w, 'k) verifier_state \<Rightarrow> bool \<times> ('w, 'k) verifier_state" where
  "mayForceRefetch E s =
     (let (now, w1) = env_now E (world s); s1 = s\<lparr>world := w1\<rparr> in
      if (case lastForcedAt s of None \<Rightarrow> False | Some t \<Rightarrow> now - t < env_refetchCooldownSeconds E)
      then (False, s1)
      else (True, s1\<lparr>lastForcedAt := Some now, forced := now # forced s\<rparr>))"

definition payload_of ::
  "('w, 'j, 'k) verifier_env \<Rightarrow> string \<Rightarrow> token_audience_profile \<Rightarrow> ('w, 'k) verifier_state \<Rightarrow>
   (verify_exn + verified_payload) \<times> ('w, 'k) verifier_state" where
  "payload_of E token profile s =
     (case verifyWith E token profile False s of
        (Inl err, s1) \<Rightarrow> (Inl err, s1)
      | (Inr payload, s1) \<Rightarrow>
          (if payload = NO_KEY
           then (case mayForceRefetch E s1 of
                   (False, s2) \<Rightarrow> (Inr payload, s2)
                 | (True, s2) \<Rightarrow> verifyWith E token profile True s2)
           else (Inr payload, s1)))"

definition verify ::
  "('w, 'j, 'k) verifier_env \<Rightarrow> string \<Rightarrow> token_audience_profile \<Rightarrow> ('w, 'k) verifier_state \<Rightarrow>
   (verify_exn + verify_result) \<times> ('w, 'k) verifier_state" where
  "verify E token profile s =
     (case payload_of E token profile s of
        (Inl JwksUnavailableError, s1) \<Rightarrow> (Inr Unavailable, s1)
      | (Inl OtherError, s1) \<Rightarrow> (Inl OtherError, s1)
      | (Inr NO_KEY, s1) \<Rightarrow> (Inr Invalid, s1)
      | (Inr NullPayload, s1) \<Rightarrow> (Inr Invalid, s1)
      | (Inr (Payload payload), s1) \<Rightarrow>
          (case parseAccessClaims (env_parseUrl E) (Some payload) of
             None \<Rightarrow> (Inr Invalid, s1)
           | Some claims \<Rightarrow>
               (if \<not> matchesTokenAudience claims profile then (Inr Invalid, s1) else (Inr (Ok claims), s1))))"

subsection \<open>Atomic steps\<close>

text \<open>Requests share one verifier and interleave at each \<open>await\<close>. Between two of them the verifier performs one of
  these steps: it reads the world, stores a fetched key set, or decides on a forced refetch.\<close>

inductive verifier_step :: "('w, 'j, 'k) verifier_env \<Rightarrow> ('w, 'k) verifier_state \<Rightarrow> ('w, 'k) verifier_state \<Rightarrow> bool"
  for E where
  step_world: "verifier_step E s (s\<lparr>world := w\<rparr>)"
| step_fetch: "verifier_step E s (s\<lparr>world := w, fetches := Suc (fetches s)\<rparr>)"
| step_store: "verifier_step E s (s\<lparr>entry := Some (keys, t + env_ttlSeconds E)\<rparr>)"
| step_force: "verifier_step E s (snd (mayForceRefetch E s))"

abbreviation verifier_steps :: "('w, 'j, 'k) verifier_env \<Rightarrow> ('w, 'k) verifier_state \<Rightarrow> ('w, 'k) verifier_state \<Rightarrow> bool" where
  "verifier_steps E \<equiv> (verifier_step E)\<^sup>*\<^sup>*"

inductive_cases verifier_stepE: "verifier_step E s s'"

text \<open>Consecutive granted refetches lie at least the cooldown apart, and \<open>lastForcedAt\<close> is the latest of them.\<close>

fun spaced :: "number \<Rightarrow> number list \<Rightarrow> bool" where
  "spaced d (t # u # ts) = (t - u \<ge> d \<and> spaced d (u # ts))"
| "spaced d _ = True"

definition forced_inv :: "('w, 'j, 'k) verifier_env \<Rightarrow> ('w, 'k) verifier_state \<Rightarrow> bool" where
  "forced_inv E s \<longleftrightarrow> spaced (env_refetchCooldownSeconds E) (forced s) \<and>
     lastForcedAt s = (case forced s of [] \<Rightarrow> None | t # _ \<Rightarrow> Some t)"

lemma spaced_Cons: "spaced d (t # ts) \<longleftrightarrow> (case ts of [] \<Rightarrow> True | u # _ \<Rightarrow> t - u \<ge> d) \<and> spaced d ts"
  by (cases ts) auto

lemma forced_inv_force: "forced_inv E s \<Longrightarrow> forced_inv E (snd (mayForceRefetch E s))"
  by (cases "env_now E (world s)"; cases "forced s") (simp_all add: forced_inv_def mayForceRefetch_def spaced_Cons Let_def)

lemma forced_inv_step: "verifier_step E s s' \<Longrightarrow> forced_inv E s \<Longrightarrow> forced_inv E s'"
  by (erule verifier_step.cases) (auto simp: forced_inv_force, auto simp: forced_inv_def)

lemma forced_inv_steps: "verifier_steps E s s' \<Longrightarrow> forced_inv E s \<Longrightarrow> forced_inv E s'"
  by (induction rule: rtranclp_induct) (auto intro: forced_inv_step)

lemma forced_inv_init: "forced_inv E (createJwksCache w)"
  by (simp add: forced_inv_def createJwksCache_def)

subsection \<open>Every operation is a sequence of atomic steps\<close>

lemma keySet_steps: "verifier_steps E s (snd (keySet E force s))"
proof -
  obtain now w1 where n: "env_now E (world s) = (now, w1)" by fastforce
  obtain j w2 where g: "env_getJwks E w1 = (j, w2)" by fastforce
  let ?s1 = "s\<lparr>world := w1\<rparr>"
  let ?s2 = "?s1\<lparr>world := w2, fetches := Suc (fetches ?s1)\<rparr>"
  have 1: "verifier_steps E s ?s1" by (blast intro: step_world)
  have 2: "verifier_steps E s ?s2" using 1 step_fetch by (rule rtranclp.rtrancl_into_rtrancl)
  have 3: "verifier_steps E s (?s2\<lparr>entry := Some (keys, now + env_ttlSeconds E)\<rparr>)" for keys
    using 2 step_store by (rule rtranclp.rtrancl_into_rtrancl)
  have "snd (keySet E force s) \<in> {?s1, ?s2} \<union> range (\<lambda>keys. ?s2\<lparr>entry := Some (keys, now + env_ttlSeconds E)\<rparr>)"
    using n g by (auto simp: keySet_def Let_def split: option.splits)
  with 1 2 3 show ?thesis by auto
qed

lemma verifyWith_steps: "verifier_steps E s (snd (verifyWith E token profile force s))"
proof -
  obtain r s1 where k: "keySet E force s = (r, s1)" by fastforce
  have 1: "verifier_steps E s s1" using keySet_steps [of E s force] k by simp
  have 2: "verifier_steps E s (s1\<lparr>world := w\<rparr>)" for w
    using 1 step_world by (rule rtranclp.rtrancl_into_rtrancl)
  have "snd (verifyWith E token profile force s) \<in> insert s1 (range (\<lambda>w. s1\<lparr>world := w\<rparr>))"
    using k by (auto simp: verifyWith_def Let_def split: sum.splits prod.splits jose_outcome.splits)
  with 1 2 show ?thesis by auto
qed

lemma payload_of_steps: "verifier_steps E s (snd (payload_of E token profile s))"
proof -
  obtain r s1 where v: "verifyWith E token profile False s = (r, s1)" by fastforce
  obtain b s2 where f: "mayForceRefetch E s1 = (b, s2)" by fastforce
  have 1: "verifier_steps E s s1" using verifyWith_steps [of E s token profile False] v by simp
  have 2: "verifier_steps E s s2" using 1 step_force [of E s1] f by simp
  have 3: "verifier_steps E s (snd (verifyWith E token profile True s2))"
    using 2 verifyWith_steps by (rule rtranclp_trans)
  have "snd (payload_of E token profile s) \<in> {s1, s2, snd (verifyWith E token profile True s2)}"
    using v f by (auto simp: payload_of_def split: sum.splits bool.splits)
  with 1 2 3 show ?thesis by auto
qed

lemma snd_verify: "snd (verify E token profile s) = snd (payload_of E token profile s)"
  by (auto simp: verify_def split: sum.splits prod.splits verify_exn.splits verified_payload.splits option.splits)

lemma verify_steps: "verifier_steps E s (snd (verify E token profile s))"
  unfolding snd_verify by (rule payload_of_steps)

subsection \<open>The result\<close>

text \<open>Key sets the verifier may use at a state: the cached one while it has not expired, or one the transport
  returned.\<close>

definition usable_keys :: "('w, 'j, 'k) verifier_env \<Rightarrow> ('w, 'k) verifier_state \<Rightarrow> 'k \<Rightarrow> bool" where
  "usable_keys E s keys \<longleftrightarrow>
     (\<exists>expiresAt. entry s = Some (keys, expiresAt) \<and> expiresAt > fst (env_now E (world s))) \<or>
     (\<exists>w jwks. fst (env_getJwks E w) = Some jwks \<and> env_createLocalJWKSet E jwks = Some keys)"

definition profile_audience :: "token_audience_profile \<Rightarrow> string" where
  "profile_audience profile = (case profile of AppProfile app \<Rightarrow> app | ResourceProfile app resource \<Rightarrow> resource)"

definition profile_typ_ok :: "token_audience_profile \<Rightarrow> string option \<Rightarrow> bool" where
  "profile_typ_ok profile typ =
     (case profile of AppProfile _ \<Rightarrow> True | ResourceProfile _ _ \<Rightarrow> typ = Some RESOURCE_ACCESS_TOKEN_TYP)"

lemma keySet_usable: "keySet E force s = (Inr keys, s') \<Longrightarrow> usable_keys E s keys"
  unfolding keySet_def usable_keys_def Let_def
  by (auto split: prod.splits if_splits option.splits) (metis fst_conv)+

lemma keySet_forced: "keySet E True s = (Inr keys, s') \<Longrightarrow>
   \<exists>w jwks. fst (env_getJwks E w) = Some jwks \<and> env_createLocalJWKSet E jwks = Some keys"
  unfolding keySet_def Let_def by (auto split: prod.splits if_splits option.splits) (metis fst_conv)

lemma verifyWith_payload:
  assumes "verifyWith E token profile force s = (Inr (Payload p), s')"
  shows "\<exists>keys w w' typ. (usable_keys E s keys \<and> (force \<longrightarrow>
      (\<exists>w jwks. fst (env_getJwks E w) = Some jwks \<and> env_createLocalJWKSet E jwks = Some keys))) \<and>
    env_jwtVerify E token keys (env_issuer E) (profile_audience profile) w = (Verified p typ, w') \<and>
    profile_typ_ok profile typ"
proof -
  obtain r s1 where k: "keySet E force s = (r, s1)" by fastforce
  with assms obtain keys where r: "r = Inr keys" by (cases r) (auto simp: verifyWith_def)
  obtain ty w' where "env_jwtVerify E token keys (env_issuer E) (profile_audience profile) (world s1) = (Verified p ty, w')"
      "profile_typ_ok profile ty"
    using assms k r
    by (auto simp: verifyWith_def Let_def profile_audience_def profile_typ_ok_def
        split: prod.splits jose_outcome.splits if_splits token_audience_profile.splits)
  moreover have "usable_keys E s keys" using keySet_usable [of E force s keys s1] k r by simp
  moreover have "force \<longrightarrow> (\<exists>w jwks. fst (env_getJwks E w) = Some jwks \<and> env_createLocalJWKSet E jwks = Some keys)"
    using k r keySet_forced by (cases force) auto
  ultimately show ?thesis by blast
qed

lemma payload_of_payload:
  assumes "payload_of E token profile s = (Inr (Payload p), s')"
  shows "\<exists>keys w w' typ. usable_keys E s keys \<and>
    env_jwtVerify E token keys (env_issuer E) (profile_audience profile) w = (Verified p typ, w') \<and>
    profile_typ_ok profile typ"
proof -
  obtain r s1 where v: "verifyWith E token profile False s = (r, s1)" by fastforce
  consider "r = Inr (Payload p)" | s2 where "verifyWith E token profile True s2 = (Inr (Payload p), s')"
    using assms v by (auto simp: payload_of_def split: sum.splits if_splits prod.splits bool.splits)
  then show ?thesis
  proof cases
    case 1
    with v show ?thesis using verifyWith_payload by blast
  next
    case 2
    from verifyWith_payload [OF 2] show ?thesis unfolding usable_keys_def by blast
  qed
qed

lemma verify_Ok_payload:
  assumes "verify E token profile s = (Inr (Ok c), s')"
  shows "\<exists>p. payload_of E token profile s = (Inr (Payload p), s') \<and>
    parseAccessClaims (env_parseUrl E) (Some p) = Some c \<and> matchesTokenAudience c profile"
  using assms unfolding verify_def
  by (auto split: prod.splits sum.splits verify_exn.splits verified_payload.splits option.splits if_splits)

lemma verify_sound_aux:
  assumes "verify E token profile s = (Inr (Ok c), s')"
  shows "matchesTokenAudience c profile \<and>
    (\<exists>keys w w' p typ. usable_keys E s keys \<and>
       env_jwtVerify E token keys (env_issuer E) (profile_audience profile) w = (Verified p typ, w') \<and>
       profile_typ_ok profile typ \<and> parseAccessClaims (env_parseUrl E) (Some p) = Some c)"
  using verify_Ok_payload [OF assms] payload_of_payload by meson

text \<open>C23: a token the verifier accepts was accepted by the JOSE library for this issuer and the profile's audience,
  under a key set that is cached and unexpired or was fetched (never a stale one); its payload parsed to the claims
  returned, the claims are of the profile asked for, and a resource token carried the resource token type.\<close>

theorem verify_sound:
  assumes "verify E token profile s = (Inr (Ok c), s')"
  shows "matchesTokenAudience c profile \<and>
    (\<exists>keys w w' p typ. usable_keys E s keys \<and>
       env_jwtVerify E token keys (env_issuer E) (profile_audience profile) w = (Verified p typ, w') \<and>
       profile_typ_ok profile typ \<and> parseAccessClaims (env_parseUrl E) (Some p) = Some c)"
  by (rule verify_sound_aux [OF assms])

subsection \<open>How often the key set is fetched\<close>

lemma keySet_fetches: "fetches (snd (keySet E force s)) \<le> Suc (fetches s)" "forced (snd (keySet E force s)) = forced s"
  by (auto simp: keySet_def Let_def split: prod.splits option.splits)

lemma verifyWith_fetches:
  "fetches (snd (verifyWith E token profile force s)) \<le> Suc (fetches s)"
  "forced (snd (verifyWith E token profile force s)) = forced s"
  using keySet_fetches [of E force s]
  by (auto simp: verifyWith_def Let_def split: prod.splits sum.splits jose_outcome.splits)

lemma mayForceRefetch_log:
  "fetches (snd (mayForceRefetch E s)) = fetches s"
  "length (forced (snd (mayForceRefetch E s))) = length (forced s) + (if fst (mayForceRefetch E s) then 1 else 0)"
  by (auto simp: mayForceRefetch_def Let_def split: prod.splits option.splits)

lemma verify_fetches:
  "fetches (snd (verify E token profile s)) + length (forced s) \<le>
     fetches s + 1 + length (forced (snd (verify E token profile s)))"
proof -
  obtain r s1 where v: "verifyWith E token profile False s = (r, s1)" by fastforce
  obtain b s2 where f: "mayForceRefetch E s1 = (b, s2)" by fastforce
  note facts = verifyWith_fetches [of E token profile False s] mayForceRefetch_log [of E s1]
    verifyWith_fetches [of E token profile True s2]
  show ?thesis unfolding snd_verify
    using facts v f by (auto simp: payload_of_def split: sum.splits bool.splits)
qed

lemma spaced_later: "spaced d (t # ts) \<Longrightarrow> 0 \<le> d \<Longrightarrow> u \<in> set ts \<Longrightarrow> t - u \<ge> d"
proof (induction ts arbitrary: t)
  case (Cons v ts)
  show ?case
  proof (cases "u = v")
    case False
    with Cons have "v - u \<ge> d" by (auto simp: spaced_Cons)
    with Cons.prems show ?thesis by auto
  qed (use Cons in auto)
qed simp

lemma spaced_window: "spaced d ts \<Longrightarrow> 0 \<le> d \<Longrightarrow> length (filter (\<lambda>t. a \<le> t \<and> t < a + d) ts) \<le> 1"
proof (induction ts)
  case (Cons t ts)
  show ?case
  proof (cases "a \<le> t \<and> t < a + d")
    case True
    have "\<not> (a \<le> u \<and> u < a + d)" if "u \<in> set ts" for u
      using spaced_later [OF Cons.prems that] True by auto
    then show ?thesis by (simp add: filter_False)
  next
    case False
    with Cons show ?thesis by (auto simp: spaced_Cons)
  qed
qed simp


text \<open>one verification fetches the key set at most once, and once more only for a forced refetch it was granted;
  with a cached unexpired key set that has the token's key it fetches nothing and keeps the cache.\<close>

theorem verify_fetch_bound:
  "fetches (snd (verify E token profile s)) + length (forced s) \<le>
     fetches s + 1 + length (forced (snd (verify E token profile s))) \<and>
   (entry s = Some (keys, expiresAt) \<and> fst (env_now E (world s)) < expiresAt \<and>
    fst (env_jwtVerify E token keys (env_issuer E) (profile_audience profile) (snd (env_now E (world s)))) \<noteq> NoMatchingKey \<longrightarrow>
    fetches (snd (verify E token profile s)) = fetches s \<and> entry (snd (verify E token profile s)) = entry s)"
proof (intro conjI impI)
  show "fetches (snd (verify E token profile s)) + length (forced s) \<le>
     fetches s + 1 + length (forced (snd (verify E token profile s)))" by (rule verify_fetches)
next
  assume warm: "entry s = Some (keys, expiresAt) \<and> fst (env_now E (world s)) < expiresAt \<and>
    fst (env_jwtVerify E token keys (env_issuer E) (profile_audience profile) (snd (env_now E (world s)))) \<noteq> NoMatchingKey"
  obtain now w1 where n: "env_now E (world s) = (now, w1)" by fastforce
  obtain o' w2 where j: "env_jwtVerify E token keys (env_issuer E) (profile_audience profile) w1 = (o', w2)" by fastforce
  have "keySet E False s = (Inr keys, s\<lparr>world := w1\<rparr>)" using warm n by (simp add: keySet_def)
  then have "snd (payload_of E token profile s) = s\<lparr>world := w2\<rparr>"
    using warm n j by (cases o') (auto simp: payload_of_def verifyWith_def Let_def profile_audience_def [symmetric])
  then show "fetches (snd (verify E token profile s)) = fetches s" "entry (snd (verify E token profile s)) = entry s"
    by (simp_all add: snd_verify)
qed

lemma verifyWith_unavailable:
  "verifyWith E token profile force s = (Inl JwksUnavailableError, s') \<Longrightarrow> \<exists>w. fst (env_getJwks E w) = None"
  unfolding verifyWith_def keySet_def Let_def
  by (auto split: prod.splits sum.splits if_splits option.splits jose_outcome.splits) (metis fst_conv)+

text \<open>when the key set is absent or expired and cannot be fetched, the answer is \<open>unavailable\<close>, whatever the
  token, and the cached entry is left as it is; and \<open>unavailable\<close> is answered only when a fetch failed. A bad token
  is never reported as an outage, nor an outage as a bad token.\<close>

theorem verify_unavailable_iff_unfetchable:
  "((case entry s of None \<Rightarrow> True | Some (_, expiresAt) \<Rightarrow> expiresAt \<le> fst (env_now E (world s))) \<and>
    fst (env_getJwks E (snd (env_now E (world s)))) = None \<longrightarrow>
    fst (verify E token profile s) = Inr Unavailable \<and> entry (snd (verify E token profile s)) = entry s) \<and>
   (fst (verify E token profile s) = Inr Unavailable \<longrightarrow> (\<exists>w. fst (env_getJwks E w) = None))"
proof (intro conjI impI)
  assume "(case entry s of None \<Rightarrow> True | Some (_, expiresAt) \<Rightarrow> expiresAt \<le> fst (env_now E (world s))) \<and>
    fst (env_getJwks E (snd (env_now E (world s)))) = None"
  then have "\<exists>s'. payload_of E token profile s = (Inl JwksUnavailableError, s') \<and> entry s' = entry s"
    by (auto simp: payload_of_def verifyWith_def keySet_def Let_def split: prod.splits option.splits)
  then show "fst (verify E token profile s) = Inr Unavailable" "entry (snd (verify E token profile s)) = entry s"
    by (auto simp: verify_def)
next
  assume "fst (verify E token profile s) = Inr Unavailable"
  then obtain s' where "payload_of E token profile s = (Inl JwksUnavailableError, s')"
    unfolding verify_def
    by (auto split: prod.splits sum.splits verify_exn.splits verified_payload.splits option.splits if_splits)
  then obtain s1 force s2 where "verifyWith E token profile force s1 = (Inl JwksUnavailableError, s2)"
    by (auto simp: payload_of_def split: prod.splits sum.splits if_splits bool.splits)
  then show "\<exists>w. fst (env_getJwks E w) = None" by (rule verifyWith_unavailable)
qed

subsection \<open>A concrete environment\<close>

text \<open>A clock that advances by one on each reading, a transport that answers, and a signature check that accepts the
  one token \<open>good\<close>, does not know the key of \<open>unknown\<close> and refuses the rest.\<close>

definition sample_claims :: access_token_claims where
  "sample_claims =
     \<lparr>iss = ''https://iam'', aud = ''notes@prod'', sub = ''u1'', iat = 0, exp_at = 900,
      perms = [\<lparr>pe_action = ''note.*'', pe_scope = None, pe_source = Grant\<rparr>],
      label = Some ''Ann'', ptype = Some Pt_user, workload = None, email = None, session = True,
      amr = None, terminal = None, oauth = None, link = None\<rparr>"

text \<open>A parser that reads \<open>https://host\<close> only.\<close>

definition sample_parser :: url_parser where
  "sample_parser t = (if take 8 t = ''https://''
     then Some \<lparr>protocol = ''https:'', hostname = drop 8 t, port = [], pathname = ''/'', search = []\<rparr> else None)"

definition sample_env :: "(number, unit, unit) verifier_env" where
  "sample_env =
     \<lparr>env_now = (\<lambda>w. (w, w + 1)), env_getJwks = (\<lambda>w. (Some (), w)), env_createLocalJWKSet = (\<lambda>_. Some ()),
      env_jwtVerify = (\<lambda>token keys issuer audience w.
        (if token = ''good'' then Verified (claimsJson sample_claims) (Some ''JWT'')
         else if token = ''unknown'' then NoMatchingKey else JoseError, w)),
      env_parseUrl = sample_parser, env_issuer = ''https://iam'',
      env_ttlSeconds = JWKS_TTL_SECONDS, env_refetchCooldownSeconds = JWKS_REFETCH_COOLDOWN_SECONDS\<rparr>"

lemma sample_parse: "parseAccessClaims u (Some (claimsJson sample_claims)) = Some sample_claims"
  unfolding parseAccessClaims_def claimsJson_fields
  by (simp add: sample_claims_def parsePermissionEntries_def parseNullableString_def nullableJson_def
      parseOptionalPrincipalType_def parseLinkClaims_def parseWorkload_def parseEmail_def parseTerminalClaims_def
      entryJson_def stringField_def parseScope_def parseSource_def)

lemma sample_verify:
  "verify sample_env ''good'' (AppProfile ''notes@prod'') (createJwksCache 0) =
     (Inr (Ok sample_claims),
      \<lparr>world = 1, entry = Some ((), 600), lastForcedAt = None, fetches = 1, forced = []\<rparr>)"
proof -
  have "env_parseUrl sample_env = sample_parser" by (simp add: sample_env_def)
  moreover have "payload_of sample_env ''good'' (AppProfile ''notes@prod'') (createJwksCache 0) =
      (Inr (Payload (claimsJson sample_claims)),
       \<lparr>world = 1, entry = Some ((), 600), lastForcedAt = None, fetches = 1, forced = []\<rparr>)"
    by (simp add: payload_of_def verifyWith_def keySet_def sample_env_def createJwksCache_def Let_def JWKS_TTL_SECONDS_def)
  moreover have "matchesTokenAudience sample_claims (AppProfile ''notes@prod'')"
    by (simp add: matchesTokenAudience_def sample_claims_def)
  ultimately show ?thesis
    by (simp add: verify_def sample_parse)
qed

lemma sample_verify_any: "fst (verify sample_env ''good'' (AppProfile ''notes@prod'') s) = Inr (Ok sample_claims)"
proof -
  have "env_parseUrl sample_env = sample_parser" by (simp add: sample_env_def)
  moreover have "fst (payload_of sample_env ''good'' (AppProfile ''notes@prod'') s) = Inr (Payload (claimsJson sample_claims))"
    by (auto simp: payload_of_def verifyWith_def keySet_def sample_env_def Let_def split: option.splits)
  moreover have "matchesTokenAudience sample_claims (AppProfile ''notes@prod'')"
    by (simp add: matchesTokenAudience_def sample_claims_def)
  ultimately show ?thesis
    by (auto simp: verify_def sample_parse split: prod.splits)
qed

theorem verify_sound_witness:
  "verify sample_env ''good'' (AppProfile ''notes@prod'') (createJwksCache 0) =
     (Inr (Ok sample_claims), \<lparr>world = 1, entry = Some ((), 600), lastForcedAt = None, fetches = 1, forced = []\<rparr>) \<and>
   matchesTokenAudience sample_claims (AppProfile ''notes@prod'')"
  using verify_sound [OF sample_verify] sample_verify by simp

lemma sample_forced:
  "forced (snd (verify sample_env ''unknown'' (AppProfile ''notes@prod'') (createJwksCache 0))) = [1]"
  by (simp add: snd_verify payload_of_def verifyWith_def keySet_def mayForceRefetch_def sample_env_def createJwksCache_def
      Let_def)


theorem verify_fetch_bound_witness:
  "fetches (snd (verify sample_env ''good'' (AppProfile ''notes@prod'')
     \<lparr>world = 1, entry = Some ((), 600), lastForcedAt = None, fetches = 1, forced = []\<rparr>)) = 1"
  using verify_fetch_bound [where E = sample_env and token = "''good''" and profile = "AppProfile ''notes@prod''"
      and s = "\<lparr>world = 1, entry = Some ((), 600), lastForcedAt = None, fetches = 1, forced = []\<rparr>"
      and keys = "()" and expiresAt = 600]
  by (simp add: sample_env_def)

theorem verify_unavailable_iff_unfetchable_witness:
  "fst (verify (sample_env\<lparr>env_getJwks := \<lambda>w. (None, w)\<rparr>) ''good'' (AppProfile ''notes@prod'')
     \<lparr>world = 700, entry = Some ((), 600), lastForcedAt = None, fetches = 1, forced = []\<rparr>) = Inr Unavailable"
  using verify_unavailable_iff_unfetchable [where E = "sample_env\<lparr>env_getJwks := \<lambda>w. (None, w)\<rparr>"
      and token = "''good''" and profile = "AppProfile ''notes@prod''"
      and s = "\<lparr>world = 700, entry = Some ((), 600), lastForcedAt = None, fetches = 1, forced = []\<rparr>"]
  by (simp add: sample_env_def)

end
