(* ===== verification/Token_Cache.thy ===== *)
theory Token_Cache
  imports Json
begin

text \<open>
  The minted-token cache of \<open>packages/proxy-core/src/cache.ts\<close>. The JavaScript \<open>Map\<close> is an association list
  in insertion order. The interface \<open>TokenCache\<close> is the locale \<open>token_cache\<close>: a best-effort store that may forget but
  never answers what was not stored under the key; \<open>MemoryTokenCache\<close> and its absence (\<open>cache: null\<close>) interpret it.
\<close>

subsection \<open>The interface\<close>

record cached_token =
  ct_token :: string
  ct_expiresAt :: number

datatype cache_op = CSet string cached_token | CDelete string

text \<open>What was last stored under a key and not deleted since, over a history of operations (latest first).\<close>

fun last_set :: "cache_op list \<Rightarrow> string \<Rightarrow> cached_token option" where
  "last_set [] k = None"
| "last_set (CSet k' v # ops) k = (if k = k' then Some v else last_set ops k)"
| "last_set (CDelete k' # ops) k = (if k = k' then None else last_set ops k)"

locale token_cache =
  fixes get :: "'c \<Rightarrow> string \<Rightarrow> cached_token option"
    and put :: "string \<Rightarrow> cached_token \<Rightarrow> 'c \<Rightarrow> 'c"
    and del :: "string \<Rightarrow> 'c \<Rightarrow> 'c"
    and start :: 'c
  assumes get_start: "get start k = None"
    and get_del: "get (del k c) k' = (if k' = k then None else get c k')"
    and get_put: "get (put k v c) k' = Some w \<Longrightarrow> k' = k \<and> w = v \<or> k' \<noteq> k \<and> get c k' = Some w"
begin

fun run :: "cache_op list \<Rightarrow> 'c" where
  "run [] = start"
| "run (CSet k v # ops) = put k v (run ops)"
| "run (CDelete k # ops) = del k (run ops)"

lemma get_run: "get (run ops) k = Some v \<Longrightarrow> last_set ops k = Some v"
proof (induction ops rule: run.induct)
  case 1
  then show ?case by (simp add: get_start)
next
  case (2 k' v' ops)
  then show ?case using get_put [of k' v' "run ops" k v] by auto
next
  case (3 k' ops)
  then show ?case by (auto simp: get_del split: if_splits)
qed

lemma get_after_del: "get (del k c) k = None"
  by (simp add: get_del)

lemma put_other: "k' \<noteq> k \<Longrightarrow> get (put k v c) k' = None \<or> get (put k v c) k' = get c k'"
  using get_put [of k v c k'] by (cases "get (put k v c) k'") auto

end

subsection \<open>The bounded in-memory cache\<close>

record memory_cache =
  entries :: "(string \<times> cached_token) list"
  bytes :: int
  maxEntries :: nat
  maxBytes :: int

definition DEFAULT_CACHE_BYTES :: int where
  "DEFAULT_CACHE_BYTES = 32 * 1024 * 1024"

definition sizeOf :: "string \<Rightarrow> cached_token \<Rightarrow> int" where
  "sizeOf key value = int (length key) + int (length (ct_token value))"

definition newMemoryTokenCache :: "nat \<Rightarrow> int \<Rightarrow> memory_cache" where
  "newMemoryTokenCache max_entries max_bytes =
     \<lparr>entries = [], bytes = 0, maxEntries = max_entries, maxBytes = max_bytes\<rparr>"

definition cache_get :: "memory_cache \<Rightarrow> string \<Rightarrow> cached_token option" where
  "cache_get c key = map_of (entries c) key"

definition cache_delete :: "string \<Rightarrow> memory_cache \<Rightarrow> memory_cache" where
  "cache_delete key c =
     (case map_of (entries c) key of
        None \<Rightarrow> c
      | Some held \<Rightarrow> c\<lparr>bytes := bytes c - sizeOf key held, entries := filter (\<lambda>(k, _). k \<noteq> key) (entries c)\<rparr>)"

lemma filter_key_id: "map_of es key = None \<Longrightarrow> filter (\<lambda>(k, _). k \<noteq> key) es = es"
  by (induction es) (auto split: if_splits)

lemma map_of_filter_key:
  "map_of (filter (\<lambda>(k, _). k \<noteq> key) es) k' = (if k' = key then None else map_of es k')"
  by (induction es) auto

lemma cache_delete_fields [simp]:
  "entries (cache_delete key c) = filter (\<lambda>(k, _). k \<noteq> key) (entries c)"
  "maxEntries (cache_delete key c) = maxEntries c" "maxBytes (cache_delete key c) = maxBytes c"
  by (auto simp: cache_delete_def filter_key_id split: option.splits)

text \<open>The eviction loop of \<open>set\<close>: while a bound is exceeded, delete the oldest entry.\<close>

function evict :: "memory_cache \<Rightarrow> memory_cache" where
  "evict c =
     (if length (entries c) > maxEntries c \<or> bytes c > maxBytes c
      then (case entries c of [] \<Rightarrow> c | (oldest, _) # _ \<Rightarrow> evict (cache_delete oldest c))
      else c)"
  by auto
termination
proof (relation "measure (\<lambda>c. length (entries c))")
  fix c :: memory_cache and e rest oldest v
  assume "entries c = e # rest" "(oldest, v) = e"
  then have "length (filter (\<lambda>(k, _). k \<noteq> oldest) (entries c)) < length (entries c)"
    by (auto simp: less_Suc_eq_le)
  then show "(cache_delete oldest c, c) \<in> measure (\<lambda>c. length (entries c))" by simp
qed simp

declare evict.simps [simp del]

definition cache_set :: "string \<Rightarrow> cached_token \<Rightarrow> memory_cache \<Rightarrow> memory_cache" where
  "cache_set key value c =
     (let c1 = cache_delete key c; size = sizeOf key value in
      if size > maxBytes c1 then c1
      else evict (c1\<lparr>entries := entries c1 @ [(key, value)], bytes := bytes c1 + size\<rparr>))"

definition cache_size :: "memory_cache \<Rightarrow> nat" where
  "cache_size c = length (entries c)"

text \<open>The key of a credential: the entry, the kind of credential and the credential.\<close>

datatype credential_kind = SessionCredential | KeyCredential

definition cacheKey :: "string \<Rightarrow> credential_kind \<Rightarrow> string \<Rightarrow> string" where
  "cacheKey app kind credential =
     app @ '' '' @ (case kind of SessionCredential \<Rightarrow> ''session'' | KeyCredential \<Rightarrow> ''key'') @ '' '' @ credential"

subsection \<open>The invariant\<close>

abbreviation entries_size :: "(string \<times> cached_token) list \<Rightarrow> int" where
  "entries_size es \<equiv> sum_list (map (\<lambda>(k, v). sizeOf k v) es)"

text \<open>\<open>counted\<close>: keys are distinct and \<open>bytes\<close> counts them and their tokens; \<open>bounded\<close>: both limits hold.\<close>

definition counted :: "memory_cache \<Rightarrow> bool" where
  "counted c \<longleftrightarrow> distinct (map fst (entries c)) \<and> bytes c = entries_size (entries c)"

definition bounded :: "memory_cache \<Rightarrow> bool" where
  "bounded c \<longleftrightarrow> length (entries c) \<le> maxEntries c \<and> bytes c \<le> maxBytes c"

lemma sizeOf_nonneg [simp]: "0 \<le> sizeOf k v"
  by (simp add: sizeOf_def)

lemma entries_size_nonneg: "0 \<le> entries_size es"
  by (induction es) (auto simp: case_prod_beta)

lemma entries_size_filter:
  "distinct (map fst es) \<Longrightarrow> map_of es k = Some v \<Longrightarrow>
   entries_size (filter (\<lambda>(k', _). k' \<noteq> k) es) = entries_size es - sizeOf k v"
proof (induction es)
  case (Cons e es)
  obtain k' v' where e: "e = (k', v')" by fastforce
  show ?case
  proof (cases "k' = k")
    case True
    then have "filter (\<lambda>(k', _). k' \<noteq> k) es = es"
      using Cons.prems(1) e by (force simp: filter_id_conv)
    with True Cons.prems e show ?thesis by simp
  next
    case False
    with Cons e show ?thesis by simp
  qed
qed simp

lemma counted_delete: "counted c \<Longrightarrow> counted (cache_delete key c)"
proof -
  assume c: "counted c"
  have "distinct (map fst (filter (\<lambda>(k, _). k \<noteq> key) (entries c)))"
    using c by (simp add: counted_def distinct_map_filter)
  moreover have "bytes (cache_delete key c) = entries_size (filter (\<lambda>(k, _). k \<noteq> key) (entries c))"
  proof (cases "map_of (entries c) key")
    case None
    then have "filter (\<lambda>(k, _). k \<noteq> key) (entries c) = entries c"
      by (rule filter_key_id)
    with None c show ?thesis by (simp add: cache_delete_def counted_def)
  next
    case (Some held)
    with c show ?thesis by (simp add: cache_delete_def counted_def entries_size_filter)
  qed
  ultimately show ?thesis by (simp add: counted_def)
qed

lemma bounded_delete: "bounded c \<Longrightarrow> bounded (cache_delete key c)"
proof -
  assume c: "bounded c"
  have "length (filter (\<lambda>(k, _). k \<noteq> key) (entries c)) \<le> maxEntries c"
    using c by (simp add: bounded_def le_trans [OF length_filter_le])
  moreover have "bytes (cache_delete key c) \<le> maxBytes c"
  proof (cases "map_of (entries c) key")
    case (Some held)
    then have "bytes (cache_delete key c) = bytes c - sizeOf key held" by (simp add: cache_delete_def)
    moreover have "bytes c \<le> maxBytes c" using c by (simp add: bounded_def)
    ultimately show ?thesis using sizeOf_nonneg [of key held] by linarith
  qed (use c in \<open>simp add: cache_delete_def bounded_def\<close>)
  ultimately show ?thesis by (simp add: bounded_def)
qed

lemma evict_inv:
  "counted c \<Longrightarrow> 0 \<le> maxBytes c \<Longrightarrow>
   counted (evict c) \<and> bounded (evict c) \<and> maxEntries (evict c) = maxEntries c \<and> maxBytes (evict c) = maxBytes c"
proof (induction c rule: evict.induct)
  case (1 c)
  show ?case
  proof (cases "length (entries c) > maxEntries c \<or> bytes c > maxBytes c")
    case False
    with 1 show ?thesis by (subst (1 2 3 4) evict.simps) (auto simp: bounded_def)
  next
    case True
    show ?thesis
    proof (cases "entries c")
      case Nil
      with True 1 have False by (auto simp: counted_def)
      then show ?thesis ..
    next
      case (Cons e es)
      obtain k v where e: "e = (k, v)" by fastforce
      have "evict c = evict (cache_delete k c)"
        using True Cons e by (subst evict.simps) simp
      with 1 True Cons e show ?thesis by (simp add: counted_delete)
    qed
  qed
qed

text \<open>Eviction keeps a suffix of the insertion order, so the last entry stays while it fits alone.\<close>

lemma evict_get: "cache_get (evict c) k = Some v \<Longrightarrow> cache_get c k = Some v"
proof (induction c rule: evict.induct)
  case (1 c)
  show ?case
  proof (cases "length (entries c) > maxEntries c \<or> bytes c > maxBytes c")
    case False
    with 1 show ?thesis by (subst (asm) evict.simps) auto
  next
    case True
    show ?thesis
    proof (cases "entries c")
      case Nil
      with True 1 show ?thesis by (subst (asm) evict.simps) auto
    next
      case (Cons e es)
      obtain k' v' where e: "e = (k', v')" by fastforce
      have "evict c = evict (cache_delete k' c)"
        using True Cons e by (subst evict.simps) simp
      with 1 True Cons e have "cache_get (cache_delete k' c) k = Some v" by simp
      then show ?thesis by (simp add: cache_get_def map_of_filter_key split: if_splits)
    qed
  qed
qed

lemma get_delete: "cache_get (cache_delete k c) k' = (if k' = k then None else cache_get c k')"
  by (simp add: cache_get_def map_of_filter_key)

lemma get_set:
  "cache_get (cache_set k v c) k' = Some w \<Longrightarrow> k' = k \<and> w = v \<or> k' \<noteq> k \<and> cache_get c k' = Some w"
  by (auto simp: cache_set_def Let_def cache_get_def map_of_filter_key map_add_def
      dest!: evict_get [unfolded cache_get_def] split: if_splits option.splits)

interpretation mem: token_cache cache_get cache_set cache_delete "newMemoryTokenCache n b"
  by unfold_locales (simp add: cache_get_def newMemoryTokenCache_def, rule get_delete, rule get_set)

text \<open>The proxy's cache is optional: \<open>null\<close> stores nothing, and is a \<open>token_cache\<close> too.\<close>

type_synonym opt_cache = "memory_cache option"

definition opt_get :: "opt_cache \<Rightarrow> string \<Rightarrow> cached_token option" where
  "opt_get c key = (case c of None \<Rightarrow> None | Some m \<Rightarrow> cache_get m key)"

definition opt_set :: "string \<Rightarrow> cached_token \<Rightarrow> opt_cache \<Rightarrow> opt_cache" where
  "opt_set key value c = map_option (cache_set key value) c"

definition opt_delete :: "string \<Rightarrow> opt_cache \<Rightarrow> opt_cache" where
  "opt_delete key c = map_option (cache_delete key) c"

interpretation opt: token_cache opt_get opt_set opt_delete "map_option (\<lambda>(n, b). newMemoryTokenCache n b) limits"
proof
  show "opt_get (map_option (\<lambda>(n, b). newMemoryTokenCache n b) limits) k = None" for k
    by (auto simp: opt_get_def mem.get_start split: option.splits)
  show "opt_get (opt_delete k c) k' = (if k' = k then None else opt_get c k')" for k c k'
    by (auto simp: opt_get_def opt_delete_def mem.get_del split: option.splits)
  show "opt_get (opt_set k v c) k' = Some w \<Longrightarrow> k' = k \<and> w = v \<or> k' \<noteq> k \<and> opt_get c k' = Some w" for k v c k' w
    using mem.get_put [of k v _ k' w] by (auto simp: opt_get_def opt_set_def split: option.splits)
qed

text \<open>Any history of operations from an empty cache.\<close>

definition run_cache :: "nat \<Rightarrow> int \<Rightarrow> cache_op list \<Rightarrow> memory_cache" where
  "run_cache n b ops =
     foldr (\<lambda>operation c. case operation of CSet k v \<Rightarrow> cache_set k v c | CDelete k \<Rightarrow> cache_delete k c) ops
       (newMemoryTokenCache n b)"

lemma run_cache_mem: "run_cache n b ops = mem.run n b ops"
  by (induction ops) (auto simp: run_cache_def split: cache_op.splits)

lemma cache_set_inv:
  assumes "counted c" "bounded c" "0 \<le> maxBytes c"
  shows "counted (cache_set k v c) \<and> bounded (cache_set k v c) \<and>
    maxEntries (cache_set k v c) = maxEntries c \<and> maxBytes (cache_set k v c) = maxBytes c"
proof -
  let ?c1 = "cache_delete k c"
  let ?c2 = "?c1\<lparr>entries := entries ?c1 @ [(k, v)], bytes := bytes ?c1 + sizeOf k v\<rparr>"
  have c1: "counted ?c1" using assms(1) by (rule counted_delete)
  have "counted ?c2" using c1 by (auto simp: counted_def)
  then have e: "counted (evict ?c2) \<and> bounded (evict ?c2) \<and> maxEntries (evict ?c2) = maxEntries c \<and> maxBytes (evict ?c2) = maxBytes c"
    using evict_inv [of ?c2] assms(3) by simp
  have "bounded ?c1" using assms(2) by (rule bounded_delete)
  with c1 e show ?thesis by (simp add: cache_set_def Let_def)
qed

lemma run_cache_inv:
  assumes "0 \<le> b"
  shows "counted (run_cache n b ops) \<and> bounded (run_cache n b ops) \<and>
    maxEntries (run_cache n b ops) = n \<and> maxBytes (run_cache n b ops) = b"
proof (induction ops)
  case Nil
  then show ?case using assms by (simp add: run_cache_def newMemoryTokenCache_def counted_def bounded_def)
next
  case (Cons operation ops)
  let ?c = "run_cache n b ops"
  have "run_cache n b (operation # ops) =
      (case operation of CSet k v \<Rightarrow> cache_set k v ?c | CDelete k \<Rightarrow> cache_delete k ?c)"
    by (cases operation) (simp_all add: run_cache_def)
  moreover have "bounded (cache_delete k ?c)" for k
    using Cons by (simp add: bounded_delete)
  ultimately show ?case
    using Cons assms cache_set_inv [of ?c] counted_delete [of ?c] by (auto split: cache_op.splits)
qed

text \<open>C39: whatever is stored and deleted, the cache never holds more than \<open>maxEntries\<close> entries or \<open>maxBytes\<close> of keys
  and tokens, and its running byte count is exactly their total: a flood of credentials cannot grow it.\<close>

theorem cache_bounded:
  assumes "0 \<le> b"
  shows "cache_size (run_cache n b ops) \<le> n \<and>
    bytes (run_cache n b ops) = entries_size (entries (run_cache n b ops)) \<and>
    entries_size (entries (run_cache n b ops)) \<le> b"
  using run_cache_inv [OF assms, of n ops] by (auto simp: cache_size_def counted_def bounded_def)

lemma evict_last:
  "counted c \<Longrightarrow> entries c = es @ [(k, v)] \<Longrightarrow> 0 < maxEntries c \<Longrightarrow> sizeOf k v \<le> maxBytes c \<Longrightarrow>
   cache_get (evict c) k = Some v"
proof (induction c arbitrary: es rule: evict.induct)
  case (1 c)
  show ?case
  proof (cases "length (entries c) > maxEntries c \<or> bytes c > maxBytes c")
    case False
    then have "evict c = c" by (subst evict.simps) auto
    moreover have "map_of es k = None" using 1(2,3) by (simp add: counted_def map_of_eq_None_iff)
    ultimately show ?thesis using 1(3) by (simp add: cache_get_def map_add_def)
  next
    case True
    show ?thesis
    proof (cases es)
      case Nil
      with True 1 have False by (auto simp: counted_def)
      then show ?thesis ..
    next
      case (Cons e es')
      obtain k' v' where e: "e = (k', v')" by fastforce
      have ev: "evict c = evict (cache_delete k' c)"
        using True Cons e 1(3) by (subst evict.simps) simp
      have "k' \<noteq> k" using 1(2,3) Cons e by (auto simp: counted_def)
      then have "entries (cache_delete k' c) = filter (\<lambda>(k, _). k \<noteq> k') es @ [(k, v)]"
        using 1(3) by simp
      moreover have "entries c = (k', v') # es' @ [(k, v)]" using 1(3) Cons e by simp
      ultimately show ?thesis
        unfolding ev using 1(1) [OF True] 1(2,4,5) counted_delete [of c k'] by simp
    qed
  qed
qed

text \<open>C40: the cache answers, for any history, only what was last stored under that very key and not deleted since; and
  a value that fits the cache is found right after it was stored.\<close>

theorem cache_answers_last_stored:
  assumes "0 \<le> b"
  shows "(cache_get (run_cache n b ops) k = Some v \<longrightarrow> last_set ops k = Some v) \<and>
    (0 < n \<and> sizeOf k v \<le> b \<longrightarrow> cache_get (run_cache n b (CSet k v # ops)) k = Some v)"
proof (intro conjI impI)
  assume "cache_get (run_cache n b ops) k = Some v"
  then show "last_set ops k = Some v" unfolding run_cache_mem by (rule mem.get_run)
next
  assume fits: "0 < n \<and> sizeOf k v \<le> b"
  let ?c = "cache_delete k (run_cache n b ops)"
  let ?c2 = "?c\<lparr>entries := entries ?c @ [(k, v)], bytes := bytes ?c + sizeOf k v\<rparr>"
  note inv = run_cache_inv [OF assms, of n ops]
  have c: "counted ?c2" using counted_delete [of "run_cache n b ops" k] inv by (auto simp: counted_def)
  have "run_cache n b (CSet k v # ops) = evict ?c2"
    using fits inv by (simp add: run_cache_def cache_set_def Let_def)
  then show "cache_get (run_cache n b (CSet k v # ops)) k = Some v"
    using evict_last [OF c] fits inv by simp
qed

lemma first_word: "CHR '' '' \<notin> set a \<Longrightarrow> CHR '' '' \<notin> set b \<Longrightarrow> a @ CHR '' '' # x = b @ CHR '' '' # y \<longleftrightarrow> a = b \<and> x = y"
proof (induction a arbitrary: b)
  case Nil
  then show ?case by (cases b) auto
next
  case (Cons c a)
  then show ?case by (cases b) auto
qed

text \<open>for entry ids without a space, two credentials share a cache key only when they are the same credential of
  the same kind for the same entry: no token crosses entries, or from a session to a key.\<close>

theorem cacheKey_inj:
  assumes "CHR '' '' \<notin> set app" "CHR '' '' \<notin> set app'"
  shows "cacheKey app kind cred = cacheKey app' kind' cred' \<longleftrightarrow> app = app' \<and> kind = kind' \<and> cred = cred'"
  using first_word [OF assms] by (cases kind; cases kind') (auto simp: cacheKey_def)

theorem cache_bounded_witness:
  "cache_size (run_cache 1 9 [CSet ''b'' \<lparr>ct_token = ''t2'', ct_expiresAt = 5\<rparr>, CSet ''a'' \<lparr>ct_token = ''t1'', ct_expiresAt = 5\<rparr>]) \<le> 1"
  using cache_bounded [of 9 1 "[CSet ''b'' \<lparr>ct_token = ''t2'', ct_expiresAt = 5\<rparr>, CSet ''a'' \<lparr>ct_token = ''t1'', ct_expiresAt = 5\<rparr>]"]
  by simp

theorem cache_answers_last_stored_witness:
  "cache_get (run_cache 1 9 [CSet ''b'' \<lparr>ct_token = ''t2'', ct_expiresAt = 5\<rparr>, CSet ''a'' \<lparr>ct_token = ''t1'', ct_expiresAt = 5\<rparr>]) ''b''
     = Some \<lparr>ct_token = ''t2'', ct_expiresAt = 5\<rparr>"
  using cache_answers_last_stored [of 9 1 "[CSet ''a'' \<lparr>ct_token = ''t1'', ct_expiresAt = 5\<rparr>]" "''b''" "\<lparr>ct_token = ''t2'', ct_expiresAt = 5\<rparr>"]
  by (simp add: sizeOf_def)

theorem cacheKey_inj_witness:
  "cacheKey ''crm'' SessionCredential ''s'' \<noteq> cacheKey ''crm'' KeyCredential ''s''"
  using cacheKey_inj [of "''crm''" "''crm''" SessionCredential "''s''" KeyCredential "''s''"] by simp

end
