(* ===== verification/Authorizer.thy ===== *)
theory Authorizer
  imports Proxy_Manifest Jwks_Verifier Token_Cache
begin

text \<open>
  The proxy's authorization core, \<open>packages/proxy-core/src/authorize.ts\<close>. An operation is a state-passing function that
  returns a value or an exception; \<open>bindS\<close> is \<open>await\<close> followed by the rest. The state holds the verifier, the optional
  token cache and the record of the calls made to IAM. IAM, the delegation issuer, the random source, WebCrypto and the
  runtime's \<open>URL\<close> are fields of the environment \<open>proxy_env\<close>; the ones with effects read and replace the world of the
  verifier state, so their answers may change from call to call. A gateway call that throws answers \<^term>\<open>None\<close>.

  A location is the parsed URL with the query parameters set on it, before the runtime serialises it.
\<close>

subsection \<open>Decisions\<close>

datatype deny_reason =
    No_credential | Invalid_key | Invalid_token | Insufficient_scope | No_session | Invalid_session
  | Unknown_principal | Disabled | Token_too_large | No_endpoint | Caller_kind | Insufficient_permission
  | Cross_site | Bad_redirect | Content_type | Cross_origin | Delegation_refused | No_app | Bad_forward
  | Non_canonical_path | Iam_unavailable | Internal_error

record bearer_challenge =
  ch_resource_metadata :: string
  ch_error :: "string option"
  ch_scope :: "string option"

record denial =
  d_status :: nat
  d_reason :: deny_reason
  d_clearHandoffState :: "string option"
  d_challenge :: "bearer_challenge option"
  d_crossOrigin :: "string option"

record allowance =
  al_token :: "string option"
  al_subject :: "string option"
  al_endpoint :: string
  al_delegation :: "string option"
  al_crossOrigin :: "string option"
  al_forwardsAuthorization :: bool

record redirect =
  rd_url :: url
  rd_query :: "(string \<times> string) list"

record login_bounce =
  lb_status :: nat
  lb_location :: redirect
  lb_reason :: deny_reason
  lb_handoff :: handoff_attempt

record redeemed =
  re_location :: string
  re_session :: string
  re_expiresAt :: number
  re_handoffState :: string

datatype decision =
    Allow allowance
  | Deny denial
  | Preflight string string
  | Login login_bounce
  | Handoff redeemed
  | SignedOut redirect

definition deny :: "nat \<Rightarrow> deny_reason \<Rightarrow> denial" where
  "deny status reason = \<lparr>d_status = status, d_reason = reason, d_clearHandoffState = None, d_challenge = None, d_crossOrigin = None\<rparr>"

subsection \<open>Requests, environment and state\<close>

record forwarded_request =
  rq_method :: string
  rq_url :: url
  rq_rawPath :: string
  rq_headers :: headers
  rq_requestId :: string

record resolved_app =
  ra_app :: proxy_app
  ra_table :: "rules compiled_table"

datatype mint_token_reason = MT_no_session | MT_invalid_session | MT_unknown_principal | MT_disabled | MT_token_too_large
datatype mint_key_reason = MK_invalid_key | MK_unknown_principal | MK_disabled | MK_token_too_large

datatype 'r mint_reply = Minted string number | MintDenied 'r
datatype exchange_reply = Exchanged string string number | ExchangeDenied
datatype delegation_reply = Granted string | DelegationDenied

datatype iam_call =
    MintTokenCall string string string
  | MintFromKeyCall string string string
  | ExchangeAuthCodeCall string string string string
  | RequestDelegationCall string string string string

record ('w, 'j, 'k) proxy_env =
  venv :: "('w, 'j, 'k) verifier_env"
  iam_mintToken :: "string \<Rightarrow> string \<Rightarrow> string \<Rightarrow> 'w \<Rightarrow> mint_token_reason mint_reply option \<times> 'w"
  iam_mintFromKey :: "string \<Rightarrow> string \<Rightarrow> string \<Rightarrow> 'w \<Rightarrow> mint_key_reason mint_reply option \<times> 'w"
  iam_exchangeAuthCode :: "string \<Rightarrow> string \<Rightarrow> string \<Rightarrow> string \<Rightarrow> 'w \<Rightarrow> exchange_reply option \<times> 'w"
  delegations :: "(string \<Rightarrow> string \<Rightarrow> string \<Rightarrow> string \<Rightarrow> 'w \<Rightarrow> delegation_reply option \<times> 'w) option"
  env_random :: "'w random_source"
  env_sha256 :: "string \<Rightarrow> string"
  env_resolveUrl :: "string \<Rightarrow> string \<Rightarrow> url option"
  env_urlText :: "url \<Rightarrow> string"
  env_searchParam :: "url \<Rightarrow> string \<Rightarrow> string option"

record ('w, 'k) proxy_state =
  vs :: "('w, 'k) verifier_state"
  tcache :: opt_cache
  iam_calls :: "iam_call list"

datatype exn = IamUnavailableError | OtherException

type_synonym ('s, 'a) comp = "'s \<Rightarrow> (exn + 'a) \<times> 's"

definition retS :: "'a \<Rightarrow> ('s, 'a) comp" where
  "retS x s = (Inr x, s)"

definition throwS :: "exn \<Rightarrow> ('s, 'a) comp" where
  "throwS e s = (Inl e, s)"

definition bindS :: "('s, 'a) comp \<Rightarrow> ('a \<Rightarrow> ('s, 'b) comp) \<Rightarrow> ('s, 'b) comp" where
  "bindS m f s = (case m s of (Inl e, s1) \<Rightarrow> (Inl e, s1) | (Inr x, s1) \<Rightarrow> f x s1)"

abbreviation parseUrl_of :: "('w, 'j, 'k) proxy_env \<Rightarrow> url_parser" where
  "parseUrl_of E \<equiv> env_parseUrl (venv E)"

abbreviation issuer_of :: "('w, 'j, 'k) proxy_env \<Rightarrow> string" where
  "issuer_of E \<equiv> env_issuer (venv E)"

subsection \<open>Effects\<close>

definition nowM :: "('w, 'j, 'k) proxy_env \<Rightarrow> (('w, 'k) proxy_state, number) comp" where
  "nowM E s = (let (now, w) = env_now (venv E) (world (vs s)) in (Inr now, s\<lparr>vs := (vs s)\<lparr>world := w\<rparr>\<rparr>))"

definition verifyM ::
  "('w, 'j, 'k) proxy_env \<Rightarrow> string \<Rightarrow> token_audience_profile \<Rightarrow> (('w, 'k) proxy_state, verify_result) comp" where
  "verifyM E token profile s =
     (case verify (venv E) token profile (vs s) of
        (Inl _, v) \<Rightarrow> (Inl OtherException, s\<lparr>vs := v\<rparr>)
      | (Inr r, v) \<Rightarrow> (Inr r, s\<lparr>vs := v\<rparr>))"

text \<open>\<open>callIam\<close>: whatever the gateway throws becomes \<open>IamUnavailableError\<close>.\<close>

definition callIam :: "iam_call \<Rightarrow> ('w \<Rightarrow> 'a option \<times> 'w) \<Rightarrow> (('w, 'k) proxy_state, 'a) comp" where
  "callIam call f s =
     (let (r, w) = f (world (vs s)); s1 = s\<lparr>vs := (vs s)\<lparr>world := w\<rparr>, iam_calls := call # iam_calls s\<rparr> in
      case r of None \<Rightarrow> (Inl IamUnavailableError, s1) | Some x \<Rightarrow> (Inr x, s1))"

definition cacheGetM :: "string \<Rightarrow> (('w, 'k) proxy_state, cached_token option) comp" where
  "cacheGetM key s = (Inr (opt_get (tcache s) key), s)"

definition cacheSetM :: "string \<Rightarrow> cached_token \<Rightarrow> (('w, 'k) proxy_state, unit) comp" where
  "cacheSetM key value s = (Inr (), s\<lparr>tcache := opt_set key value (tcache s)\<rparr>)"

definition cacheDeleteM :: "string \<Rightarrow> (('w, 'k) proxy_state, unit) comp" where
  "cacheDeleteM key s = (Inr (), s\<lparr>tcache := opt_delete key (tcache s)\<rparr>)"

definition createHandoffM :: "('w, 'j, 'k) proxy_env \<Rightarrow> (('w, 'k) proxy_state, handoff_attempt) comp" where
  "createHandoffM E s =
     (let (a, w) = createHandoffAttempt (env_random E) (env_sha256 E) (world (vs s)) in (Inr a, s\<lparr>vs := (vs s)\<lparr>world := w\<rparr>\<rparr>))"

definition unmatchedVerifierM :: "('w, 'j, 'k) proxy_env \<Rightarrow> (('w, 'k) proxy_state, string) comp" where
  "unmatchedVerifierM E s =
     (let (v, w) = unmatchedVerifier (env_random E) (world (vs s)) in (Inr v, s\<lparr>vs := (vs s)\<lparr>world := w\<rparr>\<rparr>))"

subsection \<open>Pure checks\<close>

definition ORIGIN_HEADER :: string where "ORIGIN_HEADER = ''Origin''"
definition FETCH_SITE_HEADER :: string where "FETCH_SITE_HEADER = ''Sec-Fetch-Site''"
definition FETCH_MODE_HEADER :: string where "FETCH_MODE_HEADER = ''Sec-Fetch-Mode''"
definition PREFLIGHT_METHOD_HEADER :: string where "PREFLIGHT_METHOD_HEADER = ''Access-Control-Request-Method''"
definition LOGIN_REDIRECT_PARAM :: string where "LOGIN_REDIRECT_PARAM = ''redirect''"
definition AUTH_HANDOFF_STATE_PARAM :: string where "AUTH_HANDOFF_STATE_PARAM = ''state''"
definition AUTH_HANDOFF_CHALLENGE_PARAM :: string where "AUTH_HANDOFF_CHALLENGE_PARAM = ''code_challenge''"
definition AUTH_CODE_PARAM :: string where "AUTH_CODE_PARAM = ''code''"
definition SIGNOUT_RELEASE_PATH :: string where "SIGNOUT_RELEASE_PATH = ''/auth/terminals/release''"
definition FORM_MULTIPART_TYPE :: string where "FORM_MULTIPART_TYPE = ''multipart/form-data''"
definition FORM_URLENCODED_TYPE :: string where "FORM_URLENCODED_TYPE = ''application/x-www-form-urlencoded''"

definition admittedOrigin :: "proxy_app \<Rightarrow> manifest_row \<Rightarrow> string \<Rightarrow> string option" where
  "admittedOrigin app row origin =
     (case row_crossOrigin row of
        Some AnyOrigin \<Rightarrow> Some ''*''
      | Some Environment \<Rightarrow>
          (case form app of
             Contract c \<Rightarrow> if origin \<in> set (case crossOrigins c of None \<Rightarrow> [] | Some xs \<Rightarrow> xs) then Some origin else None
           | Installation _ \<Rightarrow> None)
      | None \<Rightarrow> None)"

definition isControlOrSpace :: "char \<Rightarrow> bool" where
  "isControlOrSpace c = (let code = of_char c :: nat in code \<le> 0x20 \<or> code = 0x7f)"

definition sameOriginTarget :: "('w, 'j, 'k) proxy_env \<Rightarrow> string \<Rightarrow> string option \<Rightarrow> (exn + string option)" where
  "sameOriginTarget E origin path =
     (case path of
        None \<Rightarrow> Inr None
      | Some p \<Rightarrow>
          (if \<not> startsWith p ''/'' \<or> startsWith p ''//'' \<or> str_includes p [CHR 0x5C] \<or> list_ex isControlOrSpace p
           then Inr None
           else (case env_resolveUrl E p origin of
                   None \<Rightarrow> Inl OtherException
                 | Some target \<Rightarrow> Inr (if url_origin target = origin then Some (env_urlText E target) else None))))"

definition returnsToHost :: "('w, 'j, 'k) proxy_env \<Rightarrow> proxy_app \<Rightarrow> url \<Rightarrow> string \<Rightarrow> bool" where
  "returnsToHost E app callback returnUrl =
     (case parseUrl_of E returnUrl of
        None \<Rightarrow> False
      | Some target \<Rightarrow> hostname target = hostname callback \<and> hostname target \<in> set (hosts app))"

datatype oauth_binding = NoOAuth | Unregistered | Bound oauth_protected_resource "string list"

definition oauthBindingOf :: "('w, 'j, 'k) proxy_env \<Rightarrow> proxy_app \<Rightarrow> manifest_row \<Rightarrow> oauth_binding" where
  "oauthBindingOf E app row =
     (case row_oauth row of
        None \<Rightarrow> NoOAuth
      | Some scopes \<Rightarrow>
          (case (case form app of Installation rs \<Rightarrow> oauthResourceOfRow (parseUrl_of E) rs (ep_path row) | Contract _ \<Rightarrow> None) of
             None \<Rightarrow> Unregistered
           | Some r \<Rightarrow> Bound r scopes))"

definition withBearerChallenge :: "denial \<Rightarrow> oauth_binding \<Rightarrow> denial" where
  "withBearerChallenge d oa =
     (case oa of
        Bound r _ \<Rightarrow>
          (if d_status d \<noteq> 401 \<and> d_status d \<noteq> 403 then d
           else d\<lparr>d_challenge := Some \<lparr>ch_resource_metadata = resourceMetadata r,
             ch_error = (if d_status d = 401 then Some ''invalid_token'' else None), ch_scope = None\<rparr>\<rparr>)
      | _ \<Rightarrow> d)"

definition mediaTypeOf :: "headers \<Rightarrow> string" where
  "mediaTypeOf h = (case hdr_get h ''Content-Type'' of None \<Rightarrow> [] | Some t \<Rightarrow> lower (trim (hd (splitOn (CHR '';'') t))))"

definition preflightless :: "manifest_row \<Rightarrow> headers \<Rightarrow> bool" where
  "preflightless row h =
     (if row_kind row = Form
      then (case row_admission row of None \<Rightarrow> False | Some adm \<Rightarrow> FORM_MULTIPART_TYPE \<in> set (contentTypes adm))
      else row_kind row = Public \<and> mediaTypeOf h \<in> set [FORM_MULTIPART_TYPE, FORM_URLENCODED_TYPE])"

definition admitFormOrigin :: "proxy_app \<Rightarrow> manifest_row \<Rightarrow> forwarded_request \<Rightarrow> string option \<Rightarrow> denial option" where
  "admitFormOrigin app row request crossOrigin =
     (case hdr_get (rq_headers request) ORIGIN_HEADER of
        None \<Rightarrow> None
      | Some origin \<Rightarrow>
          (if crossOrigin \<noteq> None \<or> \<not> preflightless row (rq_headers request) then None
           else if origin = scheme_text (scheme app) @ ''://'' @ url_host (rq_url request) then None
           else Some (deny 403 Cross_origin)))"

definition admitBody :: "manifest_row \<Rightarrow> headers \<Rightarrow> denial option" where
  "admitBody row h =
     (case row_admission row of
        None \<Rightarrow> None
      | Some adm \<Rightarrow> if mediaTypeOf h \<in> set (contentTypes adm) then None else Some (deny 400 Content_type))"

definition isDocumentNavigation :: "headers \<Rightarrow> bool" where
  "isDocumentNavigation h =
     (case hdr_get h FETCH_MODE_HEADER of None \<Rightarrow> True | Some m \<Rightarrow> m = [] \<or> m = ''navigate'')"

definition forwardsAuthorization :: "manifest_row \<Rightarrow> forwarded_request \<Rightarrow> bool" where
  "forwardsAuthorization row request =
     (case hdr_get (rq_headers request) ''Authorization'' of
        None \<Rightarrow> False
      | Some authorization \<Rightarrow>
          row_kind row = Protocol \<or> (row_forwardAuthorization row \<and> \<not> carriesPlatformKey authorization API_KEY_PREFIX))"

subsection \<open>Keys, resource tokens and sessions\<close>

type_synonym attempt_ok = "string \<times> access_token_claims"

definition invalidKey :: denial where
  "invalidKey = deny 401 Invalid_key"

fun keyDenial :: "mint_key_reason \<Rightarrow> denial" where
  "keyDenial MK_invalid_key = deny 401 Invalid_key"
| "keyDenial MK_unknown_principal = deny 403 Unknown_principal"
| "keyDenial MK_disabled = deny 403 Disabled"
| "keyDenial MK_token_too_large = deny 403 Token_too_large"

text \<open>The part of \<open>exchangeKey\<close> after the cache: a fresh mint, verified before it is cached.\<close>

definition mintKey :: "('w, 'j, 'k) proxy_env \<Rightarrow> proxy_app \<Rightarrow> string \<Rightarrow> string \<Rightarrow> (('w, 'k) proxy_state, denial + attempt_ok) comp" where
  "mintKey E app bearer requestId =
     bindS (callIam (MintFromKeyCall (audienceOf app) bearer requestId) (iam_mintFromKey E (audienceOf app) bearer requestId))
       (\<lambda>minted. case minted of
          MintDenied reason \<Rightarrow> retS (Inl (keyDenial reason))
        | Minted token expiresAt \<Rightarrow>
            bindS (verifyM E token (AppProfile (audienceOf app)))
              (\<lambda>verified. case verified of
                 Unavailable \<Rightarrow> retS (Inl (deny 503 Iam_unavailable))
               | Invalid \<Rightarrow> retS (Inl invalidKey)
               | Ok claims \<Rightarrow>
                   bindS (cacheSetM (cacheKey (app_id app) KeyCredential bearer) \<lparr>ct_token = token, ct_expiresAt = expiresAt\<rparr>)
                     (\<lambda>_. retS (Inr (token, claims)))))"

definition exchangeKey :: "('w, 'j, 'k) proxy_env \<Rightarrow> proxy_app \<Rightarrow> string \<Rightarrow> string \<Rightarrow> (('w, 'k) proxy_state, denial + attempt_ok) comp" where
  "exchangeKey E app bearer requestId =
     (if \<not> startsWith bearer API_KEY_PREFIX then retS (Inl invalidKey)
      else bindS (cacheGetM (cacheKey (app_id app) KeyCredential bearer))
        (\<lambda>cached. case cached of
           None \<Rightarrow> mintKey E app bearer requestId
         | Some held \<Rightarrow>
             bindS (nowM E)
               (\<lambda>now. if ct_expiresAt held - now > TOKEN_REFRESH_SKEW_SECONDS
                  then bindS (verifyM E (ct_token held) (AppProfile (audienceOf app)))
                    (\<lambda>verified. case verified of
                       Ok claims \<Rightarrow> retS (Inr (ct_token held, claims))
                     | Unavailable \<Rightarrow> retS (Inl (deny 503 Iam_unavailable))
                     | Invalid \<Rightarrow>
                         bindS (cacheDeleteM (cacheKey (app_id app) KeyCredential bearer))
                           (\<lambda>_. mintKey E app bearer requestId))
                  else mintKey E app bearer requestId)))"

definition verifyOAuthBearer ::
  "('w, 'j, 'k) proxy_env \<Rightarrow> proxy_app \<Rightarrow> oauth_protected_resource \<Rightarrow> string list \<Rightarrow> string option \<Rightarrow>
   (('w, 'k) proxy_state, denial + attempt_ok) comp" where
  "verifyOAuthBearer E app bound scopes bearer =
     (let challenge = \<lparr>ch_resource_metadata = resourceMetadata bound, ch_error = None, ch_scope = None\<rparr> in
      case bearer of
        None \<Rightarrow> retS (Inl ((deny 401 No_credential)\<lparr>d_challenge := Some challenge\<rparr>))
      | Some b \<Rightarrow>
          bindS (verifyM E b (ResourceProfile (audienceOf app) (resource bound)))
            (\<lambda>verified. case verified of
               Unavailable \<Rightarrow> retS (Inl (deny 503 Iam_unavailable))
             | Invalid \<Rightarrow> retS (Inl ((deny 401 Invalid_token)\<lparr>d_challenge := Some (challenge\<lparr>ch_error := Some ''invalid_token''\<rparr>)\<rparr>))
             | Ok claims \<Rightarrow>
                 (let granted = (case oauth claims of None \<Rightarrow> [] | Some oa \<Rightarrow> oa_scopes oa) in
                  if \<not> list_all (\<lambda>sc. sc \<in> set granted) scopes
                  then retS (Inl ((deny 403 Insufficient_scope)\<lparr>d_challenge := Some (challenge\<lparr>
                         ch_error := Some ''insufficient_scope'', ch_scope := Some (joinWith '' '' scopes)\<rparr>)\<rparr>))
                  else retS (Inr (b, claims)))))"

datatype session_failure = NoSession | InvalidSession | UnknownPrincipal | DisabledPrincipal

fun failureReason :: "session_failure \<Rightarrow> deny_reason" where
  "failureReason NoSession = No_session"
| "failureReason InvalidSession = Invalid_session"
| "failureReason UnknownPrincipal = Unknown_principal"
| "failureReason DisabledPrincipal = Disabled"

datatype session_attempt = SessionOk string access_token_claims | Miss session_failure | Refused | SessionUnavailable

fun sessionMiss :: "mint_token_reason \<Rightarrow> session_attempt" where
  "sessionMiss MT_no_session = Miss NoSession"
| "sessionMiss MT_invalid_session = Miss InvalidSession"
| "sessionMiss MT_unknown_principal = Miss UnknownPrincipal"
| "sessionMiss MT_disabled = Miss DisabledPrincipal"
| "sessionMiss MT_token_too_large = Refused"

definition mintSession :: "('w, 'j, 'k) proxy_env \<Rightarrow> proxy_app \<Rightarrow> string \<Rightarrow> string \<Rightarrow> (('w, 'k) proxy_state, session_attempt) comp" where
  "mintSession E app cookie requestId =
     bindS (callIam (MintTokenCall (audienceOf app) cookie requestId) (iam_mintToken E (audienceOf app) cookie requestId))
       (\<lambda>minted. case minted of
          MintDenied reason \<Rightarrow> retS (sessionMiss reason)
        | Minted token expiresAt \<Rightarrow>
            bindS (verifyM E token (AppProfile (audienceOf app)))
              (\<lambda>verified. case verified of
                 Unavailable \<Rightarrow> retS SessionUnavailable
               | Invalid \<Rightarrow> retS (Miss InvalidSession)
               | Ok claims \<Rightarrow>
                   (if ptype claims \<noteq> Some Pt_user then retS (Miss InvalidSession)
                    else bindS (cacheSetM (cacheKey (app_id app) SessionCredential cookie) \<lparr>ct_token = token, ct_expiresAt = expiresAt\<rparr>)
                      (\<lambda>_. retS (SessionOk token claims)))))"

definition authorizeSession :: "('w, 'j, 'k) proxy_env \<Rightarrow> proxy_app \<Rightarrow> forwarded_request \<Rightarrow> (('w, 'k) proxy_state, session_attempt) comp" where
  "authorizeSession E app request =
     bindS (nowM E)
       (\<lambda>now. case readCookie (hdr_get (rq_headers request) ''Cookie'') SESSION_COOKIE of
          None \<Rightarrow> retS (Miss NoSession)
        | Some cookie \<Rightarrow>
            bindS (cacheGetM (cacheKey (app_id app) SessionCredential cookie))
              (\<lambda>cached. case cached of
                 None \<Rightarrow> mintSession E app cookie (rq_requestId request)
               | Some held \<Rightarrow>
                   (if ct_expiresAt held - now > TOKEN_REFRESH_SKEW_SECONDS
                    then bindS (verifyM E (ct_token held) (AppProfile (audienceOf app)))
                      (\<lambda>verified.
                         let again = bindS (cacheDeleteM (cacheKey (app_id app) SessionCredential cookie))
                               (\<lambda>_. mintSession E app cookie (rq_requestId request)) in
                         case verified of
                           Ok claims \<Rightarrow> if ptype claims = Some Pt_user then retS (SessionOk (ct_token held) claims) else again
                         | Unavailable \<Rightarrow> retS SessionUnavailable
                         | Invalid \<Rightarrow> again)
                    else mintSession E app cookie (rq_requestId request))))"

subsection \<open>The login bounce\<close>

definition strip_slashes :: "string \<Rightarrow> string" where
  "strip_slashes s = rev (dropWhile (\<lambda>c. c = CHR ''/'') (rev s))"

text \<open>Assigning \<open>url.protocol\<close> between the two web schemes; a port that is the new scheme's default is dropped.\<close>

definition set_protocol :: "url \<Rightarrow> public_scheme \<Rightarrow> url" where
  "set_protocol u sch =
     u\<lparr>protocol := scheme_text sch @ '':'',
       port := (if port u = (case sch of Http \<Rightarrow> ''80'' | Https \<Rightarrow> ''443'') then [] else port u)\<rparr>"

definition loginUrl :: "('w, 'j, 'k) proxy_env \<Rightarrow> proxy_app \<Rightarrow> url \<Rightarrow> handoff_attempt \<Rightarrow> (exn + redirect)" where
  "loginUrl E app u handoff =
     (let target = set_protocol u (scheme app) in
      case env_resolveUrl E ''/auth/login'' (strip_slashes (issuer_of E)) of
        None \<Rightarrow> Inl OtherException
      | Some login \<Rightarrow> Inr \<lparr>rd_url = login,
          rd_query = [(''app'', audienceOf app), (LOGIN_REDIRECT_PARAM, env_urlText E target),
            (AUTH_HANDOFF_STATE_PARAM, ha_state handoff), (AUTH_HANDOFF_CHALLENGE_PARAM, ha_challenge handoff)]\<rparr>)"

definition loginDecision ::
  "('w, 'j, 'k) proxy_env \<Rightarrow> proxy_app \<Rightarrow> forwarded_request \<Rightarrow> session_failure \<Rightarrow> (('w, 'k) proxy_state, login_bounce) comp" where
  "loginDecision E app request reason =
     bindS (createHandoffM E)
       (\<lambda>handoff. case loginUrl E app (rq_url request) handoff of
          Inl e \<Rightarrow> throwS e
        | Inr location \<Rightarrow> retS \<lparr>lb_status = (if isDocumentNavigation (rq_headers request) then 302 else 401),
            lb_location = location, lb_reason = failureReason reason, lb_handoff = handoff\<rparr>)"

subsection \<open>One endpoint\<close>

record caller_ok =
  ca_token :: string
  ca_claims :: access_token_claims
  ca_session :: bool

text \<open>The session half of \<open>endpointCaller\<close>, for a request without an \<open>Authorization\<close> value.\<close>

definition endpointSession ::
  "('w, 'j, 'k) proxy_env \<Rightarrow> proxy_app \<Rightarrow> oauth_binding \<Rightarrow> token_caller list \<Rightarrow> forwarded_request \<Rightarrow> bool \<Rightarrow>
   (('w, 'k) proxy_state, decision + caller_ok) comp" where
  "endpointSession E app oa callers request crossOrigin =
     (if Human \<notin> set callers \<or> crossOrigin
      then retS (Inl (Deny (case oa of
             Bound r _ \<Rightarrow> (deny 401 No_credential)\<lparr>d_challenge :=
               Some \<lparr>ch_resource_metadata = resourceMetadata r, ch_error = None, ch_scope = None\<rparr>\<rparr>
           | _ \<Rightarrow> deny 401 No_credential)))
      else bindS (authorizeSession E app request)
        (\<lambda>attempt. case attempt of
           SessionOk token claims \<Rightarrow> retS (Inr \<lparr>ca_token = token, ca_claims = claims, ca_session = True\<rparr>)
         | SessionUnavailable \<Rightarrow> retS (Inl (Deny (deny 503 Iam_unavailable)))
         | Refused \<Rightarrow> retS (Inl (Deny (deny 403 Token_too_large)))
         | Miss reason \<Rightarrow> bindS (loginDecision E app request reason) (\<lambda>bounce. retS (Inl (Login bounce)))))"

definition endpointCaller ::
  "('w, 'j, 'k) proxy_env \<Rightarrow> proxy_app \<Rightarrow> oauth_binding \<Rightarrow> token_caller list \<Rightarrow> forwarded_request \<Rightarrow> bool \<Rightarrow>
   (('w, 'k) proxy_state, decision + caller_ok) comp" where
  "endpointCaller E app oa callers request crossOrigin =
     (case hdr_get (rq_headers request) ''Authorization'' of
        Some authorization \<Rightarrow>
          (if trim authorization \<noteq> []
           then (let bearer = readBearer (Some authorization);
                     keyPath = bindS (case bearer of None \<Rightarrow> retS (Inl invalidKey)
                                                   | Some b \<Rightarrow> exchangeKey E app b (rq_requestId request))
                       (\<lambda>key. case key of
                          Inr (token, claims) \<Rightarrow> retS (Inr \<lparr>ca_token = token, ca_claims = claims, ca_session = False\<rparr>)
                        | Inl d \<Rightarrow> retS (Inl (Deny (withBearerChallenge d oa))))
                 in case oa of
                      Bound r scopes \<Rightarrow>
                        (if (case bearer of None \<Rightarrow> True | Some b \<Rightarrow> \<not> startsWith b API_KEY_PREFIX)
                         then bindS (verifyOAuthBearer E app r scopes bearer)
                           (\<lambda>verified. case verified of
                              Inr (token, claims) \<Rightarrow> retS (Inr \<lparr>ca_token = token, ca_claims = claims, ca_session = False\<rparr>)
                            | Inl d \<Rightarrow> retS (Inl (Deny d)))
                         else keyPath)
                    | _ \<Rightarrow> keyPath)
           else endpointSession E app oa callers request crossOrigin)
      | None \<Rightarrow> endpointSession E app oa callers request crossOrigin)"

definition obtainDelegation ::
  "('w, 'j, 'k) proxy_env \<Rightarrow> proxy_app \<Rightarrow> string \<Rightarrow> string \<Rightarrow> string \<Rightarrow> (('w, 'k) proxy_state, denial + string option) comp" where
  "obtainDelegation E app endpoint token requestId =
     (case delegations E of
        None \<Rightarrow> retS (Inr None)
      | Some requestDelegation \<Rightarrow>
          bindS (callIam (RequestDelegationCall (audienceOf app) token requestId endpoint)
                   (requestDelegation (audienceOf app) token requestId endpoint))
            (\<lambda>r. case r of
               Granted g \<Rightarrow> if g \<noteq> [] then retS (Inr (Some g)) else retS (Inl (deny 403 Delegation_refused))
             | DelegationDenied \<Rightarrow> retS (Inl (deny 403 Delegation_refused))))"

text \<open>The checks after the caller is known.\<close>

definition admitCaller ::
  "('w, 'j, 'k) proxy_env \<Rightarrow> proxy_app \<Rightarrow> manifest_row \<Rightarrow> endpoint_requirement \<Rightarrow> oauth_binding \<Rightarrow> forwarded_request \<Rightarrow>
   string option \<Rightarrow> caller_ok \<Rightarrow> (('w, 'k) proxy_state, decision) comp" where
  "admitCaller E app row req oa request crossOrigin caller =
     (if (case callerOf (ca_claims caller) of
            None \<Rightarrow> True
          | Some kind \<Rightarrow> kind \<notin> set (row_callers row) \<or> \<not> callerAdmittedAt kind (ep_path row))
      then retS (Deny (withBearerChallenge (deny 403 Caller_kind) oa))
      else if \<not> satisfies req (perms (ca_claims caller)) then retS (Deny (deny 403 Insufficient_permission))
      else if ca_session caller \<and> rq_method request \<noteq> ''GET'' \<and> hdr_get (rq_headers request) FETCH_SITE_HEADER \<noteq> Some ''same-origin''
      then retS (Deny (deny 403 Cross_site))
      else (case admitBody row (rq_headers request) of
              Some refused \<Rightarrow> retS (Deny refused)
            | None \<Rightarrow>
                bindS (if row_delegation row = None then retS (Inr None)
                       else obtainDelegation E app (ep_id row) (ca_token caller) (rq_requestId request))
                  (\<lambda>delegation. case delegation of
                     Inl d \<Rightarrow> retS (Deny d)
                   | Inr grant \<Rightarrow> retS (Allow \<lparr>al_token = Some (ca_token caller), al_subject = Some (sub (ca_claims caller)),
                       al_endpoint = formatEndpointHeader (ep_id row) (row_digest row), al_delegation = grant,
                       al_crossOrigin = crossOrigin, al_forwardsAuthorization = False\<rparr>))))"

definition decideRow ::
  "('w, 'j, 'k) proxy_env \<Rightarrow> proxy_app \<Rightarrow> manifest_row \<Rightarrow> forwarded_request \<Rightarrow> string option \<Rightarrow>
   (('w, 'k) proxy_state, decision) comp" where
  "decideRow E app row request crossOrigin =
     (case row_requirement row of
        None \<Rightarrow>
          (case admitBody row (rq_headers request) of
             Some d \<Rightarrow> retS (Deny d)
           | None \<Rightarrow>
               (case admitFormOrigin app row request crossOrigin of
                  Some d \<Rightarrow> retS (Deny d)
                | None \<Rightarrow> retS (Allow \<lparr>al_token = None, al_subject = None,
                    al_endpoint = formatEndpointHeader (ep_id row) (row_digest row), al_delegation = None,
                    al_crossOrigin = crossOrigin, al_forwardsAuthorization = forwardsAuthorization row request\<rparr>)))
      | Some req \<Rightarrow>
          (let oa = oauthBindingOf E app row in
           if oa = Unregistered then retS (Deny (deny 403 Internal_error))
           else bindS (endpointCaller E app oa (row_callers row) request (crossOrigin \<noteq> None))
             (\<lambda>caller. case caller of
                Inl d \<Rightarrow> retS d
              | Inr c \<Rightarrow> admitCaller E app row req oa request crossOrigin c)))"

definition decidePreflight :: "rules compiled_table \<Rightarrow> proxy_app \<Rightarrow> forwarded_request \<Rightarrow> decision option" where
  "decidePreflight table app request =
     (case (hdr_get (rq_headers request) ORIGIN_HEADER, hdr_get (rq_headers request) PREFLIGHT_METHOD_HEADER) of
        (Some origin, Some m) \<Rightarrow>
          (if \<not> isApplicationEntry app \<or> rq_method request \<noteq> ''OPTIONS'' then None
           else (case planEndpoint table m (rq_rawPath request) of
                   NonCanonical \<Rightarrow> Some (Deny (deny 400 Non_canonical_path))
                 | NoEndpoint \<Rightarrow> Some (Deny (deny 403 No_endpoint))
                 | Endpoint row ps \<Rightarrow>
                     (case admittedOrigin app row origin of
                        None \<Rightarrow> Some (Deny (deny 403 Cross_origin))
                      | Some allowOrigin \<Rightarrow> Some (Preflight allowOrigin (ep_method row)))))
      | _ \<Rightarrow> None)"

definition decideEndpoint ::
  "('w, 'j, 'k) proxy_env \<Rightarrow> proxy_app \<Rightarrow> rules compiled_table \<Rightarrow> forwarded_request \<Rightarrow> (('w, 'k) proxy_state, decision) comp" where
  "decideEndpoint E app table request =
     (case decidePreflight table app request of
        Some d \<Rightarrow> retS d
      | None \<Rightarrow>
          (case planEndpoint table (rq_method request) (rq_rawPath request) of
             NonCanonical \<Rightarrow> retS (Deny (deny 400 Non_canonical_path))
           | NoEndpoint \<Rightarrow> retS (Deny (deny 403 No_endpoint))
           | Endpoint row ps \<Rightarrow>
               (let crossOrigin = (case hdr_get (rq_headers request) ORIGIN_HEADER of
                                     None \<Rightarrow> None | Some origin \<Rightarrow> admittedOrigin app row origin) in
                bindS (decideRow E app row request crossOrigin)
                  (\<lambda>d. retS (case d of
                     Deny x \<Rightarrow> if crossOrigin = None then d else Deny (x\<lparr>d_crossOrigin := crossOrigin\<rparr>)
                   | _ \<Rightarrow> d)))))"

text \<open>\<open>authorize\<close>: its \<open>catch\<close> turns every exception into a denial, so it returns a decision for every request.\<close>

definition authorize ::
  "('w, 'j, 'k) proxy_env \<Rightarrow> resolved_app \<Rightarrow> forwarded_request \<Rightarrow> ('w, 'k) proxy_state \<Rightarrow> decision \<times> ('w, 'k) proxy_state" where
  "authorize E resolved request s =
     (case decideEndpoint E (ra_app resolved) (ra_table resolved) request s of
        (Inr d, s1) \<Rightarrow> (d, s1)
      | (Inl IamUnavailableError, s1) \<Rightarrow> (Deny (deny 503 Iam_unavailable), s1)
      | (Inl OtherException, s1) \<Rightarrow> (Deny (deny 403 Internal_error), s1))"

subsection \<open>The handoff callback and the sign-out\<close>

definition clearing :: "string \<Rightarrow> denial \<Rightarrow> decision" where
  "clearing state d = Deny (d\<lparr>d_clearHandoffState := Some state\<rparr>)"

definition redeem ::
  "('w, 'j, 'k) proxy_env \<Rightarrow> resolved_app \<Rightarrow> forwarded_request \<Rightarrow> string \<Rightarrow> (('w, 'k) proxy_state, decision) comp" where
  "redeem E resolved request state =
     (case env_searchParam E (rq_url request) AUTH_CODE_PARAM of
        None \<Rightarrow> retS (clearing state (deny 403 No_credential))
      | Some code \<Rightarrow>
          (if code = [] then retS (clearing state (deny 403 No_credential))
           else
             (let app = audienceOf (ra_app resolved);
                  exchange = (\<lambda>presented. callIam (ExchangeAuthCodeCall app code presented (rq_requestId request))
                    (iam_exchangeAuthCode E app code presented (rq_requestId request))) in
              case (case handoffCookieName (Some state) of
                      None \<Rightarrow> None
                    | Some name \<Rightarrow> readCookie (hdr_get (rq_headers request) ''Cookie'') name) of
                None \<Rightarrow>
                  bindS (unmatchedVerifierM E) (\<lambda>v. bindS (exchange v) (\<lambda>_. retS (clearing state (deny 403 Invalid_session))))
              | Some verifier \<Rightarrow>
                  bindS (exchange verifier)
                    (\<lambda>result. case result of
                       ExchangeDenied \<Rightarrow> retS (clearing state (deny 403 Invalid_session))
                     | Exchanged sess returnUrl expiresAt \<Rightarrow>
                         (if \<not> returnsToHost E (ra_app resolved) (rq_url request) returnUrl
                          then retS (clearing state (deny 403 Invalid_session))
                          else retS (Handoff \<lparr>re_location = returnUrl, re_session = sess, re_expiresAt = expiresAt,
                            re_handoffState = state\<rparr>))))))"

definition authorizeCallback ::
  "('w, 'j, 'k) proxy_env \<Rightarrow> resolved_app \<Rightarrow> forwarded_request \<Rightarrow> ('w, 'k) proxy_state \<Rightarrow> decision \<times> ('w, 'k) proxy_state" where
  "authorizeCallback E resolved request s =
     (case env_searchParam E (rq_url request) AUTH_HANDOFF_STATE_PARAM of
        None \<Rightarrow> (Deny (deny 403 No_credential), s)
      | Some state \<Rightarrow>
          (if handoffCookieName (Some state) = None then (Deny (deny 403 No_credential), s)
           else (case redeem E resolved request state s of
                   (Inr d, s1) \<Rightarrow> (d, s1)
                 | (Inl IamUnavailableError, s1) \<Rightarrow> (clearing state (deny 503 Iam_unavailable), s1)
                 | (Inl OtherException, s1) \<Rightarrow> (clearing state (deny 403 Internal_error), s1))))"

text \<open>\<open>signOut\<close> has no \<open>try\<close>: a URL the runtime cannot build is an exception to its caller.\<close>

definition signOut :: "('w, 'j, 'k) proxy_env \<Rightarrow> resolved_app \<Rightarrow> forwarded_request \<Rightarrow> (('w, 'k) proxy_state, decision) comp" where
  "signOut E resolved request =
     (if rq_method request \<noteq> ''GET'' then retS (Deny (deny 403 No_endpoint))
      else if hdr_get (rq_headers request) FETCH_SITE_HEADER \<noteq> Some ''same-origin'' then retS (Deny (deny 403 Cross_site))
      else
        (let app = ra_app resolved in
         case parseUrl_of E (scheme_text (scheme app) @ ''://'' @ url_host (rq_url request)) of
           None \<Rightarrow> throwS OtherException
         | Some own \<Rightarrow>
             (case sameOriginTarget E (url_origin own) (env_searchParam E (rq_url request) LOGIN_REDIRECT_PARAM) of
                Inl e \<Rightarrow> throwS e
              | Inr None \<Rightarrow> retS (Deny (deny 400 Bad_redirect))
              | Inr (Some target) \<Rightarrow>
                  bindS (case readCookie (hdr_get (rq_headers request) ''Cookie'') SESSION_COOKIE of
                           None \<Rightarrow> retS ()
                         | Some cookie \<Rightarrow> cacheDeleteM (cacheKey (app_id app) SessionCredential cookie))
                    (\<lambda>_. case env_resolveUrl E SIGNOUT_RELEASE_PATH (strip_slashes (issuer_of E)) of
                       None \<Rightarrow> throwS OtherException
                     | Some release \<Rightarrow> retS (SignedOut \<lparr>rd_url = release,
                         rd_query = [(''app'', audienceOf app), (LOGIN_REDIRECT_PARAM, target)]\<rparr>)))))"

end
