(* ===== verification/Authorizer_Sound.thy ===== *)
theory Authorizer_Sound
  imports Authorizer
begin

text \<open>
  What an allow means: the requests \<open>authorize\<close> admits, and what it tells the application about them. The lemmas go
  through the operations in the order of the source; each inverts one successful result.
\<close>

subsection \<open>Computations\<close>

lemma bindS_Inr: "bindS m f s = (Inr y, s') \<longleftrightarrow> (\<exists>x s1. m s = (Inr x, s1) \<and> f x s1 = (Inr y, s'))"
  by (auto simp: bindS_def split: prod.splits sum.splits)

lemma bindS_run: "bindS m f s = (case m s of (Inl e, s1) \<Rightarrow> (Inl e, s1) | (Inr x, s1) \<Rightarrow> f x s1)"
  by (rule bindS_def)

lemma retS_Inr [simp]: "retS x s = (Inr y, s') \<longleftrightarrow> y = x \<and> s' = s"
  by (auto simp: retS_def)

lemma throwS_Inr [simp]: "throwS e s \<noteq> (Inr y, s')"
  by (simp add: throwS_def)

lemma bindS_E:
  assumes "bindS m f s = (Inr y, s')"
  obtains x s1 where "m s = (Inr x, s1)" and "f x s1 = (Inr y, s')"
  using assms unfolding bindS_Inr by blast

lemmas cacheM_defs = cacheGetM_def cacheSetM_def cacheDeleteM_def

text \<open>The verifier accepted this token for this profile, in some state of it.\<close>

definition accepted :: "('w, 'j, 'k) proxy_env \<Rightarrow> string \<Rightarrow> token_audience_profile \<Rightarrow> access_token_claims \<Rightarrow> bool" where
  "accepted E token profile claims \<longleftrightarrow> (\<exists>v v'. verify (venv E) token profile v = (Inr (Ok claims), v'))"

lemma verifyM_Ok: "verifyM E token profile s = (Inr (Ok claims), s') \<Longrightarrow> accepted E token profile claims"
  by (auto simp: verifyM_def accepted_def split: prod.splits sum.splits)

lemma accepted_audience: "accepted E token profile claims \<Longrightarrow> matchesTokenAudience claims profile"
  using verify_sound_aux by (fastforce simp: accepted_def)

subsection \<open>Callers\<close>

abbreviation app_accepted :: "('w, 'j, 'k) proxy_env \<Rightarrow> proxy_app \<Rightarrow> string \<Rightarrow> access_token_claims \<Rightarrow> bool" where
  "app_accepted E app token claims \<equiv> accepted E token (AppProfile (audienceOf app)) claims"

lemma mintKey_ok: "mintKey E app bearer rid s = (Inr (Inr (token, claims)), s') \<Longrightarrow> app_accepted E app token claims"
  unfolding mintKey_def
  by (auto elim!: bindS_E split: mint_reply.splits verify_result.splits simp: cacheM_defs dest!: verifyM_Ok)

lemma exchangeKey_ok:
  "exchangeKey E app bearer rid s = (Inr (Inr (token, claims)), s') \<Longrightarrow>
   app_accepted E app token claims \<and> startsWith bearer API_KEY_PREFIX"
  unfolding exchangeKey_def
  by (auto elim!: bindS_E simp: cacheM_defs split: if_splits option.splits verify_result.splits dest!: verifyM_Ok mintKey_ok)

lemma verifyOAuthBearer_ok:
  "verifyOAuthBearer E app r scopes bearer s = (Inr (Inr (token, claims)), s') \<Longrightarrow>
   accepted E token (ResourceProfile (audienceOf app) (resource r)) claims \<and>
   (\<exists>oa. oauth claims = Some oa \<and> set scopes \<subseteq> set (oa_scopes oa))"
proof -
  assume v: "verifyOAuthBearer E app r scopes bearer s = (Inr (Inr (token, claims)), s')"
  then have acc: "accepted E token (ResourceProfile (audienceOf app) (resource r)) claims"
    and sc: "list_all (\<lambda>sc. sc \<in> set (case oauth claims of None \<Rightarrow> [] | Some oa \<Rightarrow> oa_scopes oa)) scopes"
    by (auto elim!: bindS_E simp: verifyOAuthBearer_def Let_def split: option.splits verify_result.splits if_splits
        dest!: verifyM_Ok)
  from accepted_audience [OF acc] obtain oa where "oauth claims = Some oa"
    by (auto simp: matchesTokenAudience_def split: option.splits)
  with acc sc show ?thesis by (auto simp: list_all_iff)
qed

lemma sessionMiss_not_ok: "SessionOk token claims \<noteq> sessionMiss reason"
  by (cases reason) simp_all

lemma mintSession_ok:
  "mintSession E app cookie rid s = (Inr (SessionOk token claims), s') \<Longrightarrow>
   app_accepted E app token claims \<and> ptype claims = Some Pt_user"
  unfolding mintSession_def
  by (auto elim!: bindS_E simp: cacheM_defs sessionMiss_not_ok split: mint_reply.splits verify_result.splits if_splits
      dest!: verifyM_Ok)

lemma authorizeSession_ok:
  "authorizeSession E app request s = (Inr (SessionOk token claims), s') \<Longrightarrow>
   app_accepted E app token claims \<and> ptype claims = Some Pt_user \<and>
   readCookie (hdr_get (rq_headers request) ''Cookie'') SESSION_COOKIE \<noteq> None"
  unfolding authorizeSession_def
  by (auto elim!: bindS_E simp: cacheM_defs Let_def split: if_splits option.splits verify_result.splits
      dest!: verifyM_Ok mintSession_ok)

text \<open>What the proxy knows of a caller it admits further: which credential it came from.\<close>

definition caller_verified ::
  "('w, 'j, 'k) proxy_env \<Rightarrow> proxy_app \<Rightarrow> oauth_binding \<Rightarrow> token_caller list \<Rightarrow> forwarded_request \<Rightarrow> bool \<Rightarrow> caller_ok \<Rightarrow> bool" where
  "caller_verified E app oa callers request crossOrigin c \<longleftrightarrow>
     (if ca_session c
      then \<not> crossOrigin \<and> Human \<in> set callers \<and> ptype (ca_claims c) = Some Pt_user \<and>
        app_accepted E app (ca_token c) (ca_claims c) \<and>
        readCookie (hdr_get (rq_headers request) ''Cookie'') SESSION_COOKIE \<noteq> None
      else (\<exists>bearer. readBearer (hdr_get (rq_headers request) ''Authorization'') = Some bearer \<and>
        (if startsWith bearer API_KEY_PREFIX then app_accepted E app (ca_token c) (ca_claims c)
         else (\<exists>r scopes granted. oa = Bound r scopes \<and>
           accepted E (ca_token c) (ResourceProfile (audienceOf app) (resource r)) (ca_claims c) \<and>
           oauth (ca_claims c) = Some granted \<and> set scopes \<subseteq> set (oa_scopes granted)))))"

lemma endpointSession_ok:
  "endpointSession E app oa callers request crossOrigin s = (Inr (Inr c), s') \<Longrightarrow>
   caller_verified E app oa callers request crossOrigin c"
  unfolding endpointSession_def caller_verified_def
  by (auto elim!: bindS_E split: if_splits session_attempt.splits dest!: authorizeSession_ok)

lemma keyPath_ok:
  assumes "bindS (case bearer of None \<Rightarrow> retS (Inl invalidKey) | Some b \<Rightarrow> exchangeKey E app b rid)
      (\<lambda>key. case key of
          Inr (token, claims) \<Rightarrow> retS (Inr \<lparr>ca_token = token, ca_claims = claims, ca_session = False\<rparr>)
        | Inl d \<Rightarrow> retS (Inl (Deny (withBearerChallenge d oa)))) s = (Inr (Inr c), s')"
  shows "\<not> ca_session c \<and> (\<exists>b. bearer = Some b \<and> startsWith b API_KEY_PREFIX \<and> app_accepted E app (ca_token c) (ca_claims c))"
proof -
  obtain key s1 where k: "(case bearer of None \<Rightarrow> retS (Inl invalidKey) | Some b \<Rightarrow> exchangeKey E app b rid) s = (Inr key, s1)"
    and r: "(case key of
          Inr (token, claims) \<Rightarrow> retS (Inr \<lparr>ca_token = token, ca_claims = claims, ca_session = False\<rparr>)
        | Inl d \<Rightarrow> retS (Inl (Deny (withBearerChallenge d oa)))) s1 = (Inr (Inr c), s')"
    using assms unfolding bindS_Inr by blast
  obtain token claims where key: "key = Inr (token, claims)"
    and c: "c = \<lparr>ca_token = token, ca_claims = claims, ca_session = False\<rparr>"
    using r by (auto split: sum.splits)
  obtain b where b: "bearer = Some b" using k key by (cases bearer) auto
  have "exchangeKey E app b rid s = (Inr (Inr (token, claims)), s1)" using k key b by simp
  from exchangeKey_ok [OF this] b c show ?thesis by simp
qed

lemma endpointCaller_ok:
  assumes "endpointCaller E app oa callers request crossOrigin s = (Inr (Inr c), s')" and "oa \<noteq> Unregistered"
  shows "caller_verified E app oa callers request crossOrigin c"
proof (cases "hdr_get (rq_headers request) ''Authorization''")
  case None
  with assms show ?thesis by (auto simp: endpointCaller_def dest!: endpointSession_ok)
next
  case (Some authorization)
  show ?thesis
  proof (cases "trim authorization = []")
    case True
    with Some assms show ?thesis by (auto simp: endpointCaller_def dest!: endpointSession_ok)
  next
    case False
    define bearer where "bearer = readBearer (Some authorization)"
    define isOauth where "isOauth = (case bearer of None \<Rightarrow> True | Some b \<Rightarrow> \<not> startsWith b API_KEY_PREFIX)"
    show ?thesis
    proof (cases "\<exists>r scopes. oa = Bound r scopes \<and> isOauth")
      case True
      then obtain r scopes where oa: "oa = Bound r scopes" and io: isOauth by blast
      obtain verified s1 where v: "verifyOAuthBearer E app r scopes bearer s = (Inr verified, s1)"
        and c: "verified = Inr (ca_token c, ca_claims c)" "\<not> ca_session c"
        using assms(1) Some False oa io
        by (auto elim!: bindS_E simp: endpointCaller_def bearer_def isOauth_def Let_def split: sum.splits)
      obtain b where "bearer = Some b" using v c by (cases bearer) (auto simp: verifyOAuthBearer_def Let_def)
      with verifyOAuthBearer_ok [of E app r scopes bearer s "ca_token c" "ca_claims c" s1] v c oa io Some show ?thesis
        by (auto simp: caller_verified_def bearer_def isOauth_def)
    next
      case False2: False
      then have "bindS (case bearer of None \<Rightarrow> retS (Inl invalidKey) | Some b \<Rightarrow> exchangeKey E app b (rq_requestId request))
        (\<lambda>key. case key of
          Inr (token, claims) \<Rightarrow> retS (Inr \<lparr>ca_token = token, ca_claims = claims, ca_session = False\<rparr>)
        | Inl d \<Rightarrow> retS (Inl (Deny (withBearerChallenge d oa)))) s = (Inr (Inr c), s')"
        using assms(1) Some False
        by (cases oa) (auto simp: endpointCaller_def bearer_def isOauth_def Let_def)
      from keyPath_ok [OF this] Some show ?thesis by (auto simp: caller_verified_def bearer_def)
    qed
  qed
qed

lemma endpointSession_not_allow:
  "endpointSession E app oa callers request crossOrigin s = (Inr (Inl d), s') \<Longrightarrow> d \<noteq> Allow a"
  by (auto elim!: bindS_E simp: endpointSession_def split: if_splits session_attempt.splits)

lemma endpointCaller_not_allow:
  "endpointCaller E app oa callers request crossOrigin s = (Inr (Inl d), s') \<Longrightarrow> d \<noteq> Allow a"
  by (auto elim!: bindS_E simp: endpointCaller_def Let_def dest!: endpointSession_not_allow
      split: option.splits if_splits oauth_binding.splits sum.splits)

subsection \<open>Allowed requests\<close>

text \<open>What an allow of a credentialed row rests on.\<close>

definition authenticated_allow ::
  "('w, 'j, 'k) proxy_env \<Rightarrow> proxy_app \<Rightarrow> manifest_row \<Rightarrow> endpoint_requirement \<Rightarrow> forwarded_request \<Rightarrow> allowance \<Rightarrow> bool" where
  "authenticated_allow E app row req request a \<longleftrightarrow>
     (\<exists>c kind. al_token a = Some (ca_token c) \<and> al_subject a = Some (sub (ca_claims c)) \<and>
        caller_verified E app (oauthBindingOf E app row) (row_callers row) request (al_crossOrigin a \<noteq> None) c \<and>
        callerOf (ca_claims c) = Some kind \<and> kind \<in> set (row_callers row) \<and> callerAdmittedAt kind (ep_path row) \<and>
        satisfies req (perms (ca_claims c)) \<and>
        (ca_session c \<and> rq_method request \<noteq> ''GET'' \<longrightarrow> hdr_get (rq_headers request) FETCH_SITE_HEADER = Some ''same-origin'')) \<and>
     admitBody row (rq_headers request) = None \<and> \<not> al_forwardsAuthorization a \<and>
     (row_delegation row = None \<longrightarrow> al_delegation a = None)"

definition anonymous_allow :: "manifest_row \<Rightarrow> forwarded_request \<Rightarrow> allowance \<Rightarrow> bool" where
  "anonymous_allow row request a \<longleftrightarrow>
     al_token a = None \<and> al_subject a = None \<and> al_delegation a = None \<and> admitBody row (rq_headers request) = None \<and>
     al_forwardsAuthorization a = forwardsAuthorization row request"

lemma admitCaller_allow:
  assumes "admitCaller E app row req oa request crossOrigin c s = (Inr (Allow a), s')"
    and "caller_verified E app oa (row_callers row) request (crossOrigin \<noteq> None) c" and "oa = oauthBindingOf E app row"
  shows "authenticated_allow E app row req request a \<and> al_endpoint a = formatEndpointHeader (ep_id row) (row_digest row) \<and>
    al_crossOrigin a = crossOrigin"
proof -
  obtain kind where k: "callerOf (ca_claims c) = Some kind" "kind \<in> set (row_callers row)" "callerAdmittedAt kind (ep_path row)"
    "satisfies req (perms (ca_claims c))"
    "ca_session c \<and> rq_method request \<noteq> ''GET'' \<longrightarrow> hdr_get (rq_headers request) FETCH_SITE_HEADER = Some ''same-origin''"
    "admitBody row (rq_headers request) = None"
    using assms(1) by (auto simp: admitCaller_def split: if_splits option.splits)
  then obtain grant where g: "a = \<lparr>al_token = Some (ca_token c), al_subject = Some (sub (ca_claims c)),
      al_endpoint = formatEndpointHeader (ep_id row) (row_digest row), al_delegation = grant,
      al_crossOrigin = crossOrigin, al_forwardsAuthorization = False\<rparr>" "row_delegation row = None \<longrightarrow> grant = None"
    using assms(1) by (auto elim!: bindS_E simp: admitCaller_def split: sum.splits if_splits)
  show ?thesis
    unfolding authenticated_allow_def using g k assms(2,3) by auto
qed

lemma decideRow_allow:
  assumes "decideRow E app row request crossOrigin s = (Inr (Allow a), s')"
  shows "al_endpoint a = formatEndpointHeader (ep_id row) (row_digest row) \<and> al_crossOrigin a = crossOrigin \<and>
    (case row_requirement row of
       None \<Rightarrow> anonymous_allow row request a \<and> s' = s
     | Some req \<Rightarrow> authenticated_allow E app row req request a)"
proof (cases "row_requirement row")
  case None
  with assms show ?thesis by (auto simp: decideRow_def anonymous_allow_def split: option.splits)
next
  case (Some req)
  then have oa: "oauthBindingOf E app row \<noteq> Unregistered" using assms by (auto simp: decideRow_def Let_def)
  obtain c s1 where c: "endpointCaller E app (oauthBindingOf E app row) (row_callers row) request (crossOrigin \<noteq> None) s = (Inr c, s1)"
    and r: "(case c of Inl d \<Rightarrow> retS d | Inr c \<Rightarrow> admitCaller E app row req (oauthBindingOf E app row) request crossOrigin c) s1
      = (Inr (Allow a), s')"
    using assms Some oa by (auto elim!: bindS_E simp: decideRow_def Let_def)
  show ?thesis
  proof (cases c)
    case (Inl d)
    with r have "d = Allow a" by simp
    moreover have "d \<noteq> Allow a" using c Inl endpointCaller_not_allow by blast
    ultimately show ?thesis by blast
  next
    case (Inr ok)
    have "caller_verified E app (oauthBindingOf E app row) (row_callers row) request (crossOrigin \<noteq> None) ok"
      using c oa unfolding Inr by (rule endpointCaller_ok)
    moreover have "admitCaller E app row req (oauthBindingOf E app row) request crossOrigin ok s1 = (Inr (Allow a), s')"
      using r Inr by simp
    ultimately show ?thesis using admitCaller_allow Some by fastforce
  qed
qed

lemma decidePreflight_not_allow: "decidePreflight table app request \<noteq> Some (Allow a)"
  by (auto simp: decidePreflight_def split: option.splits endpoint_plan.splits if_splits)

lemma decideEndpoint_allow:
  assumes "decideEndpoint E app table request s = (Inr (Allow a), s')"
  shows "\<exists>row ps. planEndpoint table (rq_method request) (rq_rawPath request) = Endpoint row ps \<and>
    al_crossOrigin a = (case hdr_get (rq_headers request) ORIGIN_HEADER of None \<Rightarrow> None | Some origin \<Rightarrow> admittedOrigin app row origin) \<and>
    al_endpoint a = formatEndpointHeader (ep_id row) (row_digest row) \<and>
    (case row_requirement row of
       None \<Rightarrow> anonymous_allow row request a \<and> s' = s
     | Some req \<Rightarrow> authenticated_allow E app row req request a)"
proof -
  have pre: "decidePreflight table app request = None"
    using assms decidePreflight_not_allow [of table app request a] by (auto simp: decideEndpoint_def split: option.splits)
  obtain row ps where p: "planEndpoint table (rq_method request) (rq_rawPath request) = Endpoint row ps"
    using assms pre by (auto simp: decideEndpoint_def split: endpoint_plan.splits)
  define crossOrigin where
    "crossOrigin = (case hdr_get (rq_headers request) ORIGIN_HEADER of None \<Rightarrow> None | Some origin \<Rightarrow> admittedOrigin app row origin)"
  obtain d where "decideRow E app row request crossOrigin s = (Inr d, s')" "d = Allow a"
    using assms pre p by (auto elim!: bindS_E simp: decideEndpoint_def Let_def crossOrigin_def split: decision.splits if_splits)
  with decideRow_allow [of E app row request crossOrigin s a s'] p show ?thesis
    unfolding crossOrigin_def by blast
qed

lemma authorize_Allow: "authorize E resolved request s = (Allow a, s') \<longleftrightarrow>
   decideEndpoint E (ra_app resolved) (ra_table resolved) request s = (Inr (Allow a), s')"
  by (auto simp: authorize_def split: prod.splits sum.splits exn.splits)

text \<open>C1: an allow is never a guess. The request selected a row of the entry's table; the application is told that row's
  id and digest; a row without a requirement lets the request through with no token and no effect on the proxy; and a
  row with one only with a token that verified for this entry, from a key, a session or a resource token, whose caller
  kind the row admits, whose permissions satisfy the requirement, whose body type the row admits and, for a session
  request that is not a GET, that came from the application's own origin. A session never answers another origin.\<close>

theorem authorize_allow_sound:
  assumes "authorize E resolved request s = (Allow a, s')"
  shows "\<exists>row ps. planEndpoint (ra_table resolved) (rq_method request) (rq_rawPath request) = Endpoint row ps \<and>
    al_endpoint a = formatEndpointHeader (ep_id row) (row_digest row) \<and>
    (case row_requirement row of
       None \<Rightarrow> anonymous_allow row request a \<and> s' = s
     | Some req \<Rightarrow> authenticated_allow E (ra_app resolved) row req request a)"
  using decideEndpoint_allow assms by (fastforce simp: authorize_Allow)

subsection \<open>A request that is allowed\<close>

definition sample_penv :: "(number, unit, unit) proxy_env" where
  "sample_penv =
     \<lparr>venv = sample_env,
      iam_mintToken = (\<lambda>app cookie rid w. (Some (Minted ''good'' 900), w)),
      iam_mintFromKey = (\<lambda>app key rid w. (Some (Minted ''good'' 900), w)),
      iam_exchangeAuthCode = (\<lambda>app code verifier rid w. (Some (Exchanged ''sess'' ''https://notes.example/'' 900), w)),
      delegations = None, env_random = (\<lambda>n w. (replicate n (CHR ''x''), w)), env_sha256 = (\<lambda>s. s),
      env_resolveUrl = (\<lambda>path origin. Some \<lparr>protocol = ''https:'', hostname = ''iam'', port = [], pathname = path, search = []\<rparr>),
      env_urlText = (\<lambda>u. url_origin u @ pathname u @ search u), env_searchParam = (\<lambda>u name. None)\<rparr>"

definition sample_request :: forwarded_request where
  "sample_request =
     \<lparr>rq_method = ''GET'',
      rq_url = \<lparr>protocol = ''https:'', hostname = ''notes.example'', port = [], pathname = ''/api/notes'', search = []\<rparr>,
      rq_rawPath = ''/api/notes'', rq_headers = [(''authorization'', ''Bearer px_k'')], rq_requestId = ''r1''\<rparr>"

definition sample_resolved :: resolved_app where
  "sample_resolved = \<lparr>ra_app = sample_app,
     ra_table = \<lparr>c_endpoints = map compile_row (app_endpoints sample_app), c_reservedPrefixes = app_reservedPrefixes sample_app\<rparr>\<rparr>"

definition sample_state :: "opt_cache \<Rightarrow> (number, unit) proxy_state" where
  "sample_state c = \<lparr>vs = createJwksCache 0, tcache = c, iam_calls = []\<rparr>"

lemma sample_plan: "planEndpoint (ra_table sample_resolved) ''GET'' ''/api/notes'' = Endpoint sample_row []"
  by code_simp

lemma sample_verifyM:
  "\<exists>s'. verifyM sample_penv ''good'' (AppProfile ''notes@prod'') s = (Inr (Ok sample_claims), s') \<and> tcache s' = tcache s"
  using sample_verify_any [of "vs s"] by (auto simp: verifyM_def sample_penv_def split: prod.splits sum.splits)

lemma sample_audience: "audienceOf sample_app = ''notes@prod''" "ra_app sample_resolved = sample_app"
  by (simp_all add: audienceOf_def sample_app_def sample_resolved_def)

lemma sample_key:
  assumes "opt_get c (cacheKey ''notes@prod'' KeyCredential ''px_k'') = None"
  shows "\<exists>s'. exchangeKey sample_penv sample_app ''px_k'' ''r1'' (sample_state c) = (Inr (Inr (''good'', sample_claims)), s') \<and>
    tcache s' = opt_set (cacheKey ''notes@prod'' KeyCredential ''px_k'') \<lparr>ct_token = ''good'', ct_expiresAt = 900\<rparr> c"
proof -
  define s1 where "s1 = (sample_state c)\<lparr>iam_calls := [MintFromKeyCall ''notes@prod'' ''px_k'' ''r1'']\<rparr>"
  have "callIam (MintFromKeyCall ''notes@prod'' ''px_k'' ''r1'') (iam_mintFromKey sample_penv ''notes@prod'' ''px_k'' ''r1'') (sample_state c)
      = (Inr (Minted ''good'' 900), s1)"
    by (simp add: callIam_def sample_penv_def sample_state_def s1_def createJwksCache_def)
  moreover obtain s2 where "verifyM sample_penv ''good'' (AppProfile ''notes@prod'') s1 = (Inr (Ok sample_claims), s2)"
    and "tcache s2 = c"
    using sample_verifyM [of s1] by (auto simp: s1_def sample_state_def)
  moreover have i: "app_id sample_app = ''notes@prod''" by (simp add: sample_app_def)
  ultimately have "\<exists>s'. mintKey sample_penv sample_app ''px_k'' ''r1'' (sample_state c) = (Inr (Inr (''good'', sample_claims)), s') \<and>
      tcache s' = opt_set (cacheKey ''notes@prod'' KeyCredential ''px_k'') \<lparr>ct_token = ''good'', ct_expiresAt = 900\<rparr> c"
    by (simp add: mintKey_def bindS_def sample_audience cacheSetM_def retS_def)
  moreover have "startsWith ''px_k'' API_KEY_PREFIX" by code_simp
  moreover have "tcache (sample_state c) = c" by (simp add: sample_state_def)
  ultimately show ?thesis using assms i by (simp add: exchangeKey_def bindS_def cacheGetM_def)
qed

lemma sample_allowed_like:
  assumes "opt_get c (cacheKey ''notes@prod'' KeyCredential ''px_k'') = None"
    and h: "hdr_get (rq_headers rq) ''Authorization'' = Some ''Bearer px_k''" "hdr_get (rq_headers rq) ORIGIN_HEADER = None"
    and r: "rq_method rq = ''GET''" "rq_rawPath rq = ''/api/notes''" "rq_requestId rq = ''r1''"
  shows "\<exists>a s'. authorize sample_penv sample_resolved rq (sample_state c) = (Allow a, s') \<and> al_token a = Some ''good'' \<and>
    tcache s' = opt_set (cacheKey ''notes@prod'' KeyCredential ''px_k'') \<lparr>ct_token = ''good'', ct_expiresAt = 900\<rparr> c"
proof -
  have b: "readBearer (Some ''Bearer px_k'') = Some ''px_k''" "trim ''Bearer px_k'' \<noteq> []" by code_simp+
  obtain s1 where k: "exchangeKey sample_penv sample_app ''px_k'' ''r1'' (sample_state c) = (Inr (Inr (''good'', sample_claims)), s1)"
    and t: "tcache s1 = opt_set (cacheKey ''notes@prod'' KeyCredential ''px_k'') \<lparr>ct_token = ''good'', ct_expiresAt = 900\<rparr> c"
    using sample_key [OF assms(1)] by blast
  have c: "callerOf sample_claims = Some Human" "callerAdmittedAt Human (ep_path sample_row)" "Human \<in> set (row_callers sample_row)"
    "satisfies (ActionReq ''note.read'' AppForm) (perms sample_claims)" "admitBody sample_row (rq_headers rq) = None"
    "oauthBindingOf sample_penv sample_app sample_row = NoOAuth"
    "row_delegation sample_row = None" "row_requirement sample_row = Some (ActionReq ''note.read'' AppForm)"
    by (simp_all add: sample_claims_def callerOf_def callerAdmittedAt_def sample_row_def holdsAction_app permits_iff scope_ok_def
        admitBody_def oauthBindingOf_def) code_simp
  have "endpointCaller sample_penv sample_app NoOAuth (row_callers sample_row) rq False (sample_state c) =
      (Inr (Inr \<lparr>ca_token = ''good'', ca_claims = sample_claims, ca_session = False\<rparr>), s1)"
    using b k r by (simp add: endpointCaller_def h bindS_def retS_def Let_def)
  then have "\<exists>a. decideRow sample_penv sample_app sample_row rq None (sample_state c) = (Inr (Allow a), s1) \<and> al_token a = Some ''good''"
    using c by (simp add: decideRow_def Let_def bindS_def admitCaller_def retS_def)
  moreover have "decidePreflight (ra_table sample_resolved) sample_app rq = None" by (simp add: decidePreflight_def h)
  ultimately show ?thesis
    using sample_plan t r by (auto simp: authorize_def decideEndpoint_def sample_audience h bindS_def retS_def Let_def)
qed

lemma sample_allowed:
  assumes "opt_get c (cacheKey ''notes@prod'' KeyCredential ''px_k'') = None"
  shows "\<exists>a s'. authorize sample_penv sample_resolved sample_request (sample_state c) = (Allow a, s') \<and> al_token a = Some ''good'' \<and>
    tcache s' = opt_set (cacheKey ''notes@prod'' KeyCredential ''px_k'') \<lparr>ct_token = ''good'', ct_expiresAt = 900\<rparr> c"
proof -
  have "hdr_get (rq_headers sample_request) ''Authorization'' = Some ''Bearer px_k''"
    "hdr_get (rq_headers sample_request) ORIGIN_HEADER = None" by code_simp+
  from sample_allowed_like [OF assms this] show ?thesis by (simp add: sample_request_def)
qed

theorem authorize_allow_sound_witness:
  "\<exists>a s'. authorize sample_penv sample_resolved sample_request (sample_state None) = (Allow a, s') \<and>
     authenticated_allow sample_penv sample_app sample_row (ActionReq ''note.read'' AppForm) sample_request a"
proof -
  obtain a s' where a: "authorize sample_penv sample_resolved sample_request (sample_state None) = (Allow a, s')"
    using sample_allowed [of None] by (auto simp: opt_get_def)
  have "rq_method sample_request = ''GET''" "rq_rawPath sample_request = ''/api/notes''"
    "row_requirement sample_row = Some (ActionReq ''note.read'' AppForm)"
    by (simp_all add: sample_request_def sample_row_def)
  with authorize_allow_sound [OF a] sample_plan a show ?thesis by (auto simp: sample_audience)
qed

end
