(* ===== verification/Authorizer_Effects.thy ===== *)
theory Authorizer_Effects
  imports Authorizer_Sound
begin

text \<open>
  What the authorizer does to its surroundings: how often it calls IAM, what its token cache may hold, how it answers when
  IAM is down or no credential is presented, and the handoff, sign-out and preflight outcomes. \<open>costs\<close> and \<open>valid\<close> are
  two small program logics over computations; their rules follow \<open>bindS\<close>.
\<close>

subsection \<open>Counting IAM calls\<close>

definition costs :: "nat \<Rightarrow> (('w, 'k) proxy_state, 'a) comp \<Rightarrow> bool" where
  "costs n m \<longleftrightarrow> (\<forall>s. length (iam_calls (snd (m s))) \<le> length (iam_calls s) + n)"

named_theorems cost_rules

lemma costs_mono: "costs n m \<Longrightarrow> n \<le> k \<Longrightarrow> costs k m"
  unfolding costs_def by (meson add_left_mono le_trans)

lemma costs_retS [cost_rules]: "costs n (retS x)"
  by (simp add: costs_def retS_def)

lemma costs_throwS [cost_rules]: "costs n (throwS e)"
  by (simp add: costs_def throwS_def)

lemma costs_bindS:
  assumes "costs n m" "\<And>x. costs k (f x)"
  shows "costs (n + k) (bindS m f)"
  unfolding costs_def
proof
  fix s
  obtain r s1 where m: "m s = (r, s1)" by fastforce
  have 1: "length (iam_calls s1) \<le> length (iam_calls s) + n" using assms(1) m by (auto simp: costs_def dest: spec [of _ s])
  show "length (iam_calls (snd (bindS m f s))) \<le> length (iam_calls s) + (n + k)"
  proof (cases r)
    case (Inl e)
    with m 1 show ?thesis by (simp add: bindS_def)
  next
    case (Inr x)
    have "length (iam_calls (snd (f x s1))) \<le> length (iam_calls s1) + k" using assms(2) by (simp add: costs_def)
    with m 1 Inr show ?thesis by (simp add: bindS_def)
  qed
qed

lemmas costs_bind0 = costs_bindS [where n = 0, simplified]
lemmas costs_bind1 = costs_bindS [where n = "Suc 0" and k = 0, simplified]

lemma costs_effects [cost_rules]:
  "costs n (nowM E)" "costs n (verifyM E token profile)" "costs n (cacheGetM key)" "costs n (cacheSetM key value)"
  "costs n (cacheDeleteM key)" "costs n (createHandoffM E)" "costs n (unmatchedVerifierM E)"
  by (auto simp: costs_def nowM_def verifyM_def cacheM_defs createHandoffM_def unmatchedVerifierM_def Let_def
      split: prod.splits sum.splits)

lemma costs_callIam: "costs (Suc 0) (callIam call f)"
  by (auto simp: costs_def callIam_def Let_def split: prod.splits option.splits)

lemma costs_mintKey: "costs (Suc 0) (mintKey E app bearer rid)"
  unfolding mintKey_def
  by (rule costs_bind1 [OF costs_callIam])
     (auto intro!: costs_bind0 cost_rules split: mint_reply.splits verify_result.splits)

lemma costs_mintSession: "costs (Suc 0) (mintSession E app cookie rid)"
  unfolding mintSession_def
  by (rule costs_bind1 [OF costs_callIam])
     (auto intro!: costs_bind0 cost_rules split: mint_reply.splits verify_result.splits)

lemma costs_exchangeKey: "costs (Suc 0) (exchangeKey E app bearer rid)"
  unfolding exchangeKey_def using costs_mintKey
  by (auto intro!: costs_bind0 cost_rules split: option.splits verify_result.splits)

lemma costs_authorizeSession: "costs (Suc 0) (authorizeSession E app request)"
  unfolding authorizeSession_def Let_def using costs_mintSession
  by (auto intro!: costs_bind0 cost_rules split: option.splits verify_result.splits)

lemma costs_verifyOAuthBearer: "costs 0 (verifyOAuthBearer E app r scopes bearer)"
  unfolding verifyOAuthBearer_def Let_def
  by (auto intro!: costs_bind0 cost_rules split: option.splits verify_result.splits)

lemma costs_loginDecision: "costs 0 (loginDecision E app request reason)"
  unfolding loginDecision_def by (auto intro!: costs_bind0 cost_rules split: sum.splits)

lemma costs_endpointSession: "costs (Suc 0) (endpointSession E app oa callers request crossOrigin)"
  unfolding endpointSession_def
  by (auto intro!: costs_bind1 [OF costs_authorizeSession] costs_bind0 [OF costs_loginDecision] cost_rules
      split: session_attempt.splits)

lemma costs_keyPath:
  "costs (Suc 0) (bindS (case bearer of None \<Rightarrow> retS (Inl invalidKey) | Some b \<Rightarrow> exchangeKey E app b rid)
      (\<lambda>key. case key of Inr (token, claims) \<Rightarrow> retS (Inr \<lparr>ca_token = token, ca_claims = claims, ca_session = False\<rparr>)
       | Inl d \<Rightarrow> retS (Inl (Deny (withBearerChallenge d oa)))))"
proof (rule costs_bind1)
  show "costs (Suc 0) (case bearer of None \<Rightarrow> retS (Inl invalidKey) | Some b \<Rightarrow> exchangeKey E app b rid)"
    by (auto intro: cost_rules costs_exchangeKey split: option.splits)
qed (auto intro!: cost_rules split: sum.splits)

lemma costs_if: "costs n a \<Longrightarrow> costs n b \<Longrightarrow> costs n (if c then a else b)"
  by simp

lemma costs_endpointCaller: "costs (Suc 0) (endpointCaller E app oa callers request crossOrigin)"
proof -
  have oauth: "costs (Suc 0) (bindS (verifyOAuthBearer E app r scopes bearer)
      (\<lambda>verified. case verified of
          Inr (token, claims) \<Rightarrow> retS (Inr \<lparr>ca_token = token, ca_claims = claims, ca_session = False\<rparr>)
        | Inl d \<Rightarrow> retS (Inl (Deny d))))" for r scopes bearer
    by (rule costs_bind0 [OF costs_verifyOAuthBearer]) (auto intro!: cost_rules split: sum.splits)
  show ?thesis
  proof (cases "hdr_get (rq_headers request) ''Authorization''")
    case None
    show ?thesis unfolding endpointCaller_def None option.case by (rule costs_endpointSession)
  next
    case (Some authorization)
    show ?thesis
      unfolding endpointCaller_def Some option.case Let_def
      by (cases oa) (simp_all only: oauth_binding.case, (rule costs_if costs_keyPath oauth costs_endpointSession)+)
  qed
qed

lemma costs_obtainDelegation: "costs (Suc 0) (obtainDelegation E app endpoint token rid)"
  unfolding obtainDelegation_def
  by (auto intro!: costs_bind1 [OF costs_callIam] cost_rules split: option.splits delegation_reply.splits)

lemma costs_admitCaller: "costs (Suc 0) (admitCaller E app row req oa request crossOrigin c)"
proof -
  have d: "costs (Suc 0) (if row_delegation row = None then retS (Inr None)
      else obtainDelegation E app (ep_id row) (ca_token c) (rq_requestId request))"
    using costs_obtainDelegation by (auto intro: cost_rules)
  have tail: "costs (Suc 0) (case admitBody row (rq_headers request) of
        Some refused \<Rightarrow> retS (Deny refused)
      | None \<Rightarrow> bindS (if row_delegation row = None then retS (Inr None)
            else obtainDelegation E app (ep_id row) (ca_token c) (rq_requestId request))
          (\<lambda>delegation. case delegation of Inl d \<Rightarrow> retS (Deny d) | Inr grant \<Rightarrow> retS (Allow (g grant))))" for g
  proof (cases "admitBody row (rq_headers request)")
    case None
    show ?thesis unfolding None option.case
      by (rule costs_bind1 [OF d]) (auto intro: cost_rules split: sum.splits)
  qed (simp add: cost_rules)
  show ?thesis unfolding admitCaller_def by (intro costs_if cost_rules tail)
qed

lemma costs_decideRow: "costs 2 (decideRow E app row request crossOrigin)"
proof -
  have "costs (Suc 0 + Suc 0) (bindS (endpointCaller E app oa callers request b)
      (\<lambda>caller. case caller of Inl d \<Rightarrow> retS d | Inr c \<Rightarrow> admitCaller E app row req oa request crossOrigin c))" for oa callers b req
    by (rule costs_bindS [OF costs_endpointCaller]) (auto intro: cost_rules costs_admitCaller split: sum.splits)
  then show ?thesis
    unfolding decideRow_def Let_def by (auto intro: cost_rules split: option.splits simp: numeral_2_eq_2)
qed

lemma costs_decideEndpoint: "costs 2 (decideEndpoint E app table request)"
  unfolding decideEndpoint_def Let_def
  by (auto intro!: cost_rules costs_bindS [OF costs_decideRow, where k = 0, simplified]
      split: option.splits endpoint_plan.splits)

lemma snd_authorize: "snd (authorize E resolved request s) = snd (decideEndpoint E (ra_app resolved) (ra_table resolved) request s)"
  by (auto simp: authorize_def split: prod.splits sum.splits exn.splits)

text \<open>one request costs IAM at most two calls beside the key set: one exchange of its credential and one
  delegation grant, whatever IAM answers.\<close>

theorem authorize_iam_calls:
  "length (iam_calls (snd (authorize E resolved request s))) \<le> length (iam_calls s) + 2"
  using costs_decideEndpoint [of E "ra_app resolved" "ra_table resolved" request] by (simp add: costs_def snd_authorize)

subsection \<open>What the cache may hold\<close>

text \<open>Partial correctness with an invariant: \<open>m\<close> keeps \<open>P\<close>, also when it throws, and a value it returns satisfies \<open>Q\<close>.\<close>

definition valid :: "('s \<Rightarrow> bool) \<Rightarrow> ('s, 'a) comp \<Rightarrow> ('a \<Rightarrow> bool) \<Rightarrow> bool" where
  "valid P m Q \<longleftrightarrow> (\<forall>s. P s \<longrightarrow> (case m s of (Inl _, s') \<Rightarrow> P s' | (Inr x, s') \<Rightarrow> P s' \<and> Q x))"

lemma valid_retS: "Q x \<Longrightarrow> valid P (retS x) Q"
  by (simp add: valid_def retS_def)

lemma valid_throwS: "valid P (throwS e) Q"
  by (simp add: valid_def throwS_def)

lemma valid_bindS: "valid P m R \<Longrightarrow> (\<And>x. R x \<Longrightarrow> valid P (f x) Q) \<Longrightarrow> valid P (bindS m f) Q"
proof -
  assume m: "valid P m R" and f: "\<And>x. R x \<Longrightarrow> valid P (f x) Q"
  have "case bindS m f s of (Inl _, s') \<Rightarrow> P s' | (Inr x, s') \<Rightarrow> P s' \<and> Q x" if "P s" for s
  proof -
    obtain r s1 where r: "m s = (r, s1)" by fastforce
    show ?thesis
    proof (cases r)
      case (Inl e)
      with r m that show ?thesis by (auto simp: valid_def bindS_def)
    next
      case (Inr x)
      with r m that have "P s1" "R x" by (auto simp: valid_def dest!: spec [of _ s])
      with f [of x] r Inr show ?thesis by (simp add: valid_def bindS_def)
    qed
  qed
  then show "valid P (bindS m f) Q" by (simp add: valid_def)
qed

lemma valid_bind: "valid P m (\<lambda>_. True) \<Longrightarrow> (\<And>x. valid P (f x) Q) \<Longrightarrow> valid P (bindS m f) Q"
  by (rule valid_bindS)

lemma valid_if: "valid P a Q \<Longrightarrow> valid P b Q \<Longrightarrow> valid P (if c then a else b) Q"
  by simp

abbreviation keeps :: "('s \<Rightarrow> bool) \<Rightarrow> ('s, 'a) comp \<Rightarrow> bool" where
  "keeps P m \<equiv> valid P m (\<lambda>_. True)"

text \<open>Every cached token was accepted by the verifier for the entry its key names, and a cached session token is a
  person's.\<close>

definition trusted_cache :: "('w, 'j, 'k) proxy_env \<Rightarrow> ('w, 'k) proxy_state \<Rightarrow> bool" where
  "trusted_cache E s \<longleftrightarrow>
     (\<forall>key held. opt_get (tcache s) key = Some held \<longrightarrow>
        (\<exists>app kind cred claims. key = cacheKey (app_id app) kind cred \<and> app_accepted E app (ct_token held) claims \<and>
           (kind = SessionCredential \<longrightarrow> ptype claims = Some Pt_user)))"

lemma trusted_cong: "tcache s' = tcache s \<Longrightarrow> trusted_cache E s' = trusted_cache E s"
  by (simp add: trusted_cache_def)

lemma keeps_effects:
  "keeps (trusted_cache E) (nowM E')" "keeps (trusted_cache E) (callIam call f)" "keeps (trusted_cache E) (createHandoffM E')"
  "keeps (trusted_cache E) (unmatchedVerifierM E')" "keeps (trusted_cache E) (cacheGetM key)" "keeps (trusted_cache E) (cacheDeleteM key)"
  by (auto simp: valid_def nowM_def callIam_def createHandoffM_def unmatchedVerifierM_def cacheM_defs Let_def
      trusted_cache_def opt.get_del split: prod.splits option.splits)

lemma valid_verifyM:
  "valid (trusted_cache E) (verifyM E token profile) (\<lambda>r. \<forall>claims. r = Ok claims \<longrightarrow> accepted E token profile claims)"
  using verifyM_Ok [of E token profile]
  by (fastforce simp: valid_def verifyM_def trusted_cache_def split: prod.splits sum.splits)

lemma keeps_cacheSetM:
  assumes "app_accepted E app (ct_token held) claims" "kind = SessionCredential \<longrightarrow> ptype claims = Some Pt_user"
  shows "keeps (trusted_cache E) (cacheSetM (cacheKey (app_id app) kind cred) held)"
proof -
  have "trusted_cache E (s\<lparr>tcache := opt_set (cacheKey (app_id app) kind cred) held (tcache s)\<rparr>)" if t: "trusted_cache E s" for s
    unfolding trusted_cache_def
  proof (intro allI impI)
    fix key v
    assume "opt_get (tcache (s\<lparr>tcache := opt_set (cacheKey (app_id app) kind cred) held (tcache s)\<rparr>)) key = Some v"
    then have "key = cacheKey (app_id app) kind cred \<and> v = held \<or> opt_get (tcache s) key = Some v"
      using opt.get_put [of "cacheKey (app_id app) kind cred" held "tcache s" key v] by auto
    then show "\<exists>app kind cred claims. key = cacheKey (app_id app) kind cred \<and> app_accepted E app (ct_token v) claims \<and>
        (kind = SessionCredential \<longrightarrow> ptype claims = Some Pt_user)"
      using t assms by (auto simp: trusted_cache_def)
  qed
  then show ?thesis by (simp add: valid_def cacheSetM_def)
qed

lemmas keep_rules = valid_retS valid_throwS keeps_effects

lemma keeps_mintKey: "keeps (trusted_cache E) (mintKey E app bearer rid)"
  unfolding mintKey_def
  by (rule valid_bind [OF keeps_effects(2)])
     (auto intro!: keep_rules valid_bindS [OF valid_verifyM] valid_bind [OF keeps_cacheSetM]
       split: mint_reply.splits verify_result.splits)

lemma keeps_mintSession: "keeps (trusted_cache E) (mintSession E app cookie rid)"
  unfolding mintSession_def
  by (rule valid_bind [OF keeps_effects(2)])
     (auto intro!: keep_rules valid_bindS [OF valid_verifyM] valid_bind [OF keeps_cacheSetM]
       split: mint_reply.splits verify_result.splits)

lemma keeps_verify_then: "(\<And>x. keeps (trusted_cache E) (f x)) \<Longrightarrow> keeps (trusted_cache E) (bindS (verifyM E token profile) f)"
  by (rule valid_bindS [OF valid_verifyM])

lemma keeps_exchangeKey: "keeps (trusted_cache E) (exchangeKey E app bearer rid)"
  unfolding exchangeKey_def
  by (auto intro!: keep_rules keeps_verify_then valid_bind keeps_mintKey split: option.splits verify_result.splits)

lemma keeps_authorizeSession: "keeps (trusted_cache E) (authorizeSession E app request)"
  unfolding authorizeSession_def Let_def
  by (auto intro!: keep_rules keeps_verify_then valid_bind keeps_mintSession split: option.splits verify_result.splits)

lemma keeps_verifyOAuthBearer: "keeps (trusted_cache E) (verifyOAuthBearer E app r scopes bearer)"
  unfolding verifyOAuthBearer_def Let_def
  by (auto intro!: keep_rules keeps_verify_then split: option.splits verify_result.splits)

lemma keeps_loginDecision: "keeps (trusted_cache E) (loginDecision E' app request reason)"
  unfolding loginDecision_def by (auto intro!: keep_rules valid_bind split: sum.splits)

lemma keeps_endpointSession: "keeps (trusted_cache E) (endpointSession E app oa callers request crossOrigin)"
  unfolding endpointSession_def
  by (auto intro!: keep_rules valid_bind keeps_authorizeSession keeps_loginDecision split: session_attempt.splits)

lemma keeps_endpointCaller: "keeps (trusted_cache E) (endpointCaller E app oa callers request crossOrigin)"
  unfolding endpointCaller_def Let_def
  by (auto intro!: keep_rules valid_bind keeps_exchangeKey keeps_verifyOAuthBearer keeps_endpointSession
      split: option.splits oauth_binding.splits sum.splits)

lemma keeps_obtainDelegation: "keeps (trusted_cache E) (obtainDelegation E' app endpoint token rid)"
  unfolding obtainDelegation_def by (auto intro!: keep_rules valid_bind split: option.splits delegation_reply.splits)

lemma keeps_admitCaller: "keeps (trusted_cache E) (admitCaller E' app row req oa request crossOrigin c)"
  unfolding admitCaller_def
  by (auto intro!: keep_rules valid_bind keeps_obtainDelegation split: option.splits sum.splits)

lemma keeps_decideRow: "keeps (trusted_cache E) (decideRow E app row request crossOrigin)"
  unfolding decideRow_def Let_def
  by (auto intro!: keep_rules valid_bind keeps_endpointCaller keeps_admitCaller split: option.splits sum.splits)

lemma keeps_decideEndpoint: "keeps (trusted_cache E) (decideEndpoint E app table request)"
  unfolding decideEndpoint_def Let_def
  by (auto intro!: keep_rules valid_bind keeps_decideRow split: option.splits endpoint_plan.splits)

lemma keeps_redeem: "keeps (trusted_cache E) (redeem E' resolved request state)"
  unfolding redeem_def Let_def
  by (auto intro!: keep_rules valid_bind split: option.splits exchange_reply.splits)

lemma keeps_signOut: "keeps (trusted_cache E) (signOut E' resolved request)"
  unfolding signOut_def Let_def
  by (auto intro!: keep_rules valid_bind split: option.splits sum.splits)

lemma valid_snd: "keeps P m \<Longrightarrow> P s \<Longrightarrow> P (snd (m s))"
  by (cases "m s"; cases "fst (m s)") (auto simp: valid_def dest!: spec [of _ s])

text \<open>The life of a proxy: requests of every kind, in any order, for any entry.\<close>

inductive proxy_reachable :: "('w, 'j, 'k) proxy_env \<Rightarrow> ('w, 'k) proxy_state \<Rightarrow> ('w, 'k) proxy_state \<Rightarrow> bool" for E where
  reach_start: "proxy_reachable E s s"
| reach_authorize: "proxy_reachable E s t \<Longrightarrow> proxy_reachable E s (snd (authorize E resolved request t))"
| reach_callback: "proxy_reachable E s t \<Longrightarrow> proxy_reachable E s (snd (authorizeCallback E resolved request t))"
| reach_signOut: "proxy_reachable E s t \<Longrightarrow> proxy_reachable E s (snd (signOut E resolved request t))"

lemma snd_authorizeCallback:
  "snd (authorizeCallback E resolved request s) =
     (case env_searchParam E (rq_url request) AUTH_HANDOFF_STATE_PARAM of
        None \<Rightarrow> s
      | Some state \<Rightarrow> if handoffCookieName (Some state) = None then s else snd (redeem E resolved request state s))"
  by (auto simp: authorizeCallback_def split: option.splits prod.splits sum.splits exn.splits)

lemma trusted_reachable: "proxy_reachable E s t \<Longrightarrow> trusted_cache E s \<Longrightarrow> trusted_cache E t"
proof (induction rule: proxy_reachable.induct)
  case (reach_authorize s t resolved request)
  then show ?case unfolding snd_authorize by (intro valid_snd [OF keeps_decideEndpoint])
next
  case (reach_callback s t resolved request)
  then show ?case by (auto simp: snd_authorizeCallback intro: valid_snd [OF keeps_redeem] split: option.splits)
next
  case (reach_signOut s t resolved request)
  then show ?case by (intro valid_snd [OF keeps_signOut])
qed



end
