(* ===== verification/Authorizer_Outcomes.thy ===== *)
theory Authorizer_Outcomes
  imports Authorizer_Effects
begin

text \<open>
  The outcomes that are not an allow: the answer while IAM is down, the login bounce, the handoff, the sign-out and the
  preflight.
\<close>

subsection \<open>IAM is down\<close>

lemma callIam_down: "fst (f (world (vs s))) = None \<Longrightarrow> fst (callIam call f s) = Inl IamUnavailableError"
  by (auto simp: callIam_def Let_def split: prod.splits)

lemma bindS_throws: "fst (m s) = Inl e \<Longrightarrow> fst (bindS m f s) = Inl e"
  by (auto simp: bindS_def split: prod.splits)

lemma authorize_throws: "fst (decideEndpoint E (ra_app resolved) (ra_table resolved) request s) = Inl IamUnavailableError \<Longrightarrow>
   fst (authorize E resolved request s) = Deny (deny 503 Iam_unavailable)"
  by (auto simp: authorize_def split: prod.splits)

lemma decideEndpoint_throws:
  assumes "decidePreflight table app request = None"
    and "planEndpoint table (rq_method request) (rq_rawPath request) = Endpoint row ps" and "row_requirement row = Some req"
    and "oauthBindingOf E app row \<noteq> Unregistered"
    and "\<And>x. fst (endpointCaller E app (oauthBindingOf E app row) (row_callers row) request x s) = Inl e"
  shows "fst (decideEndpoint E app table request s) = Inl e"
proof -
  have "fst (decideRow E app row request x s) = Inl e" for x
    using assms(3-5) by (simp add: decideRow_def Let_def bindS_throws)
  then show ?thesis using assms(1,2) by (simp add: decideEndpoint_def Let_def bindS_throws)
qed

lemma exchangeKey_down:
  assumes "\<And>a k r w. fst (iam_mintFromKey E a k r w) = None" and "tcache s = None" and "startsWith bearer API_KEY_PREFIX"
  shows "fst (exchangeKey E app bearer rid s) = Inl IamUnavailableError"
proof -
  have "fst (mintKey E app bearer rid s) = Inl IamUnavailableError"
    unfolding mintKey_def using assms(1) by (intro bindS_throws callIam_down) simp
  then show ?thesis
    using assms(2,3) by (simp add: exchangeKey_def bindS_def cacheGetM_def opt_get_def)
qed

lemma authorizeSession_down:
  assumes "\<And>a k r w. fst (iam_mintToken E a k r w) = None" and "tcache s = None"
    and "readCookie (hdr_get (rq_headers request) ''Cookie'') SESSION_COOKIE = Some cookie"
  shows "fst (authorizeSession E app request s) = Inl IamUnavailableError"
proof -
  have m: "fst (mintSession E app cookie (rq_requestId request) s1) = Inl IamUnavailableError" for s1
    unfolding mintSession_def using assms(1) by (intro bindS_throws callIam_down) simp
  obtain now s1 where n: "nowM E s = (Inr now, s1)" "tcache s1 = None"
    using assms(2) by (cases "env_now (venv E) (world (vs s))") (simp add: nowM_def)
  have "authorizeSession E app request s = mintSession E app cookie (rq_requestId request) s1"
    using n assms(3) by (simp add: authorizeSession_def bindS_def cacheGetM_def opt_get_def)
  with m show ?thesis by simp
qed

lemma unreachable_iam_denies:
  assumes down: "\<And>a k r w. fst (iam_mintFromKey E a k r w) = None" "\<And>a k r w. fst (iam_mintToken E a k r w) = None"
    and cold: "tcache s = None" and pre: "decidePreflight (ra_table resolved) (ra_app resolved) request = None"
    and plan: "planEndpoint (ra_table resolved) (rq_method request) (rq_rawPath request) = Endpoint row ps"
    and row: "row_requirement row = Some req" "row_oauth row = None"
    and credential: "hdr_get (rq_headers request) ''Authorization'' = Some (''Bearer '' @ key) \<and> key \<noteq> [] \<and>
        list_all (\<lambda>c. \<not> js_space c \<and> \<not> line_terminator c) key \<and> startsWith key API_KEY_PREFIX \<or>
      hdr_get (rq_headers request) ''Authorization'' = None \<and> Human \<in> set (row_callers row) \<and> row_crossOrigin row = None \<and>
        readCookie (hdr_get (rq_headers request) ''Cookie'') SESSION_COOKIE \<noteq> None"
  shows "fst (authorize E resolved request s) = Deny (deny 503 Iam_unavailable)"
proof (rule authorize_throws)
  have no: "oauthBindingOf E (ra_app resolved) row = NoOAuth" using row(2) by (simp add: oauthBindingOf_def)
  from credential show "fst (decideEndpoint E (ra_app resolved) (ra_table resolved) request s) = Inl IamUnavailableError"
  proof (elim disjE conjE)
    assume h: "hdr_get (rq_headers request) ''Authorization'' = Some (''Bearer '' @ key)" and k: "key \<noteq> []"
      "list_all (\<lambda>c. \<not> js_space c \<and> \<not> line_terminator c) key" "startsWith key API_KEY_PREFIX"
    have b: "readBearer (Some (''Bearer '' @ key)) = Some key" using k by (intro readBearer_token)
    then have t: "trim (''Bearer '' @ key) \<noteq> []" by (auto simp: readBearer_def scheme_value_def)
    have "fst (endpointCaller E (ra_app resolved) NoOAuth (row_callers row) request x s) = Inl IamUnavailableError" for x
      unfolding endpointCaller_def h option.case Let_def b oauth_binding.case
      using t exchangeKey_down [OF down(1) cold k(3)] by (simp add: bindS_throws)
    then show ?thesis by (intro decideEndpoint_throws [OF pre plan row(1)]) (simp_all add: no)
  next
    assume h: "hdr_get (rq_headers request) ''Authorization'' = None" "Human \<in> set (row_callers row)"
      "row_crossOrigin row = None" "readCookie (hdr_get (rq_headers request) ''Cookie'') SESSION_COOKIE \<noteq> None"
    then obtain cookie where c: "readCookie (hdr_get (rq_headers request) ''Cookie'') SESSION_COOKIE = Some cookie" by blast
    have e: "fst (endpointCaller E (ra_app resolved) NoOAuth (row_callers row) request False s) = Inl IamUnavailableError"
      unfolding endpointCaller_def h(1) option.case endpointSession_def
      using h(2) authorizeSession_down [OF down(2) cold c] by (simp add: bindS_throws)
    have "decideEndpoint E (ra_app resolved) (ra_table resolved) request s =
        bindS (decideRow E (ra_app resolved) row request None) retS s"
      unfolding decideEndpoint_def Let_def using pre plan h(3)
      by (simp add: admittedOrigin_def bindS_def retS_def split: option.splits prod.splits sum.splits decision.splits)
    moreover have "fst (decideRow E (ra_app resolved) row request None s) = Inl IamUnavailableError"
      unfolding decideRow_def row(1) option.case Let_def no using e by (simp add: bindS_throws)
    ultimately show ?thesis by (simp add: bindS_throws)
  qed
qed

subsection \<open>No credential\<close>

lemma loginDecision_local:
  "fetches (vs (snd (loginDecision E app request reason s))) = fetches (vs s) \<and>
   tcache (snd (loginDecision E app request reason s)) = tcache s \<and>
   iam_calls (snd (loginDecision E app request reason s)) = iam_calls s"
  by (auto simp: loginDecision_def bindS_def createHandoffM_def throwS_def retS_def Let_def split: prod.splits sum.splits)

text \<open>The part of the state a purely local decision leaves alone.\<close>

definition same_effects :: "('w, 'k) proxy_state \<Rightarrow> ('w, 'k) proxy_state \<Rightarrow> bool" where
  "same_effects s s' \<longleftrightarrow> iam_calls s' = iam_calls s \<and> tcache s' = tcache s \<and> fetches (vs s') = fetches (vs s)"

lemma same_effects_refl [simp]: "same_effects s s"
  by (simp add: same_effects_def)

lemma authorizeSession_no_cookie:
  assumes "readCookie (hdr_get (rq_headers request) ''Cookie'') SESSION_COOKIE = None"
  shows "\<exists>s1. authorizeSession E app request s = (Inr (Miss NoSession), s1) \<and> same_effects s s1"
proof -
  obtain now w where "env_now (venv E) (world (vs s)) = (now, w)" by fastforce
  with assms show ?thesis by (simp add: authorizeSession_def bindS_def nowM_def retS_def same_effects_def)
qed

lemma endpointSession_local:
  assumes "readCookie (hdr_get (rq_headers request) ''Cookie'') SESSION_COOKIE = None"
  shows "same_effects s (snd (endpointSession E app oa callers request x s)) \<and>
    (\<forall>c. fst (endpointSession E app oa callers request x s) \<noteq> Inr (Inr c))"
proof -
  obtain s1 where s1: "authorizeSession E app request s = (Inr (Miss NoSession), s1)" "same_effects s s1"
    using authorizeSession_no_cookie [OF assms] by blast
  show ?thesis
    using s1(2) loginDecision_local [of E app request NoSession s1]
    unfolding endpointSession_def bindS_def
    by (auto simp: s1(1) retS_def same_effects_def split: prod.splits sum.splits)
qed

lemma endpointCaller_local:
  assumes "case hdr_get (rq_headers request) ''Authorization'' of None \<Rightarrow> True | Some a \<Rightarrow> trim a = []"
    and "readCookie (hdr_get (rq_headers request) ''Cookie'') SESSION_COOKIE = None"
  shows "same_effects s (snd (endpointCaller E app oa callers request x s)) \<and>
    (\<forall>c. fst (endpointCaller E app oa callers request x s) \<noteq> Inr (Inr c))"
proof -
  have "endpointCaller E app oa callers request x = endpointSession E app oa callers request x"
    using assms(1) by (auto simp: endpointCaller_def split: option.splits)
  then show ?thesis using endpointSession_local [OF assms(2)] by simp
qed

lemma decideRow_local:
  assumes "case hdr_get (rq_headers request) ''Authorization'' of None \<Rightarrow> True | Some a \<Rightarrow> trim a = []"
    and "readCookie (hdr_get (rq_headers request) ''Cookie'') SESSION_COOKIE = None"
  shows "same_effects s (snd (decideRow E app row request x s))"
proof (cases "row_requirement row")
  case None
  then show ?thesis by (auto simp: decideRow_def retS_def split: option.splits)
next
  case (Some req)
  let ?c = "endpointCaller E app (oauthBindingOf E app row) (row_callers row) request (x \<noteq> None) s"
  obtain r s1 where c: "?c = (r, s1)" by fastforce
  have l: "same_effects s s1" "\<forall>c. r \<noteq> Inr (Inr c)"
    using endpointCaller_local [OF assms, of s E app "oauthBindingOf E app row" "row_callers row" "x \<noteq> None"] c by auto
  show ?thesis
    using Some c l by (auto simp: decideRow_def Let_def bindS_def retS_def split: sum.splits)
qed

text \<open>a request without an \<open>Authorization\<close> value and without a session cookie is decided without IAM: no call, no
  key-set fetch, nothing cached; and it is allowed only on an anonymous row, with no token.\<close>

theorem no_credential_no_iam_call:
  assumes "case hdr_get (rq_headers request) ''Authorization'' of None \<Rightarrow> True | Some a \<Rightarrow> trim a = []"
    and "readCookie (hdr_get (rq_headers request) ''Cookie'') SESSION_COOKIE = None"
    and "authorize E resolved request s = (d, s')"
  shows "iam_calls s' = iam_calls s \<and> fetches (vs s') = fetches (vs s) \<and> tcache s' = tcache s \<and>
    (\<forall>a. d = Allow a \<longrightarrow> al_token a = None)"
proof -
  let ?app = "ra_app resolved" and ?table = "ra_table resolved"
  have row: "same_effects s (snd (decideRow E ?app row request x s))" for row x
    using decideRow_local [OF assms(1,2)] .
  have "same_effects s (snd (bindS (decideRow E ?app row request x) (\<lambda>d. retS (g d)) s))" for row x and g :: "decision \<Rightarrow> decision"
    using row [of row x] by (auto simp: bindS_def retS_def split: prod.splits sum.splits)
  then have "same_effects s (snd (decideEndpoint E ?app ?table request s))"
    by (auto simp: decideEndpoint_def Let_def retS_def split: option.splits endpoint_plan.splits)
  then have eff: "same_effects s s'" using assms(3) snd_authorize [of E resolved request s] by simp
  have "al_token a = None" if a: "d = Allow a" for a
  proof -
    obtain row where r: "case row_requirement row of
        None \<Rightarrow> anonymous_allow row request a \<and> s' = s
      | Some req \<Rightarrow> authenticated_allow E ?app row req request a"
      using decideEndpoint_allow [of E ?app ?table request s a s'] assms(3) a by (auto simp: authorize_Allow)
    have "\<not> authenticated_allow E ?app row req request a" for req
      using assms(1,2) by (auto simp: authenticated_allow_def caller_verified_def readBearer_def scheme_value_def
          split: option.splits if_splits)
    with r show ?thesis by (auto simp: anonymous_allow_def split: option.splits)
  qed
  with eff show ?thesis by (simp add: same_effects_def)
qed

theorem no_credential_no_iam_call_witness:
  "iam_calls (snd (authorize sample_penv sample_resolved (sample_request\<lparr>rq_headers := []\<rparr>) (sample_state None))) = []"
proof -
  obtain d s' where a: "authorize sample_penv sample_resolved (sample_request\<lparr>rq_headers := []\<rparr>) (sample_state None) = (d, s')" by fastforce
  have "hdr_get (rq_headers (sample_request\<lparr>rq_headers := []\<rparr>)) n = None" for n by (simp add: hdr_get_def)
  with no_credential_no_iam_call [OF _ _ a] a show ?thesis by (simp add: readCookie_def sample_state_def)
qed

subsection \<open>The login bounce\<close>

lemma endpointSession_login:
  assumes "endpointSession E app oa callers request x s = (Inr (Inl (Login b)), s')"
  shows "\<exists>reason s1. loginDecision E app request reason s1 = (Inr b, s') \<and> Human \<in> set callers \<and> \<not> x"
  using assms unfolding endpointSession_def
  by (auto elim!: bindS_E split: if_splits session_attempt.splits) metis

lemma endpointCaller_login:
  assumes "endpointCaller E app oa callers request x s = (Inr (Inl (Login b)), s')"
  shows "\<exists>reason s1. loginDecision E app request reason s1 = (Inr b, s') \<and> Human \<in> set callers \<and> \<not> x \<and>
    (case hdr_get (rq_headers request) ''Authorization'' of None \<Rightarrow> True | Some a \<Rightarrow> trim a = [])"
proof (cases "case hdr_get (rq_headers request) ''Authorization'' of None \<Rightarrow> True | Some a \<Rightarrow> trim a = []")
  case True
  then have "endpointCaller E app oa callers request x = endpointSession E app oa callers request x"
    by (auto simp: endpointCaller_def split: option.splits)
  with assms True endpointSession_login show ?thesis by fastforce
next
  case False
  with assms have False
    by (auto elim!: bindS_E simp: endpointCaller_def Let_def split: option.splits if_splits oauth_binding.splits sum.splits)
  then show ?thesis ..
qed

lemma loginDecision_value:
  assumes "loginDecision E app request reason s = (Inr b, s')"
  shows "lb_status b = (if isDocumentNavigation (rq_headers request) then 302 else 401) \<and>
    rd_query (lb_location b) = [(''app'', audienceOf app),
      (LOGIN_REDIRECT_PARAM, env_urlText E (set_protocol (rq_url request) (scheme app))),
      (AUTH_HANDOFF_STATE_PARAM, ha_state (lb_handoff b)), (AUTH_HANDOFF_CHALLENGE_PARAM, ha_challenge (lb_handoff b))] \<and>
    env_resolveUrl E ''/auth/login'' (strip_slashes (issuer_of E)) = Some (rd_url (lb_location b)) \<and>
    (\<exists>w. lb_handoff b = fst (createHandoffAttempt (env_random E) (env_sha256 E) w))"
proof -
  obtain h s1 where h: "createHandoffM E s = (Inr h, s1)"
    and r: "(case loginUrl E app (rq_url request) h of Inl e \<Rightarrow> throwS e
       | Inr location \<Rightarrow> retS \<lparr>lb_status = (if isDocumentNavigation (rq_headers request) then 302 else 401),
            lb_location = location, lb_reason = failureReason reason, lb_handoff = h\<rparr>) s1 = (Inr b, s')"
    using assms unfolding loginDecision_def by (auto elim!: bindS_E)
  have "h = fst (createHandoffAttempt (env_random E) (env_sha256 E) (world (vs s)))"
    using h by (auto simp: createHandoffM_def Let_def split: prod.splits)
  with r show ?thesis
    by (auto simp: loginUrl_def Let_def split: sum.splits option.splits)
qed

lemma decideEndpoint_login:
  assumes "decideEndpoint E app table request s = (Inr (Login b), s')"
  shows "\<exists>row ps reason s1. planEndpoint table (rq_method request) (rq_rawPath request) = Endpoint row ps \<and>
    loginDecision E app request reason s1 = (Inr b, s') \<and> Human \<in> set (row_callers row) \<and>
    (case hdr_get (rq_headers request) ORIGIN_HEADER of None \<Rightarrow> None | Some origin \<Rightarrow> admittedOrigin app row origin) = None \<and>
    (case hdr_get (rq_headers request) ''Authorization'' of None \<Rightarrow> True | Some a \<Rightarrow> trim a = [])"
proof -
  have pre: "decidePreflight table app request = None"
    using assms by (auto simp: decideEndpoint_def decidePreflight_def split: option.splits endpoint_plan.splits if_splits)
  obtain row ps where p: "planEndpoint table (rq_method request) (rq_rawPath request) = Endpoint row ps"
    using assms pre by (auto simp: decideEndpoint_def split: endpoint_plan.splits)
  define x where "x = (case hdr_get (rq_headers request) ORIGIN_HEADER of None \<Rightarrow> None | Some origin \<Rightarrow> admittedOrigin app row origin)"
  have d: "decideRow E app row request x s = (Inr (Login b), s')"
    using assms pre p by (auto elim!: bindS_E simp: decideEndpoint_def Let_def x_def split: decision.splits if_splits)
  obtain req where req: "row_requirement row = Some req" using d by (auto simp: decideRow_def split: option.splits)
  obtain c s1 where c: "endpointCaller E app (oauthBindingOf E app row) (row_callers row) request (x \<noteq> None) s = (Inr c, s1)"
    and r: "(case c of Inl d \<Rightarrow> retS d | Inr c \<Rightarrow> admitCaller E app row req (oauthBindingOf E app row) request x c) s1 = (Inr (Login b), s')"
    using d req by (auto elim!: bindS_E simp: decideRow_def Let_def split: if_splits)
  have "c = Inl (Login b) \<and> s1 = s'"
  proof (cases c)
    case (Inr ok)
    with r have False by (auto elim!: bindS_E simp: admitCaller_def split: if_splits option.splits sum.splits)
    then show ?thesis ..
  qed (use r in simp)
  with c have e: "endpointCaller E app (oauthBindingOf E app row) (row_callers row) request (x \<noteq> None) s = (Inr (Inl (Login b)), s')" by simp
  from endpointCaller_login [OF e] p show ?thesis unfolding x_def by metis
qed

text \<open>a person is sent to sign in only for a row people may call, from no other origin and without any \<open>Authorization\<close>
  value; the bounce goes to IAM's login for this entry's audience and comes back to the very URL that was requested, under
  the manifest's scheme, with a fresh handoff whose challenge is that of its verifier; a document navigation is redirected
  and everything else is told in a 401.\<close>

theorem login_returns_to_request:
  assumes "authorize E resolved request s = (Login b, s')"
  shows "lb_status b = (if isDocumentNavigation (rq_headers request) then 302 else 401) \<and>
    rd_query (lb_location b) = [(''app'', audienceOf (ra_app resolved)),
      (LOGIN_REDIRECT_PARAM, env_urlText E (set_protocol (rq_url request) (scheme (ra_app resolved)))),
      (AUTH_HANDOFF_STATE_PARAM, ha_state (lb_handoff b)),
      (AUTH_HANDOFF_CHALLENGE_PARAM, handoffChallenge (env_sha256 E) (ha_verifier (lb_handoff b)))] \<and>
    (case hdr_get (rq_headers request) ''Authorization'' of None \<Rightarrow> True | Some a \<Rightarrow> trim a = []) \<and>
    (\<exists>row ps. planEndpoint (ra_table resolved) (rq_method request) (rq_rawPath request) = Endpoint row ps \<and>
       Human \<in> set (row_callers row) \<and>
       (case hdr_get (rq_headers request) ORIGIN_HEADER of
          None \<Rightarrow> True | Some origin \<Rightarrow> admittedOrigin (ra_app resolved) row origin = None))"
proof -
  have "decideEndpoint E (ra_app resolved) (ra_table resolved) request s = (Inr (Login b), s')"
    using assms by (auto simp: authorize_def split: prod.splits sum.splits exn.splits)
  from decideEndpoint_login [OF this] obtain row ps reason s1 where r:
    "planEndpoint (ra_table resolved) (rq_method request) (rq_rawPath request) = Endpoint row ps"
    "loginDecision E (ra_app resolved) request reason s1 = (Inr b, s')" "Human \<in> set (row_callers row)"
    "(case hdr_get (rq_headers request) ORIGIN_HEADER of None \<Rightarrow> None | Some origin \<Rightarrow> admittedOrigin (ra_app resolved) row origin) = None"
    "case hdr_get (rq_headers request) ''Authorization'' of None \<Rightarrow> True | Some a \<Rightarrow> trim a = []" by blast
  have "ha_challenge (fst (createHandoffAttempt rnd sha w)) = handoffChallenge sha (ha_verifier (fst (createHandoffAttempt rnd sha w)))"
    for rnd sha and w :: 'a
    by (simp add: createHandoffAttempt_def Let_def split: prod.splits)
  with loginDecision_value [OF r(2)] r show ?thesis by (auto split: option.splits)
qed

lemma sample_login:
  "\<exists>b s'. authorize sample_penv sample_resolved (sample_request\<lparr>rq_headers := []\<rparr>) (sample_state None) = (Login b, s')"
proof -
  let ?r = "sample_request\<lparr>rq_headers := []\<rparr>"
  have h: "hdr_get (rq_headers ?r) n = None" "hdr_get [] n = None" for n by (simp_all add: hdr_get_def)
  have r: "row_requirement sample_row = Some (ActionReq ''note.read'' AppForm)" "Human \<in> set (row_callers sample_row)"
    "oauthBindingOf sample_penv sample_app sample_row = NoOAuth"
    by (simp_all add: sample_row_def oauthBindingOf_def)
  obtain s1 where s1: "authorizeSession sample_penv sample_app ?r (sample_state None) = (Inr (Miss NoSession), s1)"
    using authorizeSession_no_cookie [of ?r] h by (fastforce simp: readCookie_def)
  have "\<exists>b s'. loginDecision sample_penv sample_app ?r NoSession s1 = (Inr b, s')"
    by (auto simp: loginDecision_def bindS_def createHandoffM_def loginUrl_def sample_penv_def retS_def Let_def split: prod.splits)
  then have "\<exists>b s'. endpointCaller sample_penv sample_app NoOAuth (row_callers sample_row) ?r False (sample_state None) = (Inr (Inl (Login b)), s')"
    using s1 r(2) h by (auto simp: endpointCaller_def endpointSession_def bindS_def retS_def)
  then have "\<exists>b s'. decideRow sample_penv sample_app sample_row ?r None (sample_state None) = (Inr (Login b), s')"
    using r by (auto simp: decideRow_def Let_def bindS_def retS_def)
  moreover have "decidePreflight (ra_table sample_resolved) sample_app ?r = None" by (simp add: decidePreflight_def h)
  moreover have "planEndpoint (ra_table sample_resolved) (rq_method ?r) (rq_rawPath ?r) = Endpoint sample_row []"
    using sample_plan by (simp add: sample_request_def)
  ultimately show ?thesis
    by (auto simp: authorize_def decideEndpoint_def sample_audience h bindS_def retS_def Let_def)
qed

theorem login_returns_to_request_witness:
  "\<exists>b s'. authorize sample_penv sample_resolved (sample_request\<lparr>rq_headers := []\<rparr>) (sample_state None) = (Login b, s') \<and>
     lb_status b = 302 \<and> map_of (rd_query (lb_location b)) ''redirect'' = Some ''https://notes.example/api/notes''"
proof -
  obtain b s' where l: "authorize sample_penv sample_resolved (sample_request\<lparr>rq_headers := []\<rparr>) (sample_state None) = (Login b, s')"
    using sample_login by blast
  have "isDocumentNavigation []" by (simp add: isDocumentNavigation_def hdr_get_def)
  moreover have "env_urlText sample_penv (set_protocol (rq_url sample_request) (scheme sample_app)) = ''https://notes.example/api/notes''"
    by code_simp
  ultimately show ?thesis
    using login_returns_to_request [OF l] l by (auto simp: sample_audience LOGIN_REDIRECT_PARAM_def)
qed

subsection \<open>The handoff\<close>

text \<open>C33: a session is handed to a browser only when it presents, in the cookie its state names, the verifier of the
  sign-in it started, IAM exchanged this code for that verifier, and the return is on the very host of the callback and
  one of the entry's hosts. A callback without that cookie spends the code and gives nothing.\<close>

theorem handoff_needs_verifier:
  assumes "authorizeCallback E resolved request s = (d, s')"
  shows "(\<forall>r. d = Handoff r \<longrightarrow>
      (\<exists>code verifier target w. env_searchParam E (rq_url request) AUTH_HANDOFF_STATE_PARAM = Some (re_handoffState r) \<and>
         env_searchParam E (rq_url request) AUTH_CODE_PARAM = Some code \<and>
         readCookie (hdr_get (rq_headers request) ''Cookie'') (HANDOFF_COOKIE_PREFIX @ re_handoffState r) = Some verifier \<and>
         fst (iam_exchangeAuthCode E (audienceOf (ra_app resolved)) code verifier (rq_requestId request) w) =
           Some (Exchanged (re_session r) (re_location r) (re_expiresAt r)) \<and>
         parseUrl_of E (re_location r) = Some target \<and> hostname target = hostname (rq_url request) \<and>
         hostname target \<in> set (hosts (ra_app resolved)))) \<and>
    (\<forall>state code. env_searchParam E (rq_url request) AUTH_HANDOFF_STATE_PARAM = Some state \<and> HANDOFF_VALUE_PATTERN state \<and>
       env_searchParam E (rq_url request) AUTH_CODE_PARAM = Some code \<and> code \<noteq> [] \<and>
       readCookie (hdr_get (rq_headers request) ''Cookie'') (HANDOFF_COOKIE_PREFIX @ state) = None \<longrightarrow>
       (\<exists>v dd. d = Deny dd \<and> d_clearHandoffState dd = Some state \<and>
          iam_calls s' = ExchangeAuthCodeCall (audienceOf (ra_app resolved)) code v (rq_requestId request) # iam_calls s))"
  (is "?handoff \<and> ?spent")
proof
  show ?handoff
  proof (intro allI impI)
    fix r assume d: "d = Handoff r"
    obtain state where st: "env_searchParam E (rq_url request) AUTH_HANDOFF_STATE_PARAM = Some state"
      "handoffCookieName (Some state) = Some (HANDOFF_COOKIE_PREFIX @ state)"
      "redeem E resolved request state s = (Inr (Handoff r), s')"
      using assms d by (auto simp: authorizeCallback_def clearing_def handoffCookieName_def
          split: option.splits if_splits prod.splits sum.splits exn.splits)
    obtain code verifier where c: "env_searchParam E (rq_url request) AUTH_CODE_PARAM = Some code"
      "readCookie (hdr_get (rq_headers request) ''Cookie'') (HANDOFF_COOKIE_PREFIX @ state) = Some verifier"
      using st by (auto elim!: bindS_E simp: redeem_def Let_def clearing_def split: option.splits if_splits)
    obtain result s1 where x: "callIam (ExchangeAuthCodeCall (audienceOf (ra_app resolved)) code verifier (rq_requestId request))
        (iam_exchangeAuthCode E (audienceOf (ra_app resolved)) code verifier (rq_requestId request)) s = (Inr result, s1)"
      "result = Exchanged (re_session r) (re_location r) (re_expiresAt r)" "re_handoffState r = state"
      "returnsToHost E (ra_app resolved) (rq_url request) (re_location r)"
      using st c by (auto elim!: bindS_E simp: redeem_def Let_def clearing_def split: option.splits if_splits exchange_reply.splits)
    have "fst (iam_exchangeAuthCode E (audienceOf (ra_app resolved)) code verifier (rq_requestId request) (world (vs s))) = Some result"
      using x(1) by (auto simp: callIam_def Let_def split: prod.splits option.splits)
    with st c x show "\<exists>code verifier target w. env_searchParam E (rq_url request) AUTH_HANDOFF_STATE_PARAM = Some (re_handoffState r) \<and>
         env_searchParam E (rq_url request) AUTH_CODE_PARAM = Some code \<and>
         readCookie (hdr_get (rq_headers request) ''Cookie'') (HANDOFF_COOKIE_PREFIX @ re_handoffState r) = Some verifier \<and>
         fst (iam_exchangeAuthCode E (audienceOf (ra_app resolved)) code verifier (rq_requestId request) w) =
           Some (Exchanged (re_session r) (re_location r) (re_expiresAt r)) \<and>
         parseUrl_of E (re_location r) = Some target \<and> hostname target = hostname (rq_url request) \<and>
         hostname target \<in> set (hosts (ra_app resolved))"
      by (auto simp: returnsToHost_def split: option.splits)
  qed
  show ?spent
  proof (intro allI impI, elim conjE)
    fix state code
    assume st: "env_searchParam E (rq_url request) AUTH_HANDOFF_STATE_PARAM = Some state" "HANDOFF_VALUE_PATTERN state"
      "env_searchParam E (rq_url request) AUTH_CODE_PARAM = Some code" "code \<noteq> []"
      "readCookie (hdr_get (rq_headers request) ''Cookie'') (HANDOFF_COOKIE_PREFIX @ state) = None"
    obtain v w where v: "unmatchedVerifier (env_random E) (world (vs s)) = (v, w)" by fastforce
    show "\<exists>v dd. d = Deny dd \<and> d_clearHandoffState dd = Some state \<and>
          iam_calls s' = ExchangeAuthCodeCall (audienceOf (ra_app resolved)) code v (rq_requestId request) # iam_calls s"
      using assms st v
      by (auto simp: authorizeCallback_def redeem_def Let_def handoffCookieName_def bindS_def unmatchedVerifierM_def callIam_def
          retS_def clearing_def split: prod.splits option.splits sum.splits exn.splits)
  qed
qed

definition handoff_penv :: "(number, unit, unit) proxy_env" where
  "handoff_penv = sample_penv\<lparr>
     venv := sample_env\<lparr>env_parseUrl := \<lambda>t. Some \<lparr>protocol = ''https:'', hostname = ''notes.example'', port = [], pathname = ''/'', search = []\<rparr>\<rparr>,
     env_searchParam := \<lambda>u n. if n = ''state'' then Some ''xxxxxxxxxxxxxxxx'' else Some ''c''\<rparr>"

definition handoff_request :: forwarded_request where
  "handoff_request = sample_request\<lparr>rq_headers := [(''cookie'', ''a=b; __Host-px_handoff_xxxxxxxxxxxxxxxx=v'')]\<rparr>"

lemma handoff_redeemed:
  "\<exists>s'. authorizeCallback handoff_penv sample_resolved handoff_request (sample_state None) =
     (Handoff \<lparr>re_location = ''https://notes.example/'', re_session = ''sess'', re_expiresAt = 900, re_handoffState = ''xxxxxxxxxxxxxxxx''\<rparr>, s')"
proof -
  have n: "handoffCookieName (Some ''xxxxxxxxxxxxxxxx'') = Some ''__Host-px_handoff_xxxxxxxxxxxxxxxx''"
    "readCookie (hdr_get (rq_headers handoff_request) ''Cookie'') ''__Host-px_handoff_xxxxxxxxxxxxxxxx'' = Some ''v''" by code_simp+
  have u: "returnsToHost handoff_penv sample_app (rq_url handoff_request) ''https://notes.example/''"
    by (simp add: returnsToHost_def handoff_penv_def handoff_request_def sample_request_def sample_app_def)
  have p: "env_searchParam handoff_penv x AUTH_HANDOFF_STATE_PARAM = Some ''xxxxxxxxxxxxxxxx''"
    "env_searchParam handoff_penv x AUTH_CODE_PARAM = Some ''c''" for x
    by (simp_all add: handoff_penv_def AUTH_HANDOFF_STATE_PARAM_def AUTH_CODE_PARAM_def)
  have x: "iam_exchangeAuthCode handoff_penv a b c d w = (Some (Exchanged ''sess'' ''https://notes.example/'' 900), w)" for a b c d w
    by (simp add: handoff_penv_def sample_penv_def)
  show ?thesis
    unfolding authorizeCallback_def redeem_def p n option.case Let_def
    using u n by (simp add: bindS_def callIam_def x retS_def sample_audience)
qed

theorem handoff_needs_verifier_witness:
  "\<exists>s'. authorizeCallback handoff_penv sample_resolved handoff_request (sample_state None) =
     (Handoff \<lparr>re_location = ''https://notes.example/'', re_session = ''sess'', re_expiresAt = 900, re_handoffState = ''xxxxxxxxxxxxxxxx''\<rparr>, s') \<and>
   readCookie (hdr_get (rq_headers handoff_request) ''Cookie'') (HANDOFF_COOKIE_PREFIX @ ''xxxxxxxxxxxxxxxx'') \<noteq> None"
proof -
  obtain s' where h: "authorizeCallback handoff_penv sample_resolved handoff_request (sample_state None) =
     (Handoff \<lparr>re_location = ''https://notes.example/'', re_session = ''sess'', re_expiresAt = 900, re_handoffState = ''xxxxxxxxxxxxxxxx''\<rparr>, s')"
    using handoff_redeemed by blast
  from handoff_needs_verifier [OF h] h show ?thesis by fastforce
qed

subsection \<open>The sign-out\<close>

text \<open>a sign-out is carried out only for a GET from the application's own origin, drops the cached token of the
  browser's session, calls nobody, and sends the browser to IAM's release with a return that is a path on the entry's own
  origin.\<close>

theorem signOut_sound:
  assumes "signOut E resolved request s = (Inr (SignedOut rd), s')"
  shows "rq_method request = ''GET'' \<and> hdr_get (rq_headers request) FETCH_SITE_HEADER = Some ''same-origin'' \<and>
    (\<forall>cookie. readCookie (hdr_get (rq_headers request) ''Cookie'') SESSION_COOKIE = Some cookie \<longrightarrow>
       opt_get (tcache s') (cacheKey (app_id (ra_app resolved)) SessionCredential cookie) = None) \<and>
    iam_calls s' = iam_calls s \<and> vs s' = vs s \<and>
    (\<exists>own path target.
       parseUrl_of E (scheme_text (scheme (ra_app resolved)) @ ''://'' @ url_host (rq_url request)) = Some own \<and>
       env_searchParam E (rq_url request) LOGIN_REDIRECT_PARAM = Some path \<and> startsWith path ''/'' \<and> \<not> startsWith path ''//'' \<and>
       env_resolveUrl E path (url_origin own) = Some target \<and> url_origin target = url_origin own \<and>
       rd_query rd = [(''app'', audienceOf (ra_app resolved)), (LOGIN_REDIRECT_PARAM, env_urlText E target)])"
proof -
  have g: "rq_method request = ''GET''" "hdr_get (rq_headers request) FETCH_SITE_HEADER = Some ''same-origin''"
    using assms by (auto simp: signOut_def split: if_splits)
  obtain own ret where o: "parseUrl_of E (scheme_text (scheme (ra_app resolved)) @ ''://'' @ url_host (rq_url request)) = Some own"
    "sameOriginTarget E (url_origin own) (env_searchParam E (rq_url request) LOGIN_REDIRECT_PARAM) = Inr (Some ret)"
    using assms g by (auto simp: signOut_def Let_def split: option.splits sum.splits)
  obtain path target where p: "env_searchParam E (rq_url request) LOGIN_REDIRECT_PARAM = Some path" "startsWith path ''/''"
    "\<not> startsWith path ''//''" "env_resolveUrl E path (url_origin own) = Some target" "url_origin target = url_origin own"
    "ret = env_urlText E target"
    using o(2) by (auto simp: sameOriginTarget_def split: option.splits if_splits)
  let ?cookie = "readCookie (hdr_get (rq_headers request) ''Cookie'') SESSION_COOKIE"
  let ?key = "\<lambda>cookie. cacheKey (app_id (ra_app resolved)) SessionCredential cookie"
  have s': "s' = (case ?cookie of None \<Rightarrow> s | Some c \<Rightarrow> s\<lparr>tcache := opt_delete (?key c) (tcache s)\<rparr>)"
    and rd: "rd_query rd = [(''app'', audienceOf (ra_app resolved)), (LOGIN_REDIRECT_PARAM, ret)]"
    using assms g o by (auto elim!: bindS_E simp: signOut_def Let_def cacheM_defs retS_def split: option.splits)
  have "opt_get (tcache s') (?key cookie) = None" if "?cookie = Some cookie" for cookie
    using that s' by (simp add: opt.get_after_del)
  moreover have "iam_calls s' = iam_calls s" "vs s' = vs s" using s' by (auto split: option.splits)
  ultimately show ?thesis using g o(1) p rd by blast
qed

subsection \<open>The preflight\<close>

lemma endpointSession_not_preflight:
  "endpointSession E app oa callers request x s = (Inr (Inl d), s') \<Longrightarrow> d \<noteq> Preflight o' m"
  by (auto elim!: bindS_E simp: endpointSession_def split: if_splits session_attempt.splits)

lemma endpointCaller_not_preflight:
  "endpointCaller E app oa callers request x s \<noteq> (Inr (Inl (Preflight o' m)), s')"
  by (auto elim!: bindS_E simp: endpointCaller_def Let_def dest!: endpointSession_not_preflight
      split: option.splits if_splits oauth_binding.splits sum.splits)

text \<open>a preflight is admitted only for an application, from the row the requested method selects, for an origin that row
  admits; it reads no credential and changes nothing, and it admits \<open>*\<close> or the request's own origin, never another.\<close>

theorem preflight_sound:
  assumes "authorize E resolved request s = (Preflight allowOrigin m, s')"
  shows "s' = s \<and> isApplicationEntry (ra_app resolved) \<and> rq_method request = ''OPTIONS'' \<and>
    (\<exists>origin requested row ps. hdr_get (rq_headers request) ORIGIN_HEADER = Some origin \<and>
       hdr_get (rq_headers request) PREFLIGHT_METHOD_HEADER = Some requested \<and>
       planEndpoint (ra_table resolved) requested (rq_rawPath request) = Endpoint row ps \<and> m = ep_method row \<and>
       admittedOrigin (ra_app resolved) row origin = Some allowOrigin \<and> (allowOrigin = ''*'' \<or> allowOrigin = origin))"
proof -
  let ?pre = "decidePreflight (ra_table resolved) (ra_app resolved) request"
  have not_row: "decideRow E (ra_app resolved) row request x t \<noteq> (Inr (Preflight allowOrigin m), t')" for row x t t'
    by (auto elim!: bindS_E simp: endpointCaller_not_preflight decideRow_def admitCaller_def Let_def split: option.splits if_splits sum.splits)
  have pre: "?pre = Some (Preflight allowOrigin m) \<and> s' = s"
  proof (cases ?pre)
    case None
    with assms not_row have False
      by (auto elim!: bindS_E simp: authorize_def decideEndpoint_def Let_def
          split: prod.splits sum.splits exn.splits endpoint_plan.splits decision.splits if_splits)
    then show ?thesis ..
  next
    case (Some d)
    with assms show ?thesis by (auto simp: authorize_def decideEndpoint_def retS_def)
  qed
  then show ?thesis
    by (auto simp: decidePreflight_def admittedOrigin_def split: option.splits if_splits endpoint_plan.splits
        cross_origin_form.splits entry_form.splits)
qed

subsection \<open>Concrete outcomes\<close>

definition signout_penv :: "(number, unit, unit) proxy_env" where
  "signout_penv = handoff_penv\<lparr>env_searchParam := \<lambda>u n. Some ''/home'',
     env_resolveUrl := \<lambda>p base. Some \<lparr>protocol = ''https:'', hostname = ''notes.example'', port = [], pathname = p, search = []\<rparr>\<rparr>"

definition signout_request :: forwarded_request where
  "signout_request = sample_request\<lparr>rq_headers := [(''sec-fetch-site'', ''same-origin'')]\<rparr>"

lemma signout_done: "\<exists>rd s'. signOut signout_penv sample_resolved signout_request (sample_state None) = (Inr (SignedOut rd), s')"
proof -
  have h: "hdr_get (rq_headers signout_request) FETCH_SITE_HEADER = Some ''same-origin''" "rq_method signout_request = ''GET''"
    "hdr_get (rq_headers signout_request) ''Cookie'' = None" by code_simp+
  have e: "parseUrl_of signout_penv x = Some \<lparr>protocol = ''https:'', hostname = ''notes.example'', port = [], pathname = ''/'', search = []\<rparr>"
    "env_searchParam signout_penv u n = Some ''/home''"
    "env_resolveUrl signout_penv p base = Some \<lparr>protocol = ''https:'', hostname = ''notes.example'', port = [], pathname = p, search = []\<rparr>"
    for x u n p base by (simp_all add: signout_penv_def handoff_penv_def)
  have o: "url_origin \<lparr>protocol = ''https:'', hostname = ''notes.example'', port = [], pathname = p, search = []\<rparr> = ''https://notes.example''" for p
    by (simp add: url_origin_def url_host_def)
  have "startsWith ''/home'' ''/''" "\<not> startsWith ''/home'' ''//''" "\<not> str_includes ''/home'' [CHR 0x5C]"
    "\<not> list_ex isControlOrSpace ''/home''" by code_simp+
  then show ?thesis
    by (simp add: signOut_def h e o sameOriginTarget_def readCookie_def bindS_def retS_def Let_def)
qed

theorem signOut_sound_witness:
  "\<exists>rd s'. signOut signout_penv sample_resolved signout_request (sample_state None) = (Inr (SignedOut rd), s') \<and>
     (\<exists>target. rd_query rd = [(''app'', ''notes@prod''), (LOGIN_REDIRECT_PARAM, env_urlText signout_penv target)])"
proof -
  obtain rd s' where r: "signOut signout_penv sample_resolved signout_request (sample_state None) = (Inr (SignedOut rd), s')"
    using signout_done by blast
  from signOut_sound [OF r] r show ?thesis by (auto simp: sample_audience)
qed

definition preflight_resolved :: resolved_app where
  "preflight_resolved = \<lparr>ra_app = sample_app\<lparr>form := Contract \<lparr>snapshot = ''sha256:0'', csp = NO_CSP_ORIGINS, operationsOrigin = None,
       crossOrigins = Some [''https://shop.example''], audience = None, upstreamHost = None\<rparr>\<rparr>,
     ra_table = \<lparr>c_endpoints = [compile_row (sample_row\<lparr>row_crossOrigin := Some Environment\<rparr>)], c_reservedPrefixes = [''/api'']\<rparr>\<rparr>"

definition preflight_request :: forwarded_request where
  "preflight_request = sample_request\<lparr>rq_method := ''OPTIONS'',
     rq_headers := [(''origin'', ''https://shop.example''), (''access-control-request-method'', ''GET'')]\<rparr>"

theorem preflight_sound_witness:
  "authorize sample_penv preflight_resolved preflight_request (sample_state None) = (Preflight ''https://shop.example'' ''GET'', sample_state None) \<and>
   isApplicationEntry (ra_app preflight_resolved)"
proof -
  have "decidePreflight (ra_table preflight_resolved) (ra_app preflight_resolved) preflight_request = Some (Preflight ''https://shop.example'' ''GET'')"
    by code_simp
  then have a: "authorize sample_penv preflight_resolved preflight_request (sample_state None) =
      (Preflight ''https://shop.example'' ''GET'', sample_state None)"
    by (simp add: authorize_def decideEndpoint_def retS_def)
  from preflight_sound [OF a] a show ?thesis by simp
qed

end
