(* ===== verification/Verify_Service.thy ===== *)
theory Verify_Service
  imports Authorizer_Outcomes
begin

text \<open>
  The \<open>forward_auth\<close> service of \<open>packages/proxy-core/src/service.ts\<close>, with the metadata lookup of \<open>oauth.ts\<close> and the challenge
  text of \<open>oauth-resource.ts\<close>: it rebuilds the original request from the forwarded headers, selects the entry, asks the
  authorizer and renders the decision. A response is its status, its headers, the cookies it sets and which body it has
  (the page and text constants are not modelled); log lines are not modelled, except \<open>redactPath\<close> of \<open>log.ts\<close>.
\<close>

subsection \<open>Data\<close>

datatype body = NoBody | TextBody string | StatusPage nat | CallbackPage nat | LoginBody redirect | MetadataBody oauth_protected_resource

datatype location = ToText string | ToRedirect redirect

text \<open>\<open>secureCookie\<close> always writes the same attributes: \<open>Path=/\<close>, \<open>HttpOnly\<close>, \<open>SameSite=Lax\<close>, \<open>Secure\<close> and no \<open>Domain\<close>.\<close>

record cookie =
  ck_name :: string
  ck_value :: string
  ck_maxAge :: number

record response =
  rs_status :: nat
  rs_headers :: headers
  rs_location :: "location option"
  rs_cookies :: "cookie list"
  rs_body :: body

record verify_request =
  vr_method :: string
  vr_url :: url
  vr_headers :: headers

record ('w, 'j, 'k) service_env =
  penv :: "('w, 'j, 'k) proxy_env"
  env_uuidv7 :: "'w \<Rightarrow> string \<times> 'w"
  env_wallclock :: "'w \<Rightarrow> number \<times> 'w"
  env_withTarget :: "url \<Rightarrow> string \<Rightarrow> string \<Rightarrow> url"

record service =
  sv_resolved :: "resolved_app list"
  sv_healthPath :: string

definition DEFAULT_VERIFY_PATH :: string where "DEFAULT_VERIFY_PATH = ''/verify''"
definition OAUTH_METADATA_VERIFY_PATH :: string where "OAUTH_METADATA_VERIFY_PATH = ''/oauth-metadata''"
definition AUTH_CALLBACK_PATH :: string where "AUTH_CALLBACK_PATH = ''/__fabrika/auth/callback''"
definition AUTH_SIGNOUT_PATH :: string where "AUTH_SIGNOUT_PATH = ''/__fabrika/auth/signout''"
definition APP_QUERY_PARAM :: string where "APP_QUERY_PARAM = ''app''"
definition FORWARDED_METHOD_HEADER :: string where "FORWARDED_METHOD_HEADER = ''X-Forwarded-Method''"
definition FORWARDED_URI_HEADER :: string where "FORWARDED_URI_HEADER = ''X-Forwarded-Uri''"
definition FORWARDED_HOST_HEADER :: string where "FORWARDED_HOST_HEADER = ''X-Forwarded-Host''"
definition FORWARDED_PROTO_HEADER :: string where "FORWARDED_PROTO_HEADER = ''X-Forwarded-Proto''"
definition REQUEST_ID_HEADER :: string where "REQUEST_ID_HEADER = ''X-Request-Id''"
definition PROXY_TOKEN_HEADER :: string where "PROXY_TOKEN_HEADER = ''X-Fabrika-Token''"
definition ENDPOINT_HEADER :: string where "ENDPOINT_HEADER = ''X-Fabrika-Endpoint''"
definition DELEGATION_HEADER :: string where "DELEGATION_HEADER = ''X-Fabrika-Delegation''"
definition FORWARD_AUTHORIZATION_HEADER :: string where "FORWARD_AUTHORIZATION_HEADER = ''X-Fabrika-Forward-Authorization''"
definition PREFLIGHT_HEADER :: string where "PREFLIGHT_HEADER = ''X-Fabrika-Preflight''"
definition HANDOFF_COOKIE_TTL_SECONDS :: number where "HANDOFF_COOKIE_TTL_SECONDS = 600"

subsection \<open>Hosts and applications\<close>

definition host_char :: "char \<Rightarrow> bool" where
  "host_char c \<longleftrightarrow> is_alnum c \<or> c \<in> set ''.-[]''"

text \<open>\<open>HOST_PATTERN\<close>: host characters, then optionally a colon and one to five digits.\<close>

definition HOST_PATTERN :: "string \<Rightarrow> bool" where
  "HOST_PATTERN h \<longleftrightarrow>
     (let name = takeWhile host_char h; rest = dropWhile host_char h in
      name \<noteq> [] \<and>
      (rest = [] \<or> (hd rest = CHR '':'' \<and> 1 \<le> length (tl rest) \<and> length (tl rest) \<le> 5 \<and> list_all is_digit (tl rest))))"

text \<open>\<open>host.toLowerCase().replace(/:\d+$/, '')\<close>.\<close>

definition normalizeHost :: "string \<Rightarrow> string" where
  "normalizeHost host =
     (let l = lower host; digits = takeWhile is_digit (rev l); rest = dropWhile is_digit (rev l) in
      if digits \<noteq> [] \<and> rest \<noteq> [] \<and> hd rest = CHR '':'' then rev (tl rest) else l)"

definition resolveApp :: "proxy_app \<Rightarrow> resolved_app option" where
  "resolveApp app = (case compileEndpointTable (tableOf app) of Inl _ \<Rightarrow> None | Inr t \<Rightarrow> Some \<lparr>ra_app = app, ra_table = t\<rparr>)"

fun resolve_all :: "proxy_app list \<Rightarrow> resolved_app list option" where
  "resolve_all [] = Some []"
| "resolve_all (app # apps) =
     (case resolveApp app of None \<Rightarrow> None | Some r \<Rightarrow> map_option (\<lambda>rs. r # rs) (resolve_all apps))"

text \<open>\<open>createVerifyService\<close> throws at start-up when a table does not compile. A later entry of a \<open>Map\<close> replaces an
  earlier one.\<close>

definition createVerifyService :: "proxy_app list \<Rightarrow> string \<Rightarrow> service option" where
  "createVerifyService apps healthPath =
     map_option (\<lambda>rs. \<lparr>sv_resolved = rs, sv_healthPath = healthPath\<rparr>) (resolve_all apps)"

definition byId :: "service \<Rightarrow> string \<Rightarrow> resolved_app option" where
  "byId sv i = map_of (rev (map (\<lambda>r. (app_id (ra_app r), r)) (sv_resolved sv))) i"

definition byHost :: "service \<Rightarrow> string \<Rightarrow> resolved_app option" where
  "byHost sv h = map_of (rev (concat (map (\<lambda>r. map (\<lambda>host. (normalizeHost host, r)) (hosts (ra_app r))) (sv_resolved sv)))) h"

definition policyOf :: "proxy_app \<Rightarrow> header_policy" where
  "policyOf app =
     (case form app of Contract c \<Rightarrow> appHeaderPolicy (csp c) (operationsOrigin c) (scheme app) | Installation _ \<Rightarrow> BASE_HEADER_POLICY)"

definition policies :: "service \<Rightarrow> string \<Rightarrow> header_policy" where
  "policies sv i = (case byId sv i of None \<Rightarrow> BASE_HEADER_POLICY | Some r \<Rightarrow> policyOf (ra_app r))"

definition selectApp :: "service \<Rightarrow> string option \<Rightarrow> string \<Rightarrow> resolved_app option" where
  "selectApp sv pinned host =
     (let hn = normalizeHost host in
      case pinned of
        Some i \<Rightarrow>
          (case byId sv i of
             None \<Rightarrow> None
           | Some r \<Rightarrow> if list_ex (\<lambda>declared. normalizeHost declared = hn) (hosts (ra_app r)) then Some r else None)
      | None \<Rightarrow> byHost sv hn)"

subsection \<open>The forwarded request\<close>

datatype forwarded_read = ReadOk forwarded_request | ReadBad deny_reason | ReadThrows

definition readForwardedRequest :: "('w, 'j, 'k) service_env \<Rightarrow> verify_request \<Rightarrow> string \<Rightarrow> forwarded_read" where
  "readForwardedRequest E request requestId =
     (case (hdr_get (vr_headers request) FORWARDED_URI_HEADER, hdr_get (vr_headers request) FORWARDED_METHOD_HEADER) of
        (Some uri, Some m) \<Rightarrow>
          (if \<not> startsWith uri ''/'' \<or> m = [] then ReadBad Bad_forward
           else
             (let target = splitRequestTarget uri; path = rt_pathname target; query = rt_search target in
              if \<not> isCanonicalPath path then ReadBad Non_canonical_path
              else
                (case (case hdr_get (vr_headers request) FORWARDED_HOST_HEADER of
                         Some h \<Rightarrow> Some h | None \<Rightarrow> hdr_get (vr_headers request) ''Host'') of
                   None \<Rightarrow> ReadBad Bad_forward
                 | Some host \<Rightarrow>
                     (if \<not> HOST_PATTERN host then ReadBad Bad_forward
                      else
                        (let proto = (if hdr_get (vr_headers request) FORWARDED_PROTO_HEADER = Some ''http'' then ''http'' else ''https'') in
                         case parseUrl_of (penv E) (proto @ ''://'' @ host) of
                           None \<Rightarrow> ReadThrows
                         | Some base \<Rightarrow>
                             (let u = env_withTarget E base path query in
                              if lower (url_host u) \<noteq> lower host then ReadBad Bad_forward
                              else ReadOk \<lparr>rq_method = m, rq_url = u, rq_rawPath = path,
                                     rq_headers = vr_headers request, rq_requestId = requestId\<rparr>))))))
      | _ \<Rightarrow> ReadBad Bad_forward)"

subsection \<open>Rendering\<close>

definition secureCookie :: "string \<Rightarrow> string \<Rightarrow> number \<Rightarrow> cookie" where
  "secureCookie name value maxAge = \<lparr>ck_name = name, ck_value = value, ck_maxAge = maxAge\<rparr>"

definition handoffCookie :: "handoff_attempt \<Rightarrow> cookie option" where
  "handoffCookie handoff =
     map_option (\<lambda>name. secureCookie name (ha_verifier handoff) HANDOFF_COOKIE_TTL_SECONDS) (handoffCookieName (Some (ha_state handoff)))"

definition clearHandoffCookie :: "string \<Rightarrow> cookie option" where
  "clearHandoffCookie state = map_option (\<lambda>name. secureCookie name [] 0) (handoffCookieName (Some state))"

definition plain :: "nat \<Rightarrow> headers \<Rightarrow> body \<Rightarrow> response" where
  "plain status h b = \<lparr>rs_status = status, rs_headers = h, rs_location = None, rs_cookies = [], rs_body = b\<rparr>"

definition textResponse :: "nat \<Rightarrow> string \<Rightarrow> response" where
  "textResponse status text_body =
     plain status [(''content-type'', ''text/plain; charset=utf-8''), (''cache-control'', ''no-store'')] (TextBody text_body)"

definition pageResponse :: "nat \<Rightarrow> body \<Rightarrow> response" where
  "pageResponse status b = plain status [(''content-type'', ''text/html; charset=utf-8''), (''cache-control'', ''no-store'')] b"

definition DENY_TEXT :: "nat \<Rightarrow> string" where
  "DENY_TEXT status =
     (if status = 400 then ''bad request'' else if status = 401 then ''unauthorized'' else if status = 403 then ''forbidden'' else ''unavailable'')"

definition errorAnswer :: "nat \<Rightarrow> string \<Rightarrow> bool \<Rightarrow> response" where
  "errorAnswer status text_body asPage = (if asPage then pageResponse status (StatusPage status) else textResponse status text_body)"

definition isPageNavigation :: "headers \<Rightarrow> bool" where
  "isPageNavigation h = (hdr_get h FETCH_MODE_HEADER = Some ''navigate'')"

definition withPolicy :: "response \<Rightarrow> header_policy \<Rightarrow> response" where
  "withPolicy r policy = r\<lparr>rs_headers := applyHeaderPolicy (rs_headers r) policy\<rparr>"

definition withFileTreatment :: "response \<Rightarrow> header_policy \<Rightarrow> response" where
  "withFileTreatment r treatment = r\<lparr>rs_headers := applyFileTreatment (rs_headers r) treatment INLINE_FILE_TYPES\<rparr>"

text \<open>The challenge text; \<^term>\<open>None\<close> where the source throws on an invalid challenge.\<close>

definition formatOAuthBearerChallenge :: "url_parser \<Rightarrow> bearer_challenge \<Rightarrow> string option" where
  "formatOAuthBearerChallenge parseUrl ch =
     (if isOAuthResourceUri parseUrl (ch_resource_metadata ch) \<and>
         (case ch_error ch of None \<Rightarrow> True | Some e \<Rightarrow> e \<in> set [''invalid_token'', ''insufficient_scope'']) \<and>
         (case ch_scope ch of None \<Rightarrow> True | Some sc \<Rightarrow> parseOAuthScopes (splitOn (CHR '' '') sc) \<noteq> None) \<and>
         (ch_error ch = Some ''insufficient_scope'' \<longrightarrow> ch_scope ch \<noteq> None)
      then Some (''Bearer '' @ joinWith '', ''
        ([''resource_metadata='' @ json_quote (ch_resource_metadata ch)]
         @ (case ch_error ch of None \<Rightarrow> [] | Some e \<Rightarrow> [''error='' @ json_quote e])
         @ (case ch_scope ch of None \<Rightarrow> [] | Some sc \<Rightarrow> [''scope='' @ json_quote sc])))
      else None)"

text \<open>\<open>denied\<close>: the answer of a refusal or a login bounce, or \<^term>\<open>None\<close> where rendering throws.\<close>

definition renderDenial :: "url_parser \<Rightarrow> denial \<Rightarrow> bool \<Rightarrow> bool \<Rightarrow> response option" where
  "renderDenial parseUrl d isCallback asPage =
     (let r = (if isCallback then pageResponse (d_status d) (CallbackPage (d_status d))
               else errorAnswer (d_status d) (DENY_TEXT (d_status d)) asPage);
          r1 = (case d_clearHandoffState d of
                  None \<Rightarrow> Some r
                | Some state \<Rightarrow> map_option (\<lambda>c. r\<lparr>rs_cookies := [c]\<rparr>) (clearHandoffCookie state)) in
      case d_challenge d of
        None \<Rightarrow> r1
      | Some ch \<Rightarrow>
          (case (r1, formatOAuthBearerChallenge parseUrl ch) of
             (Some r2, Some t) \<Rightarrow> Some (r2\<lparr>rs_headers := hdr_set (rs_headers r2) ''WWW-Authenticate'' t\<rparr>)
           | _ \<Rightarrow> None))"

definition renderLogin :: "login_bounce \<Rightarrow> response option" where
  "renderLogin b =
     map_option (\<lambda>c.
         \<lparr>rs_status = lb_status b,
          rs_headers = (if lb_status b = 302 then [(''cache-control'', ''no-store'')]
                        else [(''content-type'', ''application/json; charset=utf-8''), (''cache-control'', ''no-store'')]),
          rs_location = (if lb_status b = 302 then Some (ToRedirect (lb_location b)) else None),
          rs_cookies = [c], rs_body = (if lb_status b = 302 then NoBody else LoginBody (lb_location b))\<rparr>)
       (handoffCookie (lb_handoff b))"

definition answersDownload :: "resolved_app \<Rightarrow> forwarded_request \<Rightarrow> bool" where
  "answersDownload resolved forwarded =
     (case planEndpoint (ra_table resolved) (rq_method forwarded) (rq_rawPath forwarded) of
        Endpoint row ps \<Rightarrow> answersFile row | _ \<Rightarrow> False)"

definition renderHandoff :: "number \<Rightarrow> redeemed \<Rightarrow> response option" where
  "renderHandoff now r =
     map_option (\<lambda>clear. \<lparr>rs_status = 302, rs_headers = [(''cache-control'', ''no-store'')], rs_location = Some (ToText (re_location r)),
         rs_cookies = [secureCookie SESSION_COOKIE (re_session r) (max 0 (re_expiresAt r - of_int \<lfloor>now\<rfloor>)), clear], rs_body = NoBody\<rparr>)
       (clearHandoffCookie (re_handoffState r))"

definition renderSignOut :: "redirect \<Rightarrow> response" where
  "renderSignOut rd = \<lparr>rs_status = 302, rs_headers = [(''cache-control'', ''no-store'')], rs_location = Some (ToRedirect rd),
     rs_cookies = [secureCookie SESSION_COOKIE [] 0], rs_body = NoBody\<rparr>"

definition set_opt :: "string \<Rightarrow> string option \<Rightarrow> headers \<Rightarrow> headers" where
  "set_opt name value h = (case value of None \<Rightarrow> h | Some v \<Rightarrow> hdr_set h name v)"

definition renderAllow :: "allowance \<Rightarrow> string \<Rightarrow> response" where
  "renderAllow a requestId =
     (let h = hdr_set [(''cache-control'', ''no-store'')] REQUEST_ID_HEADER requestId;
          h1 = set_opt PROXY_TOKEN_HEADER (al_token a) h;
          h2 = hdr_set h1 ENDPOINT_HEADER (al_endpoint a);
          h3 = set_opt DELEGATION_HEADER (al_delegation a) h2;
          h4 = (if al_forwardsAuthorization a then hdr_set h3 FORWARD_AUTHORIZATION_HEADER ''1'' else h3);
          h5 = (case al_crossOrigin a of None \<Rightarrow> h4 | Some org \<Rightarrow> applyCrossOriginHeaders h4 (crossOriginHeaders org)) in
      plain 204 h5 NoBody)"

definition renderPreflight :: "string \<Rightarrow> string \<Rightarrow> header_policy \<Rightarrow> response" where
  "renderPreflight allowOrigin m policy =
     (let r = withPolicy (plain 204 (hdr_set [(''cache-control'', ''no-store'')] PREFLIGHT_HEADER ''1'') NoBody) policy in
      r\<lparr>rs_headers := applyCrossOriginHeaders (rs_headers r) (preflightHeaders allowOrigin m)\<rparr>)"

subsection \<open>OAuth metadata\<close>

definition findOAuthMetadata :: "url_parser \<Rightarrow> proxy_app \<Rightarrow> url \<Rightarrow> oauth_protected_resource option" where
  "findOAuthMetadata parseUrl app u =
     (case form app of
        Contract _ \<Rightarrow> None
      | Installation None \<Rightarrow> None
      | Installation (Some rs) \<Rightarrow>
          find (\<lambda>r. case parseUrl (resourceMetadata r) of
                      None \<Rightarrow> False
                    | Some md \<Rightarrow> hostname md = lower (hostname u) \<and> pathname md = pathname u) rs)"

definition oauthMetadataResponse :: "oauth_protected_resource \<Rightarrow> string \<Rightarrow> response" where
  "oauthMetadataResponse r m =
     (if m \<noteq> ''GET'' \<and> m \<noteq> ''HEAD''
      then plain 405 [(''allow'', ''GET, HEAD''), (''cache-control'', ''no-store'')] (TextBody ''method not allowed'')
      else plain 200 [(''content-type'', ''application/json; charset=utf-8''), (''cache-control'', ''no-store'')]
             (if m = ''HEAD'' then NoBody else MetadataBody r))"

subsection \<open>The service\<close>

definition earlyPolicy :: "('w, 'j, 'k) service_env \<Rightarrow> service \<Rightarrow> verify_request \<Rightarrow> header_policy" where
  "earlyPolicy E sv request =
     (let host = (case hdr_get (vr_headers request) FORWARDED_HOST_HEADER of
                    Some h \<Rightarrow> h
                  | None \<Rightarrow> (case hdr_get (vr_headers request) ''Host'' of Some h \<Rightarrow> h | None \<Rightarrow> [])) in
      case selectApp sv (env_searchParam (penv E) (vr_url request) APP_QUERY_PARAM) host of
        None \<Rightarrow> BASE_HEADER_POLICY
      | Some r \<Rightarrow> if isApplicationEntry (ra_app r) then BASE_HEADER_POLICY @ transportPolicy (scheme (ra_app r)) else BASE_HEADER_POLICY)"

text \<open>The last \<open>catch\<close>.\<close>

definition failedAnswer :: "('w, 'j, 'k) service_env \<Rightarrow> service \<Rightarrow> verify_request \<Rightarrow> response" where
  "failedAnswer E sv request =
     withPolicy (errorAnswer 403 (DENY_TEXT 403) (isPageNavigation (vr_headers request))) (earlyPolicy E sv request)"

text \<open>A decision that is neither an allow nor a preflight, rendered; \<^term>\<open>None\<close> where rendering throws.\<close>

definition renderRefusal ::
  "('w, 'j, 'k) service_env \<Rightarrow> decision \<Rightarrow> number \<Rightarrow> bool \<Rightarrow> bool \<Rightarrow> response option" where
  "renderRefusal E d now isCallback asPage =
     (case d of
        Handoff r \<Rightarrow> renderHandoff now r
      | SignedOut rd \<Rightarrow> Some (renderSignOut rd)
      | Login b \<Rightarrow> renderLogin b
      | Deny x \<Rightarrow> renderDenial (parseUrl_of (penv E)) x isCallback asPage
      | _ \<Rightarrow> None)"

definition decide ::
  "('w, 'j, 'k) service_env \<Rightarrow> resolved_app \<Rightarrow> forwarded_request \<Rightarrow> (('w, 'k) proxy_state, decision) comp" where
  "decide E resolved forwarded s =
     (if pathname (rq_url forwarded) = AUTH_CALLBACK_PATH
      then (case authorizeCallback (penv E) resolved forwarded s of (d, s1) \<Rightarrow> (Inr d, s1))
      else if pathname (rq_url forwarded) = AUTH_SIGNOUT_PATH then signOut (penv E) resolved forwarded s
      else (case authorize (penv E) resolved forwarded s of (d, s1) \<Rightarrow> (Inr d, s1)))"

definition answerDecision ::
  "('w, 'j, 'k) service_env \<Rightarrow> service \<Rightarrow> verify_request \<Rightarrow> resolved_app \<Rightarrow> forwarded_request \<Rightarrow> decision \<Rightarrow>
   ('w, 'k) proxy_state \<Rightarrow> response \<times> ('w, 'k) proxy_state" where
  "answerDecision E sv request resolved forwarded d s =
     (let policy = policies sv (app_id (ra_app resolved));
          download = answersDownload resolved forwarded;
          isCallback = (pathname (rq_url forwarded) = AUTH_CALLBACK_PATH);
          asPage = (isPageNavigation (vr_headers request) \<and> \<not> download);
          (now, s1) = (case d of
             Handoff _ \<Rightarrow> (let (n, w) = env_wallclock E (world (vs s)) in (n, s\<lparr>vs := (vs s)\<lparr>world := w\<rparr>\<rparr>))
           | _ \<Rightarrow> (0, s)) in
      case d of
        Allow a \<Rightarrow> (renderAllow a (rq_requestId forwarded), s)
      | Preflight allowOrigin m \<Rightarrow> (renderPreflight allowOrigin m policy, s)
      | _ \<Rightarrow>
          (case renderRefusal E d now isCallback asPage of
             None \<Rightarrow> (failedAnswer E sv request, s1)
           | Some answer \<Rightarrow>
               (let treated = (if download then withFileTreatment answer (appFileTreatment (scheme (ra_app resolved)))
                               else withPolicy answer policy) in
                (case d of
                   Deny x \<Rightarrow> (case d_crossOrigin x of
                       None \<Rightarrow> treated
                     | Some org \<Rightarrow> treated\<lparr>rs_headers := applyCrossOriginHeaders (rs_headers treated) (crossOriginHeaders org)\<rparr>)
                 | _ \<Rightarrow> treated, s1))))"

text \<open>The request id the edge supplied, or a fresh one.\<close>

definition requestIdOf ::
  "('w, 'j, 'k) service_env \<Rightarrow> verify_request \<Rightarrow> ('w, 'k) proxy_state \<Rightarrow> string \<times> ('w, 'k) proxy_state" where
  "requestIdOf E request s =
     (let (fresh, w) = env_uuidv7 E (world (vs s)) in
      case hdr_get (vr_headers request) REQUEST_ID_HEADER of
        None \<Rightarrow> (fresh, s\<lparr>vs := (vs s)\<lparr>world := w\<rparr>\<rparr>)
      | Some i \<Rightarrow> if i = [] then (fresh, s\<lparr>vs := (vs s)\<lparr>world := w\<rparr>\<rparr>) else (i, s))"

definition verifyService ::
  "('w, 'j, 'k) service_env \<Rightarrow> service \<Rightarrow> verify_request \<Rightarrow> ('w, 'k) proxy_state \<Rightarrow> response \<times> ('w, 'k) proxy_state" where
  "verifyService E sv request s0 =
     (let (requestId, s) = requestIdOf E request s0;
          path = pathname (vr_url request);
          asPage = isPageNavigation (vr_headers request) in
      if path = sv_healthPath sv then (plain 200 [(''cache-control'', ''no-store'')] (TextBody ''ok''), s)
      else if path \<noteq> DEFAULT_VERIFY_PATH \<and> path \<noteq> OAUTH_METADATA_VERIFY_PATH
      then (withPolicy (textResponse 404 ''not found'') BASE_HEADER_POLICY, s)
      else if vr_method request \<noteq> ''GET'' \<and> vr_method request \<noteq> ''HEAD''
      then (withPolicy (textResponse 405 ''method not allowed'') BASE_HEADER_POLICY, s)
      else
        (case readForwardedRequest E request requestId of
           ReadThrows \<Rightarrow> (failedAnswer E sv request, s)
         | ReadBad reason \<Rightarrow>
             (let status = (if reason = Non_canonical_path then 400 else 403) in
              (withPolicy (errorAnswer status (DENY_TEXT status) asPage) (earlyPolicy E sv request), s))
         | ReadOk forwarded \<Rightarrow>
             (case selectApp sv (env_searchParam (penv E) (vr_url request) APP_QUERY_PARAM) (url_host (rq_url forwarded)) of
                None \<Rightarrow> (withPolicy (errorAnswer 403 (DENY_TEXT 403) asPage) BASE_HEADER_POLICY, s)
              | Some resolved \<Rightarrow>
                  (if path = OAUTH_METADATA_VERIFY_PATH
                   then (case findOAuthMetadata (parseUrl_of (penv E)) (ra_app resolved) (rq_url forwarded) of
                           None \<Rightarrow> (withPolicy (textResponse 404 ''not found'') (policies sv (app_id (ra_app resolved))), s)
                         | Some r \<Rightarrow> (oauthMetadataResponse r (rq_method forwarded), s))
                   else
                     (case decide E resolved forwarded s of
                        (Inl _, s1) \<Rightarrow> (failedAnswer E sv request, s1)
                      | (Inr d, s1) \<Rightarrow> answerDecision E sv request resolved forwarded d s1)))))"

subsection \<open>Logging\<close>

definition redactPath :: "string \<Rightarrow> string" where
  "redactPath p =
     (let path = (case indexOf (CHR ''?'') p of None \<Rightarrow> p | Some q \<Rightarrow> take q p) in
      joinWith ''/'' (map (\<lambda>segment. if startsWith segment API_KEY_PREFIX then API_KEY_PREFIX @ ''***'' else segment) (splitOn (CHR ''/'') path)))"

definition redactUrl :: "url \<Rightarrow> string" where
  "redactUrl u = url_origin u @ redactPath (pathname u)"

end
