(* ===== verification/Verify_Service_Sound.thy ===== *)
theory Verify_Service_Sound
  imports Verify_Service
begin

text \<open>
  What the \<open>forward_auth\<close> service promises its composition: a success answer on \<open>/verify\<close> means that the authorizer
  allowed (or answered a preflight of) exactly the request the forwarded headers describe, for an entry that declares
  the forwarded host.
\<close>

subsection \<open>The statuses of a refusal\<close>

fun refusal_ok :: "decision \<Rightarrow> bool" where
  "refusal_ok (Deny x) = (d_status x \<in> {400, 401, 403, 503})"
| "refusal_ok (Login b) = (lb_status b \<in> {302, 401})"
| "refusal_ok _ = True"

abbreviation yields :: "('s, 'a) comp \<Rightarrow> ('a \<Rightarrow> bool) \<Rightarrow> bool" where
  "yields m Q \<equiv> valid (\<lambda>_. True) m Q"

lemma yields_any: "yields m (\<lambda>_. True)"
  by (auto simp: valid_def split: sum.splits prod.splits)

lemma yields_after: "(\<And>x. yields (f x) Q) \<Longrightarrow> yields (bindS m f) Q"
  by (rule valid_bind [OF yields_any])

lemma yields_result: "yields m Q \<Longrightarrow> m s = (Inr x, s') \<Longrightarrow> Q x"
  by (auto simp: valid_def dest!: spec [of _ s])

lemma deny_status [simp]: "d_status (deny st reason) = st"
  by (simp add: deny_def)

lemma withBearerChallenge_status [simp]: "d_status (withBearerChallenge d oa) = d_status d"
  by (simp add: withBearerChallenge_def split: oauth_binding.splits)

lemma keyDenial_status: "d_status (keyDenial reason) \<in> {401, 403}"
  by (cases reason) simp_all

lemmas yield_rules = valid_retS valid_throwS yields_after

fun denial_ok :: "denial + 'a \<Rightarrow> bool" where
  "denial_ok (Inl d) = (d_status d \<in> {400, 401, 403, 503})"
| "denial_ok (Inr _) = True"

fun caller_refusal_ok :: "decision + 'a \<Rightarrow> bool" where
  "caller_refusal_ok (Inl d) = refusal_ok d"
| "caller_refusal_ok (Inr _) = True"

lemma bindS_retS [simp]: "bindS (retS x) f = f x"
  by (simp add: fun_eq_iff bindS_def retS_def)

lemma mintKey_status: "yields (mintKey E app bearer rid) denial_ok"
  using keyDenial_status
  by (force simp: mintKey_def invalidKey_def intro!: yield_rules split: mint_reply.splits verify_result.splits)

lemma exchangeKey_status: "yields (exchangeKey E app bearer rid) denial_ok"
  using mintKey_status [of E app bearer rid]
  by (auto simp: exchangeKey_def invalidKey_def intro!: yield_rules split: option.splits verify_result.splits)

lemma verifyOAuthBearer_status: "yields (verifyOAuthBearer E app r scopes bearer) denial_ok"
  by (auto simp: verifyOAuthBearer_def Let_def intro!: yield_rules split: option.splits verify_result.splits)

lemma loginDecision_status: "yields (loginDecision E app request reason) (\<lambda>b. lb_status b \<in> {302, 401})"
  by (auto simp: loginDecision_def intro!: yield_rules split: sum.splits)

lemma endpointSession_status: "yields (endpointSession E app oa callers request crossOrigin) caller_refusal_ok"
  unfolding endpointSession_def
  by (auto intro!: valid_retS yields_after valid_bindS [OF loginDecision_status] split: session_attempt.splits oauth_binding.splits)

lemma endpointCaller_status: "yields (endpointCaller E app oa callers request crossOrigin) caller_refusal_ok"
  unfolding endpointCaller_def Let_def
  by (auto intro!: valid_retS valid_bindS [OF exchangeKey_status] valid_bindS [OF verifyOAuthBearer_status] endpointSession_status
      simp: invalidKey_def split: option.splits oauth_binding.splits sum.splits)

lemma obtainDelegation_status: "yields (obtainDelegation E app endpoint token rid) denial_ok"
  by (auto simp: obtainDelegation_def intro!: yield_rules split: option.splits delegation_reply.splits)

lemma admitBody_status: "admitBody row h = Some d \<Longrightarrow> d_status d = 400"
  by (auto simp: admitBody_def split: option.splits if_splits)

lemma admitFormOrigin_status: "admitFormOrigin app row request crossOrigin = Some d \<Longrightarrow> d_status d = 403"
  by (auto simp: admitFormOrigin_def split: option.splits if_splits)

lemma admitCaller_status: "yields (admitCaller E app row req oa request crossOrigin c) refusal_ok"
  unfolding admitCaller_def
  by (auto intro!: valid_retS valid_bindS [OF obtainDelegation_status] simp: admitBody_status
      split: option.splits sum.splits)

lemma decideRow_status: "yields (decideRow E app row request crossOrigin) refusal_ok"
  unfolding decideRow_def Let_def
  by (auto intro!: valid_retS valid_bindS [OF endpointCaller_status] admitCaller_status
      simp: admitBody_status admitFormOrigin_status split: option.splits sum.splits)

lemma decidePreflight_status: "decidePreflight table app request = Some d \<Longrightarrow> refusal_ok d"
  by (auto simp: decidePreflight_def split: option.splits if_splits endpoint_plan.splits)

lemma decideEndpoint_status: "yields (decideEndpoint E app table request) refusal_ok"
  unfolding decideEndpoint_def Let_def
  by (auto intro!: valid_retS valid_bindS [OF decideRow_status] simp: decidePreflight_status
      split: option.splits endpoint_plan.splits decision.splits)

lemma authorize_status: "authorize E resolved request s = (d, s') \<Longrightarrow> refusal_ok d"
  using yields_result [OF decideEndpoint_status]
  by (fastforce simp: authorize_def split: prod.splits sum.splits exn.splits)

text \<open>The decisions of the two reserved paths: never an allow and never a preflight.\<close>

fun reserved_decision :: "decision \<Rightarrow> bool" where
  "reserved_decision (Allow _) = False"
| "reserved_decision (Preflight _ _) = False"
| "reserved_decision d = refusal_ok d"

lemma clearing_reserved: "d_status d \<in> {400, 401, 403, 503} \<Longrightarrow> reserved_decision (clearing state d)"
  by (simp add: clearing_def)

lemma redeem_reserved: "yields (redeem E resolved request state) reserved_decision"
  unfolding redeem_def Let_def
  by (auto intro!: yield_rules clearing_reserved split: option.splits exchange_reply.splits)

lemma authorizeCallback_reserved: "authorizeCallback E resolved request s = (d, s') \<Longrightarrow> reserved_decision d"
  using yields_result [OF redeem_reserved]
  by (fastforce simp: authorizeCallback_def intro: clearing_reserved split: option.splits if_splits prod.splits sum.splits exn.splits)

lemma signOut_reserved: "yields (signOut E resolved request) reserved_decision"
  unfolding signOut_def Let_def
  by (auto intro!: yield_rules split: option.splits sum.splits)

lemma signOut_reserved_value: "signOut E resolved request s = (Inr d, s') \<Longrightarrow> reserved_decision d"
  by (rule yields_result [OF signOut_reserved])

lemma reserved_refusal: "reserved_decision d \<Longrightarrow> refusal_ok d"
  by (cases d) auto

lemma decide_status: "decide E resolved fwd s = (Inr d, s') \<Longrightarrow> refusal_ok d"
  by (auto simp: decide_def split: if_splits prod.splits
      dest: authorizeCallback_reserved signOut_reserved_value authorize_status reserved_refusal)

lemma decide_authorized:
  assumes "decide E resolved fwd s = (Inr d, s')" "\<not> reserved_decision d"
  shows "pathname (rq_url fwd) \<noteq> AUTH_CALLBACK_PATH \<and> pathname (rq_url fwd) \<noteq> AUTH_SIGNOUT_PATH \<and>
    authorize (penv E) resolved fwd s = (d, s')"
  using assms by (auto simp: decide_def split: if_splits prod.splits dest: authorizeCallback_reserved signOut_reserved_value)

subsection \<open>The status of an answer\<close>

lemma status_simps [simp]:
  "rs_status (plain st h b) = st" "rs_status (textResponse st t) = st" "rs_status (pageResponse st b) = st"
  "rs_status (errorAnswer st t asPage) = st" "rs_status (withPolicy r policy) = rs_status r"
  "rs_status (withFileTreatment r treatment) = rs_status r" "rs_status (renderSignOut rd) = 302"
  "rs_status (failedAnswer E sv request) = 403"
  by (simp_all add: plain_def textResponse_def pageResponse_def errorAnswer_def withPolicy_def withFileTreatment_def
      renderSignOut_def failedAnswer_def)

lemma renderDenial_status: "renderDenial parseUrl d isCallback asPage = Some r \<Longrightarrow> rs_status r = d_status d"
  by (auto simp: renderDenial_def Let_def split: option.splits if_splits)

lemma renderRefusal_status:
  assumes "renderRefusal E d now isCallback asPage = Some r" "refusal_ok d"
  shows "rs_status r \<ge> 300"
proof (cases d)
  case (Deny x)
  with assms show ?thesis by (auto simp: renderRefusal_def dest!: renderDenial_status)
qed (use assms in \<open>auto simp: renderRefusal_def renderHandoff_def renderLogin_def\<close>)

text \<open>An answer below 300 to a decision is the answer to an allow or to a preflight.\<close>

lemma answerDecision_success:
  assumes "answerDecision E sv request resolved fwd d s = (r, s')" "rs_status r < 300" "refusal_ok d"
  shows "s' = s \<and> ((\<exists>a. d = Allow a \<and> r = renderAllow a (rq_requestId fwd)) \<or>
    (\<exists>allowOrigin m. d = Preflight allowOrigin m \<and> r = renderPreflight allowOrigin m (policies sv (app_id (ra_app resolved)))))"
  using assms
  by (cases d) (auto simp: answerDecision_def Let_def split: option.splits prod.splits if_splits dest!: renderRefusal_status)

subsection \<open>The headers of a success answer\<close>

lemma service_lower_names [simp]:
  "lower PROXY_TOKEN_HEADER = ''x-fabrika-token''" "lower ENDPOINT_HEADER = ''x-fabrika-endpoint''"
  "lower DELEGATION_HEADER = ''x-fabrika-delegation''" "lower PREFLIGHT_HEADER = ''x-fabrika-preflight''"
  "lower FORWARD_AUTHORIZATION_HEADER = ''x-fabrika-forward-authorization''" "lower REQUEST_ID_HEADER = ''x-request-id''"
  by code_simp+

lemma hdr_get_crossOrigin:
  "lower m \<noteq> ''access-control-allow-origin'' \<Longrightarrow> lower m \<noteq> ''vary'' \<Longrightarrow>
   hdr_get (applyCrossOriginHeaders h (crossOriginHeaders org)) m = hdr_get h m"
  by (simp add: applyCrossOriginHeaders_def crossOriginHeaders_def hdr_append_def)

lemma hdr_get_preflight:
  "lower m \<notin> {''access-control-allow-origin'', ''vary'', ''access-control-allow-methods'', ''access-control-allow-headers'',
     ''access-control-max-age''} \<Longrightarrow>
   hdr_get (applyCrossOriginHeaders h (preflightHeaders org mth)) m = hdr_get h m"
  by (simp add: applyCrossOriginHeaders_def preflightHeaders_def crossOriginHeaders_def hdr_append_def)

lemma hdr_get_set_opt: "hdr_get (set_opt name v h) m = (if lower m = lower name \<and> v \<noteq> None then v else hdr_get h m)"
  by (simp add: set_opt_def split: option.splits)

text \<open>The answer to an allow: what the composition copies onto the upstream request.\<close>

lemma renderAllow_headers:
  "hdr_get (rs_headers (renderAllow a rid)) PROXY_TOKEN_HEADER = al_token a"
  "hdr_get (rs_headers (renderAllow a rid)) ENDPOINT_HEADER = Some (al_endpoint a)"
  "hdr_get (rs_headers (renderAllow a rid)) DELEGATION_HEADER = al_delegation a"
  "hdr_get (rs_headers (renderAllow a rid)) FORWARD_AUTHORIZATION_HEADER = (if al_forwardsAuthorization a then Some ''1'' else None)"
  "hdr_get (rs_headers (renderAllow a rid)) REQUEST_ID_HEADER = Some rid"
  "hdr_get (rs_headers (renderAllow a rid)) PREFLIGHT_HEADER = None"
  by (simp_all add: renderAllow_def Let_def plain_def hdr_get_crossOrigin hdr_get_set_opt split: option.splits)
     (simp_all add: hdr_get_def)

lemma policyOf_lookup:
  "lower m \<notin> lower ` set (policy_names @ REMOVED_RESPONSE_HEADERS @ TRANSPORT_HEADERS) \<Longrightarrow>
   hdr_get (applyHeaderPolicy h (policies sv i)) m = hdr_get h m"
  by (auto simp: policies_def policyOf_def hdr_get_applyHeaderPolicy policy_lookup BASE_HEADER_POLICY_def policy_names_def
      headerPolicy_def TRANSPORT_HEADERS_def image_Un split: option.splits entry_form.splits)

lemma renderPreflight_headers:
  "hdr_get (rs_headers (renderPreflight allowOrigin m (policies sv i))) PREFLIGHT_HEADER = Some ''1''"
  "hdr_get (rs_headers (renderPreflight allowOrigin m (policies sv i))) PROXY_TOKEN_HEADER = None"
proof -
  have "lower PREFLIGHT_HEADER \<notin> lower ` set (policy_names @ REMOVED_RESPONSE_HEADERS @ TRANSPORT_HEADERS)"
    "lower PROXY_TOKEN_HEADER \<notin> lower ` set (policy_names @ REMOVED_RESPONSE_HEADERS @ TRANSPORT_HEADERS)"
    by (simp_all add: policy_names_def REMOVED_RESPONSE_HEADERS_def TRANSPORT_HEADERS_def)
  then show "hdr_get (rs_headers (renderPreflight allowOrigin m (policies sv i))) PREFLIGHT_HEADER = Some ''1''"
    "hdr_get (rs_headers (renderPreflight allowOrigin m (policies sv i))) PROXY_TOKEN_HEADER = None"
    by (simp_all add: renderPreflight_def Let_def withPolicy_def plain_def hdr_get_preflight policyOf_lookup hdr_get_def [of "[_]"])
qed

subsection \<open>The service\<close>

lemma readForwardedRequest_ok:
  assumes "readForwardedRequest E request rid = ReadOk fwd"
  shows "rq_requestId fwd = rid \<and> rq_headers fwd = vr_headers request \<and> rq_method fwd \<noteq> [] \<and>
    hdr_get (vr_headers request) FORWARDED_METHOD_HEADER = Some (rq_method fwd) \<and> isCanonicalPath (rq_rawPath fwd) \<and>
    (\<exists>uri host. hdr_get (vr_headers request) FORWARDED_URI_HEADER = Some uri \<and> rq_rawPath fwd = rt_pathname (splitRequestTarget uri) \<and>
       (hdr_get (vr_headers request) FORWARDED_HOST_HEADER = Some host \<or>
        hdr_get (vr_headers request) FORWARDED_HOST_HEADER = None \<and> hdr_get (vr_headers request) ''Host'' = Some host) \<and>
       HOST_PATTERN host \<and> lower (url_host (rq_url fwd)) = lower host)"
  using assms by (auto simp: readForwardedRequest_def Let_def split: option.splits if_splits)

lemma verifyService_success:
  assumes run: "verifyService E sv request s0 = (r, s1)" and st: "rs_status r < 300"
    and p: "pathname (vr_url request) = DEFAULT_VERIFY_PATH" "sv_healthPath sv \<noteq> DEFAULT_VERIFY_PATH"
  shows "\<exists>fwd resolved s d. readForwardedRequest E request (rq_requestId fwd) = ReadOk fwd \<and>
    selectApp sv (env_searchParam (penv E) (vr_url request) APP_QUERY_PARAM) (url_host (rq_url fwd)) = Some resolved \<and>
    tcache s = tcache s0 \<and> iam_calls s = iam_calls s0 \<and> refusal_ok d \<and> decide E resolved fwd s = (Inr d, s1) \<and>
    ((\<exists>a. d = Allow a \<and> r = renderAllow a (rq_requestId fwd)) \<or>
     (\<exists>allowOrigin m. d = Preflight allowOrigin m \<and> r = renderPreflight allowOrigin m (policies sv (app_id (ra_app resolved)))))"
proof -
  obtain rid s where rs: "requestIdOf E request s0 = (rid, s)" by fastforce
  then have same: "tcache s = tcache s0" "iam_calls s = iam_calls s0"
    by (auto simp: requestIdOf_def Let_def split: prod.splits option.splits if_splits)
  have np: "DEFAULT_VERIFY_PATH \<noteq> OAUTH_METADATA_VERIFY_PATH" by code_simp
  have get: "vr_method request = ''GET'' \<or> vr_method request = ''HEAD''"
    using run st p by (auto simp: verifyService_def rs Let_def split: if_splits)
  note run' = run [unfolded verifyService_def rs Let_def prod.case p(1) if_not_P [OF np]]
  obtain fwd where fwd: "readForwardedRequest E request rid = ReadOk fwd"
    and run2: "(case selectApp sv (env_searchParam (penv E) (vr_url request) APP_QUERY_PARAM) (url_host (rq_url fwd)) of
                None \<Rightarrow> (withPolicy (errorAnswer 403 (DENY_TEXT 403) (isPageNavigation (vr_headers request))) BASE_HEADER_POLICY, s)
              | Some resolved \<Rightarrow>
                     (case decide E resolved fwd s of
                        (Inl _, s1) \<Rightarrow> (failedAnswer E sv request, s1)
                      | (Inr d, s1) \<Rightarrow> answerDecision E sv request resolved fwd d s1)) = (r, s1)"
    using run' st p(2) get
    by (cases "readForwardedRequest E request rid") (auto split: if_splits)
  then obtain resolved d s2 where sel: "selectApp sv (env_searchParam (penv E) (vr_url request) APP_QUERY_PARAM) (url_host (rq_url fwd)) = Some resolved"
    and d: "decide E resolved fwd s = (Inr d, s2)" "answerDecision E sv request resolved fwd d s2 = (r, s1)"
    using st by (auto split: option.splits prod.splits sum.splits)
  have ok: "refusal_ok d" by (rule decide_status [OF d(1)])
  from answerDecision_success [OF d(2) st ok] have "s1 = s2" by simp
  with answerDecision_success [OF d(2) st ok] d(1) ok sel fwd readForwardedRequest_ok [OF fwd] same show ?thesis
    by metis
qed

text \<open>C2: the contract with the composition. On \<open>/verify\<close> an answer below 300 is given only to a request that the
  forwarded headers describe completely, for the entry selected for its host, on neither reserved path, and the
  authorizer either allowed it, and the answer carries exactly the token, endpoint, delegation grant and request id of
  that allow; or answered a preflight, and the answer is marked as one and carries no token.\<close>

theorem verify_success_sound:
  assumes "verifyService E sv request s0 = (r, s1)" and "rs_status r < 300"
    and "pathname (vr_url request) = DEFAULT_VERIFY_PATH" "sv_healthPath sv \<noteq> DEFAULT_VERIFY_PATH"
  shows "\<exists>fwd resolved s. readForwardedRequest E request (rq_requestId fwd) = ReadOk fwd \<and>
    selectApp sv (env_searchParam (penv E) (vr_url request) APP_QUERY_PARAM) (url_host (rq_url fwd)) = Some resolved \<and>
    tcache s = tcache s0 \<and> iam_calls s = iam_calls s0 \<and>
    pathname (rq_url fwd) \<noteq> AUTH_CALLBACK_PATH \<and> pathname (rq_url fwd) \<noteq> AUTH_SIGNOUT_PATH \<and> rs_status r = 204 \<and>
    ((\<exists>a. authorize (penv E) resolved fwd s = (Allow a, s1) \<and> hdr_get (rs_headers r) PROXY_TOKEN_HEADER = al_token a \<and>
        hdr_get (rs_headers r) ENDPOINT_HEADER = Some (al_endpoint a) \<and>
        hdr_get (rs_headers r) DELEGATION_HEADER = al_delegation a \<and>
        hdr_get (rs_headers r) REQUEST_ID_HEADER = Some (rq_requestId fwd) \<and> hdr_get (rs_headers r) PREFLIGHT_HEADER = None) \<or>
     (\<exists>allowOrigin m. authorize (penv E) resolved fwd s = (Preflight allowOrigin m, s1) \<and>
        hdr_get (rs_headers r) PREFLIGHT_HEADER = Some ''1'' \<and> hdr_get (rs_headers r) PROXY_TOKEN_HEADER = None))"
proof -
  obtain fwd resolved s d where f: "readForwardedRequest E request (rq_requestId fwd) = ReadOk fwd"
      "selectApp sv (env_searchParam (penv E) (vr_url request) APP_QUERY_PARAM) (url_host (rq_url fwd)) = Some resolved"
      "tcache s = tcache s0" "iam_calls s = iam_calls s0" "decide E resolved fwd s = (Inr d, s1)"
    and c: "(\<exists>a. d = Allow a \<and> r = renderAllow a (rq_requestId fwd)) \<or>
     (\<exists>allowOrigin m. d = Preflight allowOrigin m \<and> r = renderPreflight allowOrigin m (policies sv (app_id (ra_app resolved))))"
    using verifyService_success [OF assms] by metis
  from c have "\<not> reserved_decision d" by auto
  note a = decide_authorized [OF f(5) this]
  have st: "rs_status r = 204"
    using c by (auto simp: renderAllow_def renderPreflight_def Let_def)
  from c a have "(\<exists>a. authorize (penv E) resolved fwd s = (Allow a, s1) \<and> hdr_get (rs_headers r) PROXY_TOKEN_HEADER = al_token a \<and>
        hdr_get (rs_headers r) ENDPOINT_HEADER = Some (al_endpoint a) \<and>
        hdr_get (rs_headers r) DELEGATION_HEADER = al_delegation a \<and>
        hdr_get (rs_headers r) REQUEST_ID_HEADER = Some (rq_requestId fwd) \<and> hdr_get (rs_headers r) PREFLIGHT_HEADER = None) \<or>
     (\<exists>allowOrigin m. authorize (penv E) resolved fwd s = (Preflight allowOrigin m, s1) \<and>
        hdr_get (rs_headers r) PREFLIGHT_HEADER = Some ''1'' \<and> hdr_get (rs_headers r) PROXY_TOKEN_HEADER = None)"
    using renderAllow_headers renderPreflight_headers by metis
  with f a st show ?thesis by blast
qed

text \<open>the entry of a request is one the service was built with, the pinned one where a pin is given, and it declares
  the host that was forwarded; the request authorized is the forwarded method and raw path, and that path is canonical.
  A forwarded host can therefore not choose an entry that does not declare it.\<close>

theorem selected_entry_declares_host:
  assumes "readForwardedRequest E request rid = ReadOk fwd" "selectApp sv pinned (url_host (rq_url fwd)) = Some resolved"
  shows "resolved \<in> set (sv_resolved sv) \<and> (\<forall>i. pinned = Some i \<longrightarrow> app_id (ra_app resolved) = i) \<and>
    (\<exists>declared\<in>set (hosts (ra_app resolved)). \<exists>uri host.
       normalizeHost declared = normalizeHost host \<and>
       (hdr_get (vr_headers request) FORWARDED_HOST_HEADER = Some host \<or>
        hdr_get (vr_headers request) FORWARDED_HOST_HEADER = None \<and> hdr_get (vr_headers request) ''Host'' = Some host) \<and>
       hdr_get (vr_headers request) FORWARDED_URI_HEADER = Some uri \<and> rq_rawPath fwd = rt_pathname (splitRequestTarget uri)) \<and>
    hdr_get (vr_headers request) FORWARDED_METHOD_HEADER = Some (rq_method fwd) \<and> isCanonicalPath (rq_rawPath fwd)"
proof -
  note ok = readForwardedRequest_ok [OF assms(1)]
  have same: "normalizeHost (url_host (rq_url fwd)) = normalizeHost host" if "lower (url_host (rq_url fwd)) = lower host" for host
    using that by (simp add: normalizeHost_def)
  have mem: "r \<in> set (sv_resolved sv) \<and> app_id (ra_app r) = i" if "byId sv i = Some r" for i r
    using map_of_SomeD [OF that [unfolded byId_def]] by auto
  have host: "r \<in> set (sv_resolved sv) \<and> (\<exists>declared\<in>set (hosts (ra_app r)). normalizeHost declared = hn)" if "byHost sv hn = Some r" for hn r
    using map_of_SomeD [OF that [unfolded byHost_def]] by auto
  have "resolved \<in> set (sv_resolved sv) \<and> (\<forall>i. pinned = Some i \<longrightarrow> app_id (ra_app resolved) = i) \<and>
      (\<exists>declared\<in>set (hosts (ra_app resolved)). normalizeHost declared = normalizeHost (url_host (rq_url fwd)))"
    using assms(2) by (auto simp: selectApp_def Let_def list_ex_iff split: option.splits if_splits dest!: mem host)
  with ok same show ?thesis by metis
qed

text \<open>A concrete run: the request of the key holder, forwarded by the composition.\<close>

definition sample_senv :: "(number, unit, unit) service_env" where
  "sample_senv = \<lparr>penv = sample_penv, env_uuidv7 = (\<lambda>w. (''fresh'', w)), env_wallclock = (\<lambda>w. (w, w)),
     env_withTarget = (\<lambda>u path query. u\<lparr>pathname := path, search := query\<rparr>)\<rparr>"

definition sample_service :: service where
  "sample_service = \<lparr>sv_resolved = [sample_resolved], sv_healthPath = ''/healthz''\<rparr>"

definition sample_forward :: verify_request where
  "sample_forward = \<lparr>vr_method = ''GET'',
     vr_url = \<lparr>protocol = ''http:'', hostname = ''auth'', port = ''8080'', pathname = ''/verify'', search = []\<rparr>,
     vr_headers = [(''authorization'', ''Bearer px_k''), (''x-request-id'', ''r1''), (''x-forwarded-method'', ''GET''),
       (''x-forwarded-uri'', ''/api/notes''), (''x-forwarded-host'', ''notes.example'')]\<rparr>"

definition sample_forwarded :: forwarded_request where
  "sample_forwarded = sample_request\<lparr>rq_headers := vr_headers sample_forward\<rparr>"

lemma sample_read: "readForwardedRequest sample_senv sample_forward ''r1'' = ReadOk sample_forwarded"
proof -
  have t: "splitRequestTarget ''/api/notes'' = \<lparr>rt_pathname = ''/api/notes'', rt_search = []\<rparr>" "isCanonicalPath ''/api/notes''"
    "HOST_PATTERN ''notes.example''" "startsWith ''/api/notes'' ''/''" by code_simp+
  have h: "hdr_get (vr_headers sample_forward) FORWARDED_URI_HEADER = Some ''/api/notes''"
    "hdr_get (vr_headers sample_forward) FORWARDED_METHOD_HEADER = Some ''GET''"
    "hdr_get (vr_headers sample_forward) FORWARDED_HOST_HEADER = Some ''notes.example''"
    "hdr_get (vr_headers sample_forward) FORWARDED_PROTO_HEADER = None" by code_simp+
  show ?thesis
    unfolding readForwardedRequest_def h
    by (simp add: t Let_def sample_senv_def sample_penv_def sample_env_def sample_parser_def url_host_def sample_forwarded_def sample_request_def)
qed

lemma sample_selected: "selectApp sample_service None (url_host (rq_url sample_forwarded)) = Some sample_resolved"
proof -
  have "url_host (rq_url sample_forwarded) = ''notes.example''" by (simp add: sample_forwarded_def sample_request_def url_host_def)
  then show ?thesis
    by (simp add: selectApp_def byHost_def sample_service_def sample_resolved_def sample_app_def)
qed

theorem selected_entry_declares_host_witness:
  "app_id (ra_app sample_resolved) = ''notes@prod'' \<and> sample_resolved \<in> set (sv_resolved sample_service) \<and>
   isCanonicalPath (rq_rawPath sample_forwarded)"
  using selected_entry_declares_host [OF sample_read sample_selected] by (simp add: sample_audience sample_app_def)

lemma sample_served:
  "\<exists>r s1 a. verifyService sample_senv sample_service sample_forward (sample_state None) = (r, s1) \<and> r = renderAllow a ''r1'' \<and>
     al_token a = Some ''good''"
proof -
  have h: "hdr_get (vr_headers sample_forward) ''Authorization'' = Some ''Bearer px_k''"
    "hdr_get (vr_headers sample_forward) ORIGIN_HEADER = None"
    "hdr_get (vr_headers sample_forward) REQUEST_ID_HEADER = Some ''r1''" by code_simp+
  obtain a s1 where a: "authorize sample_penv sample_resolved sample_forwarded (sample_state None) = (Allow a, s1)" "al_token a = Some ''good''"
    using sample_allowed_like [of None sample_forwarded] h by (auto simp: opt_get_def sample_forwarded_def sample_request_def)
  have p: "''/verify'' \<noteq> OAUTH_METADATA_VERIFY_PATH" "''/api/notes'' \<noteq> AUTH_CALLBACK_PATH" "''/api/notes'' \<noteq> AUTH_SIGNOUT_PATH"
    by (simp_all add: OAUTH_METADATA_VERIFY_PATH_def AUTH_CALLBACK_PATH_def AUTH_SIGNOUT_PATH_def)
  have d: "decide sample_senv sample_resolved sample_forwarded (sample_state None) = (Inr (Allow a), s1)"
    using a p by (simp add: decide_def sample_senv_def sample_forwarded_def sample_request_def)
  have f: "vr_method sample_forward = ''GET''" "pathname (vr_url sample_forward) = ''/verify''" "sv_healthPath sample_service = ''/healthz''"
    "env_searchParam (penv sample_senv) (vr_url sample_forward) APP_QUERY_PARAM = None"
    by (simp_all add: sample_forward_def sample_service_def sample_senv_def sample_penv_def)
  have i: "requestIdOf sample_senv sample_forward (sample_state None) = (''r1'', sample_state None)"
    by (simp add: requestIdOf_def h sample_senv_def)
  have "verifyService sample_senv sample_service sample_forward (sample_state None) = (renderAllow a ''r1'', s1)"
    unfolding verifyService_def i Let_def prod.case f sample_read forwarded_read.case sample_selected option.case d sum.case if_not_P [OF p(1)]
    by (simp add: answerDecision_def DEFAULT_VERIFY_PATH_def sample_forwarded_def sample_request_def Let_def)
  with a show ?thesis by blast
qed

theorem verify_success_sound_witness:
  "\<exists>r s1. verifyService sample_senv sample_service sample_forward (sample_state None) = (r, s1) \<and> rs_status r = 204 \<and>
     hdr_get (rs_headers r) PROXY_TOKEN_HEADER = Some ''good''"
proof -
  obtain r s1 a where r: "verifyService sample_senv sample_service sample_forward (sample_state None) = (r, s1)"
      "r = renderAllow a ''r1''" "al_token a = Some ''good''"
    using sample_served by blast
  have "rs_status r < 300" using r by (simp add: renderAllow_def Let_def)
  then have "rs_status r = 204"
    using verify_success_sound [OF r(1)]
    by (auto simp: sample_forward_def sample_service_def DEFAULT_VERIFY_PATH_def)
  with r renderAllow_headers(1) [of a "''r1''"] show ?thesis by metis
qed

subsection \<open>What a log line may show of a path\<close>

lemma indexOf_cut: "(case indexOf c s of None \<Rightarrow> s | Some n \<Rightarrow> take n s) = takeWhile (\<lambda>x. x \<noteq> c) s"
  by (induction s) (auto simp del: indexOf_None takeWhile_eq_all_conv split: option.splits)

definition shown_segment :: "string \<Rightarrow> string" where
  "shown_segment w = (if startsWith w API_KEY_PREFIX then API_KEY_PREFIX @ ''***'' else w)"

lemma set_joinWith: "set (joinWith sep ws) \<subseteq> set sep \<union> (\<Union>w\<in>set ws. set w)"
  by (induction sep ws rule: joinWith.induct) auto

lemma splitOn_chars: "w \<in> set (splitOn c s) \<Longrightarrow> set w \<subseteq> set s"
  by (drule splitOn_infix) auto

text \<open>a logged path shows no query, and of a segment that begins like an API key only the prefix; every other
  segment of the path is shown as it is, in its place.\<close>

theorem redactPath_hides_keys:
  "CHR ''?'' \<notin> set (redactPath p) \<and>
   splitOn (CHR ''/'') (redactPath p) = map shown_segment (splitOn (CHR ''/'') (takeWhile (\<lambda>c. c \<noteq> CHR ''?'') p)) \<and>
   (\<forall>w\<in>set (splitOn (CHR ''/'') (redactPath p)). startsWith w API_KEY_PREFIX \<longrightarrow> w = API_KEY_PREFIX @ ''***'')"
proof -
  let ?q = "takeWhile (\<lambda>c. c \<noteq> CHR ''?'') p"
  have key: "CHR ''/'' \<notin> set (API_KEY_PREFIX @ ''***'')" "CHR ''?'' \<notin> set (API_KEY_PREFIX @ ''***'')" by code_simp+
  have r: "redactPath p = joinWith ''/'' (map shown_segment (splitOn (CHR ''/'') ?q))"
    by (simp add: redactPath_def Let_def indexOf_cut shown_segment_def [abs_def])
  have "\<forall>w\<in>set (map shown_segment (splitOn (CHR ''/'') ?q)). CHR ''/'' \<notin> set w"
    using key by (auto simp: shown_segment_def dest: splitOn_no_sep)
  then have s: "splitOn (CHR ''/'') (redactPath p) = map shown_segment (splitOn (CHR ''/'') ?q)"
    unfolding r by (intro split_join) auto
  have "CHR ''?'' \<notin> set w" if "w \<in> set (map shown_segment (splitOn (CHR ''/'') ?q))" for w
    using that key by (auto simp: shown_segment_def dest!: splitOn_chars subsetD set_takeWhileD split: if_splits)
  then have "CHR ''?'' \<notin> (\<Union>w\<in>set (map shown_segment (splitOn (CHR ''/'') ?q)). set w)" by blast
  moreover have "CHR ''?'' \<notin> set ''/''" by simp
  ultimately have "CHR ''?'' \<notin> set (redactPath p)"
    unfolding r using set_joinWith [of "''/''" "map shown_segment (splitOn (CHR ''/'') ?q)"] by blast
  with s show ?thesis by (auto simp: shown_segment_def split: if_splits)
qed

theorem redactPath_hides_keys_witness:
  "redactPath ''/a/px_secret/b?k=px_v'' = ''/a/px_***/b'' \<and> CHR ''?'' \<notin> set (redactPath ''/a/px_secret/b?k=px_v'')"
proof -
  have "redactPath ''/a/px_secret/b?k=px_v'' = ''/a/px_***/b''" by code_simp
  with redactPath_hides_keys [of "''/a/px_secret/b?k=px_v''"] show ?thesis by simp
qed

end
