(* ===== verification/Iam_Gateway.thy ===== *)
theory Iam_Gateway
  imports Authorizer_Outcomes
begin

text \<open>
  The HTTP transport of the authorizer's IAM calls, \<open>HttpIamGateway\<close> of \<open>packages/proxy-core/src/iam.ts\<close>, and the key-set
  reader of \<open>packages/jwks/src/parse.ts\<close> it uses. \<open>fetch\<close> is a parameter: it answers a status and a body, or throws
  (\<^term>\<open>None\<close>; a timeout throws too); a body whose \<open>json()\<close> rejects is \<^term>\<open>None\<close>. An operation that throws
  \<open>IamUnavailableError\<close> answers \<^term>\<open>None\<close>, as the fields of \<open>proxy_env\<close> do.
\<close>

subsection \<open>Requests\<close>

record http_request =
  hr_method :: string
  hr_url :: string
  hr_headers :: headers
  hr_body :: "string option"

record http_response =
  hs_status :: nat
  hs_json :: "json option"

type_synonym 'w fetch = "http_request \<Rightarrow> 'w \<Rightarrow> http_response option \<times> 'w"

record 'w http_iam_gateway =
  gw_origin :: string
  gw_key :: "string option"
  gw_fetch :: "'w fetch"

text \<open>\<open>replace(/\/+$/, '')\<close>.\<close>

definition strip_trailing :: "string \<Rightarrow> string" where
  "strip_trailing s = rev (dropWhile (\<lambda>c. c = CHR ''/'') (rev s))"

definition newHttpIamGateway :: "string \<Rightarrow> string option \<Rightarrow> 'w fetch \<Rightarrow> 'w http_iam_gateway" where
  "newHttpIamGateway origin key f = \<lparr>gw_origin = strip_trailing origin, gw_key = key, gw_fetch = f\<rparr>"

definition request_of :: "'w http_iam_gateway \<Rightarrow> string \<Rightarrow> string option \<Rightarrow> http_request" where
  "request_of gw path body =
     (let h0 = hdr_set [] ''accept'' ''application/json'';
          h1 = (if body = None then h0 else hdr_set h0 ''content-type'' ''application/json'');
          h2 = (case gw_key gw of None \<Rightarrow> h1 | Some k \<Rightarrow> hdr_set h1 ''authorization'' (''Bearer '' @ k)) in
      \<lparr>hr_method = (if body = None then ''GET'' else ''POST''), hr_url = gw_origin gw @ path, hr_headers = h2, hr_body = body\<rparr>)"

text \<open>\<open>send\<close>: the response, unless the fetch threw or its status is not of the 200s.\<close>

definition send :: "'w http_iam_gateway \<Rightarrow> string \<Rightarrow> string option \<Rightarrow> 'w \<Rightarrow> http_response option \<times> 'w" where
  "send gw path body w =
     (case gw_fetch gw (request_of gw path body) w of
        (None, w1) \<Rightarrow> (None, w1)
      | (Some r, w1) \<Rightarrow> (if 200 \<le> hs_status r \<and> hs_status r < 300 then (Some r, w1) else (None, w1)))"

text \<open>The body of a post: an object of texts, in the order the caller wrote it. What it answers is the JSON, \<open>null\<close> when it cannot
  be read.\<close>

definition post :: "'w http_iam_gateway \<Rightarrow> string \<Rightarrow> (string \<times> string) list \<Rightarrow> 'w \<Rightarrow> json option \<times> 'w" where
  "post gw path payload w =
     (case send gw path (Some (stringify natText (JObj (map (apsnd JStr) payload)))) w of
        (None, w1) \<Rightarrow> (None, w1)
      | (Some r, w1) \<Rightarrow> (Some (case hs_json r of Some j \<Rightarrow> j | None \<Rightarrow> JNull), w1))"

subsection \<open>Replies\<close>

definition text_of :: "json \<Rightarrow> string \<Rightarrow> string option" where
  "text_of j k = (case j of JObj _ \<Rightarrow> stringField (Some j) k | _ \<Rightarrow> None)"

definition nonempty_of :: "json \<Rightarrow> string \<Rightarrow> string option" where
  "nonempty_of j k = (case text_of j k of Some s \<Rightarrow> if s = [] then None else Some s | None \<Rightarrow> None)"

definition finite_of :: "json \<Rightarrow> string \<Rightarrow> number option" where
  "finite_of j k = (case j of JObj _ \<Rightarrow> numberField (Some j) k | _ \<Rightarrow> None)"

definition flag_of :: "json \<Rightarrow> bool option" where
  "flag_of j = (case j of JObj _ \<Rightarrow> (case propOf (Some j) ''ok'' of Some (JBool b) \<Rightarrow> Some b | _ \<Rightarrow> None) | _ \<Rightarrow> None)"

text \<open>The three result schemas: a success with its fields, or a denial with its reason; \<^term>\<open>None\<close> for anything else.\<close>

definition mintResultSchema :: "json \<Rightarrow> (string \<times> number + string) option" where
  "mintResultSchema j =
     (case flag_of j of
        Some True \<Rightarrow> (case (nonempty_of j ''token'', finite_of j ''expiresAt'') of (Some t, Some e) \<Rightarrow> Some (Inl (t, e)) | _ \<Rightarrow> None)
      | Some False \<Rightarrow> map_option Inr (text_of j ''reason'')
      | None \<Rightarrow> None)"

definition delegationResultSchema :: "json \<Rightarrow> (string \<times> number + string) option" where
  "delegationResultSchema j =
     (case flag_of j of
        Some True \<Rightarrow> (case (nonempty_of j ''grant'', finite_of j ''expiresAt'') of (Some t, Some e) \<Rightarrow> Some (Inl (t, e)) | _ \<Rightarrow> None)
      | Some False \<Rightarrow> map_option Inr (text_of j ''reason'')
      | None \<Rightarrow> None)"

definition exchangeResultSchema :: "json \<Rightarrow> (string \<times> string \<times> number + string) option" where
  "exchangeResultSchema j =
     (case flag_of j of
        Some True \<Rightarrow>
          (case (nonempty_of j ''session'', nonempty_of j ''returnUrl'', finite_of j ''expiresAt'') of
             (Some c, Some u, Some e) \<Rightarrow> Some (Inl (c, u, e)) | _ \<Rightarrow> None)
      | Some False \<Rightarrow> map_option Inr (text_of j ''reason'')
      | None \<Rightarrow> None)"

definition reasonOf :: "string \<Rightarrow> (string \<times> 'r) list \<Rightarrow> 'r \<Rightarrow> 'r" where
  "reasonOf value allowed fallback = (case map_of allowed value of Some r \<Rightarrow> r | None \<Rightarrow> fallback)"

subsection \<open>Operations\<close>

definition mintToken :: "'w http_iam_gateway \<Rightarrow> string \<Rightarrow> string \<Rightarrow> string \<Rightarrow> 'w \<Rightarrow> mint_token_reason mint_reply option \<times> 'w" where
  "mintToken gw app cookie requestId w =
     (case post gw ''/auth/mint/session'' [(''app'', app), (''session'', cookie), (''requestId'', requestId)] w of
        (None, w1) \<Rightarrow> (None, w1)
      | (Some j, w1) \<Rightarrow>
          (case mintResultSchema j of
             None \<Rightarrow> None
           | Some (Inl (t, e)) \<Rightarrow> Some (Minted t e)
           | Some (Inr reason) \<Rightarrow> Some (MintDenied (reasonOf reason
               [(''no_session'', MT_no_session), (''invalid_session'', MT_invalid_session), (''unknown_principal'', MT_unknown_principal),
                (''disabled'', MT_disabled), (''token_too_large'', MT_token_too_large)] MT_invalid_session)), w1))"

definition mintFromKey :: "'w http_iam_gateway \<Rightarrow> string \<Rightarrow> string \<Rightarrow> string \<Rightarrow> 'w \<Rightarrow> mint_key_reason mint_reply option \<times> 'w" where
  "mintFromKey gw app key requestId w =
     (case post gw ''/auth/mint/key'' [(''app'', app), (''key'', key), (''requestId'', requestId)] w of
        (None, w1) \<Rightarrow> (None, w1)
      | (Some j, w1) \<Rightarrow>
          (case mintResultSchema j of
             None \<Rightarrow> None
           | Some (Inl (t, e)) \<Rightarrow> Some (Minted t e)
           | Some (Inr reason) \<Rightarrow> Some (MintDenied (reasonOf reason
               [(''invalid_key'', MK_invalid_key), (''unknown_principal'', MK_unknown_principal), (''disabled'', MK_disabled),
                (''token_too_large'', MK_token_too_large)] MK_invalid_key)), w1))"

text \<open>The authorizer reads no reason of a denied exchange, so the reply has none.\<close>

definition exchangeAuthCode :: "'w http_iam_gateway \<Rightarrow> string \<Rightarrow> string \<Rightarrow> string \<Rightarrow> string \<Rightarrow> 'w \<Rightarrow> exchange_reply option \<times> 'w" where
  "exchangeAuthCode gw app code verifier requestId w =
     (case post gw ''/auth/mint/exchange'' [(''app'', app), (''code'', code), (''verifier'', verifier), (''requestId'', requestId)] w of
        (None, w1) \<Rightarrow> (None, w1)
      | (Some j, w1) \<Rightarrow>
          (case exchangeResultSchema j of
             None \<Rightarrow> None
           | Some (Inl (c, u, e)) \<Rightarrow> Some (Exchanged c u e)
           | Some (Inr _) \<Rightarrow> Some ExchangeDenied, w1))"

definition requestDelegation :: "'w http_iam_gateway \<Rightarrow> string \<Rightarrow> string \<Rightarrow> string \<Rightarrow> string \<Rightarrow> 'w \<Rightarrow> delegation_reply option \<times> 'w" where
  "requestDelegation gw app credential requestId endpoint w =
     (case post gw ''/auth/mint/delegation''
        [(''app'', app), (''credential'', credential), (''requestId'', requestId), (''endpoint'', endpoint)] w of
        (None, w1) \<Rightarrow> (None, w1)
      | (Some j, w1) \<Rightarrow>
          (case delegationResultSchema j of
             None \<Rightarrow> None
           | Some (Inl (g, _)) \<Rightarrow> Some (Granted g)
           | Some (Inr _) \<Rightarrow> Some DelegationDenied, w1))"

text \<open>A public key is its own fields among the seven, in that order; a set with one member that is no such key is refused whole.\<close>

type_synonym jwk = "(string \<times> string) list"

definition JWK_FIELDS :: "string list" where
  "JWK_FIELDS = [''kty'', ''crv'', ''x'', ''y'', ''kid'', ''alg'', ''use'']"

definition publicJwkSchema :: "json \<Rightarrow> jwk option" where
  "publicJwkSchema raw =
     (case raw of
        JObj _ \<Rightarrow>
          (let fields = filter (\<lambda>f. propOf (Some raw) f \<noteq> None) JWK_FIELDS in
           if propOf (Some raw) ''kty'' = Some (JStr ''EC'') \<and> list_all (\<lambda>f. stringField (Some raw) f \<noteq> None) fields
           then Some (map (\<lambda>f. (f, the (stringField (Some raw) f))) fields) else None)
      | _ \<Rightarrow> None)"

fun parse_keys :: "json list \<Rightarrow> jwk list option" where
  "parse_keys [] = Some []"
| "parse_keys (j # js) =
     (case publicJwkSchema j of None \<Rightarrow> None | Some k \<Rightarrow> map_option (Cons k) (parse_keys js))"

definition parseJwks :: "json \<Rightarrow> jwk list option" where
  "parseJwks body =
     (case body of
        JObj _ \<Rightarrow> (case propOf (Some body) ''keys'' of Some (JArr ks) \<Rightarrow> parse_keys ks | _ \<Rightarrow> None)
      | _ \<Rightarrow> None)"

definition getJwks :: "'w http_iam_gateway \<Rightarrow> 'w \<Rightarrow> jwk list option \<times> 'w" where
  "getJwks gw w =
     (case send gw ''/.well-known/jwks.json'' None w of
        (None, w1) \<Rightarrow> (None, w1)
      | (Some r, w1) \<Rightarrow> (parseJwks (case hs_json r of Some j \<Rightarrow> j | None \<Rightarrow> JNull), w1))"

text \<open>The authorizer over this transport.\<close>

definition withHttpIam :: "'w http_iam_gateway \<Rightarrow> ('w, jwk list, 'k) proxy_env \<Rightarrow> ('w, jwk list, 'k) proxy_env" where
  "withHttpIam gw E = E\<lparr>venv := (venv E)\<lparr>env_getJwks := getJwks gw\<rparr>, iam_mintToken := mintToken gw, iam_mintFromKey := mintFromKey gw,
     iam_exchangeAuthCode := exchangeAuthCode gw, delegations := Some (requestDelegation gw)\<rparr>"

subsection \<open>It fails closed\<close>

text \<open>The fetch of this request answered in the 200s with this JSON.\<close>

definition answered :: "'w http_iam_gateway \<Rightarrow> string \<Rightarrow> 'w \<Rightarrow> json \<Rightarrow> bool" where
  "answered gw path w j \<longleftrightarrow>
     (\<exists>body r w'. gw_fetch gw (request_of gw path (Some body)) w = (Some r, w') \<and> 200 \<le> hs_status r \<and> hs_status r < 300 \<and>
        (hs_json r = Some j \<or> hs_json r = None \<and> j = JNull))"

lemma send_Some:
  assumes "send gw path body w = (Some r, w')"
  shows "gw_fetch gw (request_of gw path body) w = (Some r, w')" "200 \<le> hs_status r" "hs_status r < 300"
  using assms by (auto simp: send_def split: prod.splits option.splits if_splits)

lemma post_answered:
  assumes "post gw path payload w = (Some j, w')"
  shows "answered gw path w j"
proof -
  define body where "body = stringify natText (JObj (map (apsnd JStr) payload))"
  obtain r where r: "send gw path (Some body) w = (Some r, w')" and j: "j = (case hs_json r of Some i \<Rightarrow> i | None \<Rightarrow> JNull)"
    using assms unfolding post_def body_def [symmetric]
    by (cases "send gw path (Some body) w"; cases "fst (send gw path (Some body) w)") auto
  show ?thesis using send_Some [OF r] j unfolding answered_def by (cases "hs_json r") auto
qed

lemma schema_flags:
  "mintResultSchema j = Some (Inl (t, e)) \<Longrightarrow> flag_of j = Some True \<and> nonempty_of j ''token'' = Some t"
  "mintResultSchema j = Some (Inr r) \<Longrightarrow> flag_of j = Some False"
  "delegationResultSchema j = Some (Inl (t, e)) \<Longrightarrow> flag_of j = Some True \<and> nonempty_of j ''grant'' = Some t"
  "exchangeResultSchema j = Some (Inl (c, u, e)) \<Longrightarrow>
     flag_of j = Some True \<and> nonempty_of j ''session'' = Some c \<and> nonempty_of j ''returnUrl'' = Some u"
  by (auto simp: mintResultSchema_def delegationResultSchema_def exchangeResultSchema_def split: option.splits bool.splits)

lemma nonempty_of_nonempty: "nonempty_of j k = Some t \<Longrightarrow> t \<noteq> []"
  by (auto simp: nonempty_of_def split: option.splits if_splits)

lemma mint_answers:
  "mintToken gw a c r w = (Some (Minted t e), w') \<Longrightarrow>
     \<exists>j. answered gw ''/auth/mint/session'' w j \<and> flag_of j = Some True \<and> nonempty_of j ''token'' = Some t"
  "mintFromKey gw a c r w = (Some (Minted t e), w') \<Longrightarrow>
     \<exists>j. answered gw ''/auth/mint/key'' w j \<and> flag_of j = Some True \<and> nonempty_of j ''token'' = Some t"
  unfolding mintToken_def mintFromKey_def
  by (auto split: prod.splits option.splits sum.splits dest!: schema_flags post_answered)

lemma exchange_answers:
  "exchangeAuthCode gw a c v r w = (Some (Exchanged s u e), w') \<Longrightarrow>
     \<exists>j. answered gw ''/auth/mint/exchange'' w j \<and> flag_of j = Some True \<and> nonempty_of j ''session'' = Some s \<and>
       nonempty_of j ''returnUrl'' = Some u"
  "requestDelegation gw a c r i w = (Some (Granted g), w') \<Longrightarrow>
     \<exists>j. answered gw ''/auth/mint/delegation'' w j \<and> flag_of j = Some True \<and> nonempty_of j ''grant'' = Some g"
  unfolding exchangeAuthCode_def requestDelegation_def
  by (auto split: prod.splits option.splits sum.splits dest!: schema_flags post_answered)

text \<open>The fetch threw, or its status is not of the 200s.\<close>

definition no_success :: "'w http_iam_gateway \<Rightarrow> 'w \<Rightarrow> bool" where
  "no_success gw w \<longleftrightarrow> (\<forall>req r. fst (gw_fetch gw req w) = Some r \<longrightarrow> \<not> (200 \<le> hs_status r \<and> hs_status r < 300))"

lemma send_no_success: "no_success gw w \<Longrightarrow> fst (send gw path body w) = None"
  by (auto simp: no_success_def send_def split: prod.splits option.splits) (metis fst_conv)+

lemma post_no_success: "no_success gw w \<Longrightarrow> fst (post gw path payload w) = None"
  using send_no_success [of gw w path "Some (stringify natText (JObj (map (apsnd JStr) payload)))"]
  by (auto simp: post_def split: prod.splits option.splits)

lemma operations_no_success:
  assumes "no_success gw w"
  shows "fst (mintToken gw app c r w) = None" "fst (mintFromKey gw app c r w) = None" "fst (exchangeAuthCode gw app c v r w) = None"
    "fst (requestDelegation gw app c r i w) = None" "fst (getJwks gw w) = None"
  using post_no_success [OF assms] send_no_success [OF assms]
  by (auto simp: mintToken_def mintFromKey_def exchangeAuthCode_def requestDelegation_def getJwks_def split: prod.splits option.splits)
    (metis fst_conv option.distinct(1))+

text \<open>C32: the gateway fails closed. A token, a session or a grant is only ever one that IAM named, not empty, in an answer of the
  200s whose JSON says \<open>ok: true\<close>; and while the fetch throws or answers any other status every operation, the key set
  included, is unavailable, which is no decision at all.\<close>

theorem http_gateway_fail_closed:
  "(\<forall>w'. mintToken gw app c r w = (Some (Minted t e), w') \<longrightarrow>
      (\<exists>j. answered gw ''/auth/mint/session'' w j \<and> flag_of j = Some True \<and> nonempty_of j ''token'' = Some t \<and> t \<noteq> [])) \<and>
   (\<forall>w'. mintFromKey gw app c r w = (Some (Minted t e), w') \<longrightarrow>
      (\<exists>j. answered gw ''/auth/mint/key'' w j \<and> flag_of j = Some True \<and> nonempty_of j ''token'' = Some t \<and> t \<noteq> [])) \<and>
   (\<forall>w'. exchangeAuthCode gw app c v r w = (Some (Exchanged t u e), w') \<longrightarrow>
      (\<exists>j. answered gw ''/auth/mint/exchange'' w j \<and> flag_of j = Some True \<and> nonempty_of j ''session'' = Some t \<and>
        nonempty_of j ''returnUrl'' = Some u \<and> t \<noteq> [])) \<and>
   (\<forall>w'. requestDelegation gw app c r i w = (Some (Granted t), w') \<longrightarrow>
      (\<exists>j. answered gw ''/auth/mint/delegation'' w j \<and> flag_of j = Some True \<and> nonempty_of j ''grant'' = Some t \<and> t \<noteq> [])) \<and>
   (no_success gw w \<longrightarrow>
      fst (mintToken gw app c r w) = None \<and> fst (mintFromKey gw app c r w) = None \<and> fst (exchangeAuthCode gw app c v r w) = None \<and>
      fst (requestDelegation gw app c r i w) = None \<and> fst (getJwks gw w) = None)"
  by (intro conjI allI impI)
    (drule mint_answers exchange_answers; use nonempty_of_nonempty in blast | rule operations_no_success, assumption)+

definition sample_gateway :: "unit http_iam_gateway" where
  "sample_gateway = newHttpIamGateway ''https://iam.example/'' None
     (\<lambda>req w. (if hr_url req = ''https://iam.example/auth/mint/key''
        then Some \<lparr>hs_status = 200, hs_json = Some (JObj [(''ok'', JBool True), (''token'', JStr ''t1''), (''expiresAt'', JNum 900)])\<rparr>
        else Some \<lparr>hs_status = 404, hs_json = None\<rparr>, w))"

theorem http_gateway_fail_closed_witness:
  "(\<exists>j. answered sample_gateway ''/auth/mint/key'' () j \<and> flag_of j = Some True \<and> nonempty_of j ''token'' = Some ''t1'' \<and> ''t1'' \<noteq> [])"
proof -
  have "mintFromKey sample_gateway ''notes'' ''px_k'' ''r1'' () = (Some (Minted ''t1'' 900), ())" by code_simp
  then show ?thesis
    using http_gateway_fail_closed [of sample_gateway "''notes''" "''px_k''" "''r1''" "()" "''t1''" 900] by blast
qed


definition sample_http_env :: "(number, jwk list, unit) proxy_env" where
  "sample_http_env = withHttpIam (newHttpIamGateway ''https://iam.example'' (Some ''k'') (\<lambda>req w. (None, w)))
     \<lparr>venv = \<lparr>env_now = (\<lambda>w. (w, w + 1)), env_getJwks = (\<lambda>w. (None, w)), env_createLocalJWKSet = (\<lambda>_. Some ()),
        env_jwtVerify = (\<lambda>token keys issuer audience w. (JoseError, w)),
        env_parseUrl = sample_parser, env_issuer = ''https://iam.example'',
        env_ttlSeconds = JWKS_TTL_SECONDS, env_refetchCooldownSeconds = JWKS_REFETCH_COOLDOWN_SECONDS\<rparr>,
      iam_mintToken = (\<lambda>app cookie rid w. (None, w)), iam_mintFromKey = (\<lambda>app key rid w. (None, w)),
      iam_exchangeAuthCode = (\<lambda>app code verifier rid w. (None, w)), delegations = None,
      env_random = (\<lambda>n w. (replicate n (CHR ''x''), w)), env_sha256 = (\<lambda>s. s), env_resolveUrl = (\<lambda>path origin. None),
      env_urlText = (\<lambda>u. url_origin u @ pathname u @ search u), env_searchParam = (\<lambda>u name. None)\<rparr>"


end
