(* ===== verification/Deploy_Locks.thy ===== *)
theory Deploy_Locks
  imports Prelude
begin

text \<open>
  The lease table of a deploy target (\<open>packages/platform/src/deploy-locks-sql.ts\<close>) and the lease a run of the control
  plane holds on it (\<open>packages/control/src/lease.ts\<close>). A statement is atomic and compares with the time its caller bound
  to it. The interface \<open>DeployLocks\<close> is the locale \<open>lease_store\<close>, which the SQL table interprets; the life of the leases
  over one table is the step relation \<open>lease_step\<close>, in which a statement runs some time after the call that bound its
  time, and a renewal may be answered late, time out or fail. Times are milliseconds of one clock that does not run
  backwards, and no two leases have one holder id (\<open>uuidv7\<close>).
\<close>

type_synonym ms = int

subsection \<open>The interface\<close>

locale lease_store =
  fixes lease_of :: "'s \<Rightarrow> string \<Rightarrow> (string \<times> ms) option"
    and acq :: "ms \<Rightarrow> string \<Rightarrow> string \<Rightarrow> ms \<Rightarrow> 's \<Rightarrow> bool \<times> 's"
    and ren :: "ms \<Rightarrow> string \<Rightarrow> string \<Rightarrow> ms \<Rightarrow> 's \<Rightarrow> bool \<times> 's"
    and rel :: "string \<Rightarrow> string \<Rightarrow> 's \<Rightarrow> 's"
  assumes acq_iff: "fst (acq now k h ttl s) \<longleftrightarrow> (\<forall>h' e. lease_of s k = Some (h', e) \<longrightarrow> e \<le> now)"
    and acq_state: "lease_of (snd (acq now k h ttl s)) =
      (if fst (acq now k h ttl s) then (lease_of s)(k \<mapsto> (h, now + ttl)) else lease_of s)"
    and ren_iff: "fst (ren now k h ttl s) \<longleftrightarrow> (\<exists>e. lease_of s k = Some (h, e) \<and> now < e)"
    and ren_state: "lease_of (snd (ren now k h ttl s)) =
      (if fst (ren now k h ttl s) then (lease_of s)(k \<mapsto> (h, now + ttl)) else lease_of s)"
    and rel_state: "lease_of (rel k h s) =
      (if \<exists>e. lease_of s k = Some (h, e) then (lease_of s)(k := None) else lease_of s)"
begin

text \<open>A live lease is refused to everyone, its own holder included.\<close>

lemma not_reentrant: "fst (acq now k h ttl s) \<Longrightarrow> lease_of s k = Some (h', e) \<Longrightarrow> e \<le> now"
  by (auto simp: acq_iff)

lemma acquired: "fst (acq now k h ttl s) \<Longrightarrow> lease_of (snd (acq now k h ttl s)) k = Some (h, now + ttl)"
  by (simp add: acq_state)

text \<open>A lease past its expiry is taken over.\<close>

lemma takes_over: "lease_of s k = Some (h', e) \<Longrightarrow> e \<le> now \<Longrightarrow> fst (acq now k h ttl s)"
  by (simp add: acq_iff)

text \<open>A statement of a holder changes only its own lease, or one that has expired.\<close>

lemma acq_keeps: "lease_of s k' = Some (h', e) \<Longrightarrow> now < e \<Longrightarrow> lease_of (snd (acq now k h ttl s)) k' = Some (h', e)"
  by (auto simp: acq_state acq_iff)

lemma ren_keeps: "lease_of s k' = Some (h', e) \<Longrightarrow> h' \<noteq> h \<Longrightarrow> lease_of (snd (ren now k h ttl s)) k' = Some (h', e)"
  by (auto simp: ren_state ren_iff)

lemma rel_keeps: "lease_of s k' = Some (h', e) \<Longrightarrow> h' \<noteq> h \<Longrightarrow> lease_of (rel k h s) k' = Some (h', e)"
  by (auto simp: rel_state)

lemma ren_own:
  "lease_of s k' = Some (h, e) \<Longrightarrow>
   lease_of (snd (ren now k h ttl s)) k' = Some (h, e) \<or> k' = k \<and> lease_of (snd (ren now k h ttl s)) k' = Some (h, now + ttl)"
  by (auto simp: ren_state ren_iff)

text \<open>A bound on every expiry is kept.\<close>

lemma acq_expiry: "(\<And>k h e. lease_of s k = Some (h, e) \<Longrightarrow> e \<le> b) \<Longrightarrow> now + ttl \<le> b \<Longrightarrow>
    lease_of (snd (acq now k h ttl s)) k' = Some (h', e') \<Longrightarrow> e' \<le> b"
  by (auto simp: acq_state split: if_splits)

lemma ren_expiry: "(\<And>k h e. lease_of s k = Some (h, e) \<Longrightarrow> e \<le> b) \<Longrightarrow> now + ttl \<le> b \<Longrightarrow>
    lease_of (snd (ren now k h ttl s)) k' = Some (h', e') \<Longrightarrow> e' \<le> b"
  by (auto simp: ren_state split: if_splits)

lemma rel_expiry: "(\<And>k h e. lease_of s k = Some (h, e) \<Longrightarrow> e \<le> b) \<Longrightarrow> lease_of (rel k h s) k' = Some (h', e') \<Longrightarrow> e' \<le> b"
  by (auto simp: rel_state split: if_splits)

end

subsection \<open>The SQL table\<close>

record lock_row =
  lr_holder :: string
  lr_expires :: ms

type_synonym lock_table = "string \<rightharpoonup> lock_row"

definition DEFAULT_TABLE :: string where "DEFAULT_TABLE = ''deploy_locks''"

definition IDENTIFIER :: "string \<Rightarrow> bool" where
  "IDENTIFIER s \<longleftrightarrow> s \<noteq> [] \<and> (is_alpha (hd s) \<or> hd s = CHR ''_'') \<and> list_all (\<lambda>c. is_alnum c \<or> c = CHR ''_'') (tl s)"

text \<open>The constructor: the table its statements name, or \<^term>\<open>None\<close> where it throws.\<close>

definition newSqlDeployLocks :: "string option \<Rightarrow> string option" where
  "newSqlDeployLocks opt = (let t = (case opt of Some t \<Rightarrow> t | None \<Rightarrow> DEFAULT_TABLE) in if IDENTIFIER t then Some t else None)"

text \<open>The conditional upsert: whether it changed a row, and the table after it.\<close>

definition acquire :: "ms \<Rightarrow> string \<Rightarrow> string \<Rightarrow> ms \<Rightarrow> lock_table \<Rightarrow> bool \<times> lock_table" where
  "acquire now key holder ttlMs t =
     (case t key of
        None \<Rightarrow> (True, t(key \<mapsto> \<lparr>lr_holder = holder, lr_expires = now + ttlMs\<rparr>))
      | Some r \<Rightarrow>
          (if lr_expires r \<le> now then (True, t(key \<mapsto> \<lparr>lr_holder = holder, lr_expires = now + ttlMs\<rparr>)) else (False, t)))"

definition renew :: "ms \<Rightarrow> string \<Rightarrow> string \<Rightarrow> ms \<Rightarrow> lock_table \<Rightarrow> bool \<times> lock_table" where
  "renew now key holder ttlMs t =
     (case t key of
        None \<Rightarrow> (False, t)
      | Some r \<Rightarrow>
          (if lr_holder r = holder \<and> lr_expires r > now then (True, t(key \<mapsto> r\<lparr>lr_expires := now + ttlMs\<rparr>)) else (False, t)))"

definition release :: "string \<Rightarrow> string \<Rightarrow> lock_table \<Rightarrow> lock_table" where
  "release key holder t =
     (case t key of None \<Rightarrow> t | Some r \<Rightarrow> if lr_holder r = holder then t(key := None) else t)"

definition row_lease :: "lock_table \<Rightarrow> string \<Rightarrow> (string \<times> ms) option" where
  "row_lease t k = map_option (\<lambda>r. (lr_holder r, lr_expires r)) (t k)"

interpretation sql: lease_store row_lease acquire renew release
  by unfold_locales
     (auto simp: row_lease_def acquire_def renew_def release_def fun_eq_iff split: option.splits)

subsection \<open>A held lease\<close>

definition LEASE_TTL_MS :: ms where "LEASE_TTL_MS = 90000"
definition LEASE_RENEW_MS :: ms where "LEASE_RENEW_MS = 30000"
definition LOCAL_TTL_MS :: ms where "LOCAL_TTL_MS = LEASE_TTL_MS - LEASE_RENEW_MS"

definition runLeaseKey :: "string \<Rightarrow> string \<Rightarrow> string" where "runLeaseKey appId env = appId @ '':'' @ env"
definition namespaceLeaseKey :: "string \<Rightarrow> string" where "namespaceLeaseKey namespaceId = ''namespace:'' @ namespaceId"
definition CATALOG_LEASE_KEY :: string where "CATALOG_LEASE_KEY = ''operations-catalog-projection''"

text \<open>Where the renewal loop is: waiting for the next period, having called \<open>renew\<close> when it read \<open>started\<close>, or ended.\<close>

datatype renewal = Waiting | Renewing ms | Ended

record held_lease =
  hl_deadline :: ms
  hl_aborted :: bool
  hl_renewal :: renewal

definition newHeldLease :: "ms \<Rightarrow> held_lease" where
  "newHeldLease acquiredAt = \<lparr>hl_deadline = acquiredAt + LOCAL_TTL_MS, hl_aborted = False, hl_renewal = Waiting\<rparr>"

definition abandon :: "held_lease \<Rightarrow> held_lease" where
  "abandon l = l\<lparr>hl_aborted := True\<rparr>"

text \<open>\<open>assertHeld\<close>: whether it returns (otherwise it throws \<open>lease_lost\<close>), and the lease after it.\<close>

definition assertHeld :: "ms \<Rightarrow> held_lease \<Rightarrow> bool \<times> held_lease" where
  "assertHeld now l = (let l1 = (if now \<ge> hl_deadline l then abandon l else l) in (\<not> hl_aborted l1, l1))"

record lease_fence =
  lf_holder :: string
  lf_nowMs :: ms

definition fence :: "ms \<Rightarrow> ms \<Rightarrow> string \<Rightarrow> held_lease \<Rightarrow> lease_fence option \<times> held_lease" where
  "fence now1 now2 holder l =
     (case assertHeld now1 l of (ok, l1) \<Rightarrow> (if ok then Some \<lparr>lf_holder = holder, lf_nowMs = now2\<rparr> else None, l1))"

definition assertWritten :: "bool \<Rightarrow> held_lease \<Rightarrow> bool \<times> held_lease" where
  "assertWritten changed l = (if changed then (True, l) else (False, abandon l))"

text \<open>The renewal loop, from one \<open>await\<close> to the next. \<open>renewStart\<close> is what follows the period's wait: the local deadline
  ends the loop, or \<open>renew\<close> is called. \<open>renewAnswer\<close> is what follows the race of the answer and the deadline's timer.\<close>

definition endLoop :: "held_lease \<Rightarrow> held_lease" where
  "endLoop l = (abandon l)\<lparr>hl_renewal := Ended\<rparr>"

definition renewStart :: "ms \<Rightarrow> held_lease \<Rightarrow> held_lease" where
  "renewStart started l = (if started \<ge> hl_deadline l then endLoop l else l\<lparr>hl_renewal := Renewing started\<rparr>)"

definition renewAnswer :: "ms \<Rightarrow> bool \<Rightarrow> held_lease \<Rightarrow> held_lease" where
  "renewAnswer started renewed l =
     (if \<not> renewed then endLoop l
      else (let l1 = l\<lparr>hl_deadline := started + LOCAL_TTL_MS\<rparr> in
            if hl_aborted l then endLoop l1 else l1\<lparr>hl_renewal := Waiting\<rparr>))"

subsection \<open>The leases over one table\<close>

text \<open>A statement that was called with a bound time: not run yet, or run with its answer.\<close>

datatype sql_call = NoCall | Issued ms | Answered ms bool

text \<open>A lease from the call of \<open>acquireLease\<close> on: its \<open>acquiredAt\<close> and the time bound to the acquire statement; the answer
  \<open>true\<close> received; \<open>null\<close> answered; the lease object with its current renewal statement.\<close>

datatype stage = Acquiring ms ms | Acquired ms | Refused | Held held_lease sql_call

record lease_sys =
  clock :: ms
  locks :: lock_table
  leases :: "string \<rightharpoonup> string \<times> stage"

definition put_stage :: "string \<Rightarrow> string \<Rightarrow> stage \<Rightarrow> lease_sys \<Rightarrow> lease_sys" where
  "put_stage h k g s = s\<lparr>leases := (leases s)(h \<mapsto> (k, g))\<rparr>"

inductive lease_step :: "lease_sys \<Rightarrow> lease_sys \<Rightarrow> bool" where
  tick: "clock s \<le> n \<Longrightarrow> lease_step s (s\<lparr>clock := n\<rparr>)"
| acquire_call: "leases s h = None \<Longrightarrow> clock s \<le> n \<Longrightarrow>
    lease_step s (put_stage h k (Acquiring (clock s) n) (s\<lparr>clock := n\<rparr>))"
| acquire_run: "leases s h = Some (k, Acquiring a n) \<Longrightarrow> acquire n k h LEASE_TTL_MS (locks s) = (ok, t) \<Longrightarrow>
    lease_step s (put_stage h k (if ok then Acquired a else Refused) (s\<lparr>locks := t\<rparr>))"
| construct: "leases s h = Some (k, Acquired a) \<Longrightarrow> lease_step s (put_stage h k (Held (newHeldLease a) NoCall) s)"
| renew_call: "leases s h = Some (k, Held l c) \<Longrightarrow> hl_renewal l = Waiting \<Longrightarrow> \<not> hl_aborted l \<Longrightarrow> clock s \<le> n \<Longrightarrow>
    l' = renewStart (clock s) l \<Longrightarrow>
    lease_step s (put_stage h k (Held l' (if hl_renewal l' = Ended then c else Issued n)) (s\<lparr>clock := n\<rparr>))"
| renew_run: "leases s h = Some (k, Held l (Issued n)) \<Longrightarrow> renew n k h LEASE_TTL_MS (locks s) = (ok, t) \<Longrightarrow>
    lease_step s (put_stage h k (Held l (Answered n ok)) (s\<lparr>locks := t\<rparr>))"
| renew_answer: "leases s h = Some (k, Held l (Answered n ok)) \<Longrightarrow> hl_renewal l = Renewing started \<Longrightarrow>
    lease_step s (put_stage h k (Held (renewAnswer started ok l) NoCall) s)"
| renew_end: "leases s h = Some (k, Held l c) \<Longrightarrow> lease_step s (put_stage h k (Held (endLoop l) c) s)"
| assert_held: "leases s h = Some (k, Held l c) \<Longrightarrow> lease_step s (put_stage h k (Held (snd (assertHeld (clock s) l)) c) s)"
| lost_write: "leases s h = Some (k, Held l c) \<Longrightarrow> lease_step s (put_stage h k (Held (snd (assertWritten False l)) c) s)"
| release_run: "leases s h = Some (k, Held l c) \<Longrightarrow> hl_aborted l \<Longrightarrow> hl_renewal l = Ended \<Longrightarrow>
    lease_step s (s\<lparr>locks := release k h (locks s)\<rparr>)"

inductive lease_reachable :: "lease_sys \<Rightarrow> bool" where
  start: "(\<And>k r. t k = Some r \<Longrightarrow> lr_expires r \<le> n + LEASE_TTL_MS) \<Longrightarrow> lease_reachable \<lparr>clock = n, locks = t, leases = (\<lambda>_. None)\<rparr>"
| step: "lease_reachable s \<Longrightarrow> lease_step s s' \<Longrightarrow> lease_reachable s'"

subsection \<open>The invariant\<close>

text \<open>The row of key \<open>k\<close> names \<open>h\<close> until at least \<open>e\<close>, or that time is past.\<close>

definition secured :: "lease_sys \<Rightarrow> string \<Rightarrow> string \<Rightarrow> ms \<Rightarrow> bool" where
  "secured s k h e \<longleftrightarrow> (\<exists>e'. row_lease (locks s) k = Some (h, e') \<and> e \<le> e') \<or> e \<le> clock s"

text \<open>The renewal loop has at most one statement under way, called at \<open>started\<close> with a time bound since then.\<close>

fun renewal_ok :: "lease_sys \<Rightarrow> string \<Rightarrow> string \<Rightarrow> held_lease \<Rightarrow> sql_call \<Rightarrow> bool" where
  "renewal_ok s k h l NoCall = (\<forall>started. hl_renewal l \<noteq> Renewing started)"
| "renewal_ok s k h l (Issued n) =
     (n \<le> clock s \<and> hl_deadline l \<le> n + LOCAL_TTL_MS \<and> hl_renewal l \<noteq> Waiting \<and> (\<forall>started. hl_renewal l = Renewing started \<longrightarrow> started \<le> n))"
| "renewal_ok s k h l (Answered n ok) =
     (n \<le> clock s \<and> hl_renewal l \<noteq> Waiting \<and>
      (\<forall>started. hl_renewal l = Renewing started \<longrightarrow> started \<le> n \<and> started \<le> clock s \<and> (ok \<longrightarrow> hl_aborted l \<or> secured s k h (n + LEASE_TTL_MS))))"

fun stage_ok :: "lease_sys \<Rightarrow> string \<Rightarrow> string \<Rightarrow> stage \<Rightarrow> bool" where
  "stage_ok s k h (Acquiring a n) = (a \<le> n \<and> n \<le> clock s)"
| "stage_ok s k h (Acquired a) = (a \<le> clock s \<and> secured s k h (a + LEASE_TTL_MS))"
| "stage_ok s k h Refused = True"
| "stage_ok s k h (Held l c) =
     (hl_deadline l \<le> clock s + LOCAL_TTL_MS \<and> (hl_aborted l \<or> secured s k h (hl_deadline l + LEASE_RENEW_MS)) \<and>
      (hl_renewal l = Ended \<longrightarrow> hl_aborted l) \<and> renewal_ok s k h l c)"

definition lease_inv :: "lease_sys \<Rightarrow> bool" where
  "lease_inv s \<longleftrightarrow> (\<forall>h k g. leases s h = Some (k, g) \<longrightarrow> stage_ok s k h g) \<and>
     (\<forall>k h e. row_lease (locks s) k = Some (h, e) \<longrightarrow> e \<le> clock s + LEASE_TTL_MS)"

lemma secured_mono: "secured s k h e \<Longrightarrow> e2 \<le> e \<Longrightarrow> secured s k h e2"
  by (force simp: secured_def)

text \<open>What one lease may assume of a step of another: time does not go back and what is secured stays so.\<close>

definition frame :: "lease_sys \<Rightarrow> lease_sys \<Rightarrow> string \<Rightarrow> bool" where
  "frame s s' h \<longleftrightarrow> clock s \<le> clock s' \<and> (\<forall>k e. secured s k h e \<longrightarrow> secured s' k h e)"

lemma stage_ok_frame: "frame s s' h \<Longrightarrow> stage_ok s k h g \<Longrightarrow> stage_ok s' k h g"
proof (cases g)
  case (Held l c)
  assume f: "frame s s' h" "stage_ok s k h g"
  have "renewal_ok s' k h l c" if "renewal_ok s k h l c"
    using that f(1) by (cases c) (force simp: frame_def)+
  with f Held show ?thesis by (force simp: frame_def)
qed (force simp: frame_def)+

lemma frame_clock: "clock s \<le> n \<Longrightarrow> frame s (s\<lparr>clock := n\<rparr>) h"
  by (auto simp: frame_def secured_def)

lemma frame_put [simp]: "frame s (put_stage h' k' g s') h = frame s s' h"
  by (simp add: frame_def secured_def put_stage_def)

lemma frame_refl [simp]: "frame s s h"
  by (simp add: frame_def)

lemma frame_acquire: "acquire n k h' ttl (locks s) = (ok, t) \<Longrightarrow> n \<le> clock s \<Longrightarrow> frame s (s\<lparr>locks := t\<rparr>) h"
proof -
  assume a: "acquire n k h' ttl (locks s) = (ok, t)" and n: "n \<le> clock s"
  have "secured (s\<lparr>locks := t\<rparr>) k2 h e" if sec: "secured s k2 h e" for k2 e
  proof -
    from sec consider e' where "row_lease (locks s) k2 = Some (h, e')" "e \<le> e'" | "e \<le> clock s"
      by (auto simp: secured_def)
    then show ?thesis
    proof cases
      case 1
      then show ?thesis
        using sql.acq_keeps [of "locks s" k2 h e' n k h' ttl] a n by (force simp: secured_def)
    qed (simp add: secured_def)
  qed
  then show ?thesis by (simp add: frame_def)
qed

lemma frame_renew: "renew n k h' ttl (locks s) = (ok, t) \<Longrightarrow> h \<noteq> h' \<Longrightarrow> frame s (s\<lparr>locks := t\<rparr>) h"
  using sql.ren_keeps [of "locks s" _ h _ h' n k ttl] by (fastforce simp: frame_def secured_def)

lemma frame_release: "h \<noteq> h' \<Longrightarrow> frame s (s\<lparr>locks := release k h' (locks s)\<rparr>) h"
  using sql.rel_keeps [of "locks s" _ h _ h' k] by (fastforce simp: frame_def secured_def)

text \<open>A step of the lease \<open>h\<close> keeps the invariant when the other leases are framed, its own new stage is right and no
  expiry is too far.\<close>

lemma lease_inv_put:
  assumes "lease_inv s" "\<And>h'. h' \<noteq> h \<Longrightarrow> frame s s' h'" "leases s' = leases s" "stage_ok (put_stage h k g s') k h g"
    and "\<And>k h e. row_lease (locks s') k = Some (h, e) \<Longrightarrow> e \<le> clock s' + LEASE_TTL_MS"
  shows "lease_inv (put_stage h k g s')"
  unfolding lease_inv_def
proof (intro conjI allI impI)
  fix h' k' g'
  assume l: "leases (put_stage h k g s') h' = Some (k', g')"
  show "stage_ok (put_stage h k g s') k' h' g'"
  proof (cases "h' = h")
    case True
    with l assms(4) show ?thesis by (simp add: put_stage_def)
  next
    case False
    with l assms(1,3) have "stage_ok s k' h' g'" by (simp add: put_stage_def lease_inv_def)
    with stage_ok_frame [of s "put_stage h k g s'" h'] assms(2) [OF False] show ?thesis by simp
  qed
next
  fix k' h' e
  assume "row_lease (locks (put_stage h k g s')) k' = Some (h', e)"
  with assms(5) show "e \<le> clock (put_stage h k g s') + LEASE_TTL_MS" by (simp add: put_stage_def)
qed

lemma lease_invD: "lease_inv s \<Longrightarrow> leases s h = Some (k, g) \<Longrightarrow> stage_ok s k h g"
  by (simp add: lease_inv_def)

lemma lease_inv_expiry: "lease_inv s \<Longrightarrow> row_lease (locks s) k = Some (h, e) \<Longrightarrow> clock s \<le> n \<Longrightarrow> e \<le> n + LEASE_TTL_MS"
  by (force simp: lease_inv_def)

lemma secured_put [simp]: "secured (put_stage h' k' g s) k h e = secured s k h e" "clock (put_stage h' k' g s) = clock s"
  by (simp_all add: secured_def put_stage_def)

lemma stage_ok_put [simp]: "stage_ok (put_stage h' k' g' s) k h g = stage_ok s k h g"
proof (cases g)
  case (Held l c)
  have "renewal_ok (put_stage h' k' g' s) k h l c = renewal_ok s k h l c" by (cases c) simp_all
  with Held show ?thesis by simp
qed simp_all

lemmas lease_consts = LOCAL_TTL_MS_def LEASE_TTL_MS_def LEASE_RENEW_MS_def

text \<open>One lemma per kind of step.\<close>

lemma inv_tick: "lease_inv s \<Longrightarrow> clock s \<le> n \<Longrightarrow> lease_inv (s\<lparr>clock := n\<rparr>)"
  using stage_ok_frame [OF frame_clock] by (fastforce simp: lease_inv_def)

lemma inv_acquire_run:
  assumes inv: "lease_inv s" and l: "leases s h = Some (k, Acquiring a n)" and r: "acquire n k h LEASE_TTL_MS (locks s) = (ok, t)"
  shows "lease_inv (put_stage h k (if ok then Acquired a else Refused) (s\<lparr>locks := t\<rparr>))"
proof (rule lease_inv_put [OF inv])
  have n: "a \<le> n" "n \<le> clock s" using lease_invD [OF inv l] by simp_all
  show "frame s (s\<lparr>locks := t\<rparr>) h'" for h' by (rule frame_acquire [OF r n(2)])
  show "leases (s\<lparr>locks := t\<rparr>) = leases s" by simp
  have "ok \<Longrightarrow> row_lease t k = Some (h, n + LEASE_TTL_MS)" using sql.acquired [of n k h LEASE_TTL_MS "locks s"] r by simp
  then show "stage_ok (put_stage h k (if ok then Acquired a else Refused) (s\<lparr>locks := t\<rparr>)) k h (if ok then Acquired a else Refused)"
    using n by (force simp: secured_def)
  show "e \<le> clock (s\<lparr>locks := t\<rparr>) + LEASE_TTL_MS" if "row_lease (locks (s\<lparr>locks := t\<rparr>)) k' = Some (h', e)" for k' h' e
    using sql.acq_expiry [of "locks s" "clock s + LEASE_TTL_MS" n LEASE_TTL_MS k h k' h' e] lease_inv_expiry [OF inv] n that r by simp
qed

lemma inv_renew_run:
  assumes inv: "lease_inv s" and l: "leases s h = Some (k, Held l (Issued n))" and r: "renew n k h LEASE_TTL_MS (locks s) = (ok, t)"
  shows "lease_inv (put_stage h k (Held l (Answered n ok)) (s\<lparr>locks := t\<rparr>))"
proof (rule lease_inv_put [OF inv])
  note st = lease_invD [OF inv l]
  have n: "n \<le> clock s" "hl_deadline l \<le> n + LOCAL_TTL_MS" using st by simp_all
  show "frame s (s\<lparr>locks := t\<rparr>) h'" if "h' \<noteq> h" for h' using frame_renew [OF r] that by blast
  show "leases (s\<lparr>locks := t\<rparr>) = leases s" by simp
  have ok: "ok \<Longrightarrow> row_lease t k = Some (h, n + LEASE_TTL_MS)"
    using sql.ren_state [of n k h LEASE_TTL_MS "locks s"] r by simp
  have no: "\<not> ok \<Longrightarrow> row_lease t k = row_lease (locks s) k"
    using sql.ren_state [of n k h LEASE_TTL_MS "locks s"] r by simp
  have sec: "secured (s\<lparr>locks := t\<rparr>) k h (hl_deadline l + LEASE_RENEW_MS)" if "secured s k h (hl_deadline l + LEASE_RENEW_MS)"
    using that ok no n by (cases ok) (auto simp: secured_def lease_consts)
  have "ok \<Longrightarrow> secured (s\<lparr>locks := t\<rparr>) k h (n + LEASE_TTL_MS)" using ok by (simp add: secured_def)
  then show "stage_ok (put_stage h k (Held l (Answered n ok)) (s\<lparr>locks := t\<rparr>)) k h (Held l (Answered n ok))"
    using st sec by auto
  show "e \<le> clock (s\<lparr>locks := t\<rparr>) + LEASE_TTL_MS" if "row_lease (locks (s\<lparr>locks := t\<rparr>)) k' = Some (h', e)" for k' h' e
    using sql.ren_expiry [of "locks s" "clock s + LEASE_TTL_MS" n LEASE_TTL_MS k h k' h' e] lease_inv_expiry [OF inv] n that r by simp
qed

lemma inv_release_run:
  assumes inv: "lease_inv s" and l: "leases s h = Some (k, Held l c)" "hl_aborted l" "hl_renewal l = Ended"
  shows "lease_inv (s\<lparr>locks := release k h (locks s)\<rparr>)"
proof -
  let ?s = "s\<lparr>locks := release k h (locks s)\<rparr>"
  have "stage_ok ?s k' h' g" if g: "leases s h' = Some (k', g)" for h' k' g
  proof (cases "h' = h")
    case True
    with g l have "k' = k" "g = Held l c" by simp_all
    moreover have "renewal_ok ?s k h l c" using lease_invD [OF inv l(1)] l by (cases c) auto
    ultimately show ?thesis using lease_invD [OF inv l(1)] l True by simp
  next
    case False
    show ?thesis by (rule stage_ok_frame [OF frame_release [OF False] lease_invD [OF inv g]])
  qed
  moreover have "e \<le> clock s + LEASE_TTL_MS" if "row_lease (release k h (locks s)) k' = Some (h', e)" for k' h' e
    using sql.rel_expiry [of "locks s" "clock s + LEASE_TTL_MS" k h k' h' e] lease_inv_expiry [OF inv] that by simp
  ultimately show ?thesis by (simp add: lease_inv_def)
qed

text \<open>The steps that change only the lease's own stage.\<close>

lemma inv_local:
  assumes "lease_inv s" "clock s \<le> n" "stage_ok (s\<lparr>clock := n\<rparr>) k h g"
  shows "lease_inv (put_stage h k g (s\<lparr>clock := n\<rparr>))"
  using assms frame_clock lease_inv_expiry [OF assms(1)] by (intro lease_inv_put [OF assms(1)]) auto

lemma inv_local0: "lease_inv s \<Longrightarrow> stage_ok s k h g \<Longrightarrow> lease_inv (put_stage h k g s)"
  using lease_inv_expiry [of s] by (intro lease_inv_put [of s]) auto

lemma lease_inv_step: "lease_step s s' \<Longrightarrow> lease_inv s \<Longrightarrow> lease_inv s'"
proof (induction rule: lease_step.induct)
  case (tick s n)
  then show ?case by (intro inv_tick)
next
  case (acquire_call s h n k)
  then show ?case by (intro inv_local) auto
next
  case (acquire_run s h k a n ok t)
  then show ?case by (intro inv_acquire_run)
next
  case (construct s h k a)
  then show ?case
    using lease_invD [OF construct(2,1)] by (intro inv_local0) (auto simp: newHeldLease_def lease_consts add.commute)
next
  case (renew_call s h k l c n l')
  have "stage_ok (s\<lparr>clock := n\<rparr>) k h (Held l c)"
    by (rule stage_ok_frame [OF frame_clock [OF renew_call(4)] lease_invD [OF renew_call(6,1)]])
  moreover have "hl_deadline l \<le> clock s + LOCAL_TTL_MS" using lease_invD [OF renew_call(6,1)] by simp
  ultimately have "stage_ok (s\<lparr>clock := n\<rparr>) k h (Held l' (if hl_renewal l' = Ended then c else Issued n))"
    using renew_call(2-5) by (cases c) (auto simp: renewStart_def endLoop_def abandon_def)
  with renew_call show ?case by (intro inv_local)
next
  case (renew_run s h k l n ok t)
  then show ?case by (intro inv_renew_run)
next
  case (renew_answer s h k l n ok started)
  have st: "stage_ok s k h (Held l (Answered n ok))" by (rule lease_invD [OF renew_answer(3,1)])
  then have "ok \<Longrightarrow> \<not> hl_aborted l \<Longrightarrow> secured s k h (started + LEASE_TTL_MS)"
    using renew_answer(2) by (auto intro: secured_mono)
  then show ?case
    using st renew_answer(2,3)
    by (intro inv_local0) (auto simp: renewAnswer_def endLoop_def abandon_def Let_def lease_consts add.commute)
next
  case (renew_end s h k l c)
  then show ?case
    using lease_invD [OF renew_end(2,1)] by (intro inv_local0; cases c) (auto simp: endLoop_def abandon_def)
next
  case (assert_held s h k l c)
  then show ?case
    using lease_invD [OF assert_held(2,1)] by (intro inv_local0; cases c) (auto simp: assertHeld_def abandon_def Let_def)
next
  case (lost_write s h k l c)
  then show ?case
    using lease_invD [OF lost_write(2,1)] by (intro inv_local0; cases c) (auto simp: assertWritten_def abandon_def)
next
  case (release_run s h k l c)
  then show ?case by (intro inv_release_run)
qed

lemma lease_inv_reachable: "lease_reachable s \<Longrightarrow> lease_inv s"
proof (induction rule: lease_reachable.induct)
  case (start t n)
  then show ?case by (auto simp: lease_inv_def row_lease_def)
qed (rule lease_inv_step)

subsection \<open>What the leases guarantee\<close>

lemma held_row:
  assumes "lease_reachable s" "leases s h = Some (k, Held l c)" "fst (assertHeld (clock s) l)"
  shows "\<exists>e. row_lease (locks s) k = Some (h, e) \<and> clock s + LEASE_RENEW_MS < e"
  using lease_invD [OF lease_inv_reachable [OF assms(1)] assms(2)] assms(3)
  by (force simp: assertHeld_def abandon_def secured_def lease_consts split: if_splits)

text \<open>C4: a lease that still passes \<open>assertHeld\<close> excludes every other one of its key: the table names it, and does so for
  longer than a renewal period, so a write it fences matches its row, no statement can take the key over, and no other
  lease of the key passes \<open>assertHeld\<close>. This holds however statements are delayed, renewals are lost and holders die.\<close>

theorem held_lease_exclusive:
  assumes "lease_reachable s" "leases s h = Some (k, Held l c)" "fst (assertHeld (clock s) l)"
  shows "(\<exists>r. locks s k = Some r \<and> lr_holder r = h \<and> clock s + LEASE_RENEW_MS < lr_expires r) \<and>
    \<not> fst (acquire (clock s) k h' ttlMs (locks s)) \<and>
    (\<forall>h' l' c'. leases s h' = Some (k, Held l' c') \<and> fst (assertHeld (clock s) l') \<longrightarrow> h' = h)"
proof -
  obtain e where e: "row_lease (locks s) k = Some (h, e)" "clock s + LEASE_RENEW_MS < e" using held_row [OF assms] by blast
  then have "\<not> fst (acquire (clock s) k h' ttlMs (locks s))"
    using sql.not_reentrant [of "clock s" k h' ttlMs "locks s" h e] by (auto simp: lease_consts)
  moreover have "h' = h" if "leases s h' = Some (k, Held l' c')" "fst (assertHeld (clock s) l')" for h' l' c'
    using held_row [OF assms(1) that] e by auto
  ultimately show ?thesis using e by (auto simp: row_lease_def)
qed

text \<open>C30: a holder that dies blocks its key for at most the lease time: whatever happened before, an acquire whose bound time
  is \<open>LEASE_TTL_MS\<close> after the present succeeds when no statement of the key ran in between, and it never waits for an
  answer of the dead holder.\<close>

theorem dead_holder_bounded:
  assumes "lease_reachable s" "clock s + LEASE_TTL_MS \<le> n"
  shows "\<exists>t. acquire n k h ttlMs (locks s) = (True, t) \<and> t k = Some \<lparr>lr_holder = h, lr_expires = n + ttlMs\<rparr>"
proof (cases "locks s k")
  case (Some r)
  then have "lr_expires r \<le> n"
    using lease_inv_expiry [OF lease_inv_reachable [OF assms(1)], of k "lr_holder r" "lr_expires r" "clock s"] assms(2)
    by (simp add: row_lease_def)
  with Some show ?thesis by (simp add: acquire_def)
qed (simp add: acquire_def)

text \<open>A run in which one lease is taken and constructed.\<close>

definition run_key :: string where "run_key = ''app:prod''"

definition sample_held :: lease_sys where
  "sample_held = \<lparr>clock = 5, locks = [run_key \<mapsto> \<lparr>lr_holder = ''h1'', lr_expires = 90005\<rparr>],
     leases = [''h1'' \<mapsto> (run_key, Held (newHeldLease 0) NoCall)]\<rparr>"

lemma sample_held_reachable: "lease_reachable sample_held"
proof -
  let ?s0 = "\<lparr>clock = 0, locks = (\<lambda>_. None), leases = (\<lambda>_. None)\<rparr>"
  let ?s1 = "put_stage ''h1'' run_key (Acquiring 0 5) (?s0\<lparr>clock := 5\<rparr>)"
  let ?t = "[run_key \<mapsto> \<lparr>lr_holder = ''h1'', lr_expires = 90005\<rparr>]"
  let ?s2 = "put_stage ''h1'' run_key (Acquired 0) (?s1\<lparr>locks := ?t\<rparr>)"
  have "lease_reachable ?s0" by (rule lease_reachable.start) simp
  moreover have "lease_step ?s0 ?s1" using acquire_call [of ?s0 "''h1''" 5 run_key] by simp
  moreover have "lease_step ?s1 ?s2"
    using acquire_run [of ?s1 "''h1''" run_key 0 5 True ?t] by (simp add: put_stage_def acquire_def LEASE_TTL_MS_def)
  moreover have "lease_step ?s2 sample_held"
    using construct [of ?s2 "''h1''" run_key 0] by (simp add: put_stage_def sample_held_def)
  ultimately show ?thesis by (meson lease_reachable.step)
qed

theorem held_lease_exclusive_witness:
  "\<not> fst (acquire 5 run_key ''h2'' 90000 (locks sample_held))"
  using held_lease_exclusive [OF sample_held_reachable, of "''h1''" run_key "newHeldLease 0" NoCall "''h2''" 90000]
  by (simp add: sample_held_def assertHeld_def newHeldLease_def lease_consts)

theorem dead_holder_bounded_witness: "\<exists>t. acquire 90005 run_key ''h2'' 90000 (locks sample_held) = (True, t)"
  using dead_holder_bounded [OF sample_held_reachable, of 90005 run_key "''h2''" 90000]
  by (auto simp: sample_held_def LEASE_TTL_MS_def)

end
