(* ===== verification/Job_Leases.thy ===== *)
theory Job_Leases
  imports Deploy_Locks "HOL-Library.AList"
begin

text \<open>
  The lease table of an application's jobs (\<open>packages/db/src/job-leases.ts\<close>): one row per job with the generation, the
  holder and the deadline of the attempt that holds it, and the state of the last run; and the pending kicks. A statement
  is a function of the database's clock \<open>now\<close> and the table. Both dialects' texts state the same change; their clocks
  are read in milliseconds. Decoding of the rows a driver answers is not modelled: a statement answers typed rows.
\<close>

datatype job_outcome = Succeeded | Failed

record job_lease =
  generation :: nat
  holder :: "string option"
  expires_at :: ms
  attempt_deadline :: ms
  first_seen_at :: ms
  last_started_at :: "ms option"
  last_finished_at :: "ms option"
  last_status :: "job_outcome option"
  last_succeeded_at :: "ms option"
  last_duration_ms :: "ms option"
  last_missed_reported_at :: "ms option"

type_synonym job_leases = "(string \<times> job_lease) list"

record job_fence =
  jf_job :: string
  jf_holder :: string
  jf_generation :: nat

record overdue_claim =
  oc_lastSucceededAt :: "ms option"
  oc_firstSeenAt :: ms

datatype job_error = Invalid_argument | Lease_lost | Projection_failed | Refused_in_production

definition new_lease :: "ms \<Rightarrow> job_lease" where
  "new_lease now = \<lparr>generation = 0, holder = None, expires_at = now, attempt_deadline = now, first_seen_at = now,
     last_started_at = None, last_finished_at = None, last_status = None, last_succeeded_at = None,
     last_duration_ms = None, last_missed_reported_at = None\<rparr>"

subsection \<open>The statements\<close>

definition SQL_REGISTER :: "ms \<Rightarrow> string \<Rightarrow> job_leases \<Rightarrow> job_leases" where
  "SQL_REGISTER now job t = (case map_of t job of Some _ \<Rightarrow> t | None \<Rightarrow> AList.update job (new_lease now) t)"

definition run_duration :: "ms \<Rightarrow> job_lease \<Rightarrow> ms option" where
  "run_duration now r = map_option (\<lambda>started. now - started) (last_started_at r)"

text \<open>\<open>where job = $1 and holder is not null and expires_at <= now()\<close>: whether a row was changed.\<close>

definition SQL_REAP :: "ms \<Rightarrow> string \<Rightarrow> job_leases \<Rightarrow> bool \<times> job_leases" where
  "SQL_REAP now job t =
     (case map_of t job of
        None \<Rightarrow> (False, t)
      | Some r \<Rightarrow>
          (if holder r \<noteq> None \<and> expires_at r \<le> now
           then (True, AList.update job (r\<lparr>holder := None, last_status := Some Failed, last_finished_at := Some now,
                   last_duration_ms := run_duration now r\<rparr>) t)
           else (False, t)))"

definition take_lease :: "ms \<Rightarrow> string \<Rightarrow> ms \<Rightarrow> ms \<Rightarrow> job_lease \<Rightarrow> job_lease" where
  "take_lease now h leaseMs attemptMs r =
     r\<lparr>generation := generation r + 1, holder := Some h, expires_at := now + leaseMs, attempt_deadline := now + attemptMs,
       last_started_at := Some now\<rparr>"

text \<open>The upsert of \<open>acquire\<close>, which answers the new generation: a new row starts at generation 1, an existing one is
  taken only while it is free.\<close>

definition SQL_ACQUIRE :: "ms \<Rightarrow> string \<Rightarrow> string \<Rightarrow> ms \<Rightarrow> ms \<Rightarrow> job_leases \<Rightarrow> nat option \<times> job_leases" where
  "SQL_ACQUIRE now job h leaseMs attemptMs t =
     (case map_of t job of
        None \<Rightarrow> (Some 1, AList.update job (take_lease now h leaseMs attemptMs (new_lease now)) t)
      | Some r \<Rightarrow>
          (if holder r = None
           then (Some (generation r + 1), AList.update job (take_lease now h leaseMs attemptMs r) t)
           else (None, t)))"

text \<open>\<open>tryAcquire\<close> takes only a registered job's free row that no transaction holds (\<open>skip locked\<close>).\<close>

definition SQL_TRY_ACQUIRE :: "bool \<Rightarrow> ms \<Rightarrow> string \<Rightarrow> string \<Rightarrow> ms \<Rightarrow> ms \<Rightarrow> job_leases \<Rightarrow> nat option \<times> job_leases" where
  "SQL_TRY_ACQUIRE locked now job h leaseMs attemptMs t =
     (case map_of t job of
        None \<Rightarrow> (None, t)
      | Some r \<Rightarrow>
          (if holder r = None \<and> \<not> locked
           then (Some (generation r + 1), AList.update job (take_lease now h leaseMs attemptMs r) t)
           else (None, t)))"

text \<open>Whether a row is still the one of a fence: its generation and holder.\<close>

definition held_by :: "job_fence \<Rightarrow> job_lease \<Rightarrow> bool" where
  "held_by f r \<longleftrightarrow> generation r = jf_generation f \<and> holder r = Some (jf_holder f)"

definition SQL_RENEW :: "ms \<Rightarrow> job_fence \<Rightarrow> string \<Rightarrow> ms \<Rightarrow> ms \<Rightarrow> job_leases \<Rightarrow> nat option \<times> job_leases" where
  "SQL_RENEW now f h leaseMs attemptMs t =
     (case map_of t (jf_job f) of
        None \<Rightarrow> (None, t)
      | Some r \<Rightarrow>
          (if held_by f r \<and> expires_at r > now
           then (Some (generation r + 1), AList.update (jf_job f) (r\<lparr>generation := generation r + 1, holder := Some h,
                   expires_at := now + leaseMs, attempt_deadline := now + attemptMs\<rparr>) t)
           else (None, t)))"

definition SQL_FINISH :: "ms \<Rightarrow> job_fence \<Rightarrow> job_outcome \<Rightarrow> job_leases \<Rightarrow> bool \<times> job_leases" where
  "SQL_FINISH now f outcome t =
     (case map_of t (jf_job f) of
        None \<Rightarrow> (False, t)
      | Some r \<Rightarrow>
          (if held_by f r
           then (True, AList.update (jf_job f) (r\<lparr>holder := None, last_finished_at := Some now, last_status := Some outcome,
                   last_duration_ms := run_duration now r,
                   last_succeeded_at := (if outcome = Succeeded then Some now else last_succeeded_at r)\<rparr>) t)
           else (False, t)))"

definition SQL_CLAIM_OVERDUE :: "ms \<Rightarrow> string \<Rightarrow> ms \<Rightarrow> job_leases \<Rightarrow> overdue_claim option \<times> job_leases" where
  "SQL_CLAIM_OVERDUE now job periodMs t =
     (case map_of t job of
        None \<Rightarrow> (None, t)
      | Some r \<Rightarrow>
          (if (case last_succeeded_at r of Some x \<Rightarrow> x | None \<Rightarrow> first_seen_at r) < now - 2 * periodMs \<and>
              (case last_missed_reported_at r of None \<Rightarrow> True | Some x \<Rightarrow> x \<le> now - periodMs)
           then (Some \<lparr>oc_lastSucceededAt = last_succeeded_at r, oc_firstSeenAt = first_seen_at r\<rparr>,
                 AList.update job (r\<lparr>last_missed_reported_at := Some now\<rparr>) t)
           else (None, t)))"

text \<open>\<open>SQL_STILL_HELD\<close>, and the condition of \<open>SQL_FENCE\<close>.\<close>

definition SQL_STILL_HELD :: "ms \<Rightarrow> job_fence \<Rightarrow> job_leases \<Rightarrow> bool" where
  "SQL_STILL_HELD now f t =
     (case map_of t (jf_job f) of None \<Rightarrow> False | Some r \<Rightarrow> held_by f r \<and> attempt_deadline r > now)"

text \<open>\<open>greatest(1, ceil(...))\<close>: the attempt's remaining time that bounds each of its statements.\<close>

definition SQL_FENCE :: "ms \<Rightarrow> job_fence \<Rightarrow> job_leases \<Rightarrow> ms option" where
  "SQL_FENCE now f t =
     (case map_of t (jf_job f) of
        None \<Rightarrow> None
      | Some r \<Rightarrow> if held_by f r \<and> attempt_deadline r > now then Some (max 1 (attempt_deadline r - now)) else None)"

subsection \<open>The pending kicks\<close>

type_synonym job_kicks = "string \<rightharpoonup> bool"

definition SQL_MARK_PENDING :: "string \<Rightarrow> job_kicks \<Rightarrow> job_kicks" where
  "SQL_MARK_PENDING job k = k(job \<mapsto> True)"

definition SQL_TAKE_PENDING :: "string \<Rightarrow> job_kicks \<Rightarrow> bool \<times> job_kicks" where
  "SQL_TAKE_PENDING job k = (if k job = Some True then (True, k(job \<mapsto> False)) else (False, k))"

text \<open>\<open>milliseconds\<close> of an integer number: it throws below 1.\<close>

definition milliseconds :: "ms \<Rightarrow> job_error + ms" where
  "milliseconds v = (if v < 1 then Inl Invalid_argument else Inr v)"

definition fenceOf :: "string \<Rightarrow> string \<Rightarrow> nat option \<Rightarrow> job_fence option" where
  "fenceOf job h row = map_option (\<lambda>g. \<lparr>jf_job = job, jf_holder = h, jf_generation = g\<rparr>) row"

subsection \<open>What every statement keeps\<close>

text \<open>The history of one job's row: its generation never decreases, and changes exactly when the row gets a new holder; a
  row is never deleted.\<close>

definition lease_grows :: "job_lease \<Rightarrow> job_lease \<Rightarrow> bool" where
  "lease_grows r r' \<longleftrightarrow>
     generation r < generation r' \<or>
     generation r = generation r' \<and> (holder r' = holder r \<or> holder r' = None) \<and> attempt_deadline r' = attempt_deadline r"

definition leases_grow :: "job_leases \<Rightarrow> job_leases \<Rightarrow> bool" where
  "leases_grow t t' \<longleftrightarrow> (\<forall>job r. map_of t job = Some r \<longrightarrow> (\<exists>r'. map_of t' job = Some r' \<and> lease_grows r r'))"

lemma leases_grow_refl [simp]: "leases_grow t t"
  by (simp add: leases_grow_def lease_grows_def)

lemma leases_grow_upd: "map_of t job = Some r \<Longrightarrow> lease_grows r r' \<Longrightarrow> leases_grow t (AList.update job r' t)"
  by (auto simp: leases_grow_def lease_grows_def update_conv')

lemma leases_grow_new: "map_of t job = None \<Longrightarrow> leases_grow t (AList.update job r' t)"
  by (auto simp: leases_grow_def lease_grows_def update_conv')

lemma statements_grow:
  "leases_grow t (SQL_REGISTER now job t)"
  "leases_grow t (snd (SQL_REAP now job t))"
  "leases_grow t (snd (SQL_ACQUIRE now job h leaseMs attemptMs t))"
  "leases_grow t (snd (SQL_TRY_ACQUIRE locked now job h leaseMs attemptMs t))"
  "leases_grow t (snd (SQL_RENEW now f h leaseMs attemptMs t))"
  "leases_grow t (snd (SQL_FINISH now f outcome t))"
  "leases_grow t (snd (SQL_CLAIM_OVERDUE now job periodMs t))"
  by (auto simp: SQL_REGISTER_def SQL_REAP_def SQL_ACQUIRE_def SQL_TRY_ACQUIRE_def SQL_RENEW_def SQL_FINISH_def SQL_CLAIM_OVERDUE_def
      take_lease_def lease_grows_def intro: leases_grow_upd leases_grow_new split: option.split)

text \<open>The statements touch one job's row only.\<close>

lemma statements_local:
  "job' \<noteq> job \<Longrightarrow> map_of (SQL_REGISTER now job t) job' = map_of t job'"
  "job' \<noteq> job \<Longrightarrow> map_of (snd (SQL_REAP now job t)) job' = map_of t job'"
  "job' \<noteq> job \<Longrightarrow> map_of (snd (SQL_ACQUIRE now job h leaseMs attemptMs t)) job' = map_of t job'"
  "job' \<noteq> job \<Longrightarrow> map_of (snd (SQL_TRY_ACQUIRE locked now job h leaseMs attemptMs t)) job' = map_of t job'"
  "job' \<noteq> jf_job f \<Longrightarrow> map_of (snd (SQL_RENEW now f h leaseMs attemptMs t)) job' = map_of t job'"
  "job' \<noteq> jf_job f \<Longrightarrow> map_of (snd (SQL_FINISH now f outcome t)) job' = map_of t job'"
  "job' \<noteq> job \<Longrightarrow> map_of (snd (SQL_CLAIM_OVERDUE now job periodMs t)) job' = map_of t job'"
  by (simp_all add: SQL_REGISTER_def SQL_REAP_def SQL_ACQUIRE_def SQL_TRY_ACQUIRE_def SQL_RENEW_def SQL_FINISH_def SQL_CLAIM_OVERDUE_def
      update_conv' split: option.split)

end
