(* ===== verification/Job_Wakes.thy ===== *)
theory Job_Wakes
  imports Job_Leases "HOL-Library.List_Lexorder" "HOL-Library.Char_ord"
begin

text \<open>
  The pending work of the jobs (\<open>packages/db/src/job-wakes.ts\<close>) and the operations of the lease store, which run the
  wakes' projection in the transaction of every lease statement that changed a lease. An operation answers the database
  after its commit, or the error after which it rolled back. Parameters: \<open>hook\<close>, whether the runtime's \<open>projectWakes\<close>
  returns; \<open>busy\<close>, the wakes a concurrent write has locked (\<open>skip locked\<close>, none on SQLite); and the fresh id of a new
  wake.
\<close>

datatype wake_reason = Cron | Kick | Claim | Retry

record wake =
  wk_id :: string
  wk_job :: string
  wk_reason :: wake_reason
  wk_dueAt :: ms
  wk_attempt :: nat
  wk_dedupe :: "string option"
  wk_owned :: bool

record new_wake =
  nw_job :: string
  nw_reason :: wake_reason
  nw_dueAt :: ms
  nw_dedupe :: "string option"

record job_db =
  db_leases :: job_leases
  db_kicks :: job_kicks
  db_wakes :: "wake list"

text \<open>What a finish does with the wakes its run owned: consume them, then schedule the next cron run (expression and due
  time); or move them to a time.\<close>

datatype finish_wakes = Completed "(string \<times> ms) option" | RetryAt ms

datatype lease_change = Reaped | Acquired_lease | Renewed | Finished "finish_wakes option"

subsection \<open>The statements\<close>

text \<open>\<open>SQL_SCHEDULE\<close>: an insert, or on a pending dedupe key the merge into its row when that is the same job's. It answers
  the row that holds the wake.\<close>

definition SQL_SCHEDULE :: "string \<Rightarrow> new_wake \<Rightarrow> wake list \<Rightarrow> wake option \<times> wake list" where
  "SQL_SCHEDULE i n ws =
     (case (case nw_dedupe n of None \<Rightarrow> None | Some d \<Rightarrow> find (\<lambda>w. wk_dedupe w = Some d) ws) of
        None \<Rightarrow>
          (let w = \<lparr>wk_id = i, wk_job = nw_job n, wk_reason = nw_reason n, wk_dueAt = nw_dueAt n, wk_attempt = 0,
                    wk_dedupe = nw_dedupe n, wk_owned = False\<rparr> in (Some w, ws @ [w]))
      | Some w \<Rightarrow>
          (if wk_job w = nw_job n
           then (let w' = w\<lparr>wk_dueAt := min (wk_dueAt w) (nw_dueAt n), wk_owned := wk_owned w \<and> nw_reason n = Cron\<rparr> in
                 (Some w', map (\<lambda>v. if wk_dedupe v = nw_dedupe n then w' else v) ws))
           else (None, ws)))"

definition SQL_PENDING :: "string \<Rightarrow> wake list \<Rightarrow> wake list" where
  "SQL_PENDING job ws = sort_key wk_dueAt (sort_key wk_id (filter (\<lambda>w. wk_job w = job) ws))"

text \<open>A taking run owns the wakes of its job that are due by its start.\<close>

definition SQL_OWN :: "string list \<Rightarrow> string \<Rightarrow> job_leases \<Rightarrow> wake list \<Rightarrow> wake list" where
  "SQL_OWN busy job t ws =
     (let start = (case map_of t job of None \<Rightarrow> None | Some r \<Rightarrow> last_started_at r) in
      map (\<lambda>w. if wk_job w = job \<and> wk_id w \<notin> set busy
               then w\<lparr>wk_owned := (case start of None \<Rightarrow> False | Some x \<Rightarrow> wk_dueAt w \<le> x)\<rparr> else w) ws)"

definition SQL_DISOWN :: "string list \<Rightarrow> string \<Rightarrow> wake list \<Rightarrow> wake list" where
  "SQL_DISOWN busy job ws =
     map (\<lambda>w. if wk_job w = job \<and> wk_owned w \<and> wk_id w \<notin> set busy then w\<lparr>wk_owned := False\<rparr> else w) ws"

definition SQL_CONSUME :: "string \<Rightarrow> wake list \<Rightarrow> wake list" where
  "SQL_CONSUME job ws = filter (\<lambda>w. \<not> (wk_job w = job \<and> wk_owned w)) ws"

definition SQL_RETRY :: "string \<Rightarrow> ms \<Rightarrow> wake list \<Rightarrow> wake list" where
  "SQL_RETRY job due ws =
     map (\<lambda>w. if wk_job w = job \<and> wk_owned w
              then w\<lparr>wk_dueAt := due, wk_attempt := wk_attempt w + 1, wk_owned := False\<rparr> else w) ws"

definition SQL_DROP_CLAIM :: "string \<Rightarrow> string \<Rightarrow> wake list \<Rightarrow> wake list" where
  "SQL_DROP_CLAIM job key ws = filter (\<lambda>w. \<not> (wk_job w = job \<and> wk_dedupe w = Some key)) ws"

definition cronKey :: "string \<Rightarrow> string \<Rightarrow> string" where
  "cronKey job expression = ''cron:'' @ job @ '':'' @ expression"

definition SQL_RECONCILE :: "(string \<times> string) list \<Rightarrow> wake list \<Rightarrow> nat \<times> wake list" where
  "SQL_RECONCILE declared ws =
     (let kept = filter (\<lambda>w. list_ex (\<lambda>(job, expression). job = wk_job w \<and>
            (wk_reason w \<noteq> Cron \<or> wk_dedupe w = Some (cronKey job expression))) declared) ws in
      (length ws - length kept, kept))"

definition SQL_HASTEN :: "ms \<Rightarrow> string list \<Rightarrow> wake list \<Rightarrow> nat \<times> wake list" where
  "SQL_HASTEN now ids ws =
     (length (filter (\<lambda>w. wk_id w \<in> set ids \<and> wk_dueAt w > now) ws),
      map (\<lambda>w. if wk_id w \<in> set ids \<and> wk_dueAt w > now then w\<lparr>wk_dueAt := now\<rparr> else w) ws)"

text \<open>A job whose lease row is absent, free or expired may run.\<close>

definition lease_free :: "ms \<Rightarrow> job_leases \<Rightarrow> string \<Rightarrow> bool" where
  "lease_free now t job = (case map_of t job of None \<Rightarrow> True | Some r \<Rightarrow> holder r = None \<or> expires_at r \<le> now)"

definition min_opt :: "ms list \<Rightarrow> ms option" where
  "min_opt xs = (if xs = [] then None else Some (Min (set xs)))"

text \<open>The two candidates of \<open>SQL_NEXT\<close>.\<close>

definition SQL_NEXT :: "ms \<Rightarrow> job_db \<Rightarrow> ms option \<times> ms option" where
  "SQL_NEXT now d =
     (min_opt (map wk_dueAt (filter (\<lambda>w. lease_free now (db_leases d) (wk_job w)) (db_wakes d))),
      min_opt (map (\<lambda>(job, r). expires_at r) (filter (\<lambda>(job, r). holder r \<noteq> None) (db_leases d))))"

definition expiredHolders :: "ms \<Rightarrow> job_db \<Rightarrow> string list" where
  "expiredHolders now d = sort (map fst (filter (\<lambda>(job, r). holder r \<noteq> None \<and> expires_at r \<le> now) (db_leases d)))"

subsection \<open>Scheduling\<close>

text \<open>\<open>newWake\<close>: the checks of a wake's texts.\<close>

definition newWake_ok :: "new_wake \<Rightarrow> bool" where
  "newWake_ok n \<longleftrightarrow> nw_job n \<noteq> [] \<and> nw_dedupe n \<noteq> Some []"

definition insert_wake :: "string \<Rightarrow> new_wake \<Rightarrow> wake list \<Rightarrow> job_error + wake \<times> wake list" where
  "insert_wake i n ws =
     (if \<not> newWake_ok n then Inl Invalid_argument
      else (case SQL_SCHEDULE i n ws of (None, _) \<Rightarrow> Inl Invalid_argument | (Some w, ws') \<Rightarrow> Inr (w, ws')))"

definition projected :: "(job_db \<Rightarrow> bool) \<Rightarrow> job_db \<Rightarrow> job_error + job_db" where
  "projected hook d = (if hook d then Inr d else Inl Projection_failed)"

definition schedule :: "(job_db \<Rightarrow> bool) \<Rightarrow> string \<Rightarrow> new_wake \<Rightarrow> job_db \<Rightarrow> job_error + wake \<times> job_db" where
  "schedule hook i n d =
     (case insert_wake i n (db_wakes d) of
        Inl e \<Rightarrow> Inl e
      | Inr (w, ws) \<Rightarrow> (case projected hook (d\<lparr>db_wakes := ws\<rparr>) of Inl e \<Rightarrow> Inl e | Inr d' \<Rightarrow> Inr (w, d')))"

definition claimKey :: "string \<Rightarrow> string" where "claimKey job = ''claim:'' @ job"

text \<open>\<open>rearmClaim\<close>, in the claim's transaction, with the earliest re-arm of each attempt so far, which the process keeps.\<close>

definition rearmClaim ::
  "(job_db \<Rightarrow> bool) \<Rightarrow> string \<Rightarrow> job_fence \<Rightarrow> ms option \<Rightarrow> (job_fence \<Rightarrow> ms option) \<Rightarrow> job_db \<Rightarrow>
   (job_fence \<Rightarrow> ms option) \<times> (job_error + job_db)" where
  "rearmClaim hook i f dueAt rearms d =
     (let due = (case rearms f of
                   None \<Rightarrow> dueAt
                 | Some earlier \<Rightarrow> (case dueAt of None \<Rightarrow> Some earlier | Some candidate \<Rightarrow> Some (min earlier candidate)));
          ws = SQL_DROP_CLAIM (jf_job f) (claimKey (jf_job f)) (db_wakes d) in
      (rearms(f := due),
       case due of
         None \<Rightarrow> projected hook (d\<lparr>db_wakes := ws\<rparr>)
       | Some x \<Rightarrow>
           (case insert_wake i \<lparr>nw_job = jf_job f, nw_reason = Claim, nw_dueAt = x, nw_dedupe = Some (claimKey (jf_job f))\<rparr> ws of
              Inl e \<Rightarrow> Inl e
            | Inr (_, ws') \<Rightarrow> projected hook (d\<lparr>db_wakes := ws'\<rparr>))))"

definition next_wake :: "ms \<Rightarrow> job_db \<Rightarrow> ms option" where
  "next_wake now d =
     (case SQL_NEXT now d of
        (None, None) \<Rightarrow> None
      | (Some w, None) \<Rightarrow> Some w
      | (None, Some h) \<Rightarrow> Some h
      | (Some w, Some h) \<Rightarrow> Some (min w h))"

definition untilNext :: "ms \<Rightarrow> job_db \<Rightarrow> ms option" where
  "untilNext now d = map_option (\<lambda>x. x - now) (next_wake now d)"

definition reconcile :: "(job_db \<Rightarrow> bool) \<Rightarrow> (string \<times> string) list \<Rightarrow> job_db \<Rightarrow> job_error + nat \<times> job_db" where
  "reconcile hook declared d =
     (if list_ex (\<lambda>(job, expression). job = [] \<or> expression = []) declared then Inl Invalid_argument
      else (case SQL_RECONCILE declared (db_wakes d) of
              (n, ws) \<Rightarrow> (case projected hook (d\<lparr>db_wakes := ws\<rparr>) of Inl e \<Rightarrow> Inl e | Inr d' \<Rightarrow> Inr (n, d'))))"

text \<open>A test helper: a process that serves an application refuses it.\<close>

definition hasten :: "bool \<Rightarrow> (job_db \<Rightarrow> bool) \<Rightarrow> ms \<Rightarrow> string list \<Rightarrow> job_db \<Rightarrow> job_error + nat \<times> job_db" where
  "hasten production hook now ids d =
     (if production then Inl Refused_in_production
      else if [] \<in> set ids then Inl Invalid_argument
      else (case SQL_HASTEN now ids (db_wakes d) of
              (n, ws) \<Rightarrow> (case projected hook (d\<lparr>db_wakes := ws\<rparr>) of Inl e \<Rightarrow> Inl e | Inr d' \<Rightarrow> Inr (n, d'))))"

subsection \<open>The projection of a lease change\<close>

definition finishWakes :: "job_outcome \<Rightarrow> finish_wakes option \<Rightarrow> job_error + finish_wakes option" where
  "finishWakes outcome wakes =
     (case wakes of
        None \<Rightarrow> Inr (if outcome = Succeeded then Some (Completed None) else None)
      | Some (RetryAt at) \<Rightarrow> if outcome \<noteq> Failed then Inl Invalid_argument else Inr (Some (RetryAt at))
      | Some (Completed None) \<Rightarrow> Inr (Some (Completed None))
      | Some (Completed (Some (expression, dueAt))) \<Rightarrow>
          (if expression = [] then Inl Invalid_argument else Inr (Some (Completed (Some (expression, dueAt))))))"

text \<open>The wakes after a finish's instruction.\<close>

definition applyFinish :: "string \<Rightarrow> string \<Rightarrow> finish_wakes option \<Rightarrow> wake list \<Rightarrow> job_error + wake list" where
  "applyFinish i job wakes ws =
     (case wakes of
        None \<Rightarrow> Inr ws
      | Some (RetryAt at) \<Rightarrow> Inr (SQL_RETRY job at ws)
      | Some (Completed None) \<Rightarrow> Inr (SQL_CONSUME job ws)
      | Some (Completed (Some (expression, dueAt))) \<Rightarrow>
          map_sum id snd (insert_wake i \<lparr>nw_job = job, nw_reason = Cron, nw_dueAt = dueAt, nw_dedupe = Some (cronKey job expression)\<rparr>
            (SQL_CONSUME job ws)))"

definition leaseProjection ::
  "(job_db \<Rightarrow> bool) \<Rightarrow> string list \<Rightarrow> string \<Rightarrow> string \<Rightarrow> lease_change \<Rightarrow> job_db \<Rightarrow> job_error + job_db" where
  "leaseProjection hook busy i job change d =
     (case (case change of
              Acquired_lease \<Rightarrow> Inr (SQL_OWN busy job (db_leases d) (db_wakes d))
            | Finished wakes \<Rightarrow> map_sum id (SQL_DISOWN busy job) (applyFinish i job wakes (db_wakes d))
            | Reaped \<Rightarrow> Inr (SQL_DISOWN busy job (db_wakes d))
            | Renewed \<Rightarrow> Inr (db_wakes d)) of
        Inl e \<Rightarrow> Inl e
      | Inr ws \<Rightarrow> projected hook (d\<lparr>db_wakes := ws\<rparr>))"

subsection \<open>The lease store\<close>

text \<open>\<open>changing\<close>: a lease statement's answer and, when it changed the lease, its projection, in one transaction.\<close>

definition changing ::
  "(job_db \<Rightarrow> bool) \<Rightarrow> string list \<Rightarrow> string \<Rightarrow> string \<Rightarrow> lease_change \<Rightarrow> 'r option \<times> job_leases \<Rightarrow> job_db \<Rightarrow>
   job_error + 'r option \<times> job_db" where
  "changing hook busy i job change answer d =
     (case answer of
        (None, t) \<Rightarrow> Inr (None, d\<lparr>db_leases := t\<rparr>)
      | (Some r, t) \<Rightarrow>
          (case leaseProjection hook busy i job change (d\<lparr>db_leases := t\<rparr>) of Inl e \<Rightarrow> Inl e | Inr d' \<Rightarrow> Inr (Some r, d')))"

definition as_row :: "bool \<times> 'a \<Rightarrow> unit option \<times> 'a" where
  "as_row p = (if fst p then Some () else None, snd p)"

definition register :: "ms \<Rightarrow> string \<Rightarrow> job_db \<Rightarrow> job_db" where
  "register now job d = d\<lparr>db_leases := SQL_REGISTER now job (db_leases d)\<rparr>"

definition reapCrashed ::
  "(job_db \<Rightarrow> bool) \<Rightarrow> string list \<Rightarrow> string \<Rightarrow> ms \<Rightarrow> string \<Rightarrow> job_db \<Rightarrow> job_error + bool \<times> job_db" where
  "reapCrashed hook busy i now job d =
     map_sum id (apfst (\<lambda>r. r \<noteq> None)) (changing hook busy i job Reaped (as_row (SQL_REAP now job (db_leases d))) d)"

definition with_times :: "ms \<Rightarrow> ms \<Rightarrow> (job_error + 'a) \<Rightarrow> job_error + 'a" where
  "with_times leaseMs attemptMs result =
     (case milliseconds leaseMs of
        Inl e \<Rightarrow> Inl e
      | Inr _ \<Rightarrow> (case milliseconds attemptMs of Inl e \<Rightarrow> Inl e | Inr _ \<Rightarrow> result))"

definition acquireJob ::
  "(job_db \<Rightarrow> bool) \<Rightarrow> string list \<Rightarrow> string \<Rightarrow> ms \<Rightarrow> string \<Rightarrow> string \<Rightarrow> ms \<Rightarrow> ms \<Rightarrow> job_db \<Rightarrow> job_error + job_fence option \<times> job_db" where
  "acquireJob hook busy i now job h attemptMs leaseMs d =
     with_times leaseMs attemptMs
       (map_sum id (apfst (fenceOf job h)) (changing hook busy i job Acquired_lease (SQL_ACQUIRE now job h leaseMs attemptMs (db_leases d)) d))"

definition tryAcquire ::
  "(job_db \<Rightarrow> bool) \<Rightarrow> string list \<Rightarrow> string \<Rightarrow> bool \<Rightarrow> ms \<Rightarrow> string \<Rightarrow> string \<Rightarrow> ms \<Rightarrow> ms \<Rightarrow> job_db \<Rightarrow>
   job_error + job_fence option \<times> job_db" where
  "tryAcquire hook busy i locked now job h attemptMs leaseMs d =
     with_times leaseMs attemptMs
       (map_sum id (apfst (fenceOf job h))
         (changing hook busy i job Acquired_lease (SQL_TRY_ACQUIRE locked now job h leaseMs attemptMs (db_leases d)) d))"

definition renewJob ::
  "(job_db \<Rightarrow> bool) \<Rightarrow> string list \<Rightarrow> string \<Rightarrow> ms \<Rightarrow> job_fence \<Rightarrow> string \<Rightarrow> ms \<Rightarrow> ms \<Rightarrow> job_db \<Rightarrow> job_error + job_fence option \<times> job_db" where
  "renewJob hook busy i now f h attemptMs leaseMs d =
     with_times leaseMs attemptMs
       (map_sum id (apfst (fenceOf (jf_job f) h))
         (changing hook busy i (jf_job f) Renewed (SQL_RENEW now f h leaseMs attemptMs (db_leases d)) d))"

definition finishJob ::
  "(job_db \<Rightarrow> bool) \<Rightarrow> string list \<Rightarrow> string \<Rightarrow> ms \<Rightarrow> job_fence \<Rightarrow> job_outcome \<Rightarrow> finish_wakes option \<Rightarrow> job_db \<Rightarrow>
   job_error + bool \<times> job_db" where
  "finishJob hook busy i now f outcome wakes d =
     (case finishWakes outcome wakes of
        Inl e \<Rightarrow> Inl e
      | Inr instruction \<Rightarrow>
          map_sum id (apfst (\<lambda>r. r \<noteq> None))
            (changing hook busy i (jf_job f) (Finished instruction) (as_row (SQL_FINISH now f outcome (db_leases d))) d))"

definition markPending :: "string \<Rightarrow> job_db \<Rightarrow> job_db" where
  "markPending job d = d\<lparr>db_kicks := SQL_MARK_PENDING job (db_kicks d)\<rparr>"

definition takePending :: "string \<Rightarrow> job_db \<Rightarrow> bool \<times> job_db" where
  "takePending job d = (case SQL_TAKE_PENDING job (db_kicks d) of (b, k) \<Rightarrow> (b, d\<lparr>db_kicks := k\<rparr>))"

definition claimOverdue :: "ms \<Rightarrow> string \<Rightarrow> ms \<Rightarrow> job_db \<Rightarrow> job_error + overdue_claim option \<times> job_db" where
  "claimOverdue now job periodMs d =
     (case milliseconds periodMs of
        Inl e \<Rightarrow> Inl e
      | Inr _ \<Rightarrow> (case SQL_CLAIM_OVERDUE now job periodMs (db_leases d) of (r, t) \<Rightarrow> Inr (r, d\<lparr>db_leases := t\<rparr>)))"

definition job_state :: "string \<Rightarrow> job_db \<Rightarrow> job_lease option" where
  "job_state job d = map_of (db_leases d) job"

end
