(* ===== verification/Job_Fencing.thy ===== *)
theory Job_Fencing
  imports Job_Wakes
begin

text \<open>
  The fenced transactions of \<open>packages/db/src/job-leases.ts\<close>, and the runs of the job tables. A fenced transaction holds
  its job's lease row \<open>for share\<close> from its first statement to its end, so the statements that change the row wait for
  it (on SQLite nothing else runs meanwhile); a mutation of the application's data is one entry of the log, made when
  its transaction commits.
\<close>

record job_commit =
  jc_fence :: job_fence
  jc_checked :: ms
  jc_committed :: ms
  jc_deadline :: ms

text \<open>An open transaction is its fence and, once the check before the commit has passed, the time of that check.\<close>

record job_sys =
  js_now :: ms
  js_db :: job_db
  js_open :: "(job_fence \<times> ms option) list"
  js_ended :: "job_fence list"
  js_log :: "job_commit list"

definition row_locked :: "job_sys \<Rightarrow> string \<Rightarrow> bool" where
  "row_locked s job = list_ex (\<lambda>(f, _). jf_job f = job) (js_open s)"

subsection \<open>A fenced transaction\<close>

definition refuseEnded :: "job_sys \<Rightarrow> job_fence \<Rightarrow> bool" where
  "refuseEnded s f = (f \<in> set (js_ended s))"

text \<open>Up to the work: the attempt has not ended, and the fence statement finds its row, which is locked from then on.\<close>

definition beginFenced :: "job_fence \<Rightarrow> job_sys \<Rightarrow> job_error + job_sys" where
  "beginFenced f s =
     (if refuseEnded s f then Inl Lease_lost
      else (case SQL_FENCE (js_now s) f (db_leases (js_db s)) of
              None \<Rightarrow> Inl Lease_lost
            | Some remaining \<Rightarrow> Inr (s\<lparr>js_open := (f, None) # js_open s\<rparr>)))"

text \<open>After the work: the check just before the commit.\<close>

definition checkFenced :: "job_fence \<Rightarrow> job_sys \<Rightarrow> job_error + job_sys" where
  "checkFenced f s =
     (if refuseEnded s f then Inl Lease_lost
      else if \<not> SQL_STILL_HELD (js_now s) f (db_leases (js_db s)) then Inl Lease_lost
      else Inr (s\<lparr>js_open := (f, Some (js_now s)) # remove1 (f, None) (js_open s)\<rparr>))"

definition commitFenced :: "job_fence \<Rightarrow> ms \<Rightarrow> job_sys \<Rightarrow> job_sys" where
  "commitFenced f checked s =
     s\<lparr>js_open := remove1 (f, Some checked) (js_open s),
       js_log := \<lparr>jc_fence = f, jc_checked = checked, jc_committed = js_now s,
         jc_deadline = (case map_of (db_leases (js_db s)) (jf_job f) of None \<Rightarrow> 0 | Some r \<Rightarrow> attempt_deadline r)\<rparr> # js_log s\<rparr>"

text \<open>\<open>cancelInFlight\<close>: the attempt has ended, and its open transactions roll back.\<close>

definition cancelInFlight :: "job_fence \<Rightarrow> job_sys \<Rightarrow> job_sys" where
  "cancelInFlight f s = s\<lparr>js_ended := f # js_ended s, js_open := filter (\<lambda>(g, _). g \<noteq> f) (js_open s)\<rparr>"

subsection \<open>Runs\<close>

text \<open>One committed operation on the tables. The statements that change a lease row run only while it is not locked;
  \<open>tryAcquire\<close> skips a locked one.\<close>

inductive db_step :: "(string \<Rightarrow> bool) \<Rightarrow> ms \<Rightarrow> job_db \<Rightarrow> job_db \<Rightarrow> bool" for locked now where
  db_register: "db_step locked now d (register now job d)"
| db_reap: "\<not> locked job \<Longrightarrow> reapCrashed hook busy i now job d = Inr (b, d') \<Longrightarrow> db_step locked now d d'"
| db_acquire: "\<not> locked job \<Longrightarrow> acquireJob hook busy i now job h attemptMs leaseMs d = Inr (f, d') \<Longrightarrow> db_step locked now d d'"
| db_tryAcquire: "tryAcquire hook busy i (locked job) now job h attemptMs leaseMs d = Inr (f, d') \<Longrightarrow> db_step locked now d d'"
| db_renew: "\<not> locked (jf_job f) \<Longrightarrow> renewJob hook busy i now f h attemptMs leaseMs d = Inr (f', d') \<Longrightarrow> db_step locked now d d'"
| db_finish: "\<not> locked (jf_job f) \<Longrightarrow> finishJob hook busy i now f outcome wakes d = Inr (b, d') \<Longrightarrow> db_step locked now d d'"
| db_overdue: "\<not> locked job \<Longrightarrow> claimOverdue now job periodMs d = Inr (c, d') \<Longrightarrow> db_step locked now d d'"
| db_markPending: "db_step locked now d (markPending job d)"
| db_takePending: "db_step locked now d (snd (takePending job d))"
| db_schedule: "schedule hook i n d = Inr (w, d') \<Longrightarrow> db_step locked now d d'"
| db_rearm: "rearmClaim hook i f dueAt rearms d = (rearms', Inr d') \<Longrightarrow> db_step locked now d d'"
| db_reconcile: "reconcile hook declared d = Inr (n, d') \<Longrightarrow> db_step locked now d d'"
| db_hasten: "hasten production hook now ids d = Inr (n, d') \<Longrightarrow> db_step locked now d d'"

text \<open>A lease statement reads \<open>now()\<close>, the time its transaction began, which is earlier than its effect when it waited for
  the row. The checks of a fenced transaction read the clock itself.\<close>

inductive job_step :: "job_sys \<Rightarrow> job_sys \<Rightarrow> bool" where
  job_tick: "js_now s \<le> n \<Longrightarrow> job_step s (s\<lparr>js_now := n\<rparr>)"
| job_db: "n \<le> js_now s \<Longrightarrow> db_step (row_locked s) n (js_db s) d \<Longrightarrow> job_step s (s\<lparr>js_db := d\<rparr>)"
| job_begin: "beginFenced f s = Inr s' \<Longrightarrow> job_step s s'"
| job_check: "(f, None) \<in> set (js_open s) \<Longrightarrow> checkFenced f s = Inr s' \<Longrightarrow> job_step s s'"
| job_commit: "(f, Some checked) \<in> set (js_open s) \<Longrightarrow> job_step s (commitFenced f checked s)"
| job_rollback: "job_step s (s\<lparr>js_open := remove1 t (js_open s)\<rparr>)"
| job_cancel: "job_step s (cancelInFlight f s)"

inductive job_reachable :: "job_sys \<Rightarrow> bool" where
  job_start: "js_open s = [] \<Longrightarrow> js_log s = [] \<Longrightarrow> job_reachable s"
| job_next: "job_reachable s \<Longrightarrow> job_step s s' \<Longrightarrow> job_reachable s'"

subsection \<open>The operations change leases as their statements do\<close>

lemma projected_Inr [simp]: "projected hook d = Inr d' \<longleftrightarrow> hook d \<and> d' = d"
  by (auto simp: projected_def)

lemma leaseProjection_leases: "leaseProjection hook busy i job change d = Inr d' \<Longrightarrow> db_leases d' = db_leases d"
  by (auto simp: leaseProjection_def split: sum.splits)

lemma changing_leases: "changing hook busy i job change answer d = Inr (r, d') \<Longrightarrow> db_leases d' = snd answer"
  by (auto simp: changing_def split: prod.splits option.splits sum.splits dest!: leaseProjection_leases)

lemma map_sum_Inr: "map_sum id f x = Inr y \<longleftrightarrow> (\<exists>z. x = Inr z \<and> y = f z)"
  by (cases x) auto

lemma with_times_Inr: "with_times leaseMs attemptMs x = Inr y \<longleftrightarrow> 1 \<le> leaseMs \<and> 1 \<le> attemptMs \<and> x = Inr y"
  by (auto simp: with_times_def milliseconds_def)

lemma operation_leases:
  "reapCrashed hook busy i now job d = Inr (b, d') \<Longrightarrow> db_leases d' = snd (SQL_REAP now job (db_leases d))"
  "acquireJob hook busy i now job h attemptMs leaseMs d = Inr (f, d') \<Longrightarrow>
     db_leases d' = snd (SQL_ACQUIRE now job h leaseMs attemptMs (db_leases d))"
  "tryAcquire hook busy i l now job h attemptMs leaseMs d = Inr (f, d') \<Longrightarrow>
     db_leases d' = snd (SQL_TRY_ACQUIRE l now job h leaseMs attemptMs (db_leases d))"
  "renewJob hook busy i now g h attemptMs leaseMs d = Inr (f, d') \<Longrightarrow>
     db_leases d' = snd (SQL_RENEW now g h leaseMs attemptMs (db_leases d))"
  "finishJob hook busy i now g outcome wakes d = Inr (b, d') \<Longrightarrow> db_leases d' = snd (SQL_FINISH now g outcome (db_leases d))"
  "claimOverdue now job periodMs d = Inr (c, d') \<Longrightarrow> db_leases d' = snd (SQL_CLAIM_OVERDUE now job periodMs (db_leases d))"
  "schedule hook i n d = Inr (w, d') \<Longrightarrow> db_leases d' = db_leases d"
  "rearmClaim hook i g dueAt rearms d = (rearms', Inr d') \<Longrightarrow> db_leases d' = db_leases d"
  "reconcile hook declared d = Inr (k, d') \<Longrightarrow> db_leases d' = db_leases d"
  "hasten production hook now ids d = Inr (k, d') \<Longrightarrow> db_leases d' = db_leases d"
  by (auto simp: reapCrashed_def acquireJob_def tryAcquire_def renewJob_def finishJob_def claimOverdue_def schedule_def rearmClaim_def
      reconcile_def hasten_def as_row_def map_sum_Inr with_times_Inr Let_def apfst_def map_prod_def
      split: sum.splits prod.splits option.splits if_splits dest!: changing_leases)

lemma try_acquire_locked [simp]: "SQL_TRY_ACQUIRE True now job h leaseMs attemptMs t = (None, t)"
  by (simp add: SQL_TRY_ACQUIRE_def split: option.split)

lemma register_locked: "map_of t job = Some r \<Longrightarrow> SQL_REGISTER now job' t = t \<or> job' \<noteq> job"
  by (auto simp: SQL_REGISTER_def)

lemma db_step_grows: "db_step locked now d d' \<Longrightarrow> leases_grow (db_leases d) (db_leases d')"
  by (induction rule: db_step.induct)
     (auto simp: operation_leases statements_grow register_def markPending_def takePending_def split: prod.splits)

lemma db_step_locked:
  "db_step locked now d d' \<Longrightarrow> locked job \<Longrightarrow> map_of (db_leases d) job = Some r \<Longrightarrow> map_of (db_leases d') job = Some r"
proof (induction rule: db_step.induct)
  case (db_register d job')
  then show ?case using register_locked [of "db_leases d" job r now job'] statements_local(1) [of job job' now "db_leases d"]
    by (auto simp: register_def)
next
  case (db_tryAcquire hook busy i job' h attemptMs leaseMs d f d')
  then show ?case using statements_local(4) by (cases "job' = job") (auto simp: operation_leases)
qed (auto simp: operation_leases statements_local markPending_def takePending_def split: prod.splits
      dest!: statements_local [rotated] intro: statements_local [THEN trans])

subsection \<open>Fencing\<close>

text \<open>The row of an open transaction is its fence's.\<close>

definition open_ok :: "job_leases \<Rightarrow> ms \<Rightarrow> job_fence \<times> ms option \<Rightarrow> bool" where
  "open_ok t now p \<longleftrightarrow>
     (\<exists>r. map_of t (jf_job (fst p)) = Some r \<and> held_by (fst p) r \<and>
        (\<forall>c. snd p = Some c \<longrightarrow> c < attempt_deadline r \<and> c \<le> now))"

text \<open>A commit's row has moved on from it at most by new generations and by a finish.\<close>

definition past_of :: "job_leases \<Rightarrow> job_commit \<Rightarrow> bool" where
  "past_of t e \<longleftrightarrow>
     (\<exists>r. map_of t (jf_job (jc_fence e)) = Some r \<and>
        (jf_generation (jc_fence e) < generation r \<or>
         jf_generation (jc_fence e) = generation r \<and> (holder r = None \<or> holder r = Some (jf_holder (jc_fence e)))))"

definition timely :: "job_commit \<Rightarrow> bool" where
  "timely e \<longleftrightarrow> jc_checked e < jc_deadline e \<and> jc_checked e \<le> jc_committed e"

text \<open>Of two commits of one job the later has the later generation, or both are of one attempt.\<close>

definition commits_after :: "job_commit \<Rightarrow> job_commit \<Rightarrow> bool" where
  "commits_after e' e \<longleftrightarrow>
     jf_job (jc_fence e') = jf_job (jc_fence e) \<longrightarrow>
     jf_generation (jc_fence e) < jf_generation (jc_fence e') \<or> jc_fence e = jc_fence e'"

definition fencing_inv :: "job_sys \<Rightarrow> bool" where
  "fencing_inv s \<longleftrightarrow>
     list_all (open_ok (db_leases (js_db s)) (js_now s)) (js_open s) \<and>
     list_all (past_of (db_leases (js_db s))) (js_log s) \<and>
     list_all timely (js_log s) \<and> sorted_wrt commits_after (js_log s)"

lemma past_of_grows: "leases_grow t t' \<Longrightarrow> past_of t e \<Longrightarrow> past_of t' e"
proof -
  assume grow: "leases_grow t t'" and "past_of t e"
  then obtain r where r: "map_of t (jf_job (jc_fence e)) = Some r"
    and p: "jf_generation (jc_fence e) < generation r \<or>
      jf_generation (jc_fence e) = generation r \<and> (holder r = None \<or> holder r = Some (jf_holder (jc_fence e)))"
    unfolding past_of_def by blast
  from grow r obtain r' where r': "map_of t' (jf_job (jc_fence e)) = Some r'" and g: "lease_grows r r'"
    unfolding leases_grow_def by blast
  show "past_of t' e" using p g r' by (auto simp: past_of_def lease_grows_def)
qed

lemma open_past_after:
  assumes "open_ok t now (f, c)" and "past_of t e"
  shows "commits_after \<lparr>jc_fence = f, jc_checked = x, jc_committed = y, jc_deadline = z\<rparr> e"
  using assms by (auto simp: open_ok_def past_of_def commits_after_def held_by_def intro!: job_fence.equality)

lemma open_past: "open_ok t now (f, c) \<Longrightarrow> past_of t \<lparr>jc_fence = f, jc_checked = x, jc_committed = y, jc_deadline = z\<rparr>"
  by (auto simp: open_ok_def past_of_def held_by_def)

lemma open_ok_mono: "open_ok t now p \<Longrightarrow> now \<le> now' \<Longrightarrow> open_ok t now' p"
  by (auto simp: open_ok_def)

lemma open_ok_db_step:
  assumes "db_step (row_locked s) n d d'" and "p \<in> set (js_open s)" and "open_ok (db_leases d) now p"
  shows "open_ok (db_leases d') now p"
proof -
  have "row_locked s (jf_job (fst p))" 
    using assms(2) unfolding row_locked_def list_ex_iff by (intro bexI [of _ p]) (auto split: prod.split)
  then show ?thesis using assms(3) db_step_locked [OF assms(1)] unfolding open_ok_def by blast
qed

lemma fencing_step: "job_step s s' \<Longrightarrow> fencing_inv s \<Longrightarrow> fencing_inv s'"
proof (induction rule: job_step.induct)
  case (job_tick s n)
  then show ?case by (auto simp: fencing_inv_def list_all_iff intro: open_ok_mono)
next
  case (job_db n s d)
  then show ?case using past_of_grows [OF db_step_grows [OF job_db(2)]] open_ok_db_step [OF job_db(2)]
    by (auto simp: fencing_inv_def list_all_iff)
next
  case (job_begin f s s')
  then show ?case
    by (auto simp: fencing_inv_def beginFenced_def SQL_FENCE_def open_ok_def split: if_splits option.splits)
next
  case (job_check f s s')
  then have "open_ok (db_leases (js_db s)) (js_now s) (f, Some (js_now s))"
    and "s' = s\<lparr>js_open := (f, Some (js_now s)) # remove1 (f, None) (js_open s)\<rparr>"
    by (auto simp: checkFenced_def SQL_STILL_HELD_def open_ok_def split: if_splits option.splits)
  then show ?case using job_check(3) set_remove1_subset [of "(f, None)" "js_open s"]
    by (auto simp: fencing_inv_def list_all_iff)
next
  case (job_commit f checked s)
  then have ok: "open_ok (db_leases (js_db s)) (js_now s) (f, Some checked)" by (auto simp: fencing_inv_def list_all_iff)
  show ?case using job_commit open_past_after [OF ok] open_past [OF ok] ok
    by (auto simp: fencing_inv_def commitFenced_def list_all_iff timely_def open_ok_def dest: set_remove1_subset [THEN subsetD])
next
  case (job_rollback s t)
  then show ?case by (auto simp: fencing_inv_def list_all_iff dest: set_remove1_subset [THEN subsetD])
next
  case (job_cancel s f)
  then show ?case by (auto simp: fencing_inv_def cancelInFlight_def list_all_iff)
qed

lemma fencing_reachable: "job_reachable s \<Longrightarrow> fencing_inv s"
  by (induction rule: job_reachable.induct) (simp add: fencing_inv_def, rule fencing_step)

lemma open_same_job:
  "open_ok t now (f, c) \<Longrightarrow> open_ok t now (g, d) \<Longrightarrow> jf_job f = jf_job g \<Longrightarrow> f = g"
  by (auto simp: open_ok_def held_by_def intro!: job_fence.equality)

text \<open>C3: A job's writes are fenced, in every run of the lease store with any interleaving of lease statements and fenced
  transactions: of two commits of one job the later is of a later generation, or both are of one attempt, so an attempt
  whose lease was handed on or taken over writes nothing after its successor; every commit passed its check before the
  deadline of its attempt; and all transactions open for one job are of one attempt.\<close>

theorem job_writes_fenced:
  assumes "job_reachable s"
  shows "sorted_wrt commits_after (js_log s) \<and> list_all timely (js_log s) \<and>
    ((f, c) \<in> set (js_open s) \<longrightarrow> (g, d) \<in> set (js_open s) \<longrightarrow> jf_job f = jf_job g \<longrightarrow> f = g)"
  using fencing_reachable [OF assms] unfolding fencing_inv_def list_all_iff by (blast intro: open_same_job)

text \<open>Two attempts of one job: the first commits after its deadline, having passed its check before it; then it is reaped
  and a second one writes.\<close>

definition sample_fence_a :: job_fence where
  "sample_fence_a = \<lparr>jf_job = ''sync'', jf_holder = ''a'', jf_generation = 1\<rparr>"

definition sample_fence_b :: job_fence where
  "sample_fence_b = \<lparr>jf_job = ''sync'', jf_holder = ''b'', jf_generation = 2\<rparr>"

definition sample_sys :: "ms \<Rightarrow> job_leases \<Rightarrow> (job_fence \<times> ms option) list \<Rightarrow> job_commit list \<Rightarrow> job_sys" where
  "sample_sys now t opened writes =
     \<lparr>js_now = now, js_db = \<lparr>db_leases = t, db_kicks = Map.empty, db_wakes = []\<rparr>, js_open = opened, js_ended = [], js_log = writes\<rparr>"

definition sample_row_a :: job_lease where
  "sample_row_a = take_lease 0 ''a'' 20 10 (new_lease 0)"

definition sample_commit_a :: job_commit where
  "sample_commit_a = \<lparr>jc_fence = sample_fence_a, jc_checked = 5, jc_committed = 30, jc_deadline = 10\<rparr>"

lemma reach_acquire:
  assumes "job_reachable s" and "acquireJob hook busy i (js_now s) job h attemptMs leaseMs (js_db s) = Inr (f, d)" and "\<not> row_locked s job"
  shows "job_reachable (s\<lparr>js_db := d\<rparr>)"
  using assms(1) job_db [OF order.refl db_acquire [of "row_locked s", OF assms(3,2)]] by (rule job_next)

lemma reach_reap:
  assumes "job_reachable s" and "reapCrashed hook busy i (js_now s) job (js_db s) = Inr (b, d)" and "\<not> row_locked s job"
  shows "job_reachable (s\<lparr>js_db := d\<rparr>)"
  using assms(1) job_db [OF order.refl db_reap [of "row_locked s", OF assms(3,2)]] by (rule job_next)

lemmas sample_run = sample_sys_def sample_row_a_def sample_fence_a_def sample_fence_b_def sample_commit_a_def take_lease_def new_lease_def
  acquireJob_def reapCrashed_def with_times_def milliseconds_def changing_def as_row_def SQL_ACQUIRE_def SQL_REAP_def run_duration_def
  leaseProjection_def projected_def SQL_OWN_def SQL_DISOWN_def beginFenced_def checkFenced_def commitFenced_def refuseEnded_def
  SQL_FENCE_def SQL_STILL_HELD_def held_by_def fenceOf_def row_locked_def apfst_def map_prod_def

lemma sample_reach_1: "job_reachable (sample_sys 0 [(''sync'', sample_row_a)] [] [])"
proof -
  have "job_reachable (sample_sys 0 [] [] [])" by (rule job_start) (simp_all add: sample_sys_def)
  from reach_acquire [OF this, of "\<lambda>_. True" "[]" "[]" "''sync''" "''a''" 10 20 "Some sample_fence_a"
      "js_db (sample_sys 0 [(''sync'', sample_row_a)] [] [])"]
  show ?thesis by (simp add: sample_run)
qed

lemma sample_reach_2: "job_reachable (sample_sys 30 [(''sync'', sample_row_a)] [] [sample_commit_a])"
proof -
  let ?t = "[(''sync'', sample_row_a)]"
  have "job_reachable (sample_sys 0 ?t [(sample_fence_a, None)] [])"
    by (rule job_next [OF sample_reach_1 job_begin [of sample_fence_a]]) (simp add: sample_run)
  from job_next [OF this job_tick [of _ 5]] have "job_reachable (sample_sys 5 ?t [(sample_fence_a, None)] [])"
    by (simp add: sample_sys_def)
  then have "job_reachable (sample_sys 5 ?t [(sample_fence_a, Some 5)] [])"
    by (rule job_next [OF _ job_check [of sample_fence_a]]) (simp_all add: sample_run)
  from job_next [OF this job_tick [of _ 30]] have "job_reachable (sample_sys 30 ?t [(sample_fence_a, Some 5)] [])"
    by (simp add: sample_sys_def)
  from job_next [OF this job_commit [of sample_fence_a 5]] show ?thesis by (simp add: sample_run)
qed

definition sample_row_reaped :: job_lease where
  "sample_row_reaped = sample_row_a\<lparr>holder := None, last_status := Some Failed, last_finished_at := Some 30, last_duration_ms := Some 30\<rparr>"

definition sample_row_b :: job_lease where
  "sample_row_b = take_lease 30 ''b'' 20 10 sample_row_reaped"

lemma sample_reach_3: "job_reachable (sample_sys 30 [(''sync'', sample_row_b)] [] [sample_commit_a])"
proof -
  from reach_reap [OF sample_reach_2, of "\<lambda>_. True" "[]" "[]" "''sync''" True "js_db (sample_sys 30 [(''sync'', sample_row_reaped)] [] [])"]
  have "job_reachable (sample_sys 30 [(''sync'', sample_row_reaped)] [] [sample_commit_a])"
    by (simp add: sample_run sample_row_reaped_def)
  from reach_acquire [OF this, of "\<lambda>_. True" "[]" "[]" "''sync''" "''b''" 10 20 "Some sample_fence_b"
      "js_db (sample_sys 30 [(''sync'', sample_row_b)] [] [])"]
  show ?thesis by (simp add: sample_run sample_row_reaped_def sample_row_b_def)
qed

definition sample_commit_b :: job_commit where
  "sample_commit_b = \<lparr>jc_fence = sample_fence_b, jc_checked = 30, jc_committed = 30, jc_deadline = 40\<rparr>"

lemma sample_reach_4:
  "job_reachable (sample_sys 30 [(''sync'', sample_row_b)] [(sample_fence_b, None)] [sample_commit_b, sample_commit_a])"
proof -
  let ?t = "[(''sync'', sample_row_b)]"
  note run = sample_run sample_row_reaped_def sample_row_b_def sample_commit_b_def
  have "job_reachable (sample_sys 30 ?t [(sample_fence_b, None)] [sample_commit_a])"
    by (rule job_next [OF sample_reach_3 job_begin [of sample_fence_b]]) (simp add: run)
  then have "job_reachable (sample_sys 30 ?t [(sample_fence_b, Some 30)] [sample_commit_a])"
    by (rule job_next [OF _ job_check [of sample_fence_b]]) (simp_all add: run)
  from job_next [OF this job_commit [of sample_fence_b 30]]
  have "job_reachable (sample_sys 30 ?t [] [sample_commit_b, sample_commit_a])" by (simp add: run)
  then show ?thesis by (rule job_next [OF _ job_begin [of sample_fence_b]]) (simp add: run)
qed

theorem job_writes_fenced_witness:
  "sorted_wrt commits_after [sample_commit_b, sample_commit_a] \<and> list_all timely [sample_commit_b, sample_commit_a]"
  using job_writes_fenced [OF sample_reach_4, of sample_fence_b None sample_fence_b None] by (simp add: sample_sys_def)

text \<open>The check before the commit is the last reading of the clock: the commit itself may land after the deadline of its
  attempt, though never after a takeover.\<close>

lemma commit_may_follow_deadline: "\<exists>s e. job_reachable s \<and> e \<in> set (js_log s) \<and> jc_deadline e < jc_committed e"
  by (rule exI, rule exI [of _ sample_commit_a], intro conjI, rule sample_reach_2) (simp_all add: sample_run)

end
