(* ===== verification/Job_Recovery.thy ===== *)
theory Job_Recovery
  imports Job_Fencing
begin

text \<open>
  What the lease store and the wakes promise a job: a crashed holder's job runs again, no wake is lost while a run ends,
  and the runtime is woken for every pending wake.
\<close>

subsection \<open>Dedupe keys\<close>

text \<open>The unique index over the pending wakes' dedupe keys.\<close>

definition dedupe_unique :: "wake list \<Rightarrow> bool" where
  "dedupe_unique ws \<longleftrightarrow> distinct (List.map_filter wk_dedupe ws)"

lemma dedupe_unique_simps [simp]:
  "dedupe_unique []"
  "dedupe_unique (w # ws) \<longleftrightarrow>
     (case wk_dedupe w of None \<Rightarrow> True | Some k \<Rightarrow> \<forall>v \<in> set ws. wk_dedupe v \<noteq> Some k) \<and> dedupe_unique ws"
  by (simp add: dedupe_unique_def, force simp: dedupe_unique_def List.map_filter_def split: option.splits)

lemma dedupe_unique_append_one:
  "dedupe_unique (ws @ [w]) \<longleftrightarrow>
     dedupe_unique ws \<and> (case wk_dedupe w of None \<Rightarrow> True | Some k \<Rightarrow> \<forall>v \<in> set ws. wk_dedupe v \<noteq> Some k)"
  by (induction ws) (auto split: option.splits)

lemma dedupe_unique_map: "(\<And>w. w \<in> set ws \<Longrightarrow> wk_dedupe (g w) = wk_dedupe w) \<Longrightarrow> dedupe_unique (map g ws) \<longleftrightarrow> dedupe_unique ws"
  by (induction ws) (auto split: option.splits)

lemma dedupe_unique_filter: "dedupe_unique ws \<Longrightarrow> dedupe_unique (filter P ws)"
  by (induction ws) (auto split: option.splits)

lemma dedupe_same: "dedupe_unique ws \<Longrightarrow> v \<in> set ws \<Longrightarrow> w \<in> set ws \<Longrightarrow> wk_dedupe v = Some k \<Longrightarrow> wk_dedupe w = Some k \<Longrightarrow> v = w"
  by (induction ws) (auto split: option.splits)

lemma find_Some_in: "find P xs = Some x \<Longrightarrow> x \<in> set xs \<and> P x"
  by (induction xs) (auto split: if_splits)

lemma schedule_cases:
  assumes "SQL_SCHEDULE i n ws = (Some w, ws')"
  obtains (inserted) "ws' = ws @ [w]" "\<forall>v \<in> set ws. nw_dedupe n = None \<or> wk_dedupe v \<noteq> nw_dedupe n"
      "w = \<lparr>wk_id = i, wk_job = nw_job n, wk_reason = nw_reason n, wk_dueAt = nw_dueAt n, wk_attempt = 0,
        wk_dedupe = nw_dedupe n, wk_owned = False\<rparr>"
  | (merged) v k where "v \<in> set ws" "nw_dedupe n = Some k" "wk_dedupe v = Some k" "wk_job v = nw_job n"
      "w = v\<lparr>wk_dueAt := min (wk_dueAt v) (nw_dueAt n), wk_owned := wk_owned v \<and> nw_reason n = Cron\<rparr>"
      "ws' = map (\<lambda>u. if wk_dedupe u = Some k then w else u) ws"
proof -
  have "(\<exists>v k. v \<in> set ws \<and> nw_dedupe n = Some k \<and> wk_dedupe v = Some k \<and> wk_job v = nw_job n \<and>
      w = v\<lparr>wk_dueAt := min (wk_dueAt v) (nw_dueAt n), wk_owned := wk_owned v \<and> nw_reason n = Cron\<rparr> \<and>
      ws' = map (\<lambda>u. if wk_dedupe u = Some k then w else u) ws) \<or>
    (ws' = ws @ [w] \<and> (\<forall>v \<in> set ws. nw_dedupe n = None \<or> wk_dedupe v \<noteq> nw_dedupe n) \<and>
      w = \<lparr>wk_id = i, wk_job = nw_job n, wk_reason = nw_reason n, wk_dueAt = nw_dueAt n, wk_attempt = 0,
        wk_dedupe = nw_dedupe n, wk_owned = False\<rparr>)"
    using assms
    by (auto simp: SQL_SCHEDULE_def Let_def find_None_iff split: option.splits if_splits dest!: find_Some_in)
  then show thesis using that by blast
qed

lemma schedule_unique: "SQL_SCHEDULE i n ws = (Some w, ws') \<Longrightarrow> dedupe_unique ws \<Longrightarrow> dedupe_unique ws'"
  by (erule schedule_cases) (auto simp: dedupe_unique_append_one dedupe_unique_map split: option.splits)

lemma insert_unique: "insert_wake i n ws = Inr (w, ws') \<Longrightarrow> dedupe_unique ws \<Longrightarrow> dedupe_unique ws'"
  by (auto simp: insert_wake_def split: if_splits prod.splits option.splits intro: schedule_unique)

lemma statements_unique [simp]:
  "dedupe_unique (SQL_OWN busy job t ws) \<longleftrightarrow> dedupe_unique ws"
  "dedupe_unique (SQL_DISOWN busy job ws) \<longleftrightarrow> dedupe_unique ws"
  "dedupe_unique (SQL_RETRY job at ws) \<longleftrightarrow> dedupe_unique ws"
  "dedupe_unique (snd (SQL_HASTEN now ids ws)) \<longleftrightarrow> dedupe_unique ws"
  by (simp_all add: SQL_OWN_def SQL_DISOWN_def SQL_RETRY_def SQL_HASTEN_def Let_def dedupe_unique_map)

lemma filters_unique:
  "dedupe_unique ws \<Longrightarrow> dedupe_unique (SQL_CONSUME job ws)"
  "dedupe_unique ws \<Longrightarrow> dedupe_unique (SQL_DROP_CLAIM job key ws)"
  "dedupe_unique ws \<Longrightarrow> dedupe_unique (snd (SQL_RECONCILE declared ws))"
  by (simp_all add: SQL_CONSUME_def SQL_DROP_CLAIM_def SQL_RECONCILE_def Let_def dedupe_unique_filter)

lemma applyFinish_unique: "applyFinish i job wakes ws = Inr ws' \<Longrightarrow> dedupe_unique ws \<Longrightarrow> dedupe_unique ws'"
  by (auto simp: applyFinish_def map_sum_Inr filters_unique split: option.splits finish_wakes.splits dest!: insert_unique)

lemma leaseProjection_unique:
  "leaseProjection hook busy i job change d = Inr d' \<Longrightarrow> dedupe_unique (db_wakes d) \<Longrightarrow> dedupe_unique (db_wakes d')"
  by (cases change) (auto simp: leaseProjection_def map_sum_Inr applyFinish_unique split: sum.splits)

lemma changing_unique:
  "changing hook busy i job change answer d = Inr (r, d') \<Longrightarrow> dedupe_unique (db_wakes d) \<Longrightarrow> dedupe_unique (db_wakes d')"
  by (auto simp: changing_def split: prod.splits option.splits sum.splits dest!: leaseProjection_unique)

lemma operations_unique:
  assumes "dedupe_unique (db_wakes d)"
  shows "reapCrashed hook busy i now job d = Inr (b, d') \<Longrightarrow> dedupe_unique (db_wakes d')"
    "acquireJob hook busy i now job h attemptMs leaseMs d = Inr (f, d') \<Longrightarrow> dedupe_unique (db_wakes d')"
    "tryAcquire hook busy i l now job h attemptMs leaseMs d = Inr (f, d') \<Longrightarrow> dedupe_unique (db_wakes d')"
    "renewJob hook busy i now g h attemptMs leaseMs d = Inr (f, d') \<Longrightarrow> dedupe_unique (db_wakes d')"
    "finishJob hook busy i now g outcome wakes d = Inr (b, d') \<Longrightarrow> dedupe_unique (db_wakes d')"
    "claimOverdue now job periodMs d = Inr (c, d') \<Longrightarrow> dedupe_unique (db_wakes d')"
  using assms
  by (auto simp: reapCrashed_def acquireJob_def tryAcquire_def renewJob_def finishJob_def claimOverdue_def map_sum_Inr
      with_times_Inr apfst_def map_prod_def split: sum.splits prod.splits if_splits dest!: changing_unique)

lemma wakes_operations_unique:
  assumes "dedupe_unique (db_wakes d)"
  shows "schedule hook i n d = Inr (w, d') \<Longrightarrow> dedupe_unique (db_wakes d')"
    "rearmClaim hook i g dueAt rearms d = (rearms', Inr d') \<Longrightarrow> dedupe_unique (db_wakes d')"
    "reconcile hook declared d = Inr (k, d') \<Longrightarrow> dedupe_unique (db_wakes d')"
    "hasten production hook now ids d = Inr (k, d') \<Longrightarrow> dedupe_unique (db_wakes d')"
proof -
  show "schedule hook i n d = Inr (w, d') \<Longrightarrow> dedupe_unique (db_wakes d')"
    using assms by (auto simp: schedule_def split: sum.splits dest!: insert_unique)
  show "rearmClaim hook i g dueAt rearms d = (rearms', Inr d') \<Longrightarrow> dedupe_unique (db_wakes d')"
    using assms insert_unique [OF _ filters_unique(2) [OF assms]]
    by (auto simp: rearmClaim_def Let_def filters_unique split: sum.splits option.splits prod.splits)
  show "reconcile hook declared d = Inr (k, d') \<Longrightarrow> dedupe_unique (db_wakes d')"
    using filters_unique(3) [OF assms, of declared] by (auto simp: reconcile_def split: sum.splits prod.splits if_splits)
  show "hasten production hook now ids d = Inr (k, d') \<Longrightarrow> dedupe_unique (db_wakes d')"
    using assms by (auto simp: hasten_def SQL_HASTEN_def dedupe_unique_map split: sum.splits prod.splits if_splits)
qed

lemma db_step_unique: "db_step locked now d d' \<Longrightarrow> dedupe_unique (db_wakes d) \<Longrightarrow> dedupe_unique (db_wakes d')"
proof (induction rule: db_step.induct)
  case (db_register d job)
  then show ?case by (simp add: register_def)
next
  case (db_markPending d job)
  then show ?case by (simp add: markPending_def)
next
  case (db_takePending d job)
  then show ?case by (simp add: takePending_def split: prod.split)
qed (metis operations_unique wakes_operations_unique)+

subsection \<open>A wake that a run does not own\<close>

text \<open>What survives of an unowned wake: its id, job and key, no later a due time, and no owner.\<close>

definition still_pending :: "wake \<Rightarrow> wake \<Rightarrow> bool" where
  "still_pending w w' \<longleftrightarrow>
     wk_id w' = wk_id w \<and> wk_job w' = wk_job w \<and> wk_dedupe w' = wk_dedupe w \<and> wk_dueAt w' \<le> wk_dueAt w \<and> \<not> wk_owned w'"

lemma insert_keeps_unowned:
  assumes "insert_wake i n ws = Inr (v, ws')" and unique: "dedupe_unique ws" and w: "w \<in> set ws" "\<not> wk_owned w"
  shows "\<exists>w' \<in> set ws'. still_pending w w'"
proof -
  from assms(1) have "SQL_SCHEDULE i n ws = (Some v, ws')"
    by (auto simp: insert_wake_def split: if_splits prod.splits option.splits)
  then show ?thesis
  proof (cases rule: schedule_cases)
    case inserted
    then show ?thesis using w by (auto simp: still_pending_def)
  next
    case (merged u k)
    show ?thesis
    proof (cases "wk_dedupe w = Some k")
      case True
      then have "u = w" using dedupe_same [OF unique merged(1) w(1) merged(3)] by simp
      then show ?thesis using merged w by (auto simp: still_pending_def intro!: bexI [of _ v])
    next
      case False
      then show ?thesis using merged w by (auto simp: still_pending_def intro!: bexI [of _ w])
    qed
  qed
qed

lemma applyFinish_keeps_unowned:
  assumes "applyFinish i job wakes ws = Inr ws'" and "dedupe_unique ws" and w: "w \<in> set ws" "\<not> wk_owned w"
  shows "\<exists>w' \<in> set ws'. still_pending w w'"
proof -
  have kept: "w \<in> set (SQL_CONSUME job ws)" and moved: "w \<in> set (SQL_RETRY job x ws)" for x
    using w by (auto simp: SQL_CONSUME_def SQL_RETRY_def image_iff)
  show ?thesis using assms(1) w kept moved insert_keeps_unowned [OF _ filters_unique(1) [OF assms(2)] kept w(2)]
    by (auto simp: applyFinish_def map_sum_Inr split: option.splits finish_wakes.splits prod.splits)
      (auto simp: still_pending_def)
qed

lemma disown_keeps: "still_pending w w' \<Longrightarrow> w' \<in> set ws \<Longrightarrow> w' \<in> set (SQL_DISOWN busy job ws)"
  by (auto simp: SQL_DISOWN_def still_pending_def image_iff)

lemma finish_keeps_unowned:
  assumes "finishJob hook busy i now f outcome wakes d = Inr (b, d')" and "dedupe_unique (db_wakes d)"
    and "w \<in> set (db_wakes d)" "\<not> wk_owned w"
  shows "\<exists>w' \<in> set (db_wakes d'). still_pending w w'"
proof -
  from assms(1) obtain r instruction where
    c: "changing hook busy i (jf_job f) (Finished instruction) (as_row (SQL_FINISH now f outcome (db_leases d))) d = Inr (r, d')"
    by (auto simp: finishJob_def map_sum_Inr split: sum.splits)
  then consider "db_wakes d' = db_wakes d"
    | ws where "applyFinish i (jf_job f) instruction (db_wakes d) = Inr ws" "db_wakes d' = SQL_DISOWN busy (jf_job f) ws"
    by (auto simp: changing_def leaseProjection_def map_sum_Inr split: prod.splits option.splits sum.splits)
  then show ?thesis
  proof cases
    case 1
    then show ?thesis using assms(3,4) by (auto simp: still_pending_def)
  next
    case 2
    then show ?thesis using applyFinish_keeps_unowned [OF 2(1) assms(2-4)] disown_keeps by metis
  qed
qed

text \<open>A scheduled wake that is no cron run is unowned.\<close>

lemma schedule_unowned:
  assumes "schedule hook i n d = Inr (w, d')" and "nw_reason n \<noteq> Cron"
  shows "w \<in> set (db_wakes d') \<and> \<not> wk_owned w \<and> wk_job w = nw_job n \<and> wk_dueAt w \<le> nw_dueAt n \<and> wk_dedupe w = nw_dedupe n"
proof -
  from assms(1) have "SQL_SCHEDULE i n (db_wakes d) = (Some w, db_wakes d')"
    by (auto simp: schedule_def insert_wake_def split: sum.splits if_splits prod.splits option.splits)
  then show ?thesis using assms(2) by (cases rule: schedule_cases) (auto simp: image_iff)
qed

text \<open>C29: A wake scheduled while a run is under way, a kick, a claim or a retry, is not lost when that run finishes,
  whatever its outcome and its instruction for the wakes it owned: after the finish it is still pending under its key,
  due no later than asked, and owned by no run.\<close>

theorem late_wake_survives:
  assumes "dedupe_unique (db_wakes d)" and "schedule hook i n d = Inr (w, d1)" and "nw_reason n \<noteq> Cron"
    and "finishJob hook' busy j now f outcome wakes d1 = Inr (b, d2)"
  shows "\<exists>w' \<in> set (db_wakes d2). wk_id w' = wk_id w \<and> wk_job w' = nw_job n \<and> wk_dueAt w' \<le> nw_dueAt n \<and>
    wk_dedupe w' = nw_dedupe n \<and> \<not> wk_owned w'"
proof -
  note w = schedule_unowned [OF assms(2,3)]
  obtain w' where "w' \<in> set (db_wakes d2)" "still_pending w w'"
    using finish_keeps_unowned [OF assms(4) wakes_operations_unique(1) [OF assms(1,2)]] w by blast
  then show ?thesis using w by (intro bexI [of _ w']) (auto simp: still_pending_def)
qed

definition sample_wakes_db :: job_db where
  "sample_wakes_db = \<lparr>db_leases = [(''sync'', take_lease 0 ''a'' 20 10 (new_lease 0))], db_kicks = Map.empty,
     db_wakes = [\<lparr>wk_id = ''w0'', wk_job = ''sync'', wk_reason = Kick, wk_dueAt = 0, wk_attempt = 0, wk_dedupe = Some ''k'', wk_owned = True\<rparr>]\<rparr>"

definition sample_kick :: new_wake where
  "sample_kick = \<lparr>nw_job = ''sync'', nw_reason = Kick, nw_dueAt = 3, nw_dedupe = Some ''k''\<rparr>"

theorem late_wake_survives_witness:
  "\<exists>w d1 d2. schedule (\<lambda>_. True) ''w1'' sample_kick sample_wakes_db = Inr (w, d1) \<and>
     finishJob (\<lambda>_. True) [] ''w2'' 5 sample_fence_a Succeeded None d1 = Inr (True, d2) \<and>
     (\<exists>w' \<in> set (db_wakes d2). wk_id w' = ''w0'' \<and> wk_job w' = ''sync'' \<and> wk_dueAt w' \<le> 3 \<and>
       wk_dedupe w' = Some ''k'' \<and> \<not> wk_owned w')"
proof -
  note defs = sample_wakes_db_def sample_kick_def sample_fence_a_def take_lease_def new_lease_def
  obtain w d1 where s: "schedule (\<lambda>_. True) ''w1'' sample_kick sample_wakes_db = Inr (w, d1)" and w: "wk_id w = ''w0''"
    and d1: "d1 = sample_wakes_db\<lparr>db_wakes := [w]\<rparr>" and o1: "\<not> wk_owned w"
    by (simp add: defs schedule_def insert_wake_def newWake_ok_def SQL_SCHEDULE_def projected_def Let_def)
  obtain d2 where f: "finishJob (\<lambda>_. True) [] ''w2'' 5 sample_fence_a Succeeded None d1 = Inr (True, d2)"
    by (simp add: d1 defs finishJob_def finishWakes_def changing_def as_row_def SQL_FINISH_def held_by_def leaseProjection_def
        applyFinish_def projected_def)
  have "dedupe_unique (db_wakes sample_wakes_db)" by (simp add: sample_wakes_db_def)
  from late_wake_survives [OF this s _ f] show ?thesis using s f w by (auto simp: sample_kick_def)
qed

subsection \<open>A crashed run\<close>

lemma reap_expired:
  assumes "map_of (db_leases d) job = Some r" and "holder r \<noteq> None" and "expires_at r \<le> now" and "\<And>x. hook x"
  shows "reapCrashed hook busy i now job d =
    Inr (True, d\<lparr>db_leases := AList.update job (r\<lparr>holder := None, last_status := Some Failed, last_finished_at := Some now,
      last_duration_ms := run_duration now r\<rparr>) (db_leases d), db_wakes := SQL_DISOWN busy job (db_wakes d)\<rparr>)"
  using assms by (simp add: reapCrashed_def SQL_REAP_def as_row_def changing_def leaseProjection_def projected_def)

lemma acquire_free:
  assumes "map_of (db_leases d) job = Some r" and "holder r = None" and "\<And>x. hook x" and "1 \<le> leaseMs" and "1 \<le> attemptMs"
  shows "acquireJob hook busy i now job h attemptMs leaseMs d =
    (let t = AList.update job (take_lease now h leaseMs attemptMs r) (db_leases d) in
     Inr (Some \<lparr>jf_job = job, jf_holder = h, jf_generation = generation r + 1\<rparr>,
       d\<lparr>db_leases := t, db_wakes := SQL_OWN busy job t (db_wakes d)\<rparr>))"
  using assms by (simp add: acquireJob_def with_times_def milliseconds_def SQL_ACQUIRE_def changing_def leaseProjection_def projected_def
      fenceOf_def Let_def)

lemma acquire_held:
  assumes "map_of (db_leases d) job = Some r" and "holder r \<noteq> None" and "1 \<le> leaseMs" and "1 \<le> attemptMs"
  shows "acquireJob hook busy i now job h attemptMs leaseMs d = Inr (None, d)"
  using assms by (auto simp: acquireJob_def with_times_def milliseconds_def SQL_ACQUIRE_def changing_def fenceOf_def)

lemma own_disowned:
  assumes "w \<in> set ws" "wk_job w = job" "wk_dueAt w \<le> now" "wk_id w \<notin> set busy"
    and "map_of t job = Some r" "last_started_at r = Some now"
  shows "w\<lparr>wk_owned := True\<rparr> \<in> set (SQL_OWN busy job t (SQL_DISOWN busy job ws))"
  using assms by (auto simp: SQL_OWN_def SQL_DISOWN_def image_iff intro!: bexI [of _ w] wake.equality)



subsection \<open>The next wake\<close>

lemma min_opt_Some: "x \<in> set xs \<Longrightarrow> \<exists>m. min_opt xs = Some m \<and> m \<le> x"
  by (auto simp: min_opt_def intro: exI [of _ "Min (set xs)"])

lemma min_opt_in: "min_opt xs = Some m \<Longrightarrow> m \<in> set xs"
  by (auto simp: min_opt_def split: if_splits)

lemma min_opt_append:
  "(case (min_opt xs, min_opt ys) of (None, None) \<Rightarrow> None | (Some w, None) \<Rightarrow> Some w | (None, Some h) \<Rightarrow> Some h
    | (Some w, Some h) \<Rightarrow> Some (min w h)) = min_opt (xs @ ys)"
  by (cases "xs = []"; cases "ys = []") (simp_all add: min_opt_def Min_Un)

lemma next_wake_min:
  "next_wake now d = min_opt
     (map wk_dueAt (filter (\<lambda>w. lease_free now (db_leases d) (wk_job w)) (db_wakes d)) @
      map (\<lambda>(job, r). expires_at r) (filter (\<lambda>(job, r). holder r \<noteq> None) (db_leases d)))"
  unfolding next_wake_def SQL_NEXT_def by (rule min_opt_append)

text \<open>The runtime is woken for every pending wake: there is a next time, and it is no later than the wake's due time
  when its job may run, or than the expiry of the lease that keeps the job busy. It wakes for nothing else: the next time
  is the due time of a pending wake whose job may run, or the expiry of a held lease.\<close>

theorem next_wake_covers:
  assumes "w \<in> set (db_wakes d)"
  shows "\<exists>x. next_wake now d = Some x \<and>
    (if lease_free now (db_leases d) (wk_job w) then x \<le> wk_dueAt w
     else \<exists>r. map_of (db_leases d) (wk_job w) = Some r \<and> x \<le> expires_at r) \<and>
    ((\<exists>v \<in> set (db_wakes d). lease_free now (db_leases d) (wk_job v) \<and> x = wk_dueAt v) \<or>
     (\<exists>(job, r) \<in> set (db_leases d). holder r \<noteq> None \<and> x = expires_at r))"
proof -
  let ?xs = "map wk_dueAt (filter (\<lambda>w. lease_free now (db_leases d) (wk_job w)) (db_wakes d)) @
      map (\<lambda>(job, r). expires_at r) (filter (\<lambda>(job, r). holder r \<noteq> None) (db_leases d))"
  obtain y where y: "y \<in> set ?xs" and bound: "\<And>x. x \<le> y \<Longrightarrow> if lease_free now (db_leases d) (wk_job w) then x \<le> wk_dueAt w
     else \<exists>r. map_of (db_leases d) (wk_job w) = Some r \<and> x \<le> expires_at r"
  proof (cases "lease_free now (db_leases d) (wk_job w)")
    case True
    then show ?thesis using assms by (intro that [of "wk_dueAt w"]) auto
  next
    case False
    then obtain r where r: "map_of (db_leases d) (wk_job w) = Some r" "holder r \<noteq> None"
      by (auto simp: lease_free_def split: option.splits)
    then show ?thesis using False map_of_SomeD [OF r(1)] by (intro that [of "expires_at r"]) (auto simp: image_iff)
  qed
  obtain x where x: "min_opt ?xs = Some x" "x \<le> y" using min_opt_Some [OF y] by blast
  show ?thesis using min_opt_in [OF x(1)] x bound [OF x(2)] unfolding next_wake_min by auto
qed

theorem next_wake_covers_witness:
  "\<exists>x. next_wake 5 sample_wakes_db = Some x \<and> x \<le> 20"
  using next_wake_covers [of "\<lparr>wk_id = ''w0'', wk_job = ''sync'', wk_reason = Kick, wk_dueAt = 0, wk_attempt = 0,
      wk_dedupe = Some ''k'', wk_owned = True\<rparr>" sample_wakes_db 5]
  by (auto simp: sample_wakes_db_def lease_free_def take_lease_def new_lease_def)

end
