(* ===== verification/Db_Nodes.thy ===== *)
theory Db_Nodes
  imports Prelude Complex_Main
begin

text \<open>
  The statements of the guarded data layer: the operation trees \<open>packages/db/src/nodes.ts\<close> builds for Kysely, with the errors
  (\<open>errors.ts\<close>), the plain identifiers (\<open>identifier.ts\<close>) and the query descriptions (\<open>description.ts\<close>) they are built from.
  A tree is plain data: a node is an object whose \<open>kind\<close> is a text, with the fields Kysely's node interfaces give it, which
  are the fields \<open>guard.ts\<close> reads. An \<open>undefined\<close> property is an absent one. A throw of the layer is \<open>Inl\<close> of its error.
\<close>

subsection \<open>Errors\<close>

datatype query_refusal =
    Invalid_arg | Invalid_value | Invalid_name | Unknown_column | Unknown_table | Framework_table | Row_address | Version_required
  | Read_only | Ended | Statement_failed | Unexpected_row | Statement_shape | Scope_predicate | List_page | Undeclared_reach
  | Sql_template | Sql_statement | Sql_read_only | Sql_name | Sql_function | Sql_outside_transaction | Sql_scope | File_scan
  | Claim_site | On_conflict | Public_reach | File_value | File_scope

datatype capability_reason =
    Wrong_capability | Wrong_action | Out_of_reach | Unenforceable | Undeclared_operation | Table_kind | Within_size | Layer_unbound

datatype db_error =
    QueryRefusedError query_refusal
  | CapabilityError capability_reason
  | PolicyError
  | NotFoundError
  | ConflictError
  | DatabaseError

definition bindE :: "'e + 'a \<Rightarrow> ('a \<Rightarrow> 'e + 'b) \<Rightarrow> 'e + 'b" where
  "bindE m f = (case m of Inl e \<Rightarrow> Inl e | Inr x \<Rightarrow> f x)"

fun mapE :: "('a \<Rightarrow> 'e + 'b) \<Rightarrow> 'a list \<Rightarrow> 'e + 'b list" where
  "mapE f [] = Inr []"
| "mapE f (x # xs) = bindE (f x) (\<lambda>y. bindE (mapE f xs) (\<lambda>ys. Inr (y # ys)))"

lemma bindE_Inr [simp]: "bindE (Inr x) f = f x" and bindE_Inl [simp]: "bindE (Inl e) f = Inl e"
  by (simp_all add: bindE_def)

lemma bindE_eq_Inr: "bindE m f = Inr y \<longleftrightarrow> (\<exists>x. m = Inr x \<and> f x = Inr y)"
  by (cases m) simp_all

lemma mapE_eq_Inr: "mapE f xs = Inr ys \<longleftrightarrow> list_all2 (\<lambda>x y. f x = Inr y) xs ys"
  by (induction xs arbitrary: ys) (auto simp: bindE_eq_Inr list_all2_Cons1)

subsection \<open>Plain identifiers\<close>

definition identifier_char :: "bool \<Rightarrow> char \<Rightarrow> bool" where
  "identifier_char first c \<longleftrightarrow> is_lower_az c \<or> c = CHR ''_'' \<or> \<not> first \<and> is_digit c"

definition isPlainIdentifier :: "string \<Rightarrow> bool" where
  "isPlainIdentifier s \<longleftrightarrow> s \<noteq> [] \<and> length s \<le> 63 \<and> identifier_char True (hd s) \<and> list_all (identifier_char False) (tl s)"

text \<open>A plain identifier, or two joined by one dot.\<close>

definition isPlainAlias :: "string \<Rightarrow> bool" where
  "isPlainAlias s =
     (case splitOn (CHR ''.'') s of
        [a] \<Rightarrow> isPlainIdentifier a
      | [a, b] \<Rightarrow> isPlainIdentifier a \<and> isPlainIdentifier b
      | _ \<Rightarrow> False)"

subsection \<open>Values and trees\<close>

datatype prim = PStr string | PNum rat | PBigint int | PBool bool | PDate int

text \<open>\<open>NOther\<close> is a function or a symbol: no object, and never bound.\<close>

datatype node_val =
    NNull
  | NPrim prim
  | NOther
  | NArr "node_val list"
  | NObj "(string \<times> node_val) list"

fun read :: "node_val option \<Rightarrow> string \<Rightarrow> node_val option" where
  "read (Some (NObj ps)) key = map_of ps key"
| "read _ key = None"

definition kindOf :: "node_val option \<Rightarrow> string option" where
  "kindOf n = (case read n ''kind'' of Some (NPrim (PStr k)) \<Rightarrow> Some k | _ \<Rightarrow> None)"

abbreviation text_node :: "string \<Rightarrow> node_val" where
  "text_node s \<equiv> NPrim (PStr s)"

definition mk :: "string \<Rightarrow> (string \<times> node_val) list \<Rightarrow> node_val" where
  "mk kind ps = NObj ((''kind'', text_node kind) # ps)"

text \<open>The node constructors the layer calls.\<close>

named_theorems node_defs

definition identifierNode :: "string \<Rightarrow> node_val" where
  [node_defs]: "identifierNode n = mk ''IdentifierNode'' [(''name'', text_node n)]"

definition tableNode :: "string \<Rightarrow> node_val" where
  [node_defs]: "tableNode t = mk ''TableNode'' [(''table'', mk ''SchemableIdentifierNode'' [(''identifier'', identifierNode t)])]"

definition columnNode :: "string \<Rightarrow> node_val" where
  [node_defs]: "columnNode c = mk ''ColumnNode'' [(''column'', identifierNode c)]"

definition referenceNode :: "node_val \<Rightarrow> node_val \<Rightarrow> node_val" where
  [node_defs]: "referenceNode c t = mk ''ReferenceNode'' [(''column'', c), (''table'', t)]"

definition operatorNode :: "string \<Rightarrow> node_val" where
  [node_defs]: "operatorNode op = mk ''OperatorNode'' [(''operator'', text_node op)]"

definition binaryNode :: "node_val \<Rightarrow> string \<Rightarrow> node_val \<Rightarrow> node_val" where
  [node_defs]: "binaryNode l op r = mk ''BinaryOperationNode'' [(''leftOperand'', l), (''operator'', operatorNode op), (''rightOperand'', r)]"

definition valueNode :: "prim option \<Rightarrow> node_val" where
  [node_defs]: "valueNode v = mk ''ValueNode'' [(''value'', case v of None \<Rightarrow> NNull | Some p \<Rightarrow> NPrim p)]"

definition immediateNode :: "node_val \<Rightarrow> node_val" where
  [node_defs]: "immediateNode v = mk ''ValueNode'' [(''value'', v), (''immediate'', NPrim (PBool True))]"

definition valueListNode :: "node_val list \<Rightarrow> node_val" where
  [node_defs]: "valueListNode vs = mk ''ValueListNode'' [(''values'', NArr vs)]"

definition andNode :: "node_val \<Rightarrow> node_val \<Rightarrow> node_val" where
  [node_defs]: "andNode l r = mk ''AndNode'' [(''left'', l), (''right'', r)]"

definition orNode :: "node_val \<Rightarrow> node_val \<Rightarrow> node_val" where
  [node_defs]: "orNode l r = mk ''OrNode'' [(''left'', l), (''right'', r)]"

definition parensNode :: "node_val \<Rightarrow> node_val" where
  [node_defs]: "parensNode n = mk ''ParensNode'' [(''node'', n)]"

definition whereNode :: "node_val \<Rightarrow> node_val" where
  [node_defs]: "whereNode n = mk ''WhereNode'' [(''where'', n)]"

definition selectionNode :: "node_val \<Rightarrow> node_val" where
  [node_defs]: "selectionNode n = mk ''SelectionNode'' [(''selection'', n)]"

definition aliasNode :: "node_val \<Rightarrow> string \<Rightarrow> node_val" where
  [node_defs]: "aliasNode n a = mk ''AliasNode'' [(''node'', n), (''alias'', identifierNode a)]"

definition castText :: "node_val \<Rightarrow> node_val" where
  [node_defs]: "castText n = mk ''CastNode'' [(''expression'', n), (''dataType'', mk ''DataTypeNode'' [(''dataType'', text_node ''text'')])]"

definition fromNode :: "string \<Rightarrow> node_val" where
  [node_defs]: "fromNode t = mk ''FromNode'' [(''froms'', NArr [tableNode t])]"

definition returningNode :: "node_val list \<Rightarrow> node_val" where
  [node_defs]: "returningNode ns = mk ''ReturningNode'' [(''selections'', NArr ns)]"

definition limitNode :: "rat \<Rightarrow> node_val" where
  [node_defs]: "limitNode n = mk ''LimitNode'' [(''limit'', valueNode (Some (PNum n)))]"

definition offsetNode :: "rat \<Rightarrow> node_val" where
  [node_defs]: "offsetNode n = mk ''OffsetNode'' [(''offset'', valueNode (Some (PNum n)))]"

definition modifierNode :: "string \<Rightarrow> node_val" where
  [node_defs]: "modifierNode m = mk ''SelectModifierNode'' [(''modifier'', text_node m)]"

subsection \<open>Predicates\<close>

definition column :: "string \<Rightarrow> string \<Rightarrow> node_val" where
  "column table name = referenceNode (columnNode name) (tableNode table)"

definition equals :: "string \<Rightarrow> string \<Rightarrow> prim \<Rightarrow> node_val" where
  "equals table name value = binaryNode (column table name) ''='' (valueNode (Some value))"

text \<open>The conjunction of a list, left-nested; an empty one is refused.\<close>

definition allOf :: "node_val list \<Rightarrow> db_error + node_val" where
  "allOf nodes = (case nodes of [] \<Rightarrow> Inl (QueryRefusedError Statement_shape) | n # ns \<Rightarrow> Inr (foldl andNode n ns))"

text \<open>One node, or the disjunction of several in a parenthesis.\<close>

definition anyOf :: "node_val list \<Rightarrow> db_error + node_val" where
  "anyOf nodes =
     (case nodes of
        [] \<Rightarrow> Inl (QueryRefusedError Statement_shape)
      | [n] \<Rightarrow> Inr n
      | n # ns \<Rightarrow> Inr (parensNode (foldl orNode n ns)))"

definition inList :: "string \<Rightarrow> string \<Rightarrow> string list \<Rightarrow> node_val" where
  "inList table name values =
     binaryNode (column table name) ''in'' (valueListNode (map (\<lambda>v. valueNode (Some (PStr v))) values))"

definition everything :: node_val where
  "everything = immediateNode (NPrim (PBool True))"

subsection \<open>Query descriptions\<close>

datatype compare_value = NullValue | OneValue prim | ManyValues "prim list"

datatype cond_term = Compare string string compare_value | Contains string string

datatype condition = Single cond_term | AnyOf "cond_term list"

datatype direction = Asc | Desc

datatype dialect = Postgres | Sqlite

record fk_pair =
  childColumn :: string
  parentColumn :: string

text \<open>What a join names: the child, its visible columns, its read actions and the composite foreign key. A joined child takes
  columns and conditions only.\<close>

record join_shape =
  js_table :: string
  js_visible :: "string list"
  js_readActions :: "string list"
  js_on :: "fk_pair list"

record join_state =
  jn_join :: join_shape
  jn_columns :: "string list option"
  jn_conditions :: "condition list"

record select_state =
  ss_table :: string
  ss_columns :: "string list option"
  ss_conditions :: "condition list"
  ss_orderBy :: "(string \<times> direction) list"
  ss_limit :: "nat option"
  ss_offset :: "nat option"
  ss_joins :: "join_state list"

definition compareNode :: "string \<Rightarrow> string \<Rightarrow> string \<Rightarrow> compare_value \<Rightarrow> node_val" where
  "compareNode table name op value =
     binaryNode (column table name) op
       (case value of
          NullValue \<Rightarrow> immediateNode NNull
        | ManyValues vs \<Rightarrow> valueListNode (map (\<lambda>v. valueNode (Some v)) vs)
        | OneValue v \<Rightarrow> valueNode (Some v))"

text \<open>The three \<open>replaceAll\<close> escape each special character once: none of them writes a character a later one replaces.\<close>

definition like_escape :: "char \<Rightarrow> string" where
  "like_escape c = (if c \<in> {CHR 0x5C, CHR ''%'', CHR ''_''} then [CHR 0x5C, c] else [c])"

definition containsPattern :: "string \<Rightarrow> string" where
  "containsPattern t = ''%'' @ concat (map like_escape t) @ ''%''"

definition containsNode :: "string \<Rightarrow> string \<Rightarrow> string \<Rightarrow> node_val" where
  "containsNode table name t = binaryNode (column table name) ''ilike'' (valueNode (Some (PStr (containsPattern t))))"

fun termNode :: "string \<Rightarrow> cond_term \<Rightarrow> node_val" where
  "termNode table (Compare name op value) = compareNode table name op value"
| "termNode table (Contains name t) = containsNode table name t"

fun conditionNode :: "string \<Rightarrow> condition \<Rightarrow> db_error + node_val" where
  "conditionNode table (Single t) = Inr (termNode table t)"
| "conditionNode table (AnyOf ts) =
     (case map (termNode table) ts of
        [] \<Rightarrow> Inl (QueryRefusedError Statement_shape)
      | n # ns \<Rightarrow> Inr (parensNode (foldl orNode n ns)))"

definition conditionsNode :: "string \<Rightarrow> condition list \<Rightarrow> db_error + node_val option" where
  "conditionsNode table conditions =
     (if conditions = [] then Inr None
      else bindE (mapE (conditionNode table) conditions) (\<lambda>ns. bindE (allOf ns) (\<lambda>n. Inr (Some n))))"

text \<open>The caller's conditions go in a parenthesis; the scope is the top-level right conjunct.\<close>

definition scopedWhere :: "node_val option \<Rightarrow> node_val \<Rightarrow> node_val" where
  "scopedWhere conditions scope =
     whereNode (case conditions of None \<Rightarrow> scope | Some c \<Rightarrow> andNode (parensNode c) scope)"

subsection \<open>Statements\<close>

definition selection :: "string \<Rightarrow> string \<Rightarrow> node_val" where
  "selection table name = selectionNode (column table name)"

definition rowSelection :: "string \<Rightarrow> string list \<Rightarrow> string \<Rightarrow> node_val" where
  "rowSelection table days name =
     (if name \<in> set days then selectionNode (aliasNode (castText (column table name)) name) else selection table name)"

definition acknowledged :: "string \<Rightarrow> string \<Rightarrow> string option \<Rightarrow> node_val list" where
  "acknowledged table key version =
     map (\<lambda>(name, al). selectionNode (aliasNode (column table name) al))
       ((key, ''id'') # (case version of None \<Rightarrow> [] | Some v \<Rightarrow> [(v, ''version'')]))"

definition acknowledgement :: "string \<Rightarrow> string \<Rightarrow> string option \<Rightarrow> node_val" where
  "acknowledgement table key version = returningNode (acknowledged table key version)"

definition joinNode :: "string \<Rightarrow> join_state \<Rightarrow> db_error + node_val" where
  "joinNode parent join =
     (let child = js_table (jn_join join) in
      bindE (allOf (map (\<lambda>p. binaryNode (column child (childColumn p)) ''='' (column parent (parentColumn p))) (js_on (jn_join join))))
        (\<lambda>foreignKey. bindE (conditionsNode child (jn_conditions join))
        (\<lambda>conditions. Inr (mk ''JoinNode''
           [(''joinType'', text_node ''InnerJoin''), (''table'', tableNode child),
            (''on'', mk ''OnNode'' [(''on'', case conditions of None \<Rightarrow> foreignKey | Some c \<Rightarrow> andNode foreignKey (parensNode c))])]))))"

definition joinedSelections :: "join_state \<Rightarrow> node_val list" where
  "joinedSelections join =
     (let child = js_table (jn_join join) in
      map (\<lambda>name. selectionNode (aliasNode (column child name) (child @ ''.'' @ name)))
        (case jn_columns join of Some cs \<Rightarrow> cs | None \<Rightarrow> js_visible (jn_join join)))"

definition direction_text :: "direction \<Rightarrow> string" where
  "direction_text d = (case d of Asc \<Rightarrow> ''asc'' | Desc \<Rightarrow> ''desc'')"

definition orderItem :: "string \<Rightarrow> dialect \<Rightarrow> string \<times> direction \<Rightarrow> node_val" where
  "orderItem table dia ord =
     mk ''OrderByItemNode''
       ([(''orderBy'', column table (fst ord)),
         (''direction'', mk ''RawNode'' [(''sqlFragments'', NArr [text_node (direction_text (snd ord))]), (''parameters'', NArr [])])] @
        (if dia = Postgres then [] else [(''nulls'', text_node (if snd ord = Asc then ''last'' else ''first''))]))"

definition opt_prop :: "string \<Rightarrow> node_val option \<Rightarrow> (string \<times> node_val) list" where
  "opt_prop key v = (case v of None \<Rightarrow> [] | Some n \<Rightarrow> [(key, n)])"

definition with_after :: "node_val option \<Rightarrow> node_val option \<Rightarrow> node_val option" where
  "with_after conditions after =
     (case after of
        None \<Rightarrow> conditions
      | Some a \<Rightarrow> (case conditions of None \<Rightarrow> Some a | Some c \<Rightarrow> Some (andNode c (parensNode a))))"

definition selectNode ::
  "select_state \<Rightarrow> string list \<Rightarrow> node_val \<Rightarrow> node_val option \<Rightarrow> string list \<Rightarrow> dialect \<Rightarrow> db_error + node_val" where
  "selectNode state visible scope after days dia =
     (let table = ss_table state; cols = (case ss_columns state of Some cs \<Rightarrow> cs | None \<Rightarrow> visible) in
      bindE (conditionsNode table (ss_conditions state)) (\<lambda>conditions.
      bindE (mapE (joinNode table) (ss_joins state)) (\<lambda>joins.
      Inr (mk ''SelectQueryNode''
        ([(''from'', fromNode table),
          (''selections'', NArr (map (rowSelection table days) cols @ concat (map joinedSelections (ss_joins state))))] @
         opt_prop ''joins'' (if ss_joins state = [] then None else Some (NArr joins)) @
         [(''where'', scopedWhere (with_after conditions after) scope)] @
         opt_prop ''orderBy'' (if ss_orderBy state = [] then None
           else Some (mk ''OrderByNode'' [(''items'', NArr (map (orderItem table dia) (ss_orderBy state)))])) @
         opt_prop ''limit'' (map_option (\<lambda>n. limitNode (of_nat n)) (ss_limit state)) @
         opt_prop ''offset'' (map_option (\<lambda>n. offsetNode (of_nat n)) (ss_offset state)))))))"

record aggregate_columns =
  ag_groupBy :: "string list"
  ag_count :: bool
  ag_sum :: "string list"
  ag_min :: "string list"
  ag_max :: "string list"

definition aggregate :: "string \<Rightarrow> node_val \<Rightarrow> string \<Rightarrow> node_val" where
  "aggregate func aggregated al =
     selectionNode (aliasNode (mk ''AggregateFunctionNode'' [(''func'', text_node func), (''aggregated'', NArr [aggregated])]) al)"

definition aggregateNode ::
  "string \<Rightarrow> aggregate_columns \<Rightarrow> condition list \<Rightarrow> node_val \<Rightarrow> string list \<Rightarrow> db_error + node_val" where
  "aggregateNode table cols conditions scope days =
     bindE (conditionsNode table conditions) (\<lambda>cond.
     Inr (mk ''SelectQueryNode''
       ([(''from'', fromNode table),
         (''selections'', NArr
           (map (rowSelection table days) (ag_groupBy cols) @
            (if ag_count cols then [aggregate ''count'' (mk ''SelectAllNode'' []) ''count''] else []) @
            map (\<lambda>name. aggregate ''sum'' (column table name) (''sum_'' @ name)) (ag_sum cols) @
            map (\<lambda>name. aggregate ''min'' (column table name) (''min_'' @ name)) (ag_min cols) @
            map (\<lambda>name. aggregate ''max'' (column table name) (''max_'' @ name)) (ag_max cols))),
         (''where'', scopedWhere cond scope)] @
        opt_prop ''groupBy'' (if ag_groupBy cols = [] then None
          else Some (mk ''GroupByNode'' [(''items'', NArr (map (\<lambda>name. mk ''GroupByItemNode'' [(''groupBy'', column table name)]) (ag_groupBy cols)))])))))"

definition insertNode ::
  "string \<Rightarrow> (string \<times> prim option) list \<Rightarrow> node_val \<Rightarrow> string list option \<Rightarrow> node_val" where
  "insertNode table values answer conflict =
     mk ''InsertQueryNode''
       ([(''into'', tableNode table),
         (''columns'', NArr (map (columnNode \<circ> fst) values)),
         (''values'', mk ''ValuesNode'' [(''values'', NArr [valueListNode (map (valueNode \<circ> snd) values)])])] @
        opt_prop ''onConflict'' (map_option (\<lambda>cols.
          mk ''OnConflictNode'' [(''columns'', NArr (map columnNode cols)), (''doNothing'', NPrim (PBool True))]) conflict) @
        [(''returning'', answer)])"

definition updateNode ::
  "string \<Rightarrow> (string \<times> prim option) list \<Rightarrow> string option \<Rightarrow> node_val \<Rightarrow> node_val \<Rightarrow> db_error + node_val" where
  "updateNode table values bump whr answer =
     (let updates = map (\<lambda>(name, v). mk ''ColumnUpdateNode'' [(''column'', columnNode name), (''value'', valueNode v)]) values @
        (case bump of None \<Rightarrow> []
         | Some b \<Rightarrow> [mk ''ColumnUpdateNode'' [(''column'', columnNode b),
             (''value'', binaryNode (column table b) ''+'' (valueNode (Some (PNum 1))))]]) in
      if updates = [] then Inl (QueryRefusedError Statement_shape)
      else Inr (mk ''UpdateQueryNode'' [(''table'', tableNode table), (''updates'', NArr updates), (''where'', whr), (''returning'', answer)]))"

definition deleteNode :: "string \<Rightarrow> node_val \<Rightarrow> string \<Rightarrow> node_val" where
  "deleteNode table whr key =
     mk ''DeleteQueryNode'' [(''from'', fromNode table), (''where'', whr), (''returning'', acknowledgement table key None)]"

definition existsNode :: "string \<Rightarrow> string \<Rightarrow> node_val \<Rightarrow> node_val option \<Rightarrow> node_val" where
  "existsNode table key scope conditions =
     mk ''SelectQueryNode''
       [(''from'', fromNode table), (''selections'', NArr [selection table key]), (''where'', scopedWhere conditions scope),
        (''limit'', limitNode 1)]"

definition acknowledgementNode :: "string \<Rightarrow> string \<Rightarrow> string option \<Rightarrow> node_val \<Rightarrow> node_val" where
  "acknowledgementNode table key version whr =
     mk ''SelectQueryNode''
       [(''from'', fromNode table), (''selections'', NArr (acknowledged table key version)), (''where'', whr), (''limit'', limitNode 1)]"

definition locateNode :: "string \<Rightarrow> string list \<Rightarrow> node_val \<Rightarrow> node_val" where
  "locateNode table cols scope =
     mk ''SelectQueryNode''
       [(''from'', fromNode table), (''selections'', NArr (map (selection table) cols)), (''where'', scopedWhere None scope),
        (''limit'', limitNode 1)]"

datatype lock_kind = ShareLock | UpdateLock | ClaimLock

text \<open>\<open>{ ...node, key: value }\<close> for a key the node does not have.\<close>

fun add_prop :: "node_val \<Rightarrow> string \<Rightarrow> node_val \<Rightarrow> node_val" where
  "add_prop (NObj ps) key v = NObj (ps @ [(key, v)])"
| "add_prop n key v = n"

definition lockNode :: "string \<Rightarrow> string \<Rightarrow> node_val \<Rightarrow> bool \<Rightarrow> node_val" where
  "lockNode table key scope share =
     add_prop (existsNode table key scope None) ''endModifiers'' (NArr [modifierNode (if share then ''ForShare'' else ''ForUpdate'')])"

record due_columns =
  du_due :: string
  du_attempts :: string
  du_now :: int
  du_maxAttempts :: nat

definition claimNode ::
  "select_state \<Rightarrow> string list \<Rightarrow> due_columns \<Rightarrow> node_val \<Rightarrow> string list \<Rightarrow> dialect \<Rightarrow> db_error + node_val" where
  "claimNode state cols due scope days dia =
     (let table = ss_table state in
      bindE (allOf
        [binaryNode (column table (du_due due)) ''is not'' (immediateNode NNull),
         binaryNode (column table (du_due due)) ''<='' (valueNode (Some (PDate (du_now due)))),
         binaryNode (column table (du_attempts due)) ''<'' (valueNode (Some (PNum (of_nat (du_maxAttempts due)))))]) (\<lambda>waiting.
      bindE (selectNode state cols scope (Some waiting) days dia) (\<lambda>node.
      Inr (add_prop node ''endModifiers'' (NArr [modifierNode ''ForUpdate'', modifierNode ''SkipLocked''])))))"

definition nextClaimNode ::
  "select_state \<Rightarrow> due_columns \<Rightarrow> node_val \<Rightarrow> string list \<Rightarrow> dialect \<Rightarrow> db_error + node_val" where
  "nextClaimNode state due scope days dia =
     (let table = ss_table state in
      bindE (allOf
        [binaryNode (column table (du_due due)) ''>'' (valueNode (Some (PDate (du_now due)))),
         binaryNode (column table (du_attempts due)) ''<'' (valueNode (Some (PNum (of_nat (du_maxAttempts due)))))]) (\<lambda>later.
      selectNode state [du_due due] scope (Some later) days dia))"

definition lockedSelectNode :: "string \<Rightarrow> string list \<Rightarrow> node_val \<Rightarrow> string list \<Rightarrow> node_val" where
  "lockedSelectNode table cols scope days =
     mk ''SelectQueryNode''
       [(''from'', fromNode table), (''selections'', NArr (map (rowSelection table days) cols)), (''where'', scopedWhere None scope),
        (''endModifiers'', NArr [modifierNode ''ForUpdate''])]"

definition cursorAlias :: "nat \<Rightarrow> string" where
  "cursorAlias i = ''keyset.c'' @ show_nat i"

fun extend_list :: "node_val option \<Rightarrow> node_val list \<Rightarrow> node_val" where
  "extend_list (Some (NArr xs)) ys = NArr (xs @ ys)"
| "extend_list _ ys = NArr ys"

fun set_prop :: "node_val \<Rightarrow> string \<Rightarrow> node_val \<Rightarrow> node_val" where
  "set_prop (NObj ps) key v = NObj (map (\<lambda>(k, w). if k = key then (k, v) else (k, w)) ps)"
| "set_prop n key v = n"

definition withCursorColumns :: "node_val \<Rightarrow> string \<Rightarrow> string list \<Rightarrow> node_val" where
  "withCursorColumns node table cols =
     set_prop node ''selections''
       (extend_list (read (Some node) ''selections'')
          (map (\<lambda>(i, name). selectionNode (aliasNode (castText (column table name)) (cursorAlias i))) (enumerate 0 cols)))"

end
