(* ===== verification/Db_Sql.thy ===== *)
theory Db_Sql
  imports Db_Nodes
begin

text \<open>
  What the conditions of the layer's statements mean: SQL's three-valued logic over the rows of a statement, with \<^term>\<open>None\<close>
  for unknown. A row maps its columns to values, a null column is absent, and a tuple maps the tables of a statement to
  their rows. How the database compares two values, its equality included, is the parameter \<open>opr\<close>.
\<close>

type_synonym sql_row = "(string \<times> prim) list"
type_synonym sql_tuple = "(string \<times> sql_row) list"
type_synonym sql_operators = "string \<Rightarrow> prim \<Rightarrow> prim \<Rightarrow> bool"

definition cell :: "sql_tuple \<Rightarrow> string \<Rightarrow> string \<Rightarrow> prim option" where
  "cell e table name = (case map_of e table of None \<Rightarrow> None | Some r \<Rightarrow> map_of r name)"

fun and3 :: "bool option \<Rightarrow> bool option \<Rightarrow> bool option" where
  "and3 (Some False) b = Some False"
| "and3 a (Some False) = Some False"
| "and3 (Some True) b = b"
| "and3 a (Some True) = a"
| "and3 None None = None"

fun or3 :: "bool option \<Rightarrow> bool option \<Rightarrow> bool option" where
  "or3 (Some True) b = Some True"
| "or3 a (Some True) = Some True"
| "or3 (Some False) b = b"
| "or3 a (Some False) = a"
| "or3 None None = None"

lemma and3_True [simp]: "and3 a b = Some True \<longleftrightarrow> a = Some True \<and> b = Some True"
  by (cases "(a, b)" rule: and3.cases) auto

lemma or3_True [simp]: "or3 a b = Some True \<longleftrightarrow> a = Some True \<or> b = Some True"
  by (cases "(a, b)" rule: or3.cases) auto

fun text_of :: "node_val option \<Rightarrow> string" where
  "text_of (Some (NPrim (PStr s))) = s"
| "text_of _ = []"

fun items_of :: "node_val option \<Rightarrow> node_val list" where
  "items_of (Some (NArr xs)) = xs"
| "items_of _ = []"

definition table_text :: "node_val option \<Rightarrow> string" where
  "table_text n = text_of (read (read (read n ''table'') ''identifier'') ''name'')"

definition column_text :: "node_val option \<Rightarrow> string" where
  "column_text n = text_of (read (read n ''column'') ''name'')"

definition operand :: "sql_tuple \<Rightarrow> node_val option \<Rightarrow> prim option" where
  "operand e n =
     (if kindOf n = Some ''ReferenceNode'' then cell e (table_text (read n ''table'')) (column_text (read n ''column''))
      else if kindOf n = Some ''ValueNode'' then (case read n ''value'' of Some (NPrim p) \<Rightarrow> Some p | _ \<Rightarrow> None)
      else None)"

definition compare3 :: "sql_operators \<Rightarrow> string \<Rightarrow> prim option \<Rightarrow> prim option \<Rightarrow> bool option" where
  "compare3 opr op l r = (case (l, r) of (Some a, Some b) \<Rightarrow> Some (opr op a b) | _ \<Rightarrow> None)"

definition member3 :: "sql_operators \<Rightarrow> prim option \<Rightarrow> prim option list \<Rightarrow> bool option" where
  "member3 opr l rs = foldr (\<lambda>r acc. or3 (compare3 opr ''='' l r) acc) rs (Some False)"

definition binary3 :: "sql_operators \<Rightarrow> sql_tuple \<Rightarrow> node_val option \<Rightarrow> bool option" where
  "binary3 opr e n =
     (let op = text_of (read (read n ''operator'') ''operator'');
          l = operand e (read n ''leftOperand''); r = read n ''rightOperand'' in
      if op = ''in'' then member3 opr l (map (\<lambda>v. operand e (Some v)) (items_of (read r ''values'')))
      else if op = ''not in'' then map_option Not (member3 opr l (map (\<lambda>v. operand e (Some v)) (items_of (read r ''values''))))
      else if op = ''is'' then Some (l = operand e r)
      else if op = ''is not'' then Some (l \<noteq> operand e r)
      else compare3 opr op l (operand e r))"

definition tree_size :: "node_val option \<Rightarrow> nat" where
  "tree_size n = (case n of None \<Rightarrow> 0 | Some m \<Rightarrow> Suc (size m))"

lemma size_map_of: "map_of ps k = Some v \<Longrightarrow> size v < Suc (size_list (size_prod (\<lambda>_. 0) size) ps)"
  by (induction ps) (auto split: if_splits)

lemma tree_size_read [termination_simp]: "kindOf n = Some c \<Longrightarrow> tree_size (read n k) < tree_size n"
  by (cases "(n, k)" rule: read.cases) (auto simp: kindOf_def tree_size_def size_map_of split: option.splits)

text \<open>Kysely prints \<open>and\<close> and \<open>or\<close> without parentheses, so a tree means what SQL reads in its text: \<open>and\<close> binds tighter than
  \<open>or\<close>, whatever the nesting of the nodes. The groups of a tree are the disjuncts of its text, each a list of conjuncts;
  only a parenthesis keeps a condition together.\<close>

definition join_groups :: "'a list list \<Rightarrow> 'a list list \<Rightarrow> 'a list list" where
  "join_groups ls rs = butlast ls @ [last ls @ hd rs] @ tl rs"

function groups :: "node_val option \<Rightarrow> node_val option list list" where
  "groups n =
     (if kindOf n = Some ''AndNode'' then join_groups (groups (read n ''left'')) (groups (read n ''right''))
      else if kindOf n = Some ''OrNode'' then groups (read n ''left'') @ groups (read n ''right'')
      else [[n]])"
  by pat_completeness auto
termination
  by (relation "measure tree_size") (auto simp: tree_size_read)

declare groups.simps [simp del]

lemma groups_nonempty [simp]: "groups n \<noteq> []"
  by (induction n rule: groups.induct) (subst groups.simps, simp add: join_groups_def)

lemma join_groups_atoms: "ls \<noteq> [] \<Longrightarrow> rs \<noteq> [] \<Longrightarrow> set (concat (join_groups ls rs)) = set (concat ls) \<union> set (concat rs)"
  by (cases ls rule: rev_cases; cases rs) (auto simp: join_groups_def)

lemma groups_size: "a \<in> set (concat (groups n)) \<Longrightarrow> tree_size a \<le> tree_size n"
proof (induction n rule: groups.induct)
  case (1 n)
  consider "kindOf n = Some ''AndNode''" | "kindOf n = Some ''OrNode''" | "kindOf n \<noteq> Some ''AndNode''" "kindOf n \<noteq> Some ''OrNode''" by blast
  then show ?case
  proof cases
    case 1
    then have "a \<in> set (concat (groups (read n ''left''))) \<or> a \<in> set (concat (groups (read n ''right'')))"
      using "1.prems" join_groups_atoms [of "groups (read n ''left'')" "groups (read n ''right'')"] by (subst (asm) groups.simps) auto
    then show ?thesis using "1.IH"(1,2) 1 tree_size_read [OF 1] by (meson less_imp_le order.trans)
  next
    case 2
    then have "a \<in> set (concat (groups (read n ''left''))) \<or> a \<in> set (concat (groups (read n ''right'')))"
      using "1.prems" by (simp add: groups.simps [of n])
    then show ?thesis using "1.IH"(3,4) 2 tree_size_read [OF 2] by simp (meson less_imp_le order.trans)
  next
    case 3
    then show ?thesis using "1.prems" by (simp add: groups.simps [of n])
  qed
qed

lemma groups_atom_size: "g \<in> set (groups n) \<Longrightarrow> a \<in> set g \<Longrightarrow> kindOf a = Some k \<Longrightarrow> tree_size (read a key) < tree_size n"
  using groups_size [of a n] tree_size_read [of a k key] by fastforce

definition all3 :: "bool option list \<Rightarrow> bool option" where
  "all3 xs = foldr and3 xs (Some True)"

definition any3 :: "bool option list \<Rightarrow> bool option" where
  "any3 xs = foldr or3 xs (Some False)"

lemma all3_map: "all3 (map f xs) = Some True \<longleftrightarrow> (\<forall>x \<in> set xs. f x = Some True)"
  by (induction xs) (auto simp: all3_def)

lemma any3_map: "any3 (map f xs) = Some True \<longleftrightarrow> (\<exists>x \<in> set xs. f x = Some True)"
  by (induction xs) (auto simp: any3_def)

definition atom3 :: "sql_operators \<Rightarrow> sql_tuple \<Rightarrow> node_val option \<Rightarrow> bool option" where
  "atom3 opr e n =
     (if kindOf n = Some ''BinaryOperationNode'' then binary3 opr e n
      else if kindOf n = Some ''ValueNode'' then (case read n ''value'' of Some (NPrim (PBool b)) \<Rightarrow> Some b | _ \<Rightarrow> None)
      else None)"

function cond3 :: "sql_operators \<Rightarrow> sql_tuple \<Rightarrow> node_val option \<Rightarrow> bool option" where
  "cond3 opr e n =
     any3 (map (\<lambda>g. all3 (map (\<lambda>a.
       if kindOf a = Some ''ParensNode'' then cond3 opr e (read a ''node'') else atom3 opr e a) g)) (groups n))"
  by pat_completeness auto
termination
  by (relation "measure (\<lambda>(opr, e, n). tree_size n)") (auto simp: groups_atom_size)

declare cond3.simps [simp del]

definition conjunct3 :: "sql_operators \<Rightarrow> sql_tuple \<Rightarrow> node_val option \<Rightarrow> bool option" where
  "conjunct3 opr e a = (if kindOf a = Some ''ParensNode'' then cond3 opr e (read a ''node'') else atom3 opr e a)"

lemma cond3_groups: "cond3 opr e n = Some True \<longleftrightarrow> (\<exists>g \<in> set (groups n). \<forall>a \<in> set g. conjunct3 opr e a = Some True)"
proof -
  have "cond3 opr e n = any3 (map (\<lambda>g. all3 (map (conjunct3 opr e) g)) (groups n))"
    by (subst cond3.simps) (simp add: conjunct3_def [abs_def])
  then show ?thesis by (simp add: any3_map all3_map)
qed

text \<open>A tree whose text is one conjunction.\<close>

definition single :: "node_val option \<Rightarrow> bool" where
  "single n \<longleftrightarrow> length (groups n) = 1"

lemma single_atom: "kindOf n \<noteq> Some ''AndNode'' \<Longrightarrow> kindOf n \<noteq> Some ''OrNode'' \<Longrightarrow> single n"
  by (simp add: single_def groups.simps [of n])

lemma single_and: "kindOf n = Some ''AndNode'' \<Longrightarrow> single (read n ''left'') \<Longrightarrow> single (read n ''right'') \<Longrightarrow> single n"
  by (simp add: single_def groups.simps [of n] join_groups_def length_Suc_conv) auto

lemma cond3_and:
  assumes "kindOf n = Some ''AndNode''" and "single (read n ''left'')" and "single (read n ''right'')"
  shows "cond3 opr e n = Some True \<longleftrightarrow> cond3 opr e (read n ''left'') = Some True \<and> cond3 opr e (read n ''right'') = Some True"
proof -
  obtain l r where "groups (read n ''left'') = [l]" "groups (read n ''right'') = [r]"
    using assms(2,3) by (auto simp: single_def length_Suc_conv)
  then show ?thesis using assms(1) by (auto simp: cond3_groups groups.simps [of n] join_groups_def)
qed

lemma cond3_or: "kindOf n = Some ''OrNode'' \<Longrightarrow>
   cond3 opr e n = Some True \<longleftrightarrow> cond3 opr e (read n ''left'') = Some True \<or> cond3 opr e (read n ''right'') = Some True"
  by (simp add: cond3_groups groups.simps [of n] Bex_def) blast

lemma cond3_parens: "kindOf n = Some ''ParensNode'' \<Longrightarrow> cond3 opr e n = Some True \<longleftrightarrow> cond3 opr e (read n ''node'') = Some True"
  by (simp add: cond3_groups [of opr e n] groups.simps [of n] conjunct3_def)

lemma cond3_atom: "kindOf n \<notin> {Some ''AndNode'', Some ''OrNode'', Some ''ParensNode''} \<Longrightarrow>
    cond3 opr e n = Some True \<longleftrightarrow> atom3 opr e n = Some True"
  by (simp add: cond3_groups groups.simps [of n] conjunct3_def)

definition holds :: "sql_operators \<Rightarrow> sql_tuple \<Rightarrow> node_val \<Rightarrow> bool" where
  "holds opr e n \<longleftrightarrow> cond3 opr e (Some n) = Some True"

subsection \<open>The predicates of the layer\<close>

lemma kindOf_mk [simp]: "kindOf (Some (mk k ps)) = Some k"
  by (simp add: kindOf_def mk_def)

lemma read_mk [simp]: "read (Some (mk k ps)) key = (if key = ''kind'' then Some (text_node k) else map_of ps key)"
  by (simp add: mk_def)

lemma holds_and [simp]: "single (Some l) \<Longrightarrow> single (Some r) \<Longrightarrow> holds opr e (andNode l r) \<longleftrightarrow> holds opr e l \<and> holds opr e r"
  by (simp add: holds_def andNode_def cond3_and)

lemma holds_or [simp]: "holds opr e (orNode l r) \<longleftrightarrow> holds opr e l \<or> holds opr e r"
  by (simp add: holds_def orNode_def cond3_or)

lemma holds_parens [simp]: "holds opr e (parensNode n) \<longleftrightarrow> holds opr e n"
  by (simp add: holds_def parensNode_def cond3_parens)

lemma holds_everything [simp]: "holds opr e everything"
  by (simp add: holds_def everything_def immediateNode_def cond3_atom atom3_def)

lemma single_simps [simp]:
  "single (Some (parensNode n))" "single (Some (binaryNode l op r))" "single (Some (equals t c v))" "single (Some (inList t c vs))"
  "single (Some everything)" "single (Some l) \<Longrightarrow> single (Some r) \<Longrightarrow> single (Some (andNode l r))"
  by (simp_all add: node_defs equals_def inList_def everything_def single_atom single_and)

lemma single_foldl: "single (Some n) \<Longrightarrow> list_all (\<lambda>m. single (Some m)) ns \<Longrightarrow> single (Some (foldl andNode n ns))"
  by (induction ns arbitrary: n) auto

lemma holds_foldl_and: "single (Some n) \<Longrightarrow> list_all (\<lambda>m. single (Some m)) ns \<Longrightarrow>
    holds opr e (foldl andNode n ns) \<longleftrightarrow> holds opr e n \<and> list_all (holds opr e) ns"
  by (induction ns arbitrary: n) auto

lemma holds_foldl_or: "holds opr e (foldl orNode n ns) \<longleftrightarrow> holds opr e n \<or> list_ex (holds opr e) ns"
  by (induction ns arbitrary: n) auto

lemma allOf_single: "allOf ns = Inr n \<Longrightarrow> list_all (\<lambda>m. single (Some m)) ns \<Longrightarrow> single (Some n)"
  by (auto simp: allOf_def single_foldl split: list.splits)

lemma holds_allOf: "allOf ns = Inr n \<Longrightarrow> list_all (\<lambda>m. single (Some m)) ns \<Longrightarrow> holds opr e n \<longleftrightarrow> list_all (holds opr e) ns"
  by (auto simp: allOf_def holds_foldl_and split: list.splits)

lemma holds_anyOf: "anyOf ns = Inr n \<Longrightarrow> holds opr e n \<longleftrightarrow> list_ex (holds opr e) ns"
  by (auto simp: anyOf_def holds_foldl_or split: list.splits)

lemma operand_column [simp]: "operand e (Some (column t c)) = cell e t c"
  by (simp add: operand_def column_def node_defs table_text_def column_text_def)

lemma operand_value [simp]: "operand e (Some (valueNode (Some v))) = Some v"
  by (simp add: operand_def valueNode_def)

lemma holds_binary: "holds opr e (binaryNode l op r) \<longleftrightarrow>
   (if op = ''in'' then member3 opr (operand e (Some l)) (map (\<lambda>v. operand e (Some v)) (items_of (read (Some r) ''values'')))
    else if op = ''not in'' then map_option Not (member3 opr (operand e (Some l)) (map (\<lambda>v. operand e (Some v)) (items_of (read (Some r) ''values''))))
    else if op = ''is'' then Some (operand e (Some l) = operand e (Some r))
    else if op = ''is not'' then Some (operand e (Some l) \<noteq> operand e (Some r))
    else compare3 opr op (operand e (Some l)) (operand e (Some r))) = Some True"
  by (simp add: holds_def binaryNode_def cond3_atom atom3_def binary3_def operatorNode_def)

lemma holds_equals [simp]: "holds opr e (equals t c v) \<longleftrightarrow> (\<exists>a. cell e t c = Some a \<and> opr ''='' a v)"
  by (auto simp: equals_def holds_binary compare3_def split: option.splits)

lemma member3_True: "member3 opr l rs = Some True \<longleftrightarrow> (\<exists>a r. l = Some a \<and> Some r \<in> set rs \<and> opr ''='' a r)"
  by (induction rs) (auto simp: member3_def compare3_def split: option.splits)

lemma holds_inList [simp]: "holds opr e (inList t c vs) \<longleftrightarrow> (\<exists>a v. cell e t c = Some a \<and> v \<in> set vs \<and> opr ''='' a (PStr v))"
  by (auto simp: inList_def holds_binary member3_True valueListNode_def image_iff)

subsection \<open>Substring search\<close>

text \<open>\<open>LIKE\<close> with its default escape character: \<open>%\<close> is any text, \<open>_\<close> any character, and an escaped character is itself.\<close>

fun like :: "string \<Rightarrow> string \<Rightarrow> bool" where
  "like [] s = (s = [])"
| "like (p # ps) s =
     (if p = CHR ''%'' then (\<exists>n\<in>{..length s}. like ps (drop n s))
      else if p = CHR ''_'' then s \<noteq> [] \<and> like ps (tl s)
      else if p = CHR 0x5C \<and> ps \<noteq> [] then s \<noteq> [] \<and> hd s = hd ps \<and> like (tl ps) (tl s)
      else s \<noteq> [] \<and> hd s = p \<and> like ps (tl s))"

lemma like_escape: "like (like_escape c @ p) s \<longleftrightarrow> (\<exists>s'. s = c # s' \<and> like p s')"
  by (cases s) (auto simp: like_escape_def)

lemma like_literal: "like (concat (map like_escape t) @ p) s \<longleftrightarrow> (\<exists>s'. s = t @ s' \<and> like p s')"
proof (induction t arbitrary: s)
  case (Cons c t)
  then show ?case by (auto simp: like_escape)
qed simp

lemma like_percent: "like ''%'' s"
  by (simp add: Bex_def)

text \<open>a substring search has no wildcard of the caller's. The pattern \<open>containsPattern\<close> builds matches exactly the texts that
  contain the searched text as it is, its percent signs, underscores and backslashes included.\<close>

theorem containsPattern_literal: "like (containsPattern t) s \<longleftrightarrow> (\<exists>before after. s = before @ t @ after)"
proof -
  have percent: "like (CHR ''%'' # q) s \<longleftrightarrow> (\<exists>n\<in>{..length s}. like q (drop n s))" for q by simp
  have "like (containsPattern t) s \<longleftrightarrow> (\<exists>n\<in>{..length s}. like (concat (map like_escape t) @ ''%'') (drop n s))"
    unfolding containsPattern_def by (simp only: append_Cons append_Nil percent)
  also have "\<dots> \<longleftrightarrow> (\<exists>n\<in>{..length s}. \<exists>after. drop n s = t @ after)"
    by (simp only: like_literal like_percent simp_thms)
  also have "\<dots> \<longleftrightarrow> (\<exists>before after. s = before @ t @ after)"
  proof
    assume "\<exists>before after. s = before @ t @ after"
    then obtain before after where "s = before @ t @ after" by blast
    then show "\<exists>n\<in>{..length s}. \<exists>after. drop n s = t @ after" by (intro bexI [of _ "length before"]) auto
  qed (metis append_take_drop_id)
  finally show ?thesis .
qed

end
