(* ===== verification/Db_Guard.thy ===== *)
theory Db_Guard
  imports Db_Sql
begin

text \<open>
  The guard of \<open>packages/db/src/guard.ts\<close>: every statement of the data layer passes \<open>assertAllowedTree\<close> before it is compiled.
  It admits a tree whose root addresses one table under its scope predicate and whose every node is on the allowlist.
  The path from a node to the root is a list of the nodes above it with the key that was followed, the nearest first.
  Nodes are values here: \<open>===\<close> of two nodes is equality, so the modelled guard admits every tree the code admits.
\<close>

datatype root_kind = SelectRoot | InsertRoot | UpdateRoot | DeleteRoot

definition root_text :: "root_kind \<Rightarrow> string" where
  "root_text r = (case r of SelectRoot \<Rightarrow> ''SelectQueryNode'' | InsertRoot \<Rightarrow> ''InsertQueryNode''
     | UpdateRoot \<Rightarrow> ''UpdateQueryNode'' | DeleteRoot \<Rightarrow> ''DeleteQueryNode'')"

record guard_context =
  gc_root :: root_kind
  gc_table :: string
  gc_joins :: "(string \<times> fk_pair list) list"
  gc_scope :: "node_val option"
  gc_lock :: "lock_kind option"
  gc_onConflict :: bool

definition ROOT_PROPERTIES :: "root_kind \<Rightarrow> string list" where
  "ROOT_PROPERTIES r = (case r of
     SelectRoot \<Rightarrow> [''kind'', ''from'', ''selections'', ''joins'', ''where'', ''groupBy'', ''orderBy'', ''limit'', ''offset'']
   | InsertRoot \<Rightarrow> [''kind'', ''into'', ''columns'', ''values'', ''returning'']
   | UpdateRoot \<Rightarrow> [''kind'', ''table'', ''updates'', ''where'', ''returning'']
   | DeleteRoot \<Rightarrow> [''kind'', ''from'', ''where'', ''returning''])"

definition ROOT_KINDS :: "string list" where
  "ROOT_KINDS = [''SelectQueryNode'', ''InsertQueryNode'', ''UpdateQueryNode'', ''DeleteQueryNode'']"

definition NODE_KINDS :: "string list" where
  "NODE_KINDS =
     [''FromNode'', ''TableNode'', ''SchemableIdentifierNode'', ''IdentifierNode'', ''SelectionNode'', ''SelectAllNode'',
      ''ReferenceNode'', ''ColumnNode'', ''AliasNode'', ''WhereNode'', ''AndNode'', ''OrNode'', ''ParensNode'',
      ''BinaryOperationNode'', ''OperatorNode'', ''ValueNode'', ''ValueListNode'', ''OrderByNode'', ''OrderByItemNode'',
      ''LimitNode'', ''OffsetNode'', ''JoinNode'', ''OnNode'', ''GroupByNode'', ''GroupByItemNode'', ''AggregateFunctionNode'',
      ''ValuesNode'', ''ColumnUpdateNode'', ''ReturningNode'', ''RawNode'', ''SelectModifierNode'', ''OnConflictNode'',
      ''CastNode'', ''DataTypeNode'']"

definition COMPARISON_OPERATORS :: "string list" where
  "COMPARISON_OPERATORS = [''='', ''<>'', ''<'', ''<='', ''>'', ''>='', ''like'', ''ilike'', ''not like'', ''not ilike'',
     ''in'', ''not in'', ''is'', ''is not'']"

definition AGGREGATES :: "string list" where
  "AGGREGATES = [''count'', ''sum'', ''min'', ''max'']"

subsection \<open>Reading nodes\<close>

text \<open>\<open>TableNode\<close> to \<open>SchemableIdentifierNode\<close> to \<open>IdentifierNode.name\<close>, when it is a plain identifier.\<close>

definition tableName :: "node_val option \<Rightarrow> string option" where
  "tableName n =
     (case read (read (read n ''table'') ''identifier'') ''name'' of
        Some (NPrim (PStr s)) \<Rightarrow> if isPlainIdentifier s then Some s else None
      | _ \<Rightarrow> None)"

definition isEverything :: "node_val option \<Rightarrow> bool" where
  "isEverything n \<longleftrightarrow> kindOf n = Some ''ValueNode'' \<and> read n ''immediate'' = Some (NPrim (PBool True)) \<and>
     read n ''value'' = Some (NPrim (PBool True))"

function isTreeOf :: "string \<Rightarrow> (node_val option \<Rightarrow> bool) \<Rightarrow> node_val option \<Rightarrow> bool" where
  "isTreeOf connective leaf n =
     (if kindOf n = Some connective
      then isTreeOf connective leaf (read n ''left'') \<and> isTreeOf connective leaf (read n ''right'')
      else leaf n)"
  by pat_completeness auto
termination
  by (relation "measure (\<lambda>(connective, leaf, n). tree_size n)") (auto simp: tree_size_read)

declare isTreeOf.simps [simp del]

definition isOwnColumn :: "node_val option \<Rightarrow> string \<Rightarrow> bool" where
  "isOwnColumn n table \<longleftrightarrow> kindOf n = Some ''ReferenceNode'' \<and> tableName (read n ''table'') = Some table \<and>
     kindOf (read n ''column'') = Some ''ColumnNode''"

definition isBoundValue :: "node_val option \<Rightarrow> bool" where
  "isBoundValue n \<longleftrightarrow> kindOf n = Some ''ValueNode'' \<and> read n ''immediate'' \<noteq> Some (NPrim (PBool True))"

definition isScopeEquality :: "string \<Rightarrow> node_val option \<Rightarrow> bool" where
  "isScopeEquality table n \<longleftrightarrow> kindOf n = Some ''BinaryOperationNode'' \<and>
     read (read n ''operator'') ''operator'' = Some (text_node ''='') \<and> isOwnColumn (read n ''leftOperand'') table \<and>
     isBoundValue (read n ''rightOperand'')"

definition isScopeMembership :: "string \<Rightarrow> node_val option \<Rightarrow> bool" where
  "isScopeMembership table n \<longleftrightarrow> kindOf n = Some ''BinaryOperationNode'' \<and>
     read (read n ''operator'') ''operator'' = Some (text_node ''in'') \<and> isOwnColumn (read n ''leftOperand'') table \<and>
     kindOf (read n ''rightOperand'') = Some ''ValueListNode'' \<and>
     (case read (read n ''rightOperand'') ''values'' of
        Some (NArr vs) \<Rightarrow> vs \<noteq> [] \<and> list_all (\<lambda>v. isBoundValue (Some v)) vs
      | _ \<Rightarrow> False)"

definition soleFrom :: "node_val option \<Rightarrow> db_error + node_val" where
  "soleFrom from = (case read from ''froms'' of Some (NArr [f]) \<Rightarrow> Inr f | _ \<Rightarrow> Inl (QueryRefusedError Statement_shape))"

subsection \<open>The root\<close>

definition scope_shaped :: "string \<Rightarrow> node_val option \<Rightarrow> bool" where
  "scope_shaped table scope \<longleftrightarrow>
     isEverything scope \<or> isTreeOf ''AndNode'' (isScopeEquality table) scope \<or> isScopeMembership table scope \<or>
     kindOf scope = Some ''ParensNode'' \<and> kindOf (read scope ''node'') = Some ''OrNode'' \<and>
       isTreeOf ''OrNode'' (isScopeMembership table) (read scope ''node'')"

definition scoped_predicate :: "node_val option \<Rightarrow> node_val \<Rightarrow> bool" where
  "scoped_predicate predicate scope \<longleftrightarrow>
     predicate = Some scope \<or>
     kindOf predicate = Some ''AndNode'' \<and> read predicate ''right'' = Some scope \<and>
       kindOf (read predicate ''left'') = Some ''ParensNode''"

definition checkRoot :: "node_val \<Rightarrow> guard_context \<Rightarrow> db_error + unit" where
  "checkRoot tree c =
     bindE (case gc_root c of
              InsertRoot \<Rightarrow> Inr (read (Some tree) ''into'')
            | UpdateRoot \<Rightarrow> Inr (read (Some tree) ''table'')
            | _ \<Rightarrow> bindE (soleFrom (read (Some tree) ''from'')) (\<lambda>t. Inr (Some t)))
       (\<lambda>target.
        if tableName target \<noteq> Some (gc_table c) then Inl (QueryRefusedError Statement_shape)
        else
          (case gc_scope c of
             None \<Rightarrow>
               if gc_root c \<noteq> InsertRoot \<or> read (Some tree) ''where'' \<noteq> None then Inl (QueryRefusedError Scope_predicate)
               else Inr ()
           | Some scope \<Rightarrow>
               if \<not> scoped_predicate (read (read (Some tree) ''where'') ''where'') scope then Inl (QueryRefusedError Scope_predicate)
               else if \<not> scope_shaped (gc_table c) (Some scope) then Inl (QueryRefusedError Scope_predicate)
               else Inr ()))"

subsection \<open>The nodes\<close>

type_synonym visit = "(node_val \<times> string) list"

definition above_kind :: "nat \<Rightarrow> visit \<Rightarrow> string option" where
  "above_kind i path = (if i < length path then kindOf (Some (fst (path ! i))) else None)"

definition above_key :: "nat \<Rightarrow> visit \<Rightarrow> string option" where
  "above_key i path = (if i < length path then Some (snd (path ! i)) else None)"

definition checkOperator :: "visit \<Rightarrow> node_val \<Rightarrow> bool" where
  "checkOperator path n =
     (case read (Some n) ''operator'' of
        Some (NPrim (PStr op)) \<Rightarrow> op \<in> set COMPARISON_OPERATORS \<or> op = ''+'' \<and> above_kind 1 path = Some ''ColumnUpdateNode''
      | _ \<Rightarrow> False)"

definition checkValue :: "node_val \<Rightarrow> bool" where
  "checkValue n =
     (if read (Some n) ''immediate'' = Some (NPrim (PBool True))
      then (case read (Some n) ''value'' of Some NNull \<Rightarrow> True | Some (NPrim (PBool _)) \<Rightarrow> True | _ \<Rightarrow> False)
      else (case read (Some n) ''value'' of Some NNull \<Rightarrow> True | Some (NPrim _) \<Rightarrow> True | _ \<Rightarrow> False))"

definition LOCKS :: "lock_kind \<Rightarrow> string list" where
  "LOCKS l = (case l of ShareLock \<Rightarrow> [''ForShare''] | UpdateLock \<Rightarrow> [''ForUpdate''] | ClaimLock \<Rightarrow> [''ForUpdate'', ''SkipLocked''])"

text \<open>The last position of a value in a list.\<close>

fun last_position :: "'a \<Rightarrow> 'a list \<Rightarrow> nat option" where
  "last_position x [] = None"
| "last_position x (y # ys) = (case last_position x ys of Some i \<Rightarrow> Some (Suc i) | None \<Rightarrow> if x = y then Some 0 else None)"

definition checkLock :: "guard_context \<Rightarrow> visit \<Rightarrow> node_val \<Rightarrow> bool" where
  "checkLock c path n =
     (let expected = (case gc_lock c of None \<Rightarrow> [] | Some l \<Rightarrow> LOCKS l) in
      length path = 1 \<and> snd (hd path) = ''endModifiers'' \<and>
      (case read (Some (fst (hd path))) ''endModifiers'' of
         Some (NArr modifiers) \<Rightarrow>
           length modifiers = length expected \<and>
           (case last_position n modifiers of
              None \<Rightarrow> False
            | Some i \<Rightarrow> read (Some n) ''modifier'' = Some (text_node (expected ! i)) \<and> read (Some n) ''of'' = None \<and>
                read (Some n) ''rawModifier'' = None)
       | _ \<Rightarrow> False))"

definition checkConflict :: "guard_context \<Rightarrow> visit \<Rightarrow> node_val \<Rightarrow> bool" where
  "checkConflict c path n \<longleftrightarrow>
     length path = 1 \<and> snd (hd path) = ''onConflict'' \<and> gc_onConflict c \<and>
     read (Some n) ''doNothing'' = Some (NPrim (PBool True)) \<and>
     (case read (Some n) ''columns'' of Some (NArr cs) \<Rightarrow> cs \<noteq> [] | _ \<Rightarrow> False) \<and>
     list_all (\<lambda>k. read (Some n) k = None) [''constraint'', ''indexExpression'', ''indexWhere'', ''updates'', ''updateWhere'']"

definition checkCast :: "guard_context \<Rightarrow> visit \<Rightarrow> node_val \<Rightarrow> bool" where
  "checkCast c path n \<longleftrightarrow>
     gc_root c = SelectRoot \<and>
     above_kind 0 path = Some ''AliasNode'' \<and> above_key 0 path = Some ''node'' \<and>
     above_kind 1 path = Some ''SelectionNode'' \<and>
     above_kind 2 path = Some ''SelectQueryNode'' \<and> length path = 3 \<and> above_key 2 path = Some ''selections'' \<and>
     isOwnColumn (read (Some n) ''expression'') (gc_table c)"

definition checkRaw :: "visit \<Rightarrow> node_val \<Rightarrow> bool" where
  "checkRaw path n \<longleftrightarrow>
     above_kind 0 path = Some ''OrderByItemNode'' \<and> above_key 0 path = Some ''direction'' \<and>
     read (Some n) ''sqlFragments'' \<in> {Some (NArr [text_node ''asc'']), Some (NArr [text_node ''desc''])} \<and>
     read (Some n) ''parameters'' = Some (NArr [])"

definition foreignKeyOf :: "guard_context \<Rightarrow> string \<Rightarrow> fk_pair list option" where
  "foreignKeyOf c child = map_of (gc_joins c) child"

definition checkTable :: "guard_context \<Rightarrow> visit \<Rightarrow> node_val \<Rightarrow> bool" where
  "checkTable c path n =
     (case tableName (Some n) of
        None \<Rightarrow> False
      | Some name \<Rightarrow> name = gc_table c \<or>
          foreignKeyOf c name \<noteq> None \<and>
          (above_kind 0 path = Some ''JoinNode'' \<and> above_key 0 path = Some ''table'' \<or> above_kind 0 path = Some ''ReferenceNode''))"

definition isReference :: "node_val option \<Rightarrow> string \<Rightarrow> string \<Rightarrow> bool" where
  "isReference n table name \<longleftrightarrow> kindOf n = Some ''ReferenceNode'' \<and> tableName (read n ''table'') = Some table \<and>
     read (read (read n ''column'') ''column'') ''name'' = Some (text_node name)"

definition isColumnEquality :: "node_val option \<Rightarrow> string \<Rightarrow> string \<Rightarrow> string \<Rightarrow> string \<Rightarrow> bool" where
  "isColumnEquality n leftTable leftColumn rightTable rightColumn \<longleftrightarrow>
     kindOf n = Some ''BinaryOperationNode'' \<and> read (read n ''operator'') ''operator'' = Some (text_node ''='') \<and>
     isReference (read n ''leftOperand'') leftTable leftColumn \<and> isReference (read n ''rightOperand'') rightTable rightColumn"

text \<open>The pairs from the last to the first, down the left spine.\<close>

fun isForeignKey_rev :: "node_val option \<Rightarrow> string \<Rightarrow> string \<Rightarrow> fk_pair list \<Rightarrow> bool" where
  "isForeignKey_rev n child parent [] = False"
| "isForeignKey_rev n child parent [p] = isColumnEquality n child (childColumn p) parent (parentColumn p)"
| "isForeignKey_rev n child parent (p # ps) =
     (kindOf n = Some ''AndNode'' \<and> isColumnEquality (read n ''right'') child (childColumn p) parent (parentColumn p) \<and>
      isForeignKey_rev (read n ''left'') child parent ps)"

definition isForeignKey :: "node_val option \<Rightarrow> string \<Rightarrow> string \<Rightarrow> fk_pair list \<Rightarrow> bool" where
  "isForeignKey n child parent pairs = isForeignKey_rev n child parent (rev pairs)"

definition checkJoin :: "guard_context \<Rightarrow> node_val \<Rightarrow> bool" where
  "checkJoin c n =
     (gc_root c = SelectRoot \<and> read (Some n) ''joinType'' = Some (text_node ''InnerJoin'') \<and>
      (case tableName (read (Some n) ''table'') of
         None \<Rightarrow> False
       | Some child \<Rightarrow>
           (case foreignKeyOf c child of
              None \<Rightarrow> False
            | Some pairs \<Rightarrow>
                let on = read (read (Some n) ''on'') ''on'' in
                isForeignKey on child (gc_table c) pairs \<or>
                kindOf on = Some ''AndNode'' \<and> kindOf (read on ''right'') = Some ''ParensNode'' \<and>
                  isForeignKey (read on ''left'') child (gc_table c) pairs)))"

definition checkNode :: "guard_context \<Rightarrow> visit \<Rightarrow> node_val \<Rightarrow> bool" where
  "checkNode c path n =
     (case kindOf (Some n) of
        None \<Rightarrow> False
      | Some kind \<Rightarrow>
          if kind \<in> set ROOT_KINDS then path = []
          else if kind \<notin> set NODE_KINDS then False
          else if kind = ''RawNode'' then checkRaw path n
          else if kind = ''SelectModifierNode'' then checkLock c path n
          else if kind = ''OnConflictNode'' then checkConflict c path n
          else if kind = ''CastNode'' then checkCast c path n
          else if kind = ''DataTypeNode'' then above_kind 0 path = Some ''CastNode'' \<and> above_key 0 path = Some ''dataType'' \<and>
            read (Some n) ''dataType'' = Some (text_node ''text'')
          else if kind = ''SchemableIdentifierNode'' then read (Some n) ''schema'' = None
          else if kind = ''IdentifierNode'' then (case read (Some n) ''name'' of Some (NPrim (PStr s)) \<Rightarrow> isPlainAlias s | _ \<Rightarrow> False)
          else if kind = ''TableNode'' then checkTable c path n
          else if kind = ''OrderByItemNode'' then read (Some n) ''nulls'' \<in> {None, Some (text_node ''first''), Some (text_node ''last'')}
          else if kind = ''JoinNode'' then checkJoin c n
          else if kind = ''ReferenceNode'' then read (Some n) ''table'' \<noteq> None
          else if kind = ''ColumnNode'' then
            above_kind 0 path \<in> {Some ''ReferenceNode'', Some ''InsertQueryNode'', Some ''ColumnUpdateNode'', Some ''OnConflictNode''}
          else if kind = ''SelectAllNode'' then above_kind 0 path = Some ''AggregateFunctionNode'' \<and>
            read (Some (fst (hd path))) ''func'' = Some (text_node ''count'')
          else if kind = ''OperatorNode'' then checkOperator path n
          else if kind = ''AggregateFunctionNode'' then
            (case read (Some n) ''func'' of Some (NPrim (PStr f)) \<Rightarrow> f \<in> set AGGREGATES | _ \<Rightarrow> False) \<and>
            read (Some n) ''distinct'' \<noteq> Some (NPrim (PBool True)) \<and> read (Some n) ''filter'' = None \<and> read (Some n) ''over'' = None
          else if kind = ''ValueNode'' then checkValue n
          else True)"

subsection \<open>The walk\<close>

definition isOperationNode :: "node_val \<Rightarrow> bool" where
  "isOperationNode v \<longleftrightarrow> kindOf (Some v) \<noteq> None"

text \<open>\<open>typeof value === 'object' && value !== null\<close>.\<close>

fun is_object :: "node_val \<Rightarrow> bool" where
  "is_object (NObj ps) = True"
| "is_object (NArr xs) = True"
| "is_object (NPrim (PDate t)) = True"
| "is_object _ = False"

fun children :: "node_val \<Rightarrow> node_val list" where
  "children (NArr xs) = xs"
| "children v = [v]"

fun props_of :: "node_val \<Rightarrow> (string \<times> node_val) list" where
  "props_of (NObj ps) = ps"
| "props_of _ = []"

lemma size_children: "(k, v) \<in> set (props_of n) \<Longrightarrow> child \<in> set (children v) \<Longrightarrow> size child < size n"
proof -
  assume m: "(k, v) \<in> set (props_of n)" and "child \<in> set (children v)"
  then have "size child \<le> size v" by (cases v) (auto dest!: size_list_estimation' [where f = size, OF _ order_refl])
  moreover obtain ps where n: "n = NObj ps" "(k, v) \<in> set ps" using m by (cases n) auto
  moreover have "size v < Suc (size_list (size_prod (\<lambda>_. 0) size) ps)"
    using n(2) by (induction ps) auto
  ultimately show ?thesis by simp
qed

function walk :: "guard_context \<Rightarrow> visit \<Rightarrow> node_val \<Rightarrow> bool" where
  "walk c path n \<longleftrightarrow>
     checkNode c path n \<and>
     (kindOf (Some n) = Some ''ValueNode'' \<or>
      (\<forall>(key, value) \<in> set (props_of n). \<forall>child \<in> set (children value).
         if isOperationNode child then walk c ((n, key) # path) child else \<not> is_object child))"
  by pat_completeness auto
termination
  by (relation "measure (\<lambda>(c, path, n). size n)") (auto simp: size_children)

declare walk.simps [simp del]

definition assertAllowedTree :: "node_val \<Rightarrow> guard_context \<Rightarrow> db_error + unit" where
  "assertAllowedTree tree c =
     (if kindOf (Some tree) \<noteq> Some (root_text (gc_root c)) then Inl (QueryRefusedError Statement_shape)
      else if \<exists>(key, value) \<in> set (props_of tree).
          \<not> (key \<in> set (ROOT_PROPERTIES (gc_root c)) \<or> key = ''endModifiers'' \<and> gc_lock c \<noteq> None \<and> gc_root c = SelectRoot \<or>
             key = ''onConflict'' \<and> gc_onConflict c \<and> gc_root c = InsertRoot)
        then Inl (QueryRefusedError Statement_shape)
      else bindE (checkRoot tree c) (\<lambda>_. if walk c [] tree then Inr () else Inl (QueryRefusedError Statement_shape)))"

end
