(* ===== verification/Db_Guard_Sound.thy ===== *)
theory Db_Guard_Sound
  imports Db_Guard
begin

text \<open>
  What the guard guarantees of a statement it admits, and that it admits every statement the layer builds itself.
\<close>

subsection \<open>Admitted statements\<close>

text \<open>The nodes the walk visits.\<close>

inductive subnode :: "node_val \<Rightarrow> node_val \<Rightarrow> bool" where
  self: "subnode n n"
| below: "subnode n m \<Longrightarrow> kindOf (Some m) \<noteq> Some ''ValueNode'' \<Longrightarrow> (key, value) \<in> set (props_of m) \<Longrightarrow>
    child \<in> set (children value) \<Longrightarrow> isOperationNode child \<Longrightarrow> subnode n child"

lemma walk_subnode: "subnode n m \<Longrightarrow> walk c path n \<Longrightarrow> \<exists>path'. walk c path' m \<and> (path' = [] \<longrightarrow> m = n)"
proof (induction rule: subnode.induct)
  case (below n m key val child)
  then obtain path' where "walk c path' m" by blast
  then have "walk c ((m, key) # path') child"
    using below.hyps by (subst (asm) walk.simps) (fastforce split: if_splits)
  then show ?case by blast
qed blast

lemma walk_checked: "walk c path n \<Longrightarrow> checkNode c path n"
  by (subst (asm) walk.simps) blast

lemma checkNode_kind:
  assumes "checkNode c path m"
  shows "\<exists>k. kindOf (Some m) = Some k \<and> (k \<in> set NODE_KINDS \<or> k \<in> set ROOT_KINDS \<and> path = [])"
  using assms by (auto simp: checkNode_def split: option.splits if_splits)

lemma checkNode_table:
  "checkNode c path m \<Longrightarrow> kindOf (Some m) = Some ''TableNode'' \<Longrightarrow>
     \<exists>t. tableName (Some m) = Some t \<and> (t = gc_table c \<or> t \<in> fst ` set (gc_joins c))"
  by (auto simp: checkNode_def ROOT_KINDS_def NODE_KINDS_def checkTable_def foreignKeyOf_def map_of_eq_None_iff
      split: option.splits if_splits)

lemma checkNode_raw:
  "checkNode c path m \<Longrightarrow> kindOf (Some m) = Some ''RawNode'' \<Longrightarrow>
     read (Some m) ''sqlFragments'' \<in> {Some (NArr [text_node ''asc'']), Some (NArr [text_node ''desc''])}"
  by (auto simp: checkNode_def ROOT_KINDS_def NODE_KINDS_def checkRaw_def)

lemma checkNode_join: "checkNode c path m \<Longrightarrow> kindOf (Some m) = Some ''JoinNode'' \<Longrightarrow> checkJoin c m"
  by (simp add: checkNode_def ROOT_KINDS_def NODE_KINDS_def)

subsection \<open>Scope predicates\<close>

lemma tree_single:
  assumes "isTreeOf ''AndNode'' leaf n" and "\<And>m. leaf m \<Longrightarrow> kindOf m = Some ''BinaryOperationNode''"
  shows "single n"
  using assms
proof (induction "''AndNode''" leaf n rule: isTreeOf.induct)
  case (1 leaf n)
  show ?case
  proof (cases "kindOf n = Some ''AndNode''")
    case True
    then show ?thesis using 1 by (simp add: isTreeOf.simps [of _ _ n] single_and)
  next
    case False
    then show ?thesis using "1.prems" by (simp add: isTreeOf.simps [of _ _ n] single_atom)
  qed
qed

lemma shaped_single: "scope_shaped table (Some scope) \<Longrightarrow> single (Some scope)"
  unfolding scope_shaped_def
  by (elim disjE) (auto simp: isEverything_def isScopeMembership_def isScopeEquality_def intro: single_atom tree_single)

lemma scoped_predicate_confines:
  assumes "scoped_predicate p scope" and "single (Some scope)" and "cond3 opr e p = Some True"
  shows "holds opr e scope"
proof -
  consider "p = Some scope" | "kindOf p = Some ''AndNode''" "read p ''right'' = Some scope" "kindOf (read p ''left'') = Some ''ParensNode''"
    using assms(1) by (auto simp: scoped_predicate_def)
  then show ?thesis
  proof cases
    case 2
    then have "single (read p ''left'')" by (intro single_atom) simp_all
    then show ?thesis using 2 assms(2,3) cond3_and [of p opr e] by (simp add: holds_def)
  qed (use assms(3) in \<open>simp add: holds_def\<close>)
qed

text \<open>A column of the statement table equals one of these values.\<close>

definition own_match :: "sql_operators \<Rightarrow> sql_tuple \<Rightarrow> string \<Rightarrow> string \<times> prim list \<Rightarrow> bool" where
  "own_match opr e table test \<longleftrightarrow> (\<exists>a v. cell e table (fst test) = Some a \<and> v \<in> set (snd test) \<and> opr ''='' a v)"

lemma tableName_text: "tableName n = Some t \<Longrightarrow> table_text n = t"
  by (auto simp: tableName_def table_text_def split: option.splits node_val.splits prim.splits if_splits)

lemma operand_own: "isOwnColumn n table \<Longrightarrow> operand e n = cell e table (column_text (read n ''column''))"
  by (simp add: isOwnColumn_def operand_def tableName_text)

text \<open>The values a bound node stands for: none for null.\<close>

definition bound_values :: "node_val option \<Rightarrow> prim list" where
  "bound_values n = (case read n ''value'' of Some (NPrim p) \<Rightarrow> [p] | _ \<Rightarrow> [])"

lemma operand_bound: "isBoundValue n \<Longrightarrow> operand e n = (case bound_values n of [] \<Rightarrow> None | p # _ \<Rightarrow> Some p)"
  by (auto simp: isBoundValue_def operand_def bound_values_def split: option.splits node_val.splits)

lemma bound_values_operand: "isBoundValue n \<Longrightarrow> operand e n = Some p \<longleftrightarrow> p \<in> set (bound_values n)"
  by (auto simp: operand_bound bound_values_def split: option.splits node_val.splits)

definition equality_test :: "node_val option \<Rightarrow> string \<times> prim list" where
  "equality_test n = (column_text (read (read n ''leftOperand'') ''column''), bound_values (read n ''rightOperand''))"

definition membership_test :: "node_val option \<Rightarrow> string \<times> prim list" where
  "membership_test n = (column_text (read (read n ''leftOperand'') ''column''),
     concat (map (\<lambda>v. bound_values (Some v)) (items_of (read (read n ''rightOperand'') ''values''))))"

lemma equality_match: "isScopeEquality table n \<Longrightarrow> cond3 opr e n = Some True \<longleftrightarrow> own_match opr e table (equality_test n)"
proof -
  assume h: "isScopeEquality table n"
  have "cond3 opr e n = Some True \<longleftrightarrow> compare3 opr ''='' (operand e (read n ''leftOperand'')) (operand e (read n ''rightOperand'')) = Some True"
    using h by (subst cond3_atom) (simp_all add: isScopeEquality_def atom3_def binary3_def)
  moreover have "p \<in> set (bound_values (read n ''rightOperand'')) \<longleftrightarrow> operand e (read n ''rightOperand'') = Some p" for p
    using h by (simp add: isScopeEquality_def bound_values_operand)
  ultimately show ?thesis
    using h by (auto simp: isScopeEquality_def operand_own compare3_def own_match_def equality_test_def split: option.splits)
qed

lemma membership_items: "isScopeMembership table n \<Longrightarrow> v \<in> set (items_of (read (read n ''rightOperand'') ''values'')) \<Longrightarrow> isBoundValue (Some v)"
  by (auto simp: isScopeMembership_def list_all_iff split: option.splits node_val.splits)

lemma membership_match: "isScopeMembership table n \<Longrightarrow> cond3 opr e n = Some True \<longleftrightarrow> own_match opr e table (membership_test n)"
proof -
  assume h: "isScopeMembership table n"
  have "cond3 opr e n = Some True \<longleftrightarrow> member3 opr (operand e (read n ''leftOperand''))
      (map (\<lambda>v. operand e (Some v)) (items_of (read (read n ''rightOperand'') ''values''))) = Some True"
    using h by (subst cond3_atom) (simp_all add: isScopeMembership_def atom3_def binary3_def)
  moreover have "operand e (read n ''leftOperand'') = cell e table (fst (membership_test n))"
    using h by (simp add: isScopeMembership_def operand_own membership_test_def)
  moreover have "Some r \<in> set (map (\<lambda>v. operand e (Some v)) (items_of (read (read n ''rightOperand'') ''values''))) \<longleftrightarrow>
      r \<in> set (snd (membership_test n))" for r
    using bound_values_operand [OF membership_items [OF h]] by (auto simp: membership_test_def image_iff) metis+
  ultimately show ?thesis by (simp add: member3_True own_match_def)
qed

lemma conjunction_tests:
  assumes "isTreeOf ''AndNode'' (isScopeEquality table) n"
  shows "\<exists>tests. tests \<noteq> [] \<and> (\<forall>opr e. cond3 opr e n = Some True \<longleftrightarrow> list_all (own_match opr e table) tests)"
  using assms
proof (induction "''AndNode''" "isScopeEquality table" n rule: isTreeOf.induct)
  case (1 n)
  show ?case
  proof (cases "kindOf n = Some ''AndNode''")
    case True
    then have "isTreeOf ''AndNode'' (isScopeEquality table) (read n ''left'')" "isTreeOf ''AndNode'' (isScopeEquality table) (read n ''right'')"
      using "1.prems" by (simp_all add: isTreeOf.simps [of _ _ n])
    then obtain l r where "l \<noteq> []" "\<forall>opr e. cond3 opr e (read n ''left'') = Some True \<longleftrightarrow> list_all (own_match opr e table) l"
      "\<forall>opr e. cond3 opr e (read n ''right'') = Some True \<longleftrightarrow> list_all (own_match opr e table) r"
      using "1.hyps" [OF True] by metis
    moreover have "single (read n ''left'')" "single (read n ''right'')"
      using True "1.prems" by (auto simp: isTreeOf.simps [of _ _ n] isScopeEquality_def intro!: tree_single [of "isScopeEquality table"])
    ultimately show ?thesis using True by (intro exI [of _ "l @ r"]) (simp add: cond3_and)
  next
    case False
    then show ?thesis using "1.prems" by (intro exI [of _ "[equality_test n]"]) (simp add: isTreeOf.simps [of _ _ n] equality_match)
  qed
qed

lemma disjunction_tests:
  assumes "isTreeOf ''OrNode'' (isScopeMembership table) n"
  shows "\<exists>tests. tests \<noteq> [] \<and> (\<forall>opr e. cond3 opr e n = Some True \<longleftrightarrow> list_ex (own_match opr e table) tests)"
  using assms
proof (induction "''OrNode''" "isScopeMembership table" n rule: isTreeOf.induct)
  case (1 n)
  show ?case
  proof (cases "kindOf n = Some ''OrNode''")
    case True
    then have "isTreeOf ''OrNode'' (isScopeMembership table) (read n ''left'')" "isTreeOf ''OrNode'' (isScopeMembership table) (read n ''right'')"
      using "1.prems" by (simp_all add: isTreeOf.simps [of _ _ n])
    then obtain l r where "l \<noteq> []" "\<forall>opr e. cond3 opr e (read n ''left'') = Some True \<longleftrightarrow> list_ex (own_match opr e table) l"
      "\<forall>opr e. cond3 opr e (read n ''right'') = Some True \<longleftrightarrow> list_ex (own_match opr e table) r"
      using "1.hyps" [OF True] by metis
    moreover have "cond3 opr e n = Some True \<longleftrightarrow> cond3 opr e (read n ''left'') = Some True \<or> cond3 opr e (read n ''right'') = Some True" for opr e
      using True by (rule cond3_or)
    ultimately show ?thesis by (intro exI [of _ "l @ r"]) simp
  next
    case False
    then show ?thesis using "1.prems" by (intro exI [of _ "[membership_test n]"]) (simp add: isTreeOf.simps [of _ _ n] membership_match)
  qed
qed

text \<open>A scope is the literal \<open>true\<close>, or tests of the table's own columns against bound values: all of them, or some of them.\<close>

definition scope_tests :: "string \<Rightarrow> node_val \<Rightarrow> bool" where
  "scope_tests table scope \<longleftrightarrow>
     (\<exists>tests. tests \<noteq> [] \<and>
       ((\<forall>opr e. holds opr e scope \<longleftrightarrow> list_all (own_match opr e table) tests) \<or>
        (\<forall>opr e. holds opr e scope \<longleftrightarrow> list_ex (own_match opr e table) tests)))"

lemma shaped_tests:
  assumes "scope_shaped table (Some scope)"
  shows "isEverything (Some scope) \<or> scope_tests table scope"
proof -
  from assms consider "isEverything (Some scope)" | "isTreeOf ''AndNode'' (isScopeEquality table) (Some scope)"
    | "isScopeMembership table (Some scope)"
    | "kindOf (Some scope) = Some ''ParensNode''" "isTreeOf ''OrNode'' (isScopeMembership table) (read (Some scope) ''node'')"
    unfolding scope_shaped_def by blast
  then show ?thesis
  proof cases
    case 2 then show ?thesis using conjunction_tests [OF 2] unfolding scope_tests_def holds_def by blast
  next
    case 3
    then have "\<forall>opr e. holds opr e scope \<longleftrightarrow> list_all (own_match opr e table) [membership_test (Some scope)]"
      by (simp add: holds_def membership_match)
    then show ?thesis unfolding scope_tests_def by blast
  next
    case 4
    have "cond3 opr e (Some scope) = Some True \<longleftrightarrow> cond3 opr e (read (Some scope) ''node'') = Some True" for opr e
      using 4(1) by (rule cond3_parens)
    then show ?thesis using disjunction_tests [OF 4(2)] unfolding scope_tests_def holds_def by metis
  qed simp
qed

lemma assertAllowedTree_parts:
  assumes "assertAllowedTree tree c = Inr ()"
  shows "checkRoot tree c = Inr ()" "walk c [] tree" "kindOf (Some tree) = Some (root_text (gc_root c))"
  using assms by (auto simp: assertAllowedTree_def bindE_eq_Inr split: if_splits)

lemma checkRoot_scope:
  assumes "checkRoot tree c = Inr ()"
  shows "case gc_scope c of None \<Rightarrow> gc_root c = InsertRoot \<and> read (Some tree) ''where'' = None
     | Some scope \<Rightarrow> scoped_predicate (read (read (Some tree) ''where'') ''where'') scope \<and> scope_shaped (gc_table c) (Some scope)"
  using assms by (auto simp: checkRoot_def bindE_eq_Inr split: option.splits if_splits)

subsection \<open>Joins\<close>

lemma isReference_operand: "isReference n table name \<Longrightarrow> operand e n = cell e table name"
  by (auto simp: isReference_def operand_def tableName_text column_text_def)

lemma columnEquality_holds:
  assumes "isColumnEquality n lt lc rt rc" and "cond3 opr e n = Some True"
  shows "\<exists>a b. cell e lt lc = Some a \<and> cell e rt rc = Some b \<and> opr ''='' a b"
  using assms unfolding isColumnEquality_def
  by (subst (asm) cond3_atom) (auto simp: atom3_def binary3_def isReference_operand compare3_def split: option.splits)

lemma columnEquality_single: "isColumnEquality n lt lc rt rc \<Longrightarrow> single n"
  by (rule single_atom) (simp_all add: isColumnEquality_def)

lemma foreignKey_rev_single: "isForeignKey_rev n child parent ps \<Longrightarrow> single n"
  by (induction n child parent ps rule: isForeignKey_rev.induct) (auto intro: single_and columnEquality_single)

lemma foreignKey_rev_holds:
  assumes "isForeignKey_rev n child parent ps" and "cond3 opr e n = Some True" and "p \<in> set ps"
  shows "\<exists>a b. cell e child (childColumn p) = Some a \<and> cell e parent (parentColumn p) = Some b \<and> opr ''='' a b"
  using assms
proof (induction n child parent ps rule: isForeignKey_rev.induct)
  case (3 n child parent q r rs)
  then have "single (read n ''left'')" "single (read n ''right'')"
    by (auto intro: foreignKey_rev_single columnEquality_single)
  with 3 show ?case by (auto simp: cond3_and dest: columnEquality_holds)
qed (auto dest: columnEquality_holds)

lemma checkJoin_holds:
  assumes "checkJoin c j" and "cond3 opr e (read (read (Some j) ''on'') ''on'') = Some True"
  shows "\<exists>child pairs. tableName (read (Some j) ''table'') = Some child \<and> map_of (gc_joins c) child = Some pairs \<and>
    (\<forall>p \<in> set pairs. \<exists>a b. cell e child (childColumn p) = Some a \<and> cell e (gc_table c) (parentColumn p) = Some b \<and> opr ''='' a b)"
proof -
  define on where "on = read (read (Some j) ''on'') ''on''"
  obtain child pairs where c: "tableName (read (Some j) ''table'') = Some child" "map_of (gc_joins c) child = Some pairs"
    and k: "isForeignKey on child (gc_table c) pairs \<or> kindOf on = Some ''AndNode'' \<and> kindOf (read on ''right'') = Some ''ParensNode'' \<and>
      isForeignKey (read on ''left'') child (gc_table c) pairs"
    using assms(1) by (auto simp: checkJoin_def on_def foreignKeyOf_def Let_def split: option.splits)
  have "\<exists>fk. isForeignKey_rev fk child (gc_table c) (rev pairs) \<and> cond3 opr e fk = Some True"
    using k
  proof
    assume a: "kindOf on = Some ''AndNode'' \<and> kindOf (read on ''right'') = Some ''ParensNode'' \<and> isForeignKey (read on ''left'') child (gc_table c) pairs"
    then have "single (read on ''left'')" "single (read on ''right'')"
      by (auto simp: isForeignKey_def intro: foreignKey_rev_single single_atom)
    with a have "cond3 opr e (read on ''left'') = Some True" using assms(2) by (simp add: cond3_and on_def [symmetric])
    then show ?thesis using a by (auto simp: isForeignKey_def)
  qed (use assms(2) in \<open>auto simp: isForeignKey_def on_def [symmetric]\<close>)
  then show ?thesis using c foreignKey_rev_holds by fastforce
qed

end
