(* ===== verification/Db_Guard_Complete.thy ===== *)
theory Db_Guard_Complete
  imports Db_Guard_Sound
begin

text \<open>
  The guard admits every statement the layer builds, so a \<open>statement_shape\<close> or \<open>scope_predicate\<close> refusal never comes from a
  well-formed operation: the allowlist is not only safe but complete for the builders of \<open>nodes.ts\<close>.
\<close>

subsection \<open>Admitted nodes\<close>

definition child_ok :: "guard_context \<Rightarrow> visit \<Rightarrow> node_val \<Rightarrow> bool" where
  "child_ok c path child \<longleftrightarrow> (if isOperationNode child then walk c path child else \<not> is_object child)"

definition props_ok :: "guard_context \<Rightarrow> visit \<Rightarrow> node_val \<Rightarrow> (string \<times> node_val) list \<Rightarrow> bool" where
  "props_ok c path n ps \<longleftrightarrow> list_all (\<lambda>(key, v). list_all (child_ok c ((n, key) # path)) (children v)) ps"

text \<open>Admitted wherever it stands.\<close>

definition admitted :: "guard_context \<Rightarrow> node_val \<Rightarrow> bool" where
  "admitted c n \<longleftrightarrow> (\<forall>path. child_ok c path n)"

lemma isOperationNode_mk [simp]: "isOperationNode (mk k ps)"
  by (simp add: isOperationNode_def)

lemma children_mk [simp]: "children (mk k ps) = [mk k ps]"
  by (simp add: mk_def)

lemma props_of_mk [simp]: "props_of (mk k ps) = (''kind'', text_node k) # ps"
  by (simp add: mk_def)

lemma text_not_node [simp]: "\<not> isOperationNode (text_node s)" "\<not> isOperationNode (NPrim p)"
  by (simp_all add: isOperationNode_def kindOf_def)

lemma child_ok_text [simp]: "child_ok c path (text_node s)" "child_ok c path (NPrim (PBool b))"
  by (simp_all add: child_ok_def)

lemma child_ok_mk [simp]: "child_ok c path (mk k ps) \<longleftrightarrow> walk c path (mk k ps)"
  by (simp add: child_ok_def)

lemma walk_mk: "walk c path (mk k ps) \<longleftrightarrow> checkNode c path (mk k ps) \<and> (k = ''ValueNode'' \<or> props_ok c path (mk k ps) ps)"
  by (subst walk.simps) (auto simp: props_ok_def child_ok_def list_all_iff)

lemma props_ok_simps [simp]:
  "props_ok c path n []"
  "props_ok c path n ((key, v) # ps) \<longleftrightarrow> list_all (child_ok c ((n, key) # path)) (children v) \<and> props_ok c path n ps"
  "props_ok c path n (ps @ qs) \<longleftrightarrow> props_ok c path n ps \<and> props_ok c path n qs"
  by (simp_all add: props_ok_def)

lemma props_ok_opt [simp]: "props_ok c path n (opt_prop key v) \<longleftrightarrow> (case v of None \<Rightarrow> True | Some m \<Rightarrow> list_all (child_ok c ((n, key) # path)) (children m))"
  by (simp add: opt_prop_def split: option.splits)

lemma children_text [simp]: "children (text_node s) = [text_node s]" "children (NArr xs) = xs"
  by simp_all

text \<open>The kinds the guard admits without a rule of their own.\<close>

definition PLAIN_KINDS :: "string list" where
  "PLAIN_KINDS = [''FromNode'', ''SelectionNode'', ''AliasNode'', ''WhereNode'', ''AndNode'', ''OrNode'', ''ParensNode'',
     ''BinaryOperationNode'', ''ValueListNode'', ''OrderByNode'', ''LimitNode'', ''OffsetNode'', ''OnNode'', ''GroupByNode'',
     ''GroupByItemNode'', ''ValuesNode'', ''ColumnUpdateNode'', ''ReturningNode'']"

lemma checkNode_plain: "k \<in> set PLAIN_KINDS \<Longrightarrow> checkNode c path (mk k ps)"
  unfolding PLAIN_KINDS_def checkNode_def ROOT_KINDS_def NODE_KINDS_def by (simp, elim disjE) simp_all

lemma walk_plain: "k \<in> set PLAIN_KINDS \<Longrightarrow> walk c path (mk k ps) \<longleftrightarrow> props_ok c path (mk k ps) ps"
  using checkNode_plain by (auto simp: walk_mk) (simp add: PLAIN_KINDS_def)

lemma admitted_child: "admitted c n \<Longrightarrow> child_ok c path n"
  by (simp add: admitted_def)

lemma plain_no_dot: "isPlainIdentifier s \<Longrightarrow> CHR ''.'' \<notin> set s"
proof
  assume s: "isPlainIdentifier s" and d: "CHR ''.'' \<in> set s"
  have "\<not> identifier_char b (CHR ''.'')" for b by (simp add: identifier_char_def is_lower_az_def is_digit_def)
  then show False using s d by (cases s) (auto simp: isPlainIdentifier_def list_all_iff)
qed

lemma splitOn_none: "x \<notin> set s \<Longrightarrow> splitOn x s = [s]"
  by (induction s) auto

lemma splitOn_dot: "x \<notin> set a \<Longrightarrow> splitOn x (a @ x # b) = a # splitOn x b"
  by (induction a) auto

lemma plain_alias: "isPlainIdentifier s \<Longrightarrow> isPlainAlias s"
  by (simp add: isPlainAlias_def plain_no_dot splitOn_none)

lemma dotted_alias: "isPlainIdentifier a \<Longrightarrow> isPlainIdentifier b \<Longrightarrow> isPlainAlias (a @ CHR ''.'' # b)"
  by (simp add: isPlainAlias_def plain_no_dot splitOn_none splitOn_dot)

lemma walk_identifier [simp]: "walk c path (identifierNode n) \<longleftrightarrow> isPlainAlias n"
  by (simp add: identifierNode_def walk_mk checkNode_def ROOT_KINDS_def NODE_KINDS_def)

lemma children_nodes [simp]:
  "children (identifierNode n) = [identifierNode n]" "children (tableNode n) = [tableNode n]" "children (columnNode n) = [columnNode n]"
  "child_ok c path (identifierNode n) \<longleftrightarrow> walk c path (identifierNode n)" "child_ok c path (tableNode n) \<longleftrightarrow> walk c path (tableNode n)"
  "child_ok c path (columnNode n) \<longleftrightarrow> walk c path (columnNode n)"
  by (simp_all add: identifierNode_def tableNode_def columnNode_def)

lemma tableName_tableNode [simp]: "tableName (Some (tableNode t)) = (if isPlainIdentifier t then Some t else None)"
  by (simp add: tableName_def tableNode_def identifierNode_def)

lemma walk_table: "walk c path (tableNode t) \<longleftrightarrow> isPlainIdentifier t \<and> (t = gc_table c \<or> map_of (gc_joins c) t \<noteq> None \<and>
    (above_kind 0 path = Some ''JoinNode'' \<and> above_key 0 path = Some ''table'' \<or> above_kind 0 path = Some ''ReferenceNode''))"
proof -
  have "walk c path (tableNode t) \<longleftrightarrow> checkNode c path (tableNode t) \<and> isPlainAlias t"
    by (simp add: tableNode_def walk_mk checkNode_def [of _ _ "mk ''SchemableIdentifierNode'' ps" for ps] ROOT_KINDS_def NODE_KINDS_def)
  moreover have "checkNode c path (tableNode t) \<longleftrightarrow> checkTable c path (tableNode t)"
    by (simp add: tableNode_def checkNode_def ROOT_KINDS_def NODE_KINDS_def)
  ultimately show ?thesis by (auto simp: checkTable_def foreignKeyOf_def plain_alias split: if_splits)
qed

definition reached :: "guard_context \<Rightarrow> string \<Rightarrow> bool" where
  "reached c t \<longleftrightarrow> isPlainIdentifier t \<and> (t = gc_table c \<or> map_of (gc_joins c) t \<noteq> None)"

lemma walk_columnNode: "walk c path (columnNode n) \<longleftrightarrow> isPlainAlias n \<and>
    above_kind 0 path \<in> {Some ''ReferenceNode'', Some ''InsertQueryNode'', Some ''ColumnUpdateNode'', Some ''OnConflictNode''}"
  by (auto simp: columnNode_def walk_mk checkNode_def ROOT_KINDS_def NODE_KINDS_def)

lemma admitted_mk_iff: "admitted c (mk k ps) \<longleftrightarrow> (\<forall>path. walk c path (mk k ps))"
  by (simp add: admitted_def)

lemma above_simps [simp]: "above_kind 0 ((mk k ps, key) # path) = Some k" "above_key 0 ((n, key) # path) = Some key"
  "above_kind (Suc i) (x # path) = above_kind i path" "above_key (Suc i) (x # path) = above_key i path"
  by (simp_all add: above_kind_def above_key_def)

lemma admitted_column: "reached c t \<Longrightarrow> isPlainIdentifier n \<Longrightarrow> admitted c (column t n)"
  by (auto simp: column_def referenceNode_def admitted_mk_iff walk_mk checkNode_def ROOT_KINDS_def NODE_KINDS_def
      walk_table walk_columnNode reached_def plain_alias)

lemma admitted_value [simp]: "admitted c (valueNode v)" "admitted c (immediateNode NNull)" "admitted c everything"
  by (auto simp: valueNode_def immediateNode_def everything_def admitted_mk_iff walk_mk checkNode_def ROOT_KINDS_def NODE_KINDS_def
      checkValue_def split: option.splits)

lemma children_values [simp]: "children (valueNode v) = [valueNode v]" "children (valueListNode vs) = [valueListNode vs]"
  "children (column t name) = [column t name]" "children (binaryNode l op r) = [binaryNode l op r]"
  "children (andNode l r) = [andNode l r]" "children (orNode l r) = [orNode l r]" "children (parensNode l) = [parensNode l]"
  "children (immediateNode u) = [immediateNode u]" "children (aliasNode n a) = [aliasNode n a]" "children (castText n) = [castText n]"
  "children (operatorNode op) = [operatorNode op]" "children (selectionNode n) = [selectionNode n]" "children (fromNode t) = [fromNode t]"
  "children (whereNode n) = [whereNode n]" "children (returningNode ns) = [returningNode ns]" "children (limitNode k) = [limitNode k]"
  "children (offsetNode k) = [offsetNode k]"
  by (simp_all add: node_defs column_def)

lemma admitted_plain: "k \<in> set PLAIN_KINDS \<Longrightarrow> list_all (\<lambda>(key, v). list_all (admitted c) (children v)) ps \<Longrightarrow> admitted c (mk k ps)"
  by (auto simp: admitted_mk_iff walk_plain props_ok_def list_all_iff admitted_def)

lemma children_admitted: "admitted c n \<Longrightarrow> list_all (admitted c) (children n)"
  by (cases n) (auto simp: admitted_def child_ok_def isOperationNode_def kindOf_def)

lemma admitted_values: "list_all (admitted c) vs \<Longrightarrow> admitted c (valueListNode vs)"
  by (simp add: valueListNode_def admitted_plain PLAIN_KINDS_def)

lemma admitted_connectives:
  "admitted c l \<Longrightarrow> admitted c r \<Longrightarrow> admitted c (andNode l r)" "admitted c l \<Longrightarrow> admitted c r \<Longrightarrow> admitted c (orNode l r)"
  "admitted c l \<Longrightarrow> admitted c (parensNode l)" "admitted c l \<Longrightarrow> admitted c (whereNode l)" "admitted c l \<Longrightarrow> admitted c (selectionNode l)"
  by (simp_all add: andNode_def orNode_def parensNode_def whereNode_def selectionNode_def admitted_plain PLAIN_KINDS_def children_admitted)

lemma admitted_operator: "op \<in> set COMPARISON_OPERATORS \<Longrightarrow> admitted c (operatorNode op)"
  by (simp add: operatorNode_def admitted_mk_iff walk_mk checkNode_def ROOT_KINDS_def NODE_KINDS_def checkOperator_def)

lemma admitted_binary: "op \<in> set COMPARISON_OPERATORS \<Longrightarrow> admitted c l \<Longrightarrow> admitted c r \<Longrightarrow> admitted c (binaryNode l op r)"
  by (simp add: binaryNode_def admitted_plain PLAIN_KINDS_def children_admitted admitted_operator)

lemma admitted_alias: "admitted c n \<Longrightarrow> isPlainAlias a \<Longrightarrow> admitted c (aliasNode n a)"
  unfolding aliasNode_def by (rule admitted_plain) (auto simp: PLAIN_KINDS_def children_admitted admitted_def)

lemma admitted_foldl: "admitted c n \<Longrightarrow> list_all (admitted c) ns \<Longrightarrow> admitted c (foldl andNode n ns)"
  "admitted c n \<Longrightarrow> list_all (admitted c) ns \<Longrightarrow> admitted c (foldl orNode n ns)"
  by (induction ns arbitrary: n) (auto simp: admitted_connectives)

lemma admitted_allOf: "allOf ns = Inr n \<Longrightarrow> list_all (admitted c) ns \<Longrightarrow> admitted c n"
  by (auto simp: allOf_def admitted_foldl split: list.splits)

subsection \<open>Scopes and conditions\<close>

inductive eq_tree :: "string \<Rightarrow> node_val \<Rightarrow> bool" for t where
  leaf: "isPlainIdentifier name \<Longrightarrow> eq_tree t (equals t name v)"
| conj: "eq_tree t l \<Longrightarrow> eq_tree t r \<Longrightarrow> eq_tree t (andNode l r)"

inductive in_tree :: "string \<Rightarrow> node_val \<Rightarrow> bool" for t where
  leaf: "isPlainIdentifier name \<Longrightarrow> vs \<noteq> [] \<Longrightarrow> in_tree t (inList t name vs)"
| disj: "in_tree t l \<Longrightarrow> in_tree t r \<Longrightarrow> in_tree t (orNode l r)"

text \<open>The scope predicates the layer builds.\<close>

definition layer_scope :: "string \<Rightarrow> node_val \<Rightarrow> bool" where
  "layer_scope t n \<longleftrightarrow> n = everything \<or> eq_tree t n \<or> (\<exists>name vs. isPlainIdentifier name \<and> vs \<noteq> [] \<and> n = inList t name vs) \<or>
     (\<exists>l r. in_tree t l \<and> in_tree t r \<and> n = parensNode (orNode l r))"

lemma admitted_equals: "reached c t \<Longrightarrow> isPlainIdentifier name \<Longrightarrow> admitted c (equals t name v)"
  by (simp add: equals_def admitted_binary admitted_column COMPARISON_OPERATORS_def)

lemma admitted_inList: "reached c t \<Longrightarrow> isPlainIdentifier name \<Longrightarrow> admitted c (inList t name vs)"
  by (simp add: inList_def admitted_binary admitted_column admitted_values list_all_iff COMPARISON_OPERATORS_def)

lemma admitted_eq_tree: "eq_tree t n \<Longrightarrow> reached c t \<Longrightarrow> admitted c n"
  by (induction rule: eq_tree.induct) (auto simp: admitted_equals admitted_connectives)

lemma admitted_in_tree: "in_tree t n \<Longrightarrow> reached c t \<Longrightarrow> admitted c n"
  by (induction rule: in_tree.induct) (auto simp: admitted_inList admitted_connectives)

lemma admitted_scope: "layer_scope t n \<Longrightarrow> reached c t \<Longrightarrow> admitted c n"
  by (auto simp: layer_scope_def admitted_eq_tree admitted_in_tree admitted_inList admitted_connectives)

lemma isOwnColumn_column: "isPlainIdentifier t \<Longrightarrow> isOwnColumn (Some (column t name)) t"
  by (simp add: isOwnColumn_def column_def referenceNode_def columnNode_def)

lemma isScopeEquality_equals: "isPlainIdentifier t \<Longrightarrow> isScopeEquality t (Some (equals t name v))"
  by (simp add: isScopeEquality_def equals_def binaryNode_def operatorNode_def isOwnColumn_column isBoundValue_def valueNode_def)

lemma isScopeMembership_inList: "isPlainIdentifier t \<Longrightarrow> vs \<noteq> [] \<Longrightarrow> isScopeMembership t (Some (inList t name vs))"
  by (simp add: isScopeMembership_def inList_def binaryNode_def operatorNode_def isOwnColumn_column isBoundValue_def valueNode_def
      valueListNode_def list_all_iff)

lemma kinds_builders [simp]:
  "kindOf (Some (andNode l r)) = Some ''AndNode''" "kindOf (Some (orNode l r)) = Some ''OrNode''" "kindOf (Some (parensNode n)) = Some ''ParensNode''"
  "kindOf (Some (equals t name v)) = Some ''BinaryOperationNode''" "kindOf (Some (inList t name vs)) = Some ''BinaryOperationNode''"
  "kindOf (Some (binaryNode l op r)) = Some ''BinaryOperationNode''"
  "read (Some (andNode l r)) ''left'' = Some l" "read (Some (andNode l r)) ''right'' = Some r"
  "read (Some (orNode l r)) ''left'' = Some l" "read (Some (orNode l r)) ''right'' = Some r" "read (Some (parensNode n)) ''node'' = Some n"
  by (simp_all add: andNode_def orNode_def parensNode_def equals_def inList_def binaryNode_def)

lemma isTreeOf_eq_tree: "eq_tree t n \<Longrightarrow> isPlainIdentifier t \<Longrightarrow> isTreeOf ''AndNode'' (isScopeEquality t) (Some n)"
  by (induction rule: eq_tree.induct) (simp_all add: isTreeOf.simps isScopeEquality_equals)

lemma isTreeOf_in_tree: "in_tree t n \<Longrightarrow> isPlainIdentifier t \<Longrightarrow> isTreeOf ''OrNode'' (isScopeMembership t) (Some n)"
  by (induction rule: in_tree.induct) (simp_all add: isTreeOf.simps isScopeMembership_inList)

lemma layer_scope_shaped: "layer_scope t n \<Longrightarrow> isPlainIdentifier t \<Longrightarrow> scope_shaped t (Some n)"
  unfolding layer_scope_def scope_shaped_def
  by (elim disjE exE conjE)
     (simp_all add: isTreeOf_eq_tree isScopeMembership_inList isTreeOf.simps [of _ _ "Some (orNode l r)" for l r] isTreeOf_in_tree
       isEverything_def everything_def immediateNode_def)

fun term_ok :: "cond_term \<Rightarrow> bool" where
  "term_ok (Compare name op v) \<longleftrightarrow> isPlainIdentifier name \<and> op \<in> set COMPARISON_OPERATORS"
| "term_ok (Contains name t) \<longleftrightarrow> isPlainIdentifier name"

fun condition_ok :: "condition \<Rightarrow> bool" where
  "condition_ok (Single t) \<longleftrightarrow> term_ok t"
| "condition_ok (AnyOf ts) \<longleftrightarrow> ts \<noteq> [] \<and> list_all term_ok ts"

lemma admitted_term: "reached c t \<Longrightarrow> term_ok tm \<Longrightarrow> admitted c (termNode t tm)"
  by (cases tm) (auto simp: compareNode_def containsNode_def COMPARISON_OPERATORS_def list_all_iff
      intro!: admitted_binary admitted_column admitted_values split: compare_value.splits)

lemma condition_admitted: "reached c t \<Longrightarrow> condition_ok cd \<Longrightarrow> \<exists>n. conditionNode t cd = Inr n \<and> admitted c n"
  by (cases cd) (auto simp: admitted_term list_all_iff neq_Nil_conv intro!: admitted_connectives admitted_foldl)

lemma mapE_all: "(\<And>x. x \<in> set xs \<Longrightarrow> \<exists>y. f x = Inr y \<and> P y) \<Longrightarrow> \<exists>ys. mapE f xs = Inr ys \<and> list_all P ys \<and> length ys = length xs"
proof (induction xs)
  case (Cons x xs)
  then obtain y ys where "f x = Inr y" "P y" "mapE f xs = Inr ys" "list_all P ys" "length ys = length xs" by force
  then show ?case by simp
qed simp

lemma conditions_admitted:
  assumes "reached c t" and "list_all condition_ok cds"
  shows "\<exists>cs. conditionsNode t cds = Inr cs \<and> (\<forall>n. cs = Some n \<longrightarrow> admitted c n)"
proof (cases "cds = []")
  case False
  obtain ns where ns: "mapE (conditionNode t) cds = Inr ns" "list_all (admitted c) ns" "length ns = length cds"
    using mapE_all [of cds "conditionNode t" "admitted c"] condition_admitted assms by (fastforce simp: list_all_iff)
  then obtain n where "allOf ns = Inr n" using False by (cases ns) (auto simp: allOf_def)
  then show ?thesis using False ns admitted_allOf by (auto simp: conditionsNode_def)
qed (simp add: conditionsNode_def)

lemma admitted_where: "admitted c scope \<Longrightarrow> (\<And>n. cs = Some n \<Longrightarrow> admitted c n) \<Longrightarrow> admitted c (scopedWhere cs scope)"
  by (auto simp: scopedWhere_def intro!: admitted_connectives split: option.splits)

lemma scoped_predicate_where: "scoped_predicate (read (Some (scopedWhere cs scope)) ''where'') scope"
  by (cases cs) (simp_all add: scopedWhere_def whereNode_def scoped_predicate_def)

subsection \<open>Roots\<close>

definition root_keys :: "guard_context \<Rightarrow> string set" where
  "root_keys c = set (ROOT_PROPERTIES (gc_root c)) \<union> (if gc_lock c \<noteq> None \<and> gc_root c = SelectRoot then {''endModifiers''} else {}) \<union>
     (if gc_onConflict c \<and> gc_root c = InsertRoot then {''onConflict''} else {})"

lemma admitted_root:
  assumes "checkRoot (mk (root_text (gc_root c)) ps) c = Inr ()" and "fst ` set ps \<subseteq> root_keys c"
    and "props_ok c [] (mk (root_text (gc_root c)) ps) ps"
  shows "assertAllowedTree (mk (root_text (gc_root c)) ps) c = Inr ()"
proof -
  have "''kind'' \<in> set (ROOT_PROPERTIES (gc_root c))" by (cases "gc_root c") (simp_all add: ROOT_PROPERTIES_def)
  moreover have "checkNode c [] (mk (root_text (gc_root c)) ps)"
    by (cases "gc_root c") (simp_all add: checkNode_def root_text_def ROOT_KINDS_def)
  ultimately show ?thesis
    using assms by (fastforce simp: assertAllowedTree_def walk_mk root_keys_def split: if_splits)
qed

lemma checkRoot_from:
  assumes "gc_root c = SelectRoot \<or> gc_root c = DeleteRoot" and "gc_scope c = Some scope" and "layer_scope (gc_table c) scope"
    and "isPlainIdentifier (gc_table c)" and "map_of ps ''from'' = Some (fromNode (gc_table c))"
    and "map_of ps ''where'' = Some (scopedWhere cs scope)"
  shows "checkRoot (mk k ps) c = Inr ()"
  using assms scoped_predicate_where [of cs scope] layer_scope_shaped
  by (auto simp: checkRoot_def soleFrom_def fromNode_def)

lemma checkRoot_update:
  assumes "gc_root c = UpdateRoot" and "gc_scope c = Some scope" and "layer_scope (gc_table c) scope"
    and "isPlainIdentifier (gc_table c)" and "map_of ps ''table'' = Some (tableNode (gc_table c))"
    and "map_of ps ''where'' = Some (scopedWhere cs scope)"
  shows "checkRoot (mk k ps) c = Inr ()"
  using assms scoped_predicate_where [of cs scope] layer_scope_shaped by (auto simp: checkRoot_def)

lemma checkRoot_insert:
  assumes "gc_root c = InsertRoot" and "gc_scope c = None" and "isPlainIdentifier (gc_table c)"
    and "map_of ps ''into'' = Some (tableNode (gc_table c))" and "map_of ps ''where'' = None"
  shows "checkRoot (mk k ps) c = Inr ()"
  using assms by (auto simp: checkRoot_def)

subsection \<open>The parts of a select\<close>

lemma walk_admitted [intro]: "admitted c n \<Longrightarrow> child_ok c path n"
  by (simp add: admitted_def)

lemma admitted_from: "isPlainIdentifier (gc_table c) \<Longrightarrow> admitted c (fromNode (gc_table c))"
  unfolding fromNode_def by (rule admitted_plain) (auto simp: PLAIN_KINDS_def admitted_def walk_table)

lemma admitted_limits: "admitted c (limitNode k)" "admitted c (offsetNode k)"
  by (simp_all add: limitNode_def offsetNode_def admitted_plain PLAIN_KINDS_def)

lemma admitted_selection: "reached c t \<Longrightarrow> isPlainIdentifier name \<Longrightarrow> admitted c (selection t name)"
  by (simp add: selection_def admitted_connectives admitted_column)

lemma admitted_acknowledged:
  "reached c t \<Longrightarrow> isPlainIdentifier key \<Longrightarrow> (\<And>v. version = Some v \<Longrightarrow> isPlainIdentifier v) \<Longrightarrow> list_all (admitted c) (acknowledged t key version)"
proof -
  have "isPlainAlias ''id''" "isPlainAlias ''version''" by code_simp+
  then show "reached c t \<Longrightarrow> isPlainIdentifier key \<Longrightarrow> (\<And>v. version = Some v \<Longrightarrow> isPlainIdentifier v) \<Longrightarrow> ?thesis"
    by (auto simp: acknowledged_def intro!: admitted_connectives admitted_alias admitted_column split: option.splits)
qed

lemma admitted_returning: "list_all (admitted c) ns \<Longrightarrow> admitted c (returningNode ns)"
  by (simp add: returningNode_def admitted_plain PLAIN_KINDS_def)

text \<open>A selected column, cast or not, under the root select.\<close>

lemma child_rowSelection:
  assumes "gc_root c = SelectRoot" and "isPlainIdentifier (gc_table c)" and "isPlainIdentifier name"
    and "kindOf (Some n) = Some ''SelectQueryNode''"
  shows "child_ok c [(n, ''selections'')] (rowSelection (gc_table c) days name)"
proof -
  have r: "reached c (gc_table c)" using assms(2) by (simp add: reached_def)
  have cast: "walk c ((aliasNode (castText (column (gc_table c) name)) name, ''node'') # (selectionNode x, ''selection'') # [(n, ''selections'')])
      (castText (column (gc_table c) name))" for x
    using assms admitted_child [OF admitted_column [OF r assms(3)]]
    by (simp add: castText_def aliasNode_def selectionNode_def walk_mk checkNode_def ROOT_KINDS_def NODE_KINDS_def checkCast_def
        isOwnColumn_column above_kind_def above_key_def numeral_2_eq_2)
  have "walk c [(n, ''selections'')] (selectionNode (aliasNode (castText (column (gc_table c) name)) name))"
    using cast [unfolded selectionNode_def aliasNode_def castText_def] plain_alias [OF assms(3)]
    unfolding selectionNode_def aliasNode_def castText_def by (simp add: walk_plain PLAIN_KINDS_def)
  then show ?thesis
    using admitted_child [OF admitted_selection [OF r assms(3)]]
    by (simp add: rowSelection_def) (simp add: selectionNode_def)
qed

lemma admitted_order:
  assumes "isPlainIdentifier (gc_table c)" and "isPlainIdentifier (fst ord)"
  shows "admitted c (orderItem (gc_table c) dia ord)"
proof -
  have "admitted c (column (gc_table c) (fst ord))" using assms by (simp add: admitted_column reached_def)
  moreover have "walk c ((orderItem (gc_table c) dia ord, ''direction'') # path)
      (mk ''RawNode'' [(''sqlFragments'', NArr [text_node (direction_text (snd ord))]), (''parameters'', NArr [])])" for path
    by (cases "snd ord") (simp_all add: orderItem_def walk_mk checkNode_def ROOT_KINDS_def NODE_KINDS_def checkRaw_def direction_text_def)
  ultimately show ?thesis
    unfolding orderItem_def admitted_mk_iff
    by (auto simp: walk_mk checkNode_def [of _ _ "mk ''OrderByItemNode'' ps" for ps] ROOT_KINDS_def NODE_KINDS_def walk_admitted)
qed

definition join_ok :: "guard_context \<Rightarrow> join_state \<Rightarrow> bool" where
  "join_ok c j \<longleftrightarrow>
     isPlainIdentifier (js_table (jn_join j)) \<and> map_of (gc_joins c) (js_table (jn_join j)) = Some (js_on (jn_join j)) \<and>
     js_on (jn_join j) \<noteq> [] \<and>
     list_all (\<lambda>p. isPlainIdentifier (childColumn p) \<and> isPlainIdentifier (parentColumn p)) (js_on (jn_join j)) \<and>
     list_all isPlainIdentifier (js_visible (jn_join j)) \<and> pred_option (list_all isPlainIdentifier) (jn_columns j) \<and>
     list_all condition_ok (jn_conditions j)"

lemma isColumnEquality_columns: "isPlainIdentifier t \<Longrightarrow> isPlainIdentifier u \<Longrightarrow>
   isColumnEquality (Some (binaryNode (column t a) ''='' (column u b))) t a u b"
  by (simp add: isColumnEquality_def binaryNode_def operatorNode_def isReference_def column_def referenceNode_def columnNode_def identifierNode_def)

lemma isForeignKey_foldl:
  assumes "isPlainIdentifier t" and "isPlainIdentifier u"
  shows "isForeignKey (Some (foldl andNode (binaryNode (column t (childColumn p)) ''='' (column u (parentColumn p)))
      (map (\<lambda>p. binaryNode (column t (childColumn p)) ''='' (column u (parentColumn p))) ps))) t u (p # ps)"
proof (induction ps rule: rev_induct)
  case Nil
  then show ?case using assms by (simp add: isForeignKey_def isColumnEquality_columns)
next
  case (snoc q qs)
  obtain r rs where "rev qs @ [p] = r # rs" by (cases "rev qs @ [p]") auto
  then show ?case using snoc assms by (simp add: isForeignKey_def isColumnEquality_columns)
qed

lemma join_admitted:
  assumes "join_ok c j" and "gc_root c = SelectRoot" and "isPlainIdentifier (gc_table c)"
  shows "\<exists>n. joinNode (gc_table c) j = Inr n \<and> admitted c n"
proof -
  define t where "t = js_table (jn_join j)"
  have r: "reached c t" "reached c (gc_table c)" "isPlainIdentifier t" using assms by (auto simp: join_ok_def t_def reached_def)
  define f where "f = (\<lambda>p :: fk_pair. binaryNode (column t (childColumn p)) ''='' (column (gc_table c) (parentColumn p)))"
  obtain p ps where on: "js_on (jn_join j) = p # ps" using assms(1) by (auto simp: join_ok_def neq_Nil_conv)
  define fk where "fk = foldl andNode (f p) (map f ps)"
  have all: "allOf (map f (js_on (jn_join j))) = Inr fk" by (simp add: on allOf_def fk_def)
  have "list_all (admitted c) (map f (js_on (jn_join j)))"
    using assms(1) r by (auto simp: join_ok_def f_def list_all_iff COMPARISON_OPERATORS_def intro!: admitted_binary admitted_column)
  then have afk: "admitted c fk" by (rule admitted_allOf [OF all])
  obtain cs where cs: "conditionsNode t (jn_conditions j) = Inr cs" "\<forall>n. cs = Some n \<longrightarrow> admitted c n"
    using conditions_admitted [OF r(1)] assms(1) by (auto simp: join_ok_def)
  have key: "isForeignKey (Some fk) t (gc_table c) (js_on (jn_join j))"
    using isForeignKey_foldl [OF r(3) assms(3)] by (simp add: on fk_def f_def)
  define on_pred where "on_pred = (case cs of None \<Rightarrow> fk | Some k \<Rightarrow> andNode fk (parensNode k))"
  have aon: "admitted c (mk ''OnNode'' [(''on'', on_pred)])"
    using afk cs(2) by (intro admitted_plain)
      (auto simp: PLAIN_KINDS_def on_pred_def intro!: children_admitted admitted_connectives split: option.splits)
  define jn where "jn = mk ''JoinNode'' [(''joinType'', text_node ''InnerJoin''), (''table'', tableNode t), (''on'', mk ''OnNode'' [(''on'', on_pred)])]"
  have "checkJoin c jn"
    using assms key r(3) by (cases cs) (simp_all add: checkJoin_def jn_def join_ok_def t_def [symmetric] foreignKeyOf_def on_pred_def)
  then have "admitted c jn"
    using r(1) aon unfolding jn_def admitted_mk_iff
    by (auto simp: walk_mk [of _ _ "''JoinNode''"] checkNode_def [of _ _ "mk ''JoinNode'' ps" for ps] ROOT_KINDS_def NODE_KINDS_def walk_table reached_def)
  then show ?thesis using all cs(1) by (simp add: joinNode_def Let_def t_def [symmetric] f_def [symmetric] jn_def on_pred_def)
qed

lemma joinedSelections_admitted:
  assumes "join_ok c j"
  shows "list_all (admitted c) (joinedSelections j)"
proof -
  have "reached c (js_table (jn_join j))" using assms by (simp add: join_ok_def reached_def)
  then show ?thesis
    using assms
    by (auto simp: joinedSelections_def Let_def join_ok_def list_all_iff
        intro!: admitted_connectives admitted_alias admitted_column dotted_alias split: option.splits)
qed

subsection \<open>The statements\<close>

definition select_ok :: "guard_context \<Rightarrow> select_state \<Rightarrow> string list \<Rightarrow> bool" where
  "select_ok c state visible \<longleftrightarrow>
     ss_table state = gc_table c \<and> list_all isPlainIdentifier visible \<and> pred_option (list_all isPlainIdentifier) (ss_columns state) \<and>
     list_all condition_ok (ss_conditions state) \<and> list_all (isPlainIdentifier \<circ> fst) (ss_orderBy state) \<and>
     list_all (join_ok c) (ss_joins state)"

definition scoped_context :: "guard_context \<Rightarrow> root_kind \<Rightarrow> node_val \<Rightarrow> bool" where
  "scoped_context c r scope \<longleftrightarrow> gc_root c = r \<and> isPlainIdentifier (gc_table c) \<and> gc_scope c = Some scope \<and> layer_scope (gc_table c) scope"

lemma scoped_reached: "scoped_context c r scope \<Longrightarrow> reached c (gc_table c)"
  and scoped_scope: "scoped_context c r scope \<Longrightarrow> admitted c scope"
  by (auto simp: scoped_context_def reached_def admitted_scope)

text \<open>The modifiers of a lock the context admits, under the root.\<close>

lemma child_modifiers:
  assumes "gc_lock c = Some l" and "read (Some n) ''endModifiers'' = Some (NArr (map modifierNode (LOCKS l)))"
  shows "list_all (child_ok c [(n, ''endModifiers'')]) (map modifierNode (LOCKS l))"
  using assms by (cases l) (simp_all add: LOCKS_def modifierNode_def walk_mk checkNode_def ROOT_KINDS_def NODE_KINDS_def checkLock_def)

lemma with_after_admitted: "(\<And>n. cs = Some n \<Longrightarrow> admitted c n) \<Longrightarrow> (\<And>n. after = Some n \<Longrightarrow> admitted c n) \<Longrightarrow>
    with_after cs after = Some n \<Longrightarrow> admitted c n"
  by (auto simp: with_after_def intro!: admitted_connectives split: option.splits)

lemma list_child_ok: "admitted c n \<Longrightarrow> list_all (child_ok c path) (children n)"
  using children_admitted by (auto simp: list_all_iff intro: walk_admitted)

lemma list_all_child_ok: "list_all (admitted c) ns \<Longrightarrow> list_all (child_ok c path) ns"
  by (auto simp: list_all_iff intro: walk_admitted)

text \<open>The properties of a select; a lock adds its modifiers.\<close>

lemma select_admitted:
  assumes s: "scoped_context c SelectRoot scope" and ok: "select_ok c state visible" and after: "\<And>n. after = Some n \<Longrightarrow> admitted c n"
    and lock: "extra = [] \<or> (\<exists>l. gc_lock c = Some l \<and> extra = [(''endModifiers'', NArr (map modifierNode (LOCKS l)))])"
  shows "\<exists>ps. selectNode state visible scope after days dia = Inr (mk ''SelectQueryNode'' ps) \<and>
    assertAllowedTree (mk ''SelectQueryNode'' (ps @ extra)) c = Inr ()"
proof -
  have t: "ss_table state = gc_table c" "gc_root c = SelectRoot" "isPlainIdentifier (gc_table c)" "reached c (gc_table c)"
    using s ok scoped_reached by (auto simp: select_ok_def scoped_context_def)
  obtain cs where cs: "conditionsNode (gc_table c) (ss_conditions state) = Inr cs" "\<forall>n. cs = Some n \<longrightarrow> admitted c n"
    using conditions_admitted [OF t(4)] ok by (auto simp: select_ok_def)
  obtain js where js: "mapE (joinNode (gc_table c)) (ss_joins state) = Inr js" "list_all (admitted c) js"
    using mapE_all [of "ss_joins state" "joinNode (gc_table c)" "admitted c"] join_admitted [OF _ t(2,3)] ok
    by (fastforce simp: select_ok_def list_all_iff)
  define cols where "cols = (case ss_columns state of Some cs \<Rightarrow> cs | None \<Rightarrow> visible)"
  have cols: "list_all isPlainIdentifier cols" using ok by (auto simp: select_ok_def cols_def split: option.splits)
  define items where "items = mk ''OrderByNode'' [(''items'', NArr (map (orderItem (gc_table c) dia) (ss_orderBy state)))]"
  define whr where "whr = scopedWhere (with_after cs after) scope"
  define ps where "ps = [(''from'', fromNode (gc_table c)),
      (''selections'', NArr (map (rowSelection (gc_table c) days) cols @ concat (map joinedSelections (ss_joins state))))] @
     opt_prop ''joins'' (if ss_joins state = [] then None else Some (NArr js)) @ [(''where'', whr)] @
     opt_prop ''orderBy'' (if ss_orderBy state = [] then None else Some items) @
     opt_prop ''limit'' (map_option (\<lambda>n. limitNode (of_nat n)) (ss_limit state)) @
     opt_prop ''offset'' (map_option (\<lambda>n. offsetNode (of_nat n)) (ss_offset state))"
  define n where "n = mk ''SelectQueryNode'' (ps @ extra)"
  have made: "selectNode state visible scope after days dia = Inr (mk ''SelectQueryNode'' ps)"
    by (simp add: selectNode_def t cs(1) js(1) ps_def items_def whr_def cols_def Let_def)
  have aw: "admitted c whr" unfolding whr_def using scoped_scope [OF s] with_after_admitted cs(2) after by (intro admitted_where) blast+
  have ai: "admitted c items" unfolding items_def using ok t(3)
    by (intro admitted_plain) (auto simp: PLAIN_KINDS_def select_ok_def list_all_iff intro!: admitted_order)
  have sel: "list_all (child_ok c [(n, ''selections'')]) (map (rowSelection (gc_table c) days) cols @ concat (map joinedSelections (ss_joins state)))"
    using child_rowSelection [OF t(2,3)] cols joinedSelections_admitted ok
    by (fastforce simp: list_all_iff n_def select_ok_def)
  have pok: "props_ok c [] n ps"
    unfolding ps_def props_ok_simps props_ok_opt children.simps(1)
    using sel js(2) list_child_ok [OF aw] list_child_ok [OF ai] list_child_ok [OF admitted_from [OF t(3)]]
      list_child_ok [OF admitted_limits(1)] list_child_ok [OF admitted_limits(2)]
    by (simp add: list_all_child_ok split: option.split)
  have "props_ok c [] n extra"
  proof -
    have "read (Some n) ''endModifiers'' = map_of extra ''endModifiers''" by (auto simp: n_def ps_def opt_prop_def map_add_def split: option.splits if_splits)
    then show ?thesis using lock child_modifiers [of c _ n] by auto
  qed
  with pok have "props_ok c [] n (ps @ extra)" by simp
  moreover have "fst ` set (ps @ extra) \<subseteq> root_keys c"
    using lock by (auto simp: ps_def root_keys_def ROOT_PROPERTIES_def t(2) opt_prop_def split: option.splits if_splits)
  moreover have "checkRoot n c = Inr ()"
    unfolding n_def using s by (intro checkRoot_from [where scope = scope and cs = "with_after cs after"])
      (auto simp: scoped_context_def ps_def whr_def opt_prop_def)
  ultimately show ?thesis
    using made admitted_root [of c "ps @ extra"] by (intro exI [of _ ps]) (simp add: n_def t(2) root_text_def)
qed

text \<open>A select that is only a table, selections, its WHERE and a tail of admitted clauses.\<close>

lemma plain_select_admitted:
  assumes s: "scoped_context c SelectRoot scope" and w: "\<And>n. cs = Some n \<Longrightarrow> admitted c n"
    and sel: "list_all (child_ok c [(mk ''SelectQueryNode'' ps, ''selections'')]) sels"
    and ps: "ps = [(''from'', fromNode (gc_table c)), (''selections'', NArr sels), (''where'', scopedWhere cs scope)] @ tail"
    and tail: "props_ok c [] (mk ''SelectQueryNode'' ps) tail" "fst ` set tail \<subseteq> root_keys c"
  shows "assertAllowedTree (mk ''SelectQueryNode'' ps) c = Inr ()"
proof -
  have r: "gc_root c = SelectRoot" "isPlainIdentifier (gc_table c)" using s by (simp_all add: scoped_context_def)
  have "checkRoot (mk ''SelectQueryNode'' ps) c = Inr ()"
    using s by (intro checkRoot_from [where scope = scope and cs = cs]) (auto simp: scoped_context_def ps)
  moreover have "props_ok c [] (mk ''SelectQueryNode'' ps) ps"
  proof -
    define N where "N = mk ''SelectQueryNode'' ps"
    have "admitted c (scopedWhere cs scope)" using scoped_scope [OF s] w by (rule admitted_where)
    then have "props_ok c [] N ps"
      using sel tail(1) list_child_ok [OF admitted_from [OF r(2)]] list_child_ok
      unfolding N_def [symmetric] by (subst ps) (simp only: props_ok_simps append_Cons append_Nil children.simps(1) simp_thms)
    then show ?thesis by (simp add: N_def)
  qed
  moreover have "fst ` set ps \<subseteq> root_keys c" using tail(2) r(1) by (simp add: ps root_keys_def ROOT_PROPERTIES_def)
  ultimately show ?thesis using admitted_root [of c ps] by (simp add: r(1) root_text_def)
qed

lemma limit_ok: "props_ok c [] n [(''limit'', limitNode k)]"
  using list_child_ok [OF admitted_limits(1)] by simp

lemma limit_key: "gc_root c = SelectRoot \<Longrightarrow> fst ` set [(''limit'', limitNode k)] \<subseteq> root_keys c"
  by (simp add: root_keys_def ROOT_PROPERTIES_def)

lemma exists_admitted:
  assumes "scoped_context c SelectRoot scope" and "isPlainIdentifier key" and "\<And>n. cs = Some n \<Longrightarrow> admitted c n"
  shows "assertAllowedTree (existsNode (gc_table c) key scope cs) c = Inr ()"
  unfolding existsNode_def using assms scoped_reached [OF assms(1)]
  by (intro plain_select_admitted [where scope = scope and cs = cs and tail = "[(''limit'', limitNode 1)]"])
     (auto simp: limit_ok walk_admitted [OF admitted_limits(1)] scoped_context_def root_keys_def ROOT_PROPERTIES_def intro!: walk_admitted admitted_selection)

lemma acknowledgementNode_admitted:
  assumes "scoped_context c SelectRoot scope" and "isPlainIdentifier key" and "\<And>v. version = Some v \<Longrightarrow> isPlainIdentifier v"
    and "\<And>n. cs = Some n \<Longrightarrow> admitted c n"
  shows "assertAllowedTree (acknowledgementNode (gc_table c) key version (scopedWhere cs scope)) c = Inr ()"
  unfolding acknowledgementNode_def using assms
  by (intro plain_select_admitted [where scope = scope and cs = cs and tail = "[(''limit'', limitNode 1)]"])
     (auto simp: limit_ok walk_admitted [OF admitted_limits(1)] scoped_context_def root_keys_def ROOT_PROPERTIES_def
       intro!: list_all_child_ok admitted_acknowledged scoped_reached [OF assms(1)])

lemma locate_admitted:
  assumes "scoped_context c SelectRoot scope" and "list_all isPlainIdentifier cols"
  shows "assertAllowedTree (locateNode (gc_table c) cols scope) c = Inr ()"
  unfolding locateNode_def using assms scoped_reached [OF assms(1)]
  by (intro plain_select_admitted [where scope = scope and cs = None and tail = "[(''limit'', limitNode 1)]"])
     (auto simp: limit_ok walk_admitted [OF admitted_limits(1)] scoped_context_def root_keys_def ROOT_PROPERTIES_def list_all_iff intro!: walk_admitted admitted_selection)

lemma lock_admitted:
  assumes "scoped_context c SelectRoot scope" and "isPlainIdentifier key" and "gc_lock c = Some (if share then ShareLock else UpdateLock)"
  shows "assertAllowedTree (lockNode (gc_table c) key scope share) c = Inr ()"
proof -
  define ms where "ms = map modifierNode (LOCKS (if share then ShareLock else UpdateLock))"
  define tail where "tail = [(''limit'', limitNode 1), (''endModifiers'', NArr ms)]"
  define ps where "ps = [(''from'', fromNode (gc_table c)), (''selections'', NArr [selection (gc_table c) key]), (''where'', scopedWhere None scope)] @ tail"
  have n: "lockNode (gc_table c) key scope share = mk ''SelectQueryNode'' ps"
    by (simp add: lockNode_def existsNode_def mk_def ps_def tail_def ms_def LOCKS_def)
  have "props_ok c [] (mk ''SelectQueryNode'' ps) tail"
    using child_modifiers [OF assms(3), of "mk ''SelectQueryNode'' ps"] list_child_ok [OF admitted_limits(1)]
    by (simp add: tail_def ps_def ms_def)
  then show ?thesis unfolding n using assms(1-3) scoped_reached [OF assms(1)]
    by (intro plain_select_admitted [where scope = scope and cs = None and tail = tail])
       (auto simp: ps_def tail_def scoped_context_def root_keys_def ROOT_PROPERTIES_def intro!: walk_admitted admitted_selection)
qed

lemma lockedSelect_admitted:
  assumes "scoped_context c SelectRoot scope" and "list_all isPlainIdentifier cols" and "gc_lock c = Some UpdateLock"
  shows "assertAllowedTree (lockedSelectNode (gc_table c) cols scope days) c = Inr ()"
proof -
  define tail where "tail = [(''endModifiers'', NArr (map modifierNode (LOCKS UpdateLock)))]"
  define ps where "ps = [(''from'', fromNode (gc_table c)), (''selections'', NArr (map (rowSelection (gc_table c) days) cols)), (''where'', scopedWhere None scope)] @ tail"
  have n: "lockedSelectNode (gc_table c) cols scope days = mk ''SelectQueryNode'' ps"
    by (simp add: lockedSelectNode_def ps_def tail_def LOCKS_def)
  have "props_ok c [] (mk ''SelectQueryNode'' ps) tail"
    using child_modifiers [OF assms(3), of "mk ''SelectQueryNode'' ps"] by (simp add: tail_def ps_def)
  then show ?thesis unfolding n using assms
    by (intro plain_select_admitted [where scope = scope and cs = None and tail = tail])
       (auto simp: ps_def tail_def scoped_context_def root_keys_def ROOT_PROPERTIES_def list_all_iff intro!: child_rowSelection)
qed

text \<open>An aggregate's alias prefixes its column, so the column leaves room for the prefix.\<close>

definition aggregate_ok :: "aggregate_columns \<Rightarrow> bool" where
  "aggregate_ok cols \<longleftrightarrow> list_all isPlainIdentifier (ag_groupBy cols) \<and>
     list_all (\<lambda>name. isPlainIdentifier name \<and> length name \<le> 59) (ag_sum cols @ ag_min cols @ ag_max cols)"

lemma prefixed_alias:
  assumes "isPlainIdentifier name" and "length name \<le> 59" and "pre \<in> {''sum_'', ''min_'', ''max_''}"
  shows "isPlainAlias (pre @ name)"
proof -
  obtain x xs where n: "name = x # xs" using assms(1) by (cases name) (auto simp: isPlainIdentifier_def)
  have "identifier_char True y \<Longrightarrow> identifier_char False y" for y by (auto simp: identifier_char_def)
  moreover have "list_all (identifier_char True) ''sum_''" "list_all (identifier_char True) ''min_''" "list_all (identifier_char True) ''max_''"
    by code_simp+
  ultimately have "isPlainIdentifier (pre @ name)" using assms n by (auto simp: isPlainIdentifier_def)
  then show ?thesis by (rule plain_alias)
qed

lemma admitted_aggregate:
  assumes "func \<in> set AGGREGATES" and "admitted c n" and "isPlainAlias al"
  shows "admitted c (aggregate func n al)"
proof -
  have "admitted c (mk ''AggregateFunctionNode'' [(''func'', text_node func), (''aggregated'', NArr [n])])"
    using assms by (auto simp: admitted_mk_iff walk_mk checkNode_def ROOT_KINDS_def NODE_KINDS_def walk_admitted)
  then show ?thesis unfolding aggregate_def using assms(3) by (intro admitted_connectives admitted_alias)
qed

lemma admitted_count: "admitted c (aggregate ''count'' (mk ''SelectAllNode'' []) ''count'')"
proof -
  have "walk c ((mk ''AggregateFunctionNode'' [(''func'', text_node ''count''), (''aggregated'', NArr [mk ''SelectAllNode'' []])], ''aggregated'') # path)
      (mk ''SelectAllNode'' [])" for path
    by (simp add: walk_mk checkNode_def ROOT_KINDS_def NODE_KINDS_def)
  then have "admitted c (mk ''AggregateFunctionNode'' [(''func'', text_node ''count''), (''aggregated'', NArr [mk ''SelectAllNode'' []])])"
    by (auto simp: admitted_mk_iff walk_mk [of _ _ "''AggregateFunctionNode''"] checkNode_def [of _ _ "mk ''AggregateFunctionNode'' ps" for ps]
        ROOT_KINDS_def NODE_KINDS_def AGGREGATES_def)
  moreover have "isPlainAlias ''count''" by code_simp
  ultimately show ?thesis unfolding aggregate_def by (intro admitted_connectives admitted_alias)
qed

lemma aggregate_admitted:
  assumes s: "scoped_context c SelectRoot scope" and "aggregate_ok cols" and "list_all condition_ok cds"
  shows "\<exists>n. aggregateNode (gc_table c) cols cds scope days = Inr n \<and> assertAllowedTree n c = Inr ()"
proof -
  have r: "reached c (gc_table c)" "gc_root c = SelectRoot" "isPlainIdentifier (gc_table c)"
    using s scoped_reached by (auto simp: scoped_context_def)
  obtain cs where cs: "conditionsNode (gc_table c) cds = Inr cs" "\<forall>n. cs = Some n \<longrightarrow> admitted c n"
    using conditions_admitted [OF r(1) assms(3)] by blast
  define tail where "tail = opt_prop ''groupBy'' (if ag_groupBy cols = [] then None
     else Some (mk ''GroupByNode'' [(''items'', NArr (map (\<lambda>name. mk ''GroupByItemNode'' [(''groupBy'', column (gc_table c) name)]) (ag_groupBy cols)))]))"
  define sels where "sels = map (rowSelection (gc_table c) days) (ag_groupBy cols) @
      (if ag_count cols then [aggregate ''count'' (mk ''SelectAllNode'' []) ''count''] else []) @
      map (\<lambda>name. aggregate ''sum'' (column (gc_table c) name) (''sum_'' @ name)) (ag_sum cols) @
      map (\<lambda>name. aggregate ''min'' (column (gc_table c) name) (''min_'' @ name)) (ag_min cols) @
      map (\<lambda>name. aggregate ''max'' (column (gc_table c) name) (''max_'' @ name)) (ag_max cols)"
  define ps where "ps = [(''from'', fromNode (gc_table c)), (''selections'', NArr sels), (''where'', scopedWhere cs scope)] @ tail"
  have made: "aggregateNode (gc_table c) cols cds scope days = Inr (mk ''SelectQueryNode'' ps)"
    by (simp add: aggregateNode_def cs(1) ps_def sels_def tail_def)
  have agg: "admitted c (aggregate f (column (gc_table c) name) (pre @ name))"
    if "isPlainIdentifier name" "length name \<le> 59" "pre \<in> {''sum_'', ''min_'', ''max_''}" "f \<in> set AGGREGATES" for f name pre
    using that r(1) by (intro admitted_aggregate prefixed_alias admitted_column)
  have "list_all (child_ok c [(mk ''SelectQueryNode'' ps, ''selections'')]) sels"
    unfolding sels_def list_all_append
    using assms(2) child_rowSelection [OF r(2,3)] walk_admitted [OF admitted_count]
      walk_admitted [OF agg [of _ "''sum_''" "''sum''"]] walk_admitted [OF agg [of _ "''min_''" "''min''"]]
      walk_admitted [OF agg [of _ "''max_''" "''max''"]]
    by (simp add: aggregate_ok_def list_all_iff AGGREGATES_def)
  moreover have "admitted c (mk ''GroupByNode'' [(''items'', NArr (map (\<lambda>name. mk ''GroupByItemNode'' [(''groupBy'', column (gc_table c) name)]) (ag_groupBy cols)))])"
    using assms(2) r(1) by (auto simp: aggregate_ok_def list_all_iff PLAIN_KINDS_def intro!: admitted_plain admitted_column)
  then have "props_ok c [] (mk ''SelectQueryNode'' ps) tail" unfolding tail_def using list_child_ok by (auto simp: props_ok_opt admitted_def)
  moreover have "fst ` set tail \<subseteq> root_keys c" by (simp add: tail_def opt_prop_def root_keys_def ROOT_PROPERTIES_def r(2))
  ultimately have "assertAllowedTree (mk ''SelectQueryNode'' ps) c = Inr ()"
    using plain_select_admitted [OF s] cs(2) ps_def by blast
  then show ?thesis using made by blast
qed

lemma insert_admitted:
  assumes "gc_root c = InsertRoot" and "gc_scope c = None" and "isPlainIdentifier (gc_table c)"
    and "list_all (isPlainIdentifier \<circ> fst) values" and "isPlainIdentifier key" and "\<And>v. version = Some v \<Longrightarrow> isPlainIdentifier v"
    and "\<And>cols. conflict = Some cols \<Longrightarrow> gc_onConflict c \<and> cols \<noteq> [] \<and> list_all isPlainIdentifier cols"
  shows "assertAllowedTree (insertNode (gc_table c) values (acknowledgement (gc_table c) key version) conflict) c = Inr ()"
proof -
  have r: "reached c (gc_table c)" using assms(3) by (simp add: reached_def)
  define onc where "onc = (\<lambda>cols. mk ''OnConflictNode'' [(''columns'', NArr (map columnNode cols)), (''doNothing'', NPrim (PBool True))])"
  define ps where "ps = [(''into'', tableNode (gc_table c)), (''columns'', NArr (map (columnNode \<circ> fst) values)),
         (''values'', mk ''ValuesNode'' [(''values'', NArr [valueListNode (map (valueNode \<circ> snd) values)])])] @
        opt_prop ''onConflict'' (map_option onc conflict) @ [(''returning'', acknowledgement (gc_table c) key version)]"
  define N where "N = mk ''InsertQueryNode'' ps"
  have n: "insertNode (gc_table c) values (acknowledgement (gc_table c) key version) conflict = N"
    by (simp add: insertNode_def ps_def onc_def N_def)
  have k: "above_kind 0 [(N, x)] = Some ''InsertQueryNode''" for x by (simp add: N_def)
  have "list_all (child_ok c [(N, ''columns'')]) (map (columnNode \<circ> fst) values)"
    using assms(4) k by (auto simp: list_all_iff walk_columnNode plain_alias)
  moreover have "admitted c (mk ''ValuesNode'' [(''values'', NArr [valueListNode (map (valueNode \<circ> snd) values)])])"
    by (intro admitted_plain) (auto simp: PLAIN_KINDS_def list_all_iff intro!: admitted_values)
  moreover have "child_ok c [(N, ''onConflict'')] (onc cols)" if "conflict = Some cols" for cols
    using assms(7) [OF that] k
    by (auto simp: onc_def walk_mk checkNode_def ROOT_KINDS_def NODE_KINDS_def checkConflict_def walk_columnNode plain_alias list_all_iff)
  moreover have "admitted c (acknowledgement (gc_table c) key version)"
    unfolding acknowledgement_def using assms r by (intro admitted_returning admitted_acknowledged)
  ultimately have "props_ok c [] N ps"
    using assms(3) list_child_ok
    by (auto simp: ps_def onc_def acknowledgement_def walk_table admitted_mk_iff walk_admitted split: option.splits)
  moreover have "checkRoot N c = Inr ()"
    unfolding N_def using assms(1-3) by (intro checkRoot_insert) (auto simp: ps_def opt_prop_def split: option.splits)
  moreover have "fst ` set ps \<subseteq> root_keys c"
    using assms(1,7) by (auto simp: ps_def root_keys_def ROOT_PROPERTIES_def opt_prop_def split: option.splits)
  ultimately show ?thesis unfolding n using admitted_root [of c ps] by (simp add: assms(1) root_text_def N_def)
qed

lemma update_admitted:
  assumes s: "scoped_context c UpdateRoot scope" and "list_all (isPlainIdentifier \<circ> fst) values" and "\<And>b. bump = Some b \<Longrightarrow> isPlainIdentifier b"
    and "\<And>n. cs = Some n \<Longrightarrow> admitted c n" and "isPlainIdentifier key" and "values \<noteq> [] \<or> bump \<noteq> None"
  shows "\<exists>n. updateNode (gc_table c) values bump (scopedWhere cs scope) (acknowledgement (gc_table c) key bump) = Inr n \<and>
    assertAllowedTree n c = Inr ()"
proof -
  have r: "reached c (gc_table c)" "gc_root c = UpdateRoot" "isPlainIdentifier (gc_table c)"
    using s scoped_reached by (auto simp: scoped_context_def)
  define upd where "upd = (\<lambda>name v. mk ''ColumnUpdateNode'' [(''column'', columnNode name), (''value'', v)])"
  define us where "us = map (\<lambda>(name, v). upd name (valueNode v)) values @
     (case bump of None \<Rightarrow> [] | Some b \<Rightarrow> [upd b (binaryNode (column (gc_table c) b) ''+'' (valueNode (Some (PNum 1))))])"
  define ps where "ps = [(''table'', tableNode (gc_table c)), (''updates'', NArr us), (''where'', scopedWhere cs scope),
     (''returning'', acknowledgement (gc_table c) key bump)]"
  have made: "updateNode (gc_table c) values bump (scopedWhere cs scope) (acknowledgement (gc_table c) key bump) = Inr (mk ''UpdateQueryNode'' ps)"
    using assms(6) by (auto simp: updateNode_def ps_def us_def upd_def Let_def split: option.splits)
  have plain: "admitted c (upd name (valueNode v))" if "isPlainIdentifier name" for name v
    using that unfolding upd_def admitted_mk_iff by (simp add: walk_plain PLAIN_KINDS_def walk_columnNode plain_alias walk_admitted)
  have bumped: "admitted c (upd b (binaryNode (column (gc_table c) b) ''+'' (valueNode v)))" if "isPlainIdentifier b" for b v
  proof -
    have op: "walk c ((binaryNode (column (gc_table c) b) ''+'' (valueNode v), ''operator'') # (mk ''ColumnUpdateNode'' qs, key') # path) (operatorNode ''+'')" for qs key' path
      by (simp add: operatorNode_def binaryNode_def walk_mk checkNode_def ROOT_KINDS_def NODE_KINDS_def checkOperator_def)
    have "walk c ((mk ''ColumnUpdateNode'' qs, key') # path) (binaryNode (column (gc_table c) b) ''+'' (valueNode v))" for qs key' path
      using op [unfolded binaryNode_def operatorNode_def] admitted_child [OF admitted_column [OF r(1) that]]
      unfolding binaryNode_def operatorNode_def by (simp add: walk_plain PLAIN_KINDS_def walk_admitted)
    then show ?thesis
      using that unfolding upd_def admitted_mk_iff binaryNode_def by (simp add: walk_plain PLAIN_KINDS_def walk_columnNode plain_alias)
  qed
  have "list_all (admitted c) us"
    using assms(2,3) plain bumped by (auto simp: us_def list_all_iff split: option.splits)
  moreover have "admitted c (acknowledgement (gc_table c) key bump)"
    unfolding acknowledgement_def using assms r by (intro admitted_returning admitted_acknowledged)
  moreover have "admitted c (scopedWhere cs scope)" using scoped_scope [OF s] assms(4) by (rule admitted_where)
  ultimately have "props_ok c [] (mk ''UpdateQueryNode'' ps) ps"
    using r(3) list_child_ok list_all_child_ok unfolding ps_def by (simp add: walk_table)
  moreover have "checkRoot (mk ''UpdateQueryNode'' ps) c = Inr ()"
    using s by (intro checkRoot_update [where scope = scope and cs = cs]) (auto simp: scoped_context_def ps_def)
  moreover have "fst ` set ps \<subseteq> root_keys c" by (auto simp: ps_def root_keys_def ROOT_PROPERTIES_def r(2))
  ultimately have "assertAllowedTree (mk ''UpdateQueryNode'' ps) c = Inr ()" using admitted_root [of c ps] by (simp add: r(2) root_text_def)
  then show ?thesis using made by blast
qed

lemma delete_admitted:
  assumes s: "scoped_context c DeleteRoot scope" and "\<And>n. cs = Some n \<Longrightarrow> admitted c n" and "isPlainIdentifier key"
  shows "assertAllowedTree (deleteNode (gc_table c) (scopedWhere cs scope) key) c = Inr ()"
proof -
  have r: "reached c (gc_table c)" "gc_root c = DeleteRoot" "isPlainIdentifier (gc_table c)"
    using s scoped_reached by (auto simp: scoped_context_def)
  define ps where "ps = [(''from'', fromNode (gc_table c)), (''where'', scopedWhere cs scope), (''returning'', acknowledgement (gc_table c) key None)]"
  have "admitted c (acknowledgement (gc_table c) key None)"
    unfolding acknowledgement_def using assms r by (intro admitted_returning admitted_acknowledged) simp_all
  moreover have "admitted c (scopedWhere cs scope)" using scoped_scope [OF s] assms(2) by (rule admitted_where)
  ultimately have "props_ok c [] (mk ''DeleteQueryNode'' ps) ps"
    using admitted_from [OF r(3)] unfolding ps_def by (simp add: list_child_ok walk_admitted)
  moreover have "checkRoot (mk ''DeleteQueryNode'' ps) c = Inr ()"
    using s by (intro checkRoot_from [where scope = scope and cs = cs]) (auto simp: scoped_context_def ps_def)
  moreover have "fst ` set ps \<subseteq> root_keys c" by (auto simp: ps_def root_keys_def ROOT_PROPERTIES_def r(2))
  ultimately show ?thesis using admitted_root [of c ps] by (simp add: deleteNode_def ps_def r(2) root_text_def)
qed

lemma add_prop_mk [simp]: "add_prop (mk k ps) key v = mk k (ps @ [(key, v)])"
  by (simp add: mk_def)

definition due_ok :: "due_columns \<Rightarrow> bool" where
  "due_ok due \<longleftrightarrow> isPlainIdentifier (du_due due) \<and> isPlainIdentifier (du_attempts due)"

lemma claim_admitted:
  assumes "scoped_context c SelectRoot scope" and "select_ok c state visible" and "due_ok due" and "gc_lock c = Some ClaimLock"
  shows "\<exists>n. claimNode state visible due scope days dia = Inr n \<and> assertAllowedTree n c = Inr ()"
proof -
  have r: "reached c (gc_table c)" "ss_table state = gc_table c" using assms(1,2) scoped_reached by (auto simp: select_ok_def)
  define ns where "ns = [binaryNode (column (gc_table c) (du_due due)) ''is not'' (immediateNode NNull),
         binaryNode (column (gc_table c) (du_due due)) ''<='' (valueNode (Some (PDate (du_now due)))),
         binaryNode (column (gc_table c) (du_attempts due)) ''<'' (valueNode (Some (PNum (of_nat (du_maxAttempts due)))))]"
  obtain w where w: "allOf ns = Inr w" by (simp add: ns_def allOf_def)
  have "list_all (admitted c) ns"
    using assms(3) r(1) by (auto simp: ns_def due_ok_def COMPARISON_OPERATORS_def intro!: admitted_binary admitted_column)
  then have "admitted c w" by (rule admitted_allOf [OF w])
  then obtain ps where "selectNode state visible scope (Some w) days dia = Inr (mk ''SelectQueryNode'' ps)"
    "assertAllowedTree (mk ''SelectQueryNode'' (ps @ [(''endModifiers'', NArr (map modifierNode (LOCKS ClaimLock)))])) c = Inr ()"
    using select_admitted [OF assms(1,2), of "Some w"] assms(4) by blast
  then show ?thesis using w r(2) by (simp add: claimNode_def ns_def LOCKS_def)
qed

lemma nextClaim_admitted:
  assumes "scoped_context c SelectRoot scope" and "select_ok c state []" and "due_ok due"
  shows "\<exists>n. nextClaimNode state due scope days dia = Inr n \<and> assertAllowedTree n c = Inr ()"
proof -
  have r: "reached c (gc_table c)" "ss_table state = gc_table c" using assms(1,2) scoped_reached by (auto simp: select_ok_def)
  define ns where "ns = [binaryNode (column (gc_table c) (du_due due)) ''>'' (valueNode (Some (PDate (du_now due)))),
         binaryNode (column (gc_table c) (du_attempts due)) ''<'' (valueNode (Some (PNum (of_nat (du_maxAttempts due)))))]"
  obtain w where w: "allOf ns = Inr w" by (simp add: ns_def allOf_def)
  have "list_all (admitted c) ns"
    using assms(3) r(1) by (auto simp: ns_def due_ok_def COMPARISON_OPERATORS_def intro!: admitted_binary admitted_column)
  then have "admitted c w" by (rule admitted_allOf [OF w])
  moreover have "select_ok c state [du_due due]" using assms(2,3) by (simp add: select_ok_def due_ok_def)
  ultimately show ?thesis using select_admitted [OF assms(1), of state "[du_due due]" "Some w" "[]"] w r(2) by (auto simp: nextClaimNode_def ns_def)
qed


definition sample_scope :: node_val where
  "sample_scope = equals ''notes'' ''id'' (PStr ''n1'')"

definition sample_guard :: guard_context where
  "sample_guard = \<lparr>gc_root = UpdateRoot, gc_table = ''notes'', gc_joins = [], gc_scope = Some sample_scope, gc_lock = None, gc_onConflict = False\<rparr>"


text \<open>C5: the guard confines every statement it admits. A row on which the statement's WHERE is true is one on which the scope
  predicate is true, however the caller's conditions are written; and unless the scope is the literal \<open>true\<close>, it tests
  columns of the statement's own table against bound values. Only an insert may have no scope. Every table the statement
  names is its own or a declared child, joined on its whole foreign key; there is no subquery, no node outside the
  allowlist and no raw text but a sort direction.\<close>

theorem guard_confines:
  assumes "assertAllowedTree tree c = Inr ()"
  shows "(case gc_scope c of
      None \<Rightarrow> gc_root c = InsertRoot \<and> read (Some tree) ''where'' = None
    | Some scope \<Rightarrow> \<forall>opr e. cond3 opr e (read (read (Some tree) ''where'') ''where'') = Some True \<longrightarrow>
        holds opr e scope) \<and>
    (\<forall>scope. gc_scope c = Some scope \<longrightarrow> isEverything (Some scope) \<or> scope_tests (gc_table c) scope) \<and>
    (\<forall>m. subnode tree m \<longrightarrow> (\<exists>k. kindOf (Some m) = Some k \<and>
      (k \<in> set NODE_KINDS \<or> k = root_text (gc_root c) \<and> m = tree) \<and>
      (k = ''TableNode'' \<longrightarrow> (\<exists>t. tableName (Some m) = Some t \<and> (t = gc_table c \<or> t \<in> fst ` set (gc_joins c)))) \<and>
      (k = ''RawNode'' \<longrightarrow> read (Some m) ''sqlFragments'' \<in> {Some (NArr [text_node ''asc'']), Some (NArr [text_node ''desc''])}) \<and>
      (k = ''JoinNode'' \<longrightarrow> (\<forall>opr e. cond3 opr e (read (read (Some m) ''on'') ''on'') = Some True \<longrightarrow>
        (\<exists>child pairs. tableName (read (Some m) ''table'') = Some child \<and> map_of (gc_joins c) child = Some pairs \<and>
          (\<forall>p \<in> set pairs. \<exists>a b. cell e child (childColumn p) = Some a \<and> cell e (gc_table c) (parentColumn p) = Some b \<and>
             opr ''='' a b))))))"
proof (intro conjI allI impI)
  note parts = assertAllowedTree_parts [OF assms]
  show "case gc_scope c of
      None \<Rightarrow> gc_root c = InsertRoot \<and> read (Some tree) ''where'' = None
    | Some scope \<Rightarrow> \<forall>opr e. cond3 opr e (read (read (Some tree) ''where'') ''where'') = Some True \<longrightarrow>
        holds opr e scope"
    using checkRoot_scope [OF parts(1)] scoped_predicate_confines shaped_single by (simp split: option.splits) blast
  show "isEverything (Some scope) \<or> scope_tests (gc_table c) scope" if "gc_scope c = Some scope" for scope
    using checkRoot_scope [OF parts(1)] that shaped_tests by simp
  fix m assume "subnode tree m"
  then obtain path where p: "checkNode c path m" "path = [] \<longrightarrow> m = tree"
    using walk_subnode parts(2) walk_checked by blast
  then obtain k where k: "kindOf (Some m) = Some k" "k \<in> set NODE_KINDS \<or> m = tree"
    using checkNode_kind by blast
  have "k \<in> set NODE_KINDS \<or> k = root_text (gc_root c) \<and> m = tree" using k parts(3) by auto
  with k(1) checkNode_table [OF p(1)] checkNode_raw [OF p(1)] checkNode_join [OF p(1)] checkJoin_holds
  show "\<exists>k. kindOf (Some m) = Some k \<and>
      (k \<in> set NODE_KINDS \<or> k = root_text (gc_root c) \<and> m = tree) \<and>
      (k = ''TableNode'' \<longrightarrow> (\<exists>t. tableName (Some m) = Some t \<and> (t = gc_table c \<or> t \<in> fst ` set (gc_joins c)))) \<and>
      (k = ''RawNode'' \<longrightarrow> read (Some m) ''sqlFragments'' \<in> {Some (NArr [text_node ''asc'']), Some (NArr [text_node ''desc''])}) \<and>
      (k = ''JoinNode'' \<longrightarrow> (\<forall>opr e. cond3 opr e (read (read (Some m) ''on'') ''on'') = Some True \<longrightarrow>
        (\<exists>child pairs. tableName (read (Some m) ''table'') = Some child \<and> map_of (gc_joins c) child = Some pairs \<and>
          (\<forall>p \<in> set pairs. \<exists>a b. cell e child (childColumn p) = Some a \<and> cell e (gc_table c) (parentColumn p) = Some b \<and>
             opr ''='' a b))))"
    by (intro exI [of _ k]) blast
qed

theorem guard_confines_witness:
  "\<exists>n. assertAllowedTree n sample_guard = Inr () \<and>
     (\<forall>opr e. cond3 opr e (read (read (Some n) ''where'') ''where'') = Some True \<longrightarrow> holds opr e sample_scope)"
proof -
  have names: "isPlainIdentifier ''notes''" "isPlainIdentifier ''id''" "isPlainIdentifier ''body''" "isPlainIdentifier ''version''" by code_simp+
  then have "scoped_context sample_guard UpdateRoot sample_scope"
    by (auto simp: scoped_context_def sample_guard_def layer_scope_def sample_scope_def intro: eq_tree.leaf)
  from update_admitted [OF this, of "[(''body'', Some (PStr ''x''))]" None None "''id''"] names
  obtain n where n: "assertAllowedTree n sample_guard = Inr ()" by auto
  have "gc_scope sample_guard = Some sample_scope" by (simp add: sample_guard_def)
  with guard_confines [OF n] n show ?thesis by auto
qed

end
