(* ===== verification/Db_Scope.thy ===== *)
theory Db_Scope
  imports Db_Guard_Complete
begin

text \<open>
  Capabilities and the scope predicates of \<open>packages/db/src/store.ts\<close>, \<open>links.ts\<close> and \<open>capability.ts\<close>, over the table models of
  \<open>policy.ts\<close>. A capability is given as the grant the framework's authority resolved it to; one that does not resolve never
  reaches these functions. Maps are association lists.
\<close>

subsection \<open>Table models\<close>

record container =
  co_dimension :: string
  co_column :: string

datatype scope_model =
    DimensionScope string string "container option"
  | ChildScope string string string "string list"
  | ReferenceScope string
  | AppScope string string

record action_model =
  am_read :: "string list"
  am_insert :: "string list"
  am_update :: "string list"
  am_delete :: "string list"
  am_appRead :: "string list"
  am_appCount :: "string list"

record queue_model =
  qm_attempts :: string
  qm_due :: string
  qm_maxAttempts :: nat

record foreign_key =
  fk_columns :: "string list"
  fk_table :: string
  fk_references :: "string list"

record table_model =
  tm_name :: string
  tm_scope :: scope_model
  tm_actions :: action_model
  tm_columns :: "string list"
  tm_visible :: "string list"
  tm_insert :: "string list"
  tm_update :: "string list"
  tm_version :: "string option"
  tm_createdBy :: "string option"
  tm_queue :: "queue_model option"
  tm_files :: "(string \<times> string) list"
  tm_columnReads :: "(string \<times> string) list"
  tm_columnWrites :: "(string \<times> string) list"
  tm_dates :: "string list"
  tm_timestamps :: "string list"
  tm_booleans :: "string list"
  tm_json :: "string list"
  tm_foreignKeys :: "foreign_key list"
  tm_view :: bool
  tm_chain :: "container list"

datatype operation = Op_read | Op_insert | Op_update | Op_delete

definition actions_of :: "action_model \<Rightarrow> operation \<Rightarrow> string list" where
  "actions_of a op = (case op of Op_read \<Rightarrow> am_read a | Op_insert \<Rightarrow> am_insert a | Op_update \<Rightarrow> am_update a | Op_delete \<Rightarrow> am_delete a)"

text \<open>The columns a capability of an action updates: the update list for the table's update action, its own columns for another.\<close>

definition updatableBy :: "table_model \<Rightarrow> string \<Rightarrow> string list" where
  "updatableBy m action =
     (if action \<in> set (am_update (tm_actions m)) then tm_update m
      else map fst (filter (\<lambda>(name, write). write = action) (tm_columnWrites m)))"

definition namesAction :: "table_model \<Rightarrow> string \<Rightarrow> bool" where
  "namesAction m action \<longleftrightarrow>
     action \<in> set (am_read (tm_actions m)) \<or> action \<in> set (am_insert (tm_actions m)) \<or> action \<in> set (am_update (tm_actions m)) \<or>
     action \<in> set (am_delete (tm_actions m)) \<or> action \<in> snd ` set (tm_columnWrites m)"

definition visibleFor :: "table_model \<Rightarrow> string \<Rightarrow> string list" where
  "visibleFor m action =
     filter (\<lambda>name. case map_of (tm_columnReads m) name of None \<Rightarrow> True | Some declared \<Rightarrow> declared = action) (tm_columns m)"

fun add_new :: "'a list \<Rightarrow> 'a list \<Rightarrow> 'a list" where
  "add_new acc [] = acc"
| "add_new acc (x # xs) = add_new (if x \<in> set acc then acc else acc @ [x]) xs"

definition updateActions :: "table_model \<Rightarrow> string list" where
  "updateActions m = add_new (am_update (tm_actions m)) (map snd (tm_columnWrites m))"

lemma set_add_new [simp]: "set (add_new acc xs) = set acc \<union> set xs"
  by (induction acc xs rule: add_new.induct) auto

subsection \<open>Grants\<close>

record ref_grant =
  rg_dimension :: string
  rg_action :: string
  rg_principal :: string
  rg_id :: string
  rg_chain :: "(string \<times> string) list"

record container_grant =
  cg_dimension :: string
  cg_values :: "string list"

datatype within_values = AllValues | ValueList "string list"

record within_grant =
  wg_dimension :: string
  wg_action :: string
  wg_principal :: string
  wg_values :: within_values
  wg_containers :: "container_grant list"
  wg_contained :: "container_grant list"

record app_grant =
  ag_action :: string
  ag_principal :: string

record row_grant =
  rw_table :: string
  rw_action :: string
  rw_principal :: string
  rw_id :: string
  rw_chain :: "(string \<times> string) list"

datatype grant = RefGrant ref_grant | WithinGrant within_grant | AppGrant app_grant | RowGrant row_grant

definition grant_action :: "grant \<Rightarrow> string" where
  "grant_action g = (case g of RefGrant r \<Rightarrow> rg_action r | WithinGrant w \<Rightarrow> wg_action w | AppGrant a \<Rightarrow> ag_action a | RowGrant r \<Rightarrow> rw_action r)"

definition MAX_WITHIN_VALUES :: nat where
  "MAX_WITHIN_VALUES = 1000"

subsection \<open>Links\<close>

definition chainValue :: "(string \<times> string) list \<Rightarrow> string \<Rightarrow> db_error + string" where
  "chainValue chain dimension =
     (case map_of chain dimension of None \<Rightarrow> Inl (CapabilityError Out_of_reach) | Some v \<Rightarrow> Inr v)"

text \<open>The first link takes the Ref's id, every other link a value of its chain; a chain entry no link covers is refused.\<close>

definition linkValues :: "container list \<Rightarrow> ref_grant \<Rightarrow> db_error + (container \<times> string) list" where
  "linkValues links g =
     (case links of
        [] \<Rightarrow> Inl (CapabilityError Out_of_reach)
      | first # rest \<Rightarrow>
          if \<not> fst ` set (rg_chain g) \<subseteq> co_dimension ` set rest then Inl (CapabilityError Unenforceable)
          else bindE (mapE (\<lambda>link. bindE (chainValue (rg_chain g) (co_dimension link)) (\<lambda>v. Inr (link, v))) rest)
                 (\<lambda>vs. Inr ((first, rg_id g) # vs)))"

definition linksPredicate :: "string \<Rightarrow> (container \<times> string) list \<Rightarrow> db_error + node_val" where
  "linksPredicate table values = allOf (map (\<lambda>(link, v). equals table (co_column link) (PStr v)) values)"

subsection \<open>Checks\<close>

definition require :: "bool \<Rightarrow> db_error \<Rightarrow> db_error + unit" where
  "require b e = (if b then Inr () else Inl e)"

lemma require_Inr [simp]: "require b e = Inr u \<longleftrightarrow> b"
  by (simp add: require_def)

definition requiredActions :: "table_model \<Rightarrow> operation \<Rightarrow> db_error + string list" where
  "requiredActions m op =
     (if actions_of (tm_actions m) op = [] then Inl (CapabilityError Undeclared_operation) else Inr (actions_of (tm_actions m) op))"

definition checkAction :: "table_model \<Rightarrow> operation \<Rightarrow> string \<Rightarrow> db_error + unit" where
  "checkAction m op action =
     bindE (requiredActions m op) (\<lambda>actions. require (action \<in> set actions) (CapabilityError Wrong_action))"

definition checkGrant :: "table_model \<Rightarrow> string \<Rightarrow> string \<Rightarrow> string \<Rightarrow> operation \<Rightarrow> db_error + unit" where
  "checkGrant m held action dimension op =
     bindE (requiredActions m op) (\<lambda>_.
     bindE (require (held = dimension) (CapabilityError Wrong_capability)) (\<lambda>_. checkAction m op action))"

definition refGrant :: "table_model \<Rightarrow> grant \<Rightarrow> string \<Rightarrow> operation \<Rightarrow> db_error + ref_grant" where
  "refGrant m g dimension op =
     (case g of
        RefGrant r \<Rightarrow> bindE (checkGrant m (rg_dimension r) (rg_action r) dimension op) (\<lambda>_. Inr r)
      | _ \<Rightarrow> Inl (CapabilityError Wrong_capability))"

definition withinGrant :: "table_model \<Rightarrow> grant \<Rightarrow> string \<Rightarrow> operation \<Rightarrow> db_error + within_grant" where
  "withinGrant m g dimension op =
     (case g of
        WithinGrant w \<Rightarrow> bindE (checkGrant m (wg_dimension w) (wg_action w) dimension op) (\<lambda>_. Inr w)
      | _ \<Rightarrow> Inl (CapabilityError Wrong_capability))"

subsection \<open>A Within\<close>

definition selfLinks :: "table_model \<Rightarrow> db_error + container list" where
  "selfLinks m =
     (case tm_scope m of
        DimensionScope dimension key _ \<Rightarrow> Inr (\<lparr>co_dimension = dimension, co_column = key\<rparr> # tm_chain m)
      | _ \<Rightarrow> Inl (CapabilityError Table_kind))"

text \<open>The links a row of the table carries: its own object's first when the table owns a dimension.\<close>

definition links_of :: "table_model \<Rightarrow> container list" where
  "links_of m = (case selfLinks m of Inr ls \<Rightarrow> ls | Inl _ \<Rightarrow> tm_chain m)"

definition linkOf :: "container list \<Rightarrow> string \<Rightarrow> container option" where
  "linkOf links dimension = find (\<lambda>l. co_dimension l = dimension) links"

definition linksAbove :: "table_model \<Rightarrow> string \<Rightarrow> container list" where
  "linksAbove m dimension = tl (dropWhile (\<lambda>l. co_dimension l \<noteq> dimension) (tm_chain m))"

definition linksBelow :: "table_model \<Rightarrow> string \<Rightarrow> container list" where
  "linksBelow m dimension =
     (if linkOf (links_of m) dimension = None then [] else takeWhile (\<lambda>l. co_dimension l \<noteq> dimension) (links_of m))"

definition containedTests :: "table_model \<Rightarrow> within_grant \<Rightarrow> db_error + (string \<times> string list) list" where
  "containedTests m g =
     bindE (mapE (\<lambda>c.
       if cg_dimension c = wg_dimension g \<or> linkOf (linksAbove m (wg_dimension g)) (cg_dimension c) \<noteq> None
       then Inl (CapabilityError Unenforceable)
       else Inr (case linkOf (linksBelow m (wg_dimension g)) (cg_dimension c) of
              None \<Rightarrow> []
            | Some link \<Rightarrow> if cg_values c = [] then [] else [(co_column link, cg_values c)])) (wg_contained g))
     (\<lambda>tests. Inr (concat tests))"

definition containerTests :: "table_model \<Rightarrow> within_grant \<Rightarrow> db_error + (string \<times> string list) list" where
  "containerTests m g =
     bindE (mapE (\<lambda>c.
       case linkOf (linksAbove m (wg_dimension g)) (cg_dimension c) of
         None \<Rightarrow> Inl (CapabilityError Unenforceable)
       | Some link \<Rightarrow> Inr (if cg_values c = [] then [] else [(co_column link, cg_values c)])) (wg_containers g))
     (\<lambda>tests. Inr (concat tests))"

definition withinCount :: "within_grant \<Rightarrow> nat" where
  "withinCount g =
     (case wg_values g of
        AllValues \<Rightarrow> 0
      | ValueList vs \<Rightarrow> length vs + sum_list (map (length \<circ> cg_values) (wg_containers g)) + sum_list (map (length \<circ> cg_values) (wg_contained g)))"

text \<open>The tests of a Within limited to values: its own column's, each container's and each contained dimension's.\<close>

definition withinTests :: "table_model \<Rightarrow> string \<Rightarrow> within_grant \<Rightarrow> string list \<Rightarrow> db_error + (string \<times> string list) list" where
  "withinTests m name g vs =
     bindE (containerTests m g) (\<lambda>containers.
     bindE (containedTests m g) (\<lambda>contained.
     bindE (require (withinCount g \<le> MAX_WITHIN_VALUES) (CapabilityError Within_size)) (\<lambda>_.
     Inr ((if vs = [] then [] else [(name, vs)]) @ containers @ contained))))"

definition withinPredicate :: "table_model \<Rightarrow> string \<Rightarrow> within_grant \<Rightarrow> db_error + node_val option" where
  "withinPredicate m name g =
     (case wg_values g of
        AllValues \<Rightarrow> Inr (Some everything)
      | ValueList vs \<Rightarrow>
          bindE (withinTests m name g vs) (\<lambda>tests.
          if tests = [] then Inr None
          else bindE (anyOf (map (\<lambda>(c, ws). inList (tm_name m) c ws) tests)) (\<lambda>n. Inr (Some n))))"

subsection \<open>Predicates\<close>

definition dimensionScope :: "table_model \<Rightarrow> db_error + string \<times> string \<times> container option" where
  "dimensionScope m =
     (case tm_scope m of DimensionScope d k c \<Rightarrow> Inr (d, k, c) | _ \<Rightarrow> Inl (CapabilityError Table_kind))"

definition listDimension :: "string \<times> string \<times> container option \<Rightarrow> string" where
  "listDimension scope = (case scope of (d, k, Some c) \<Rightarrow> co_dimension c | (d, k, None) \<Rightarrow> d)"

text \<open>A child's key and column, with the scope of its parent.\<close>

definition childScope :: "table_model \<Rightarrow> table_model option \<Rightarrow> db_error + string \<times> string \<times> string \<times> string \<times> container option" where
  "childScope m parent =
     (case (tm_scope m, parent) of
        (ChildScope _ key col _, Some p) \<Rightarrow> bindE (dimensionScope p) (\<lambda>s. Inr (key, col, s))
      | _ \<Rightarrow> Inl (CapabilityError Table_kind))"

definition objectPredicate :: "table_model \<Rightarrow> grant \<Rightarrow> operation \<Rightarrow> db_error + node_val" where
  "objectPredicate m g op =
     bindE (dimensionScope m) (\<lambda>(d, k, c).
     bindE (refGrant m g d op) (\<lambda>r.
     bindE (selfLinks m) (\<lambda>links.
     bindE (linkValues links r) (\<lambda>values. linksPredicate (tm_name m) values))))"

definition dimensionListPredicate :: "table_model \<Rightarrow> grant \<Rightarrow> operation \<Rightarrow> db_error + node_val option" where
  "dimensionListPredicate m g op =
     bindE (dimensionScope m) (\<lambda>(d, k, c).
     bindE (withinGrant m g (listDimension (d, k, c)) op) (\<lambda>w.
     withinPredicate m (case c of Some ct \<Rightarrow> co_column ct | None \<Rightarrow> k) w))"

definition parentPredicate :: "table_model \<Rightarrow> ref_grant \<Rightarrow> db_error + node_val" where
  "parentPredicate m r = bindE (linkValues (tm_chain m) r) (\<lambda>values. linksPredicate (tm_name m) values)"

definition childListPredicate :: "table_model \<Rightarrow> table_model option \<Rightarrow> grant \<Rightarrow> operation \<Rightarrow> db_error + node_val option" where
  "childListPredicate m parent g op =
     bindE (childScope m parent) (\<lambda>(key, col, d, k, c).
     case g of
       RefGrant r \<Rightarrow>
         bindE (checkGrant m (rg_dimension r) (rg_action r) d op) (\<lambda>_. bindE (parentPredicate m r) (\<lambda>n. Inr (Some n)))
     | WithinGrant w \<Rightarrow>
         bindE (checkGrant m (wg_dimension w) (wg_action w) (listDimension (d, k, c)) op) (\<lambda>_.
         withinPredicate m (case c of Some ct \<Rightarrow> co_column ct | None \<Rightarrow> col) w)
     | _ \<Rightarrow> Inl (CapabilityError Wrong_capability))"

definition childObjectPredicate :: "table_model \<Rightarrow> table_model option \<Rightarrow> grant \<Rightarrow> string \<Rightarrow> operation \<Rightarrow> db_error + node_val" where
  "childObjectPredicate m parent g key op =
     bindE (childScope m parent) (\<lambda>(keyColumn, col, d, k, c).
     if key = [] then Inl (QueryRefusedError Row_address)
     else bindE (refGrant m g d op) (\<lambda>r.
          bindE (parentPredicate m r) (\<lambda>p. allOf [equals (tm_name m) keyColumn (PStr key), p])))"

definition reachColumn :: "table_model \<Rightarrow> string \<Rightarrow> string option" where
  "reachColumn m dimension =
     (case tm_scope m of
        DimensionScope d k None \<Rightarrow> if d = dimension then Some k else map_option co_column (linkOf (tm_chain m) dimension)
      | _ \<Rightarrow> map_option co_column (linkOf (tm_chain m) dimension))"

definition reachPredicate :: "table_model \<Rightarrow> grant \<Rightarrow> db_error + node_val option" where
  "reachPredicate m g =
     (case g of
        WithinGrant w \<Rightarrow>
          bindE (checkAction m Op_read (wg_action w)) (\<lambda>_.
          case reachColumn m (wg_dimension w) of
            None \<Rightarrow> Inl (CapabilityError Out_of_reach)
          | Some name \<Rightarrow> withinPredicate m name w)
      | _ \<Rightarrow> Inl (CapabilityError Wrong_capability))"

definition keyOf :: "table_model \<Rightarrow> db_error + string" where
  "keyOf m =
     (case tm_scope m of
        DimensionScope _ key _ \<Rightarrow> Inr key
      | ChildScope _ key _ _ \<Rightarrow> Inr key
      | AppScope _ key \<Rightarrow> Inr key
      | ReferenceScope _ \<Rightarrow> Inl (CapabilityError Undeclared_operation))"

subsection \<open>Application capabilities\<close>

datatype app_reach = ReachRows | ReachCounts

definition checkRecordReach :: "table_model \<Rightarrow> string \<Rightarrow> app_reach \<Rightarrow> db_error + unit" where
  "checkRecordReach m action reach =
     require (action \<in> set (am_read (tm_actions m)) \<or> action \<in> set (am_appRead (tm_actions m)) \<or>
       reach = ReachCounts \<and> action \<in> set (am_appCount (tm_actions m))) (CapabilityError Wrong_action)"

definition checkAppReach :: "table_model \<Rightarrow> string \<Rightarrow> db_error + unit" where
  "checkAppReach m action =
     (case tm_scope m of
        AppScope _ _ \<Rightarrow> require (namesAction m action) (CapabilityError Wrong_action)
      | ReferenceScope _ \<Rightarrow> Inl (CapabilityError Table_kind)
      | _ \<Rightarrow> checkRecordReach m action ReachRows)"

definition appRecordPredicate :: "table_model \<Rightarrow> grant \<Rightarrow> app_reach \<Rightarrow> db_error + node_val" where
  "appRecordPredicate m g reach =
     (case g of
        AppGrant a \<Rightarrow>
          (case tm_scope m of
             DimensionScope _ _ _ \<Rightarrow> bindE (checkRecordReach m (ag_action a) reach) (\<lambda>_. Inr everything)
           | ChildScope _ _ _ _ \<Rightarrow> bindE (checkRecordReach m (ag_action a) reach) (\<lambda>_. Inr everything)
           | _ \<Rightarrow> Inl (CapabilityError Table_kind))
      | _ \<Rightarrow> Inl (CapabilityError Wrong_capability))"

definition checkApplicationTable :: "table_model \<Rightarrow> db_error + unit" where
  "checkApplicationTable m = (case tm_scope m of AppScope _ _ \<Rightarrow> Inr () | _ \<Rightarrow> Inl (CapabilityError Table_kind))"

definition appGrant :: "table_model \<Rightarrow> grant \<Rightarrow> operation \<Rightarrow> db_error + app_grant" where
  "appGrant m g op =
     (case g of
        AppGrant a \<Rightarrow>
          bindE (if op \<noteq> Op_read then checkApplicationTable m else Inr ()) (\<lambda>_.
          bindE (checkAppReach m (ag_action a)) (\<lambda>_.
          bindE (checkAction m op (ag_action a)) (\<lambda>_. Inr a)))
      | _ \<Rightarrow> Inl (CapabilityError Wrong_capability))"

definition appListPredicate :: "table_model \<Rightarrow> grant \<Rightarrow> db_error + node_val" where
  "appListPredicate m g = bindE (appGrant m g Op_read) (\<lambda>_. Inr everything)"

definition scopedApplicationRead :: "table_model \<Rightarrow> grant \<Rightarrow> db_error + node_val" where
  "scopedApplicationRead m g =
     (case tm_scope m of
        AppScope _ _ \<Rightarrow>
          (case g of
             AppGrant _ \<Rightarrow> Inl (CapabilityError Wrong_capability)
           | _ \<Rightarrow> bindE (requiredActions m Op_read) (\<lambda>actions.
                  bindE (require (grant_action g \<in> set actions) (CapabilityError Wrong_action)) (\<lambda>_. Inr everything)))
      | _ \<Rightarrow> Inl (CapabilityError Table_kind))"

definition appKeyPredicate :: "table_model \<Rightarrow> string \<Rightarrow> db_error + node_val" where
  "appKeyPredicate m key =
     (if key = [] then Inl (QueryRefusedError Row_address)
      else bindE (keyOf m) (\<lambda>k. Inr (equals (tm_name m) k (PStr key))))"

definition appRowPredicate :: "table_model \<Rightarrow> grant \<Rightarrow> string \<Rightarrow> operation \<Rightarrow> db_error + node_val" where
  "appRowPredicate m g key op =
     bindE (checkApplicationTable m) (\<lambda>_. bindE (appGrant m g op) (\<lambda>_. appKeyPredicate m key))"

definition updating :: "table_model \<Rightarrow> string \<Rightarrow> db_error + unit" where
  "updating m action =
     (if updateActions m = [] then Inl (CapabilityError Undeclared_operation)
      else require (action \<in> set (updateActions m)) (CapabilityError Wrong_action))"

definition updatingRef :: "table_model \<Rightarrow> grant \<Rightarrow> string \<Rightarrow> db_error + ref_grant" where
  "updatingRef m g dimension =
     (case g of
        RefGrant r \<Rightarrow>
          bindE (require (rg_dimension r = dimension) (CapabilityError Wrong_capability)) (\<lambda>_.
          bindE (updating m (rg_action r)) (\<lambda>_. Inr r))
      | _ \<Rightarrow> Inl (CapabilityError Wrong_capability))"

definition updatingApp :: "table_model \<Rightarrow> grant \<Rightarrow> db_error + app_grant" where
  "updatingApp m g =
     (case g of
        AppGrant a \<Rightarrow> bindE (checkApplicationTable m) (\<lambda>_. bindE (updating m (ag_action a)) (\<lambda>_. Inr a))
      | _ \<Rightarrow> Inl (CapabilityError Wrong_capability))"

subsection \<open>Claims\<close>

definition claimScope :: "table_model \<Rightarrow> grant \<Rightarrow> db_error + node_val option" where
  "claimScope m g =
     (if tm_queue m = None then Inl (CapabilityError Undeclared_operation)
      else (case g of
        AppGrant a \<Rightarrow> bindE (appGrant m g Op_update) (\<lambda>_. Inr (Some everything))
      | WithinGrant w \<Rightarrow>
          (case tm_scope m of
             AppScope _ _ \<Rightarrow> Inl (CapabilityError Table_kind)
           | _ \<Rightarrow> bindE (checkAction m Op_update (wg_action w)) (\<lambda>_.
               case reachColumn m (wg_dimension w) of
                 None \<Rightarrow> Inl (CapabilityError Out_of_reach)
               | Some name \<Rightarrow> withinPredicate m name w))
      | _ \<Rightarrow> Inl (CapabilityError Wrong_capability)))"

definition claimedRowPredicate :: "table_model \<Rightarrow> grant \<Rightarrow> operation \<Rightarrow> db_error + node_val" where
  "claimedRowPredicate m g op =
     (case g of
        RowGrant r \<Rightarrow>
          if rw_table r \<noteq> tm_name m then Inl (CapabilityError Wrong_capability)
          else bindE (checkAction m op (rw_action r)) (\<lambda>_.
               bindE (keyOf m) (\<lambda>key.
               bindE (mapE (\<lambda>link. case map_of (rw_chain r) (co_column link) of
                        None \<Rightarrow> Inl (CapabilityError Unenforceable)
                      | Some v \<Rightarrow> Inr (equals (tm_name m) (co_column link) (PStr v))) (tm_chain m)) (\<lambda>terms.
               allOf (equals (tm_name m) key (PStr (rw_id r)) # terms))))
      | _ \<Rightarrow> Inl (CapabilityError Wrong_capability))"

subsection \<open>Scope fragments of ctx.sql\<close>

datatype scope_use = Use_read | Use_update | Use_delete

datatype scope_value = Exactly string | AnyOf "string list"

record scope_test =
  st_column :: string
  st_value :: scope_value

datatype scope_terms = AllRows | Groups "scope_test list list"

definition checkWriteTarget :: "table_model \<Rightarrow> grant \<Rightarrow> operation \<Rightarrow> db_error + unit" where
  "checkWriteTarget m g op =
     (let app_table = (case tm_scope m of AppScope _ _ \<Rightarrow> True | _ \<Rightarrow> False);
          app_cap = (case g of AppGrant _ \<Rightarrow> True | _ \<Rightarrow> False);
          actions = actions_of (tm_actions m) op;
          columnWrites = (if op = Op_update then filter (\<lambda>w. w \<notin> set actions) (updateActions m) else []) in
      if app_cap \<noteq> app_table then Inl (CapabilityError Table_kind)
      else if grant_action g \<in> set actions then Inr ()
      else if actions = [] \<and> columnWrites = [] then Inl (CapabilityError Undeclared_operation)
      else require (grant_action g \<in> set columnWrites) (CapabilityError Wrong_action))"

definition scopeTerms :: "table_model \<Rightarrow> grant \<Rightarrow> scope_use \<Rightarrow> db_error + scope_terms" where
  "scopeTerms m g use =
     bindE (case g of RowGrant _ \<Rightarrow> Inl (CapabilityError Wrong_capability) | _ \<Rightarrow> Inr ()) (\<lambda>_.
     bindE (case use of Use_read \<Rightarrow> Inr () | Use_update \<Rightarrow> checkWriteTarget m g Op_update | Use_delete \<Rightarrow> checkWriteTarget m g Op_delete) (\<lambda>_.
     case g of
       AppGrant a \<Rightarrow> bindE (if use = Use_read then checkAppReach m (ag_action a) else Inr ()) (\<lambda>_. Inr AllRows)
     | _ \<Rightarrow>
       (case tm_scope m of
          AppScope _ _ \<Rightarrow> bindE (scopedApplicationRead m g) (\<lambda>_. Inr AllRows)
        | _ \<Rightarrow>
          (case g of
             RefGrant r \<Rightarrow>
               (case dropWhile (\<lambda>l. co_dimension l \<noteq> rg_dimension r) (links_of m) of
                  [] \<Rightarrow> Inl (CapabilityError Out_of_reach)
                | held \<Rightarrow>
                    bindE (require (use \<noteq> Use_read \<or> namesAction m (rg_action r)) (CapabilityError Wrong_action)) (\<lambda>_.
                    bindE (linkValues held r) (\<lambda>values.
                    Inr (Groups [map (\<lambda>(link, v). \<lparr>st_column = co_column link, st_value = Exactly v\<rparr>) values]))))
           | WithinGrant w \<Rightarrow>
               (case reachColumn m (wg_dimension w) of
                  None \<Rightarrow> Inl (CapabilityError Out_of_reach)
                | Some name \<Rightarrow>
                    bindE (require (use \<noteq> Use_read \<or> wg_action w \<in> set (am_read (tm_actions m))) (CapabilityError Wrong_action)) (\<lambda>_.
                    case wg_values w of
                      AllValues \<Rightarrow> Inr AllRows
                    | ValueList vs \<Rightarrow> bindE (withinTests m name w vs) (\<lambda>tests. Inr (Groups (map (\<lambda>(name, ws). [\<lparr>st_column = name, st_value = AnyOf ws\<rparr>]) tests)))))
           | _ \<Rightarrow> Inl (CapabilityError Wrong_capability)))))"

text \<open>The fragment as SQL text around one bound value per test. The loop carries the text so far, the parts and values in order;
  a fragment of no value is a single part.\<close>

definition list_open :: "dialect \<Rightarrow> string" where
  "list_open d = (case d of Postgres \<Rightarrow> '' = any('' | Sqlite \<Rightarrow> '' in (select value from json_each('')"

definition list_close :: "dialect \<Rightarrow> string" where
  "list_close d = (case d of Postgres \<Rightarrow> '')'' | Sqlite \<Rightarrow> ''))'')"

fun fragment_tests :: "dialect \<Rightarrow> string \<Rightarrow> bool \<Rightarrow> scope_test list \<Rightarrow> string \<times> string list \<times> scope_value list \<Rightarrow>
    string \<times> string list \<times> scope_value list" where
  "fragment_tests d alias first [] acc = acc"
| "fragment_tests d alias first (t # ts) (txt, parts, values) =
     (let alone = (case st_value t of Exactly _ \<Rightarrow> True | AnyOf _ \<Rightarrow> False);
          opened = txt @ (if first then [] else '' and '') @ alias @ ''.'' @ st_column t @ (if alone then '' = '' else list_open d) in
      fragment_tests d alias False ts (if alone then [] else list_close d, parts @ [opened], values @ [st_value t]))"

fun fragment_groups :: "dialect \<Rightarrow> string \<Rightarrow> bool \<Rightarrow> scope_test list list \<Rightarrow> string \<times> string list \<times> scope_value list \<Rightarrow>
    string \<times> string list \<times> scope_value list" where
  "fragment_groups d alias first [] acc = acc"
| "fragment_groups d alias first (g # gs) (txt, parts, values) =
     (case fragment_tests d alias True g (txt @ (if first then [] else '' or '') @ ''('', parts, values) of
        (txt', parts', values') \<Rightarrow> fragment_groups d alias False gs (txt' @ '')'', parts', values'))"

definition scopeFragment :: "scope_terms \<Rightarrow> string \<Rightarrow> dialect \<Rightarrow> string list \<times> scope_value list" where
  "scopeFragment terms alias d =
     (case terms of
        AllRows \<Rightarrow> ([''(true)''], [])
      | Groups [] \<Rightarrow> ([''(false)''], [])
      | Groups gs \<Rightarrow>
          (case fragment_groups d alias True gs (''('', [], []) of (txt, parts, values) \<Rightarrow> (parts @ [txt @ '')''], values)))"

end
