(* ===== verification/Js_Date.thy ===== *)
theory Js_Date
  imports Main
begin

text \<open>
  The calendar of JavaScript's \<open>Date\<close>, as ECMA-262 defines it over days since 1970-01-01 (proleptic Gregorian): the day of a year, month
  and date, and the year, month and date of a day. Months count from 0. A day and its fields determine each other, and the fields of a
  later day are later.
\<close>

definition DayFromYear :: "int \<Rightarrow> int" where
  "DayFromYear y = 365 * (y - 1970) + (y - 1969) div 4 - (y - 1901) div 100 + (y - 1601) div 400"

definition InLeapYear :: "int \<Rightarrow> bool" where
  "InLeapYear y \<longleftrightarrow> y mod 4 = 0 \<and> (y mod 100 \<noteq> 0 \<or> y mod 400 = 0)"

definition DaysInYear :: "int \<Rightarrow> int" where
  "DaysInYear y = (if InLeapYear y then 366 else 365)"

text \<open>The first day of a month within its year.\<close>

definition MonthStart :: "bool \<Rightarrow> int \<Rightarrow> int" where
  "MonthStart leap m =
     (let l = (if leap then 1 else 0) in
      if m \<le> 0 then 0 else if m = 1 then 31 else if m = 2 then 59 + l else if m = 3 then 90 + l else if m = 4 then 120 + l
      else if m = 5 then 151 + l else if m = 6 then 181 + l else if m = 7 then 212 + l else if m = 8 then 243 + l
      else if m = 9 then 273 + l else if m = 10 then 304 + l else if m = 11 then 334 + l else 365 + l)"

definition DaysInMonth :: "int \<Rightarrow> int \<Rightarrow> int" where
  "DaysInMonth y m = MonthStart (InLeapYear y) (m + 1) - MonthStart (InLeapYear y) m"

definition MakeDay :: "int \<Rightarrow> int \<Rightarrow> int \<Rightarrow> int" where
  "MakeDay y m d = (let ym = y + m div 12; mn = m mod 12 in DayFromYear ym + MonthStart (InLeapYear ym) mn + d - 1)"

text \<open>The year of a day is the one whose first day is the last not after it; 400 years have 146097 days, so the quotient is off by
  one at most.\<close>

definition YearFromDay :: "int \<Rightarrow> int" where
  "YearFromDay day =
     (let y = 1970 + (400 * day) div 146097 in
      if day < DayFromYear y then y - 1 else if DayFromYear (y + 1) \<le> day then y + 1 else y)"

definition DayWithinYear :: "int \<Rightarrow> int" where
  "DayWithinYear day = day - DayFromYear (YearFromDay day)"

definition MonthFromDay :: "int \<Rightarrow> int" where
  "MonthFromDay day =
     (let e = DayWithinYear day; s = MonthStart (InLeapYear (YearFromDay day)) in
      if e < s 1 then 0 else if e < s 2 then 1 else if e < s 3 then 2 else if e < s 4 then 3 else if e < s 5 then 4 else if e < s 6 then 5
      else if e < s 7 then 6 else if e < s 8 then 7 else if e < s 9 then 8 else if e < s 10 then 9 else if e < s 11 then 10 else 11)"

definition DateFromDay :: "int \<Rightarrow> int" where
  "DateFromDay day = DayWithinYear day - MonthStart (InLeapYear (YearFromDay day)) (MonthFromDay day) + 1"

subsection \<open>Years\<close>

lemma div_bounds: "0 < k \<Longrightarrow> k * (x div k) \<le> x" "0 < k \<Longrightarrow> x < k * (x div k) + k" for x k :: int
  using mult_div_mod_eq [of k x] pos_mod_bound [of k x] pos_mod_sign [of k x] by linarith+

lemma div_step: "0 < k \<Longrightarrow> (x + 1) div k = x div k + (if (x + 1) mod k = 0 then 1 else 0)" for x k :: int
proof -
  assume k: "0 < k"
  have x: "x = k * (x div k) + x mod k" "0 \<le> x mod k" "x mod k < k" using k by simp_all
  show ?thesis
  proof (cases "x mod k + 1 = k")
    case True
    have "x + 1 = k * (x div k) + (x mod k + 1)" by (simp flip: add.assoc)
    also have "\<dots> = k * (x div k + 1)" using True by (simp add: distrib_left)
    finally have "x + 1 = k * (x div k + 1)" .
    then show ?thesis using k by simp
  next
    case False
    have eq: "x + 1 = k * (x div k) + (x mod k + 1)" by (simp flip: add.assoc)
    have "0 \<le> x mod k + 1" "x mod k + 1 < k" using False x(2,3) by linarith+
    then have "(x + 1) div k = x div k" "(x + 1) mod k = x mod k + 1" using int_div_pos_eq [OF eq] int_mod_pos_eq [OF eq] by blast+
    then show ?thesis using x by simp
  qed
qed

lemma DayFromYear_bounds:
  "400 * DayFromYear y \<le> 146097 * (y - 1970) + 600" "146097 * (y - 1970) - 600 \<le> 400 * DayFromYear y"
proof -
  define a where "a = (y - 1969) div 4"
  define b where "b = (y - 1901) div 100"
  define c where "c = (y - 1601) div 400"
  have "4 * a \<le> y - 1969" "y - 1969 < 4 * a + 4" "100 * b \<le> y - 1901" "y - 1901 < 100 * b + 100" "400 * c \<le> y - 1601" "y - 1601 < 400 * c + 400"
    unfolding a_def b_def c_def by (rule div_bounds, simp)+
  moreover have "DayFromYear y = 365 * (y - 1970) + a - b + c" by (simp add: DayFromYear_def a_def b_def c_def)
  ultimately show "400 * DayFromYear y \<le> 146097 * (y - 1970) + 600" "146097 * (y - 1970) - 600 \<le> 400 * DayFromYear y"
    by (simp_all add: algebra_simps)
qed

lemma DayFromYear_Suc: "DayFromYear (y + 1) = DayFromYear y + DaysInYear y"
proof -
  have shift: "(y - 1968) mod 4 = y mod 4" "(y - 1900) mod 100 = y mod 100" "(y - 1600) mod 400 = y mod 400"
    using mod_mult_self1 [of y "- 492" 4] mod_mult_self1 [of y "- 19" 100] mod_mult_self1 [of y "- 4" 400] by simp_all
  have plus: "y - 1969 + 1 = y - 1968" "y - 1901 + 1 = y - 1900" "y - 1601 + 1 = y - 1600" by simp_all
  have e: "(y - 1968) div 4 = (y - 1969) div 4 + (if y mod 4 = 0 then 1 else 0)"
    "(y - 1900) div 100 = (y - 1901) div 100 + (if y mod 100 = 0 then 1 else 0)"
    "(y - 1600) div 400 = (y - 1601) div 400 + (if y mod 400 = 0 then 1 else 0)"
    by (rule div_step [of 4 "y - 1969", unfolded plus shift], simp)
      (rule div_step [of 100 "y - 1901", unfolded plus shift], simp,
       rule div_step [of 400 "y - 1601", unfolded plus shift], simp)
  have "y mod 400 mod 100 = y mod 100" "y mod 100 mod 4 = y mod 4" by (rule mod_mod_cancel, simp)+
  then have imp: "y mod 400 = 0 \<Longrightarrow> y mod 100 = 0" "y mod 100 = 0 \<Longrightarrow> y mod 4 = 0" by (metis mod_0)+
  have "DayFromYear (y + 1) = 365 * (y + 1 - 1970) + (y - 1968) div 4 - (y - 1900) div 100 + (y - 1600) div 400"
    by (simp add: DayFromYear_def)
  also have "\<dots> = DayFromYear y + 365 + (if y mod 4 = 0 then 1 else 0) - (if y mod 100 = 0 then 1 else 0) + (if y mod 400 = 0 then 1 else 0)"
    unfolding e DayFromYear_def by simp
  also have "\<dots> = DayFromYear y + DaysInYear y" unfolding DaysInYear_def InLeapYear_def
    using imp by (cases "y mod 4 = 0"; cases "y mod 100 = 0"; cases "y mod 400 = 0") simp_all
  finally show ?thesis .
qed

lemma DaysInYear_bounds: "365 \<le> DaysInYear y" "DaysInYear y \<le> 366"
  by (auto simp: DaysInYear_def)

lemma DayFromYear_mono: "y \<le> z \<Longrightarrow> DayFromYear y \<le> DayFromYear z"
proof (induction rule: int_ge_induct)
  case (step i)
  then show ?case using DayFromYear_Suc [of i] DaysInYear_bounds [of i] by linarith
qed simp

lemma year_of_day:
  shows "DayFromYear (YearFromDay day) \<le> day" and "day < DayFromYear (YearFromDay day + 1)"
proof -
  define y where "y = 1970 + (400 * day) div 146097"
  have q: "146097 * (y - 1970) \<le> 400 * day" "400 * day < 146097 * (y - 1970) + 146097"
    using div_bounds [of 146097 "400 * day"] by (simp_all add: y_def)
  have "DayFromYear (y - 1) \<le> day" using DayFromYear_bounds(1) [of "y - 1"] q by (simp add: algebra_simps)
  moreover have "day < DayFromYear (y + 2)" using DayFromYear_bounds(2) [of "y + 2"] q by (simp add: algebra_simps)
  ultimately show "DayFromYear (YearFromDay day) \<le> day" "day < DayFromYear (YearFromDay day + 1)"
    by (auto simp: YearFromDay_def Let_def add.commute add.left_commute simp flip: y_def)
qed

lemma year_unique: "DayFromYear y \<le> day \<Longrightarrow> day < DayFromYear (y + 1) \<Longrightarrow> YearFromDay day = y"
  using year_of_day [of day] DayFromYear_mono [of "y + 1" "YearFromDay day"] DayFromYear_mono [of "YearFromDay day + 1" y] by linarith

lemma DayWithinYear_bounds: "0 \<le> DayWithinYear day" "DayWithinYear day < DaysInYear (YearFromDay day)"
  using year_of_day [of day] DayFromYear_Suc [of "YearFromDay day"] by (auto simp: DayWithinYear_def)

subsection \<open>Months and dates\<close>

lemma month_of_day:
  "0 \<le> MonthFromDay day" "MonthFromDay day \<le> 11"
  "MonthStart (InLeapYear (YearFromDay day)) (MonthFromDay day) \<le> DayWithinYear day"
  "DayWithinYear day < MonthStart (InLeapYear (YearFromDay day)) (MonthFromDay day + 1)"
proof -
  define e where "e = DayWithinYear day"
  define f where "f = MonthStart (InLeapYear (YearFromDay day))"
  have f: "f 0 \<le> e" "e < f 12"
    using DayWithinYear_bounds [of day] by (auto simp: e_def f_def MonthStart_def DaysInYear_def)
  have m: "MonthFromDay day =
      (if e < f 1 then 0 else if e < f 2 then 1 else if e < f 3 then 2 else if e < f 4 then 3 else if e < f 5 then 4 else if e < f 6 then 5
       else if e < f 7 then 6 else if e < f 8 then 7 else if e < f 9 then 8 else if e < f 10 then 9 else if e < f 11 then 10 else 11)"
    by (simp only: MonthFromDay_def Let_def e_def f_def)
  show "0 \<le> MonthFromDay day" "MonthFromDay day \<le> 11" by (simp_all add: m)
  have "f (MonthFromDay day) \<le> e" "e < f (MonthFromDay day + 1)" using f by (simp_all add: m)
  then show "MonthStart (InLeapYear (YearFromDay day)) (MonthFromDay day) \<le> DayWithinYear day"
    "DayWithinYear day < MonthStart (InLeapYear (YearFromDay day)) (MonthFromDay day + 1)" by (simp_all add: e_def f_def)
qed

lemma MonthStart_mono: "m \<le> n \<Longrightarrow> MonthStart l m \<le> MonthStart l n"
  by (auto simp: MonthStart_def Let_def) presburger+

lemma month_unique:
  assumes "0 \<le> m" and "m \<le> 11" and "MonthStart (InLeapYear (YearFromDay day)) m \<le> DayWithinYear day"
    and "DayWithinYear day < MonthStart (InLeapYear (YearFromDay day)) (m + 1)"
  shows "MonthFromDay day = m"
  using month_of_day [of day] assms MonthStart_mono [of "m + 1" "MonthFromDay day" "InLeapYear (YearFromDay day)"]
    MonthStart_mono [of "MonthFromDay day + 1" m "InLeapYear (YearFromDay day)"] by linarith

definition real_date :: "int \<Rightarrow> int \<Rightarrow> int \<Rightarrow> bool" where
  "real_date y m d \<longleftrightarrow> 0 \<le> m \<and> m \<le> 11 \<and> 1 \<le> d \<and> d \<le> DaysInMonth y m"

lemma day_fields: "real_date (YearFromDay day) (MonthFromDay day) (DateFromDay day)"
  using month_of_day [of day] by (auto simp: real_date_def DateFromDay_def DaysInMonth_def)

lemma MakeDay_small: "0 \<le> m \<Longrightarrow> m \<le> 11 \<Longrightarrow> MakeDay y m d = DayFromYear y + MonthStart (InLeapYear y) m + d - 1"
  by (simp add: MakeDay_def)

lemma MakeDay_fields: "MakeDay (YearFromDay day) (MonthFromDay day) (DateFromDay day) = day"
  using month_of_day [of day] by (simp add: MakeDay_small DateFromDay_def DayWithinYear_def)

lemma MonthStart_year: "MonthStart (InLeapYear y) 12 = DaysInYear y"
  by (simp add: MonthStart_def DaysInYear_def)

lemma MonthStart_zero: "MonthStart l 0 = 0"
  by (simp add: MonthStart_def)

lemma fields_MakeDay:
  assumes "real_date y m d"
  shows "YearFromDay (MakeDay y m d) = y" "MonthFromDay (MakeDay y m d) = m" "DateFromDay (MakeDay y m d) = d"
proof -
  have day: "MakeDay y m d = DayFromYear y + MonthStart (InLeapYear y) m + d - 1" using assms by (simp add: MakeDay_small real_date_def)
  have "MonthStart (InLeapYear y) 0 \<le> MonthStart (InLeapYear y) m" "MonthStart (InLeapYear y) (m + 1) \<le> MonthStart (InLeapYear y) 12"
    using assms by (auto simp: real_date_def intro: MonthStart_mono)
  then have e: "0 \<le> MonthStart (InLeapYear y) m + d - 1" "MonthStart (InLeapYear y) m + d - 1 < DaysInYear y"
    using assms MonthStart_year [of y] MonthStart_zero [of "InLeapYear y"] by (auto simp: real_date_def DaysInMonth_def)
  then show y: "YearFromDay (MakeDay y m d) = y" using day DayFromYear_Suc [of y] by (intro year_unique) auto
  then have w: "DayWithinYear (MakeDay y m d) = MonthStart (InLeapYear y) m + d - 1" using day by (simp add: DayWithinYear_def)
  then show m: "MonthFromDay (MakeDay y m d) = m"
    using assms by (intro month_unique) (auto simp: y real_date_def DaysInMonth_def)
  show "DateFromDay (MakeDay y m d) = d" by (simp add: DateFromDay_def w y m)
qed

text \<open>The fields of a later day are later.\<close>

lemma fields_less:
  assumes "a < b"
  shows "YearFromDay a < YearFromDay b \<or> YearFromDay a = YearFromDay b \<and>
    (MonthFromDay a < MonthFromDay b \<or> MonthFromDay a = MonthFromDay b \<and> DateFromDay a < DateFromDay b)"
proof -
  have "YearFromDay a \<le> YearFromDay b"
    using year_of_day [of a] year_of_day [of b] DayFromYear_mono [of "YearFromDay b + 1" "YearFromDay a"] assms by linarith
  moreover have "MonthFromDay a \<le> MonthFromDay b" if y: "YearFromDay a = YearFromDay b"
    using month_of_day [of a] month_of_day [of b] assms
      MonthStart_mono [of "MonthFromDay b + 1" "MonthFromDay a" "InLeapYear (YearFromDay b)"]
    unfolding y DayWithinYear_def by linarith
  moreover have "DateFromDay a < DateFromDay b" if "YearFromDay a = YearFromDay b" "MonthFromDay a = MonthFromDay b"
    using assms that by (simp add: DateFromDay_def DayWithinYear_def)
  ultimately show ?thesis by linarith
qed

end
