(* ===== verification/Db_Temporal.thy ===== *)
theory Db_Temporal
  imports Db_Nodes Js_Date
begin

text \<open>
  Days and timestamps at the boundary of the data layer (\<open>packages/db/src/temporal.ts\<close>): the texts a write admits, what it binds on SQLite
  and what a read answers. A \<open>Date\<close> is its milliseconds since the epoch; the invalid \<open>Date\<close> is left out. The regular expressions
  have fixed fields, read here digit by digit.
\<close>

subsection \<open>Texts\<close>

definition digit_value :: "char \<Rightarrow> int" where
  "digit_value c = of_char c - 48"

definition num :: "string \<Rightarrow> int" where
  "num s = foldl (\<lambda>n c. 10 * n + digit_value c) 0 s"

definition digits :: "string \<Rightarrow> bool" where
  "digits s \<longleftrightarrow> list_all is_digit s"

definition digit_char :: "nat \<Rightarrow> char" where
  "digit_char n = char_of (48 + n)"

text \<open>The last \<open>k\<close> decimal digits of a number, leading zeros kept.\<close>

fun pad :: "nat \<Rightarrow> nat \<Rightarrow> string" where
  "pad 0 n = []"
| "pad (Suc k) n = pad k (n div 10) @ [digit_char (n mod 10)]"

definition MS_PER_DAY :: int where
  "MS_PER_DAY = 86400000"

text \<open>\<open>DAY_TEXT\<close>, \<open>^[0-9]{4}-[0-9]{2}-[0-9]{2}$\<close>, with its three numbers.\<close>

definition day_fields_of :: "string \<Rightarrow> (int \<times> int \<times> int) option" where
  "day_fields_of s =
     (if length s = 10 \<and> digits (take 4 s) \<and> s ! 4 = CHR ''-'' \<and> digits (take 2 (drop 5 s)) \<and> s ! 7 = CHR ''-'' \<and> digits (drop 8 s)
      then Some (num (take 4 s), num (take 2 (drop 5 s)), num (drop 8 s)) else None)"

definition DAY_TEXT :: "string \<Rightarrow> bool" where
  "DAY_TEXT s \<longleftrightarrow> day_fields_of s \<noteq> None"

text \<open>\<open>Date.UTC\<close> reads a year of 0 to 99 as one of the twentieth century.\<close>

definition utc_year :: "int \<Rightarrow> int" where
  "utc_year y = (if 0 \<le> y \<and> y \<le> 99 then 1900 + y else y)"

definition isCalendarDay :: "int \<Rightarrow> int \<Rightarrow> int \<Rightarrow> bool" where
  "isCalendarDay year month day =
     (let date = MakeDay (utc_year year) (month - 1) day in
      1 \<le> year \<and> YearFromDay date = year \<and> MonthFromDay date = month - 1 \<and> DateFromDay date = day)"

definition dayInput :: "string \<Rightarrow> db_error + string" where
  "dayInput s =
     (case day_fields_of s of
        Some (year, month, day) \<Rightarrow> if isCalendarDay year month day then Inr s else Inl (QueryRefusedError Invalid_value)
      | None \<Rightarrow> Inl (QueryRefusedError Invalid_value))"

subsection \<open>Instants\<close>

text \<open>The text of a timestamp after its day: the time, the optional seconds and fraction, and the zone.\<close>

record time_fields =
  tf_hour :: int
  tf_minute :: int
  tf_second :: int
  tf_fraction :: string
  tf_sign :: char
  tf_offsetHour :: int
  tf_offsetMinute :: int

definition zone_of :: "string \<Rightarrow> (char \<times> int \<times> int) option" where
  "zone_of s =
     (if s = ''Z'' then Some (CHR ''+'', 0, 0)
      else if length s = 6 \<and> (s ! 0 = CHR ''+'' \<or> s ! 0 = CHR ''-'') \<and> digits (take 2 (drop 1 s)) \<and> s ! 3 = CHR '':'' \<and> digits (drop 4 s)
      then Some (s ! 0, num (take 2 (drop 1 s)), num (drop 4 s)) else None)"

text \<open>Seconds and a fraction of one to six digits, or nothing; with the rest of the text.\<close>

definition seconds_of :: "string \<Rightarrow> (int \<times> string \<times> string) option" where
  "seconds_of s =
     (if length s \<ge> 3 \<and> s ! 0 = CHR '':'' \<and> digits (take 2 (drop 1 s)) then
        (let rest = drop 3 s; second = num (take 2 (drop 1 s)) in
         if rest \<noteq> [] \<and> rest ! 0 = CHR ''.'' then
           (let fraction = takeWhile is_digit (drop 1 rest) in
            if 1 \<le> length fraction \<and> length fraction \<le> 6 then Some (second, fraction, dropWhile is_digit (drop 1 rest)) else None)
         else Some (second, [], rest))
      else Some (0, [], s))"

definition time_fields_of :: "string \<Rightarrow> time_fields option" where
  "time_fields_of s =
     (if length s \<ge> 6 \<and> s ! 0 = CHR ''T'' \<and> digits (take 2 (drop 1 s)) \<and> s ! 3 = CHR '':'' \<and> digits (take 2 (drop 4 s)) then
        (case seconds_of (drop 6 s) of
           None \<Rightarrow> None
         | Some (second, fraction, rest) \<Rightarrow>
             map_option (\<lambda>(sign, oh, om). \<lparr>tf_hour = num (take 2 (drop 1 s)), tf_minute = num (take 2 (drop 4 s)), tf_second = second,
               tf_fraction = fraction, tf_sign = sign, tf_offsetHour = oh, tf_offsetMinute = om\<rparr>) (zone_of rest))
      else None)"

text \<open>\<open>fraction.padEnd(3, '0').slice(0, 3)\<close>: digits past the millisecond are dropped.\<close>

definition milliseconds_of :: "string \<Rightarrow> int" where
  "milliseconds_of fraction = num (take 3 (fraction @ replicate (3 - length fraction) (CHR ''0'')))"

definition instantOf :: "string \<Rightarrow> int option" where
  "instantOf s =
     (case (day_fields_of (take 10 s), time_fields_of (drop 10 s)) of
        (Some (year, month, day), Some t) \<Rightarrow>
          if isCalendarDay year month day \<and> tf_hour t < 24 \<and> tf_minute t < 60 \<and> tf_second t < 60 \<and> tf_offsetHour t < 16 \<and> tf_offsetMinute t < 60
          then
            (let time = MakeDay year (month - 1) day * MS_PER_DAY + tf_hour t * 3600000 + tf_minute t * 60000 + tf_second t * 1000 +
                   milliseconds_of (tf_fraction t);
                 offset = (tf_offsetHour t * 60 + tf_offsetMinute t) * 60000 in
             Some (time - (if tf_sign t = CHR ''-'' then - offset else offset)))
          else None
      | _ \<Rightarrow> None)"

definition timestampInput :: "string \<Rightarrow> db_error + string" where
  "timestampInput s = (if instantOf s = None then Inl (QueryRefusedError Invalid_value) else Inr s)"

subsection \<open>Stored timestamps\<close>

text \<open>\<open>Date#toISOString\<close>: a year outside 0000-9999 is written with a sign and six digits.\<close>

definition clock_text :: "int \<Rightarrow> string" where
  "clock_text ms =
     pad 2 (nat (ms div 3600000)) @ '':'' @ pad 2 (nat (ms div 60000 mod 60)) @ '':'' @ pad 2 (nat (ms div 1000 mod 60)) @ ''.'' @
     pad 3 (nat (ms mod 1000)) @ ''Z''"

definition date_text :: "int \<Rightarrow> string" where
  "date_text day = pad 2 (nat (MonthFromDay day + 1)) @ ''-'' @ pad 2 (nat (DateFromDay day))"

definition year_text :: "int \<Rightarrow> string" where
  "year_text y = (if 0 \<le> y \<and> y \<le> 9999 then pad 4 (nat y) else (if y < 0 then ''-'' else ''+'') @ pad 6 (nat \<bar>y\<bar>))"

definition toISOString :: "int \<Rightarrow> string" where
  "toISOString time =
     (let day = time div MS_PER_DAY in
      year_text (YearFromDay day) @ ''-'' @ date_text day @ ''T'' @ clock_text (time mod MS_PER_DAY))"

text \<open>\<open>STORED_TIMESTAMP\<close>, \<open>^[0-9]{4}-[0-9]{2}-[0-9]{2}T[0-9]{2}:[0-9]{2}:[0-9]{2}\.[0-9]{3}Z$\<close>.\<close>

definition STORED_TIMESTAMP :: "string \<Rightarrow> bool" where
  "STORED_TIMESTAMP s \<longleftrightarrow>
     length s = 24 \<and> DAY_TEXT (take 10 s) \<and> s ! 10 = CHR ''T'' \<and> digits (take 2 (drop 11 s)) \<and> s ! 13 = CHR '':'' \<and>
     digits (take 2 (drop 14 s)) \<and> s ! 16 = CHR '':'' \<and> digits (take 2 (drop 17 s)) \<and> s ! 19 = CHR ''.'' \<and>
     digits (take 3 (drop 20 s)) \<and> s ! 23 = CHR ''Z''"

definition time_of :: "prim \<Rightarrow> int option" where
  "time_of v = (case v of PStr s \<Rightarrow> instantOf s | PDate t \<Rightarrow> Some t | _ \<Rightarrow> None)"

text \<open>What SQLite binds for a timestamp; any other value than a text or a \<open>Date\<close> is refused (\<open>boundTimestamp\<close>).\<close>

definition storedTimestamp :: "prim \<Rightarrow> db_error + string" where
  "storedTimestamp v =
     (case time_of v of
        None \<Rightarrow> Inl (QueryRefusedError Invalid_value)
      | Some time \<Rightarrow>
          (let s = toISOString time in if STORED_TIMESTAMP s then Inr s else Inl (QueryRefusedError Invalid_value)))"

text \<open>\<open>new Date(text)\<close> of a text in that form.\<close>

definition dateOf :: "string \<Rightarrow> int" where
  "dateOf s =
     MakeDay (num (take 4 s)) (num (take 2 (drop 5 s)) - 1) (num (take 2 (drop 8 s))) * MS_PER_DAY +
     num (take 2 (drop 11 s)) * 3600000 + num (take 2 (drop 14 s)) * 60000 + num (take 2 (drop 17 s)) * 1000 + num (take 3 (drop 20 s))"

subsection \<open>Reads\<close>

text \<open>A day as the layer answers it: the database's text, or a \<open>Date\<close> that is a UTC midnight of the years 1 to 9999.\<close>

definition dayText :: "prim \<Rightarrow> db_error + string" where
  "dayText v =
     (case v of
        PStr s \<Rightarrow> if DAY_TEXT s then Inr s else Inl (QueryRefusedError Invalid_value)
      | PDate time \<Rightarrow>
          (let year = YearFromDay (time div MS_PER_DAY) in
           if time mod MS_PER_DAY \<noteq> 0 \<or> year < 1 \<or> year > 9999 then Inl (QueryRefusedError Invalid_value)
           else Inr (take 10 (toISOString time)))
      | _ \<Rightarrow> Inl (QueryRefusedError Invalid_value))"

record row_columns =
  rc_days :: "string list"
  rc_timestamps :: "string list"
  rc_booleans :: "string list"
  rc_json :: "string list"

text \<open>One value of a row on Postgres, and on SQLite; a null and a column in no set are answered as they are. The parse of a JSON
  column's text is left to its caller: it answers the parsed value, not a scalar.\<close>

definition answerDay :: "string list \<Rightarrow> string \<times> prim option \<Rightarrow> db_error + string \<times> prim option" where
  "answerDay days kv =
     (case snd kv of
        Some (PStr s) \<Rightarrow> if fst kv \<in> set days then bindE (dayText (PStr s)) (\<lambda>d. Inr (fst kv, Some (PStr d))) else Inr kv
      | Some (PDate t) \<Rightarrow> if fst kv \<in> set days then bindE (dayText (PDate t)) (\<lambda>d. Inr (fst kv, Some (PStr d))) else Inr kv
      | _ \<Rightarrow> Inr kv)"

definition answerDays :: "string list \<Rightarrow> (string \<times> prim option) list list \<Rightarrow> db_error + (string \<times> prim option) list list" where
  "answerDays days rows = (if days = [] then Inr rows else mapE (mapE (answerDay days)) rows)"

text \<open>A number of a JSON column is that JSON value already; its text is parsed by the runtime's \<open>JSON.parse\<close>, a parameter.\<close>

definition sqliteJson :: "(string \<Rightarrow> node_val option) \<Rightarrow> prim \<Rightarrow> db_error + node_val" where
  "sqliteJson parse p =
     (case p of
        PNum q \<Rightarrow> Inr (NPrim p)
      | PStr s \<Rightarrow> (case parse s of Some v \<Rightarrow> Inr v | None \<Rightarrow> Inl (QueryRefusedError Unexpected_row))
      | _ \<Rightarrow> Inl (QueryRefusedError Unexpected_row))"

definition sqliteValue :: "(string \<Rightarrow> node_val option) \<Rightarrow> row_columns \<Rightarrow> string \<Rightarrow> prim option \<Rightarrow> db_error + node_val" where
  "sqliteValue parse columns key v =
     (case v of
        None \<Rightarrow> Inr NNull
      | Some p \<Rightarrow>
          if key \<in> set (rc_timestamps columns) then
            (case p of
               PStr s \<Rightarrow> if STORED_TIMESTAMP s then Inr (NPrim (PDate (dateOf s))) else Inl (QueryRefusedError Unexpected_row)
             | _ \<Rightarrow> Inl (QueryRefusedError Unexpected_row))
          else if key \<in> set (rc_booleans columns) then
            (if p = PNum 0 then Inr (NPrim (PBool False)) else if p = PNum 1 then Inr (NPrim (PBool True))
             else Inl (QueryRefusedError Unexpected_row))
          else if key \<in> set (rc_json columns) then sqliteJson parse p
          else
            (case p of
               PStr s \<Rightarrow> if key \<in> set (rc_days columns) then bindE (dayText (PStr s)) (\<lambda>d. Inr (NPrim (PStr d))) else Inr (NPrim p)
             | _ \<Rightarrow> Inr (NPrim p)))"

definition row_value :: "prim option \<Rightarrow> node_val" where
  "row_value v = (case v of None \<Rightarrow> NNull | Some p \<Rightarrow> NPrim p)"

definition answerRows :: "(string \<Rightarrow> node_val option) \<Rightarrow> dialect \<Rightarrow> row_columns \<Rightarrow> (string \<times> prim option) list list \<Rightarrow>
    db_error + (string \<times> node_val) list list" where
  "answerRows parse d columns rows =
     (if d = Postgres then bindE (answerDays (rc_days columns) rows) (\<lambda>rs. Inr (map (map (\<lambda>(k, v). (k, row_value v))) rs))
      else mapE (mapE (\<lambda>(k, v). bindE (sqliteValue parse columns k v) (\<lambda>w. Inr (k, w)))) rows)"

subsection \<open>Digits\<close>

lemma digit_char: "n < 10 \<Longrightarrow> is_digit (digit_char n) \<and> digit_value (digit_char n) = int n"
proof -
  have "list_all (\<lambda>k. is_digit (digit_char k) \<and> digit_value (digit_char k) = int k) [0..<10]" by code_simp
  then show "n < 10 \<Longrightarrow> is_digit (digit_char n) \<and> digit_value (digit_char n) = int n" by (simp add: list_all_iff)
qed

lemma length_pad [simp]: "length (pad k n) = k"
  by (induction k arbitrary: n) simp_all

lemma digits_pad [simp]: "digits (pad k n)"
  by (induction k arbitrary: n) (simp_all add: digits_def digit_char)

lemma num_append: "num (s @ [c]) = 10 * num s + digit_value c"
  by (simp add: num_def)

lemma num_pad: "n < 10 ^ k \<Longrightarrow> num (pad k n) = int n"
proof (induction k arbitrary: n)
  case (Suc k)
  have "n div 10 < 10 ^ k" using Suc.prems by (simp add: less_mult_imp_div_less mult.commute)
  then have "num (pad (Suc k) n) = 10 * int (n div 10) + int (n mod 10)" using Suc.IH by (simp add: num_append digit_char)
  also have "\<dots> = int (10 * (n div 10) + n mod 10)" by (simp only: of_nat_add of_nat_mult of_nat_numeral)
  finally show ?case by (simp only: mult_div_mod_eq)
qed (simp add: num_def)

lemma num_pad_nat: "0 \<le> x \<Longrightarrow> x < 10 ^ k \<Longrightarrow> num (pad k (nat x)) = x"
  using num_pad [of "nat x" k] by (simp add: nat_less_iff)

lemma digit_value: "is_digit c \<Longrightarrow> 0 \<le> digit_value c \<and> digit_value c \<le> 9"
proof -
  have "(of_char c :: int) = int (of_char c)" by (rule of_nat_of_char [symmetric])
  then show "is_digit c \<Longrightarrow> 0 \<le> digit_value c \<and> digit_value c \<le> 9" by (simp add: is_digit_def digit_value_def Let_def)
qed

lemma num_bounds: "digits s \<Longrightarrow> 0 \<le> num s \<and> num s < 10 ^ length s"
proof (induction s rule: rev_induct)
  case (snoc c s)
  then have "0 \<le> num s" "num s + 1 \<le> 10 ^ length s" "0 \<le> digit_value c \<and> digit_value c \<le> 9"
    using digit_value [of c] by (auto simp: digits_def)
  then show ?case by (simp add: num_append)
qed (simp add: num_def)

text \<open>The order of texts by code unit, as SQLite compares them.\<close>

fun text_less :: "string \<Rightarrow> string \<Rightarrow> bool" where
  "text_less [] t = (t \<noteq> [])"
| "text_less (c # s) [] = False"
| "text_less (c # s) (d # t) = ((of_char c :: nat) < of_char d \<or> c = d \<and> text_less s t)"

lemma text_less_irrefl: "\<not> text_less s s"
  by (induction s) auto

lemma text_less_asym: "text_less s t \<Longrightarrow> \<not> text_less t s"
proof (induction s t rule: text_less.induct)
  case (1 t)
  then show ?case by (cases t) simp_all
qed auto

lemma text_less_append: "length a = length b \<Longrightarrow> text_less (a @ x) (b @ y) \<longleftrightarrow> text_less a b \<or> a = b \<and> text_less x y"
  by (induction a b rule: list_induct2) auto

lemma digit_order: "m < 10 \<Longrightarrow> n < 10 \<Longrightarrow> (of_char (digit_char m) :: nat) < of_char (digit_char n) \<longleftrightarrow> m < n"
  by (simp add: digit_char_def)

lemma pad_inj: "m < 10 ^ k \<Longrightarrow> n < 10 ^ k \<Longrightarrow> pad k m = pad k n \<longleftrightarrow> m = n"
  by (metis num_pad of_nat_eq_iff)

lemma pad_less: "m < 10 ^ k \<Longrightarrow> n < 10 ^ k \<Longrightarrow> text_less (pad k m) (pad k n) \<longleftrightarrow> m < n"
proof (induction k arbitrary: m n)
  case (Suc k)
  have d: "m div 10 < 10 ^ k" "n div 10 < 10 ^ k" using Suc.prems by (simp_all add: less_mult_imp_div_less mult.commute)
  have "text_less (pad (Suc k) m) (pad (Suc k) n) \<longleftrightarrow> m div 10 < n div 10 \<or> m div 10 = n div 10 \<and> m mod 10 < n mod 10"
    using Suc.IH [OF d] pad_inj [OF d] by (simp add: text_less_append digit_order)
  also have "\<dots> \<longleftrightarrow> m < n"
    using mult_div_mod_eq [of 10 m] mult_div_mod_eq [of 10 n] mod_less_divisor [of 10 m] mod_less_divisor [of 10 n] by linarith
  finally show ?case .
qed simp

subsection \<open>Stored texts\<close>

definition storable :: "int \<Rightarrow> bool" where
  "storable time \<longleftrightarrow> 0 \<le> YearFromDay (time div MS_PER_DAY) \<and> YearFromDay (time div MS_PER_DAY) \<le> 9999"

text \<open>The fields of the stored text.\<close>

lemma clock_ranges:
  assumes "0 \<le> ms" and "ms < MS_PER_DAY"
  shows "0 \<le> ms div 3600000" "ms div 3600000 < 24" "0 \<le> ms div 60000 mod 60" "ms div 60000 mod 60 < 60"
    "0 \<le> ms div 1000 mod 60" "ms div 1000 mod 60 < 60" "0 \<le> ms mod 1000" "ms mod 1000 < 1000"
  using assms by (simp_all add: MS_PER_DAY_def pos_imp_zdiv_nonneg_iff)

lemma clock_sum: "ms div 3600000 * 3600000 + ms div 60000 mod 60 * 60000 + ms div 1000 mod 60 * 1000 + ms mod 1000 = (ms :: int)"
proof -
  have "ms div 60000 = ms div 1000 div 60" "ms div 3600000 = ms div 60000 div 60"
    using zdiv_zmult2_eq [of 60 ms 1000] zdiv_zmult2_eq [of 60 ms 60000] by simp_all
  then show ?thesis
    using mult_div_mod_eq [of 1000 ms] mult_div_mod_eq [of 60 "ms div 1000"] mult_div_mod_eq [of 60 "ms div 60000"] by linarith
qed

lemma month_range: "0 \<le> MonthFromDay day" "MonthFromDay day \<le> 11" "1 \<le> DateFromDay day" "DateFromDay day \<le> 31"
  using day_fields [of day] by (auto simp: real_date_def DaysInMonth_def MonthStart_def Let_def split: if_splits)

definition stored_form :: "nat \<Rightarrow> nat \<Rightarrow> nat \<Rightarrow> nat \<Rightarrow> nat \<Rightarrow> nat \<Rightarrow> nat \<Rightarrow> string" where
  "stored_form y m d h i s ms =
     pad 4 y @ CHR ''-'' # pad 2 m @ CHR ''-'' # pad 2 d @ CHR ''T'' # pad 2 h @ CHR '':'' # pad 2 i @ CHR '':'' # pad 2 s @
     CHR ''.'' # pad 3 ms @ ''Z''"

lemma toISOString_form:
  assumes "storable time"
  defines "day \<equiv> time div MS_PER_DAY" and "ms \<equiv> time mod MS_PER_DAY"
  shows "toISOString time = stored_form (nat (YearFromDay day)) (nat (MonthFromDay day + 1)) (nat (DateFromDay day))
    (nat (ms div 3600000)) (nat (ms div 60000 mod 60)) (nat (ms div 1000 mod 60)) (nat (ms mod 1000))"
  using assms by (simp add: toISOString_def storable_def year_text_def date_text_def clock_text_def stored_form_def Let_def)

lemma stored_form_parts:
  fixes y m d h i s ms
  defines "t \<equiv> stored_form y m d h i s ms"
  shows "length t = 24" "take 4 t = pad 4 y" "t ! 4 = CHR ''-''" "take 2 (drop 5 t) = pad 2 m" "t ! 7 = CHR ''-''" "take 2 (drop 8 t) = pad 2 d"
    "t ! 10 = CHR ''T''" "take 2 (drop 11 t) = pad 2 h" "t ! 13 = CHR '':''" "take 2 (drop 14 t) = pad 2 i" "t ! 16 = CHR '':''"
    "take 2 (drop 17 t) = pad 2 s" "t ! 19 = CHR ''.''" "take 3 (drop 20 t) = pad 3 ms" "t ! 23 = CHR ''Z''"
  by (simp_all add: t_def stored_form_def nth_append nth_Cons')

lemma stored_form_stored: "STORED_TIMESTAMP (stored_form y m d h i s ms)"
proof -
  let ?t = "stored_form y m d h i s ms"
  have "take 4 (take 10 ?t) = take 4 ?t" "take 2 (drop 5 (take 10 ?t)) = take 2 (drop 5 ?t)" "drop 8 (take 10 ?t) = take 2 (drop 8 ?t)"
    "take 10 ?t ! 4 = ?t ! 4" "take 10 ?t ! 7 = ?t ! 7" "length (take 10 ?t) = 10"
    by (simp_all add: drop_take stored_form_parts)
  then have "DAY_TEXT (take 10 ?t)" by (simp add: DAY_TEXT_def day_fields_of_def stored_form_parts)
  then show ?thesis by (simp add: STORED_TIMESTAMP_def stored_form_parts)
qed

lemma stored_iff: "STORED_TIMESTAMP (toISOString time) \<longleftrightarrow> storable time"
proof
  assume "STORED_TIMESTAMP (toISOString time)"
  then have "length (toISOString time) = 24" by (simp add: STORED_TIMESTAMP_def)
  then show "storable time"
    by (auto simp: toISOString_def storable_def year_text_def date_text_def clock_text_def Let_def split: if_splits)
next
  assume "storable time"
  then show "STORED_TIMESTAMP (toISOString time)" using toISOString_form stored_form_stored by simp
qed

lemma storedTimestamp_Inr: "storedTimestamp v = Inr s \<longleftrightarrow> (\<exists>time. time_of v = Some time \<and> storable time \<and> s = toISOString time)"
  by (auto simp: storedTimestamp_def stored_iff Let_def split: option.splits)

lemma dateOf_form:
  assumes "0 \<le> y" "y \<le> 9999" "0 \<le> m" "m \<le> 11" "1 \<le> d" "d \<le> 31" "0 \<le> h" "h < 24" "0 \<le> i" "i < 60" "0 \<le> s" "s < 60" "0 \<le> k" "k < 1000"
  shows "dateOf (stored_form (nat y) (nat (m + 1)) (nat d) (nat h) (nat i) (nat s) (nat k)) =
    MakeDay y m d * MS_PER_DAY + h * 3600000 + i * 60000 + s * 1000 + k"
  using assms by (simp add: dateOf_def stored_form_parts num_pad_nat)

lemma dateOf_toISOString:
  assumes "storable time"
  shows "dateOf (toISOString time) = time"
proof -
  define day where "day = time div MS_PER_DAY"
  define ms where "ms = time mod MS_PER_DAY"
  have y: "0 \<le> YearFromDay day" "YearFromDay day \<le> 9999" using assms by (simp_all add: storable_def day_def)
  have ms: "0 \<le> ms" "ms < MS_PER_DAY" by (simp_all add: ms_def MS_PER_DAY_def)
  have "dateOf (toISOString time) = MakeDay (YearFromDay day) (MonthFromDay day) (DateFromDay day) * MS_PER_DAY +
      ms div 3600000 * 3600000 + ms div 60000 mod 60 * 60000 + ms div 1000 mod 60 * 1000 + ms mod 1000"
    unfolding toISOString_form [OF assms] day_def [symmetric] ms_def [symmetric]
    by (rule dateOf_form [OF y month_range clock_ranges [OF ms]])
  also have "\<dots> = day * MS_PER_DAY + ms" unfolding MakeDay_fields using clock_sum [of ms] by (simp only: add.assoc)
  finally show ?thesis by (simp only: day_def ms_def div_mult_mod_eq)
qed

text \<open>Fixed-width fields compare as their numbers do.\<close>

lemma field_less:
  assumes "a < 10 ^ k" and "b < 10 ^ k"
  shows "text_less (pad k a @ c # r) (pad k b @ c # r') \<longleftrightarrow> a < b \<or> a = b \<and> text_less r r'"
  using pad_less [OF assms] pad_inj [OF assms] by (simp add: text_less_append)

lemma stored_form_less:
  assumes "y < 10 ^ 4" "y' < 10 ^ 4" "m < 10 ^ 2" "m' < 10 ^ 2" "d < 10 ^ 2" "d' < 10 ^ 2" "h < 10 ^ 2" "h' < 10 ^ 2"
    and "i < 10 ^ 2" "i' < 10 ^ 2" "s < 10 ^ 2" "s' < 10 ^ 2" "k < 10 ^ 3" "k' < 10 ^ 3"
  shows "text_less (stored_form y m d h i s k) (stored_form y' m' d' h' i' s' k') \<longleftrightarrow>
    y < y' \<or> y = y' \<and> (m < m' \<or> m = m' \<and> (d < d' \<or> d = d' \<and> (h < h' \<or> h = h' \<and> (i < i' \<or> i = i' \<and> (s < s' \<or> s = s' \<and> k < k')))))"
  by (simp only: stored_form_def field_less assms text_less.simps text_less_irrefl simp_thms)

lemma div_less: "0 < n \<Longrightarrow> c < d \<longleftrightarrow> c div n < d div n \<or> c div n = d div n \<and> c mod n < d mod n" for c d n :: int
proof -
  assume n: "0 < n"
  have c: "c < d" if "c div n < d div n"
    using that zdiv_mono1 [of d c n] n by linarith
  have "d < c" if "d div n < c div n"
    using that zdiv_mono1 [of c d n] n by linarith
  moreover have "c < d \<longleftrightarrow> c mod n < d mod n" if "c div n = d div n"
  proof -
    have "c = n * (d div n) + c mod n" "d = n * (d div n) + d mod n" using that mult_div_mod_eq [of n c] by simp_all
    then show ?thesis by linarith
  qed
  ultimately show ?thesis using c by (cases "c div n" "d div n" rule: linorder_cases) auto
qed

lemma clock_less:
  "a < b \<longleftrightarrow> a div 3600000 < b div 3600000 \<or> a div 3600000 = b div 3600000 \<and> (a div 60000 mod 60 < b div 60000 mod 60 \<or>
    a div 60000 mod 60 = b div 60000 mod 60 \<and> (a div 1000 mod 60 < b div 1000 mod 60 \<or>
    a div 1000 mod 60 = b div 1000 mod 60 \<and> a mod 1000 < b mod (1000 :: int)))"
proof -
  have e: "ms div 60000 = ms div 1000 div 60" "ms div 3600000 = ms div 1000 div 60 div 60" for ms :: int
    using zdiv_zmult2_eq [of 60 ms 1000] zdiv_zmult2_eq [of 60 ms 60000] by simp_all
  show ?thesis
    unfolding e using div_less [of 1000 a b] div_less [of 60 "a div 1000" "b div 1000"] div_less [of 60 "a div 1000 div 60" "b div 1000 div 60"]
      mult_div_mod_eq [of 60 "a div 1000"] mult_div_mod_eq [of 60 "b div 1000"]
      mult_div_mod_eq [of 60 "a div 1000 div 60"] mult_div_mod_eq [of 60 "b div 1000 div 60"]
    by (metis zero_less_numeral)
qed

lemma nat_fields: "0 \<le> a \<Longrightarrow> 0 \<le> b \<Longrightarrow> nat a < nat b \<longleftrightarrow> a < b" "0 \<le> a \<Longrightarrow> 0 \<le> b \<Longrightarrow> nat a = nat b \<longleftrightarrow> a = b" for a b :: int
  by auto

lemma int_form_less:
  assumes "0 \<le> y" "y \<le> 9999" "0 \<le> m" "m \<le> 11" "1 \<le> d" "d \<le> 31" "0 \<le> h" "h < 24" "0 \<le> i" "i < 60" "0 \<le> s" "s < 60" "0 \<le> k" "k < 1000"
    and "0 \<le> y'" "y' \<le> 9999" "0 \<le> m'" "m' \<le> 11" "1 \<le> d'" "d' \<le> 31" "0 \<le> h'" "h' < 24" "0 \<le> i'" "i' < 60" "0 \<le> s'" "s' < 60" "0 \<le> k'" "k' < 1000"
  shows "text_less (stored_form (nat y) (nat (m + 1)) (nat d) (nat h) (nat i) (nat s) (nat k))
      (stored_form (nat y') (nat (m' + 1)) (nat d') (nat h') (nat i') (nat s') (nat k')) \<longleftrightarrow>
    y < y' \<or> y = y' \<and> (m < m' \<or> m = m' \<and> (d < d' \<or> d = d' \<and> (h < h' \<or> h = h' \<and> (i < i' \<or> i = i' \<and> (s < s' \<or> s = s' \<and> k < k')))))"
proof -
  have n: "nat y < 10 ^ 4" "nat y' < 10 ^ 4" "nat (m + 1) < 10 ^ 2" "nat (m' + 1) < 10 ^ 2" "nat d < 10 ^ 2" "nat d' < 10 ^ 2"
    "nat h < 10 ^ 2" "nat h' < 10 ^ 2" "nat i < 10 ^ 2" "nat i' < 10 ^ 2" "nat s < 10 ^ 2" "nat s' < 10 ^ 2" "nat k < 10 ^ 3" "nat k' < 10 ^ 3"
    using assms by (simp_all add: nat_less_iff)
  have p: "0 \<le> m + 1" "0 \<le> m' + 1" "0 \<le> d" "0 \<le> d'" using assms by simp_all
  show ?thesis unfolding stored_form_less [OF n] by (simp only: nat_fields assms p add_less_cancel_right add_right_cancel)
qed

lemma fields_order:
  "YearFromDay a < YearFromDay b \<or> YearFromDay a = YearFromDay b \<and> (MonthFromDay a < MonthFromDay b \<or> MonthFromDay a = MonthFromDay b \<and>
     (DateFromDay a < DateFromDay b \<or> DateFromDay a = DateFromDay b \<and> later)) \<longleftrightarrow> a < b \<or> a = b \<and> later"
proof (cases a b rule: linorder_cases)
  case less
  then show ?thesis using fields_less [OF less] by blast
next
  case greater
  then show ?thesis using fields_less [OF greater] by linarith
qed simp

lemma toISOString_less:
  assumes "storable a" and "storable b"
  shows "text_less (toISOString a) (toISOString b) \<longleftrightarrow> a < b"
proof -
  have ms: "0 \<le> t mod MS_PER_DAY" "t mod MS_PER_DAY < MS_PER_DAY" for t by (simp_all add: MS_PER_DAY_def)
  have y: "0 \<le> YearFromDay (t div MS_PER_DAY)" "YearFromDay (t div MS_PER_DAY) \<le> 9999" if "storable t" for t
    using that by (simp_all add: storable_def)
  have "text_less (toISOString a) (toISOString b) \<longleftrightarrow> a div MS_PER_DAY < b div MS_PER_DAY \<or>
      a div MS_PER_DAY = b div MS_PER_DAY \<and> a mod MS_PER_DAY < b mod MS_PER_DAY"
    unfolding toISOString_form [OF assms(1)] toISOString_form [OF assms(2)]
      int_form_less [OF y [OF assms(1)] month_range clock_ranges [OF ms] y [OF assms(2)] month_range clock_ranges [OF ms]]
    by (simp only: fields_order clock_less [of "a mod MS_PER_DAY"])
  then show ?thesis using div_less [of MS_PER_DAY a b] by (simp only: MS_PER_DAY_def zero_less_numeral simp_thms)
qed

subsection \<open>The properties\<close>



text \<open>a timestamp the layer stored on SQLite is read back as the \<open>Date\<close> of the same instant.\<close>

theorem stored_timestamp_roundtrip:
  assumes "storedTimestamp v = Inr s" and "time_of v = Some a" and "key \<in> set (rc_timestamps columns)"
  shows "sqliteValue parse columns key (Some (PStr s)) = Inr (NPrim (PDate a))"
  using assms stored_iff dateOf_toISOString by (auto simp: storedTimestamp_Inr sqliteValue_def)

text \<open>Witness: the last millisecond of 1999.\<close>

theorem stored_timestamp_roundtrip_witness:
  "sqliteValue (\<lambda>s. None) \<lparr>rc_days = [], rc_timestamps = [''createdAt''], rc_booleans = [], rc_json = []\<rparr> ''createdAt''
     (Some (PStr ''1999-12-31T23:59:59.999Z'')) = Inr (NPrim (PDate 946684799999))"
proof -
  have "storedTimestamp (PDate 946684799999) = Inr ''1999-12-31T23:59:59.999Z''" by code_simp
  then show ?thesis by (rule stored_timestamp_roundtrip) (simp_all add: time_of_def)
qed

lemma isCalendarDay_exact: "isCalendarDay y m d \<longleftrightarrow> 1 \<le> y \<and> utc_year y = y \<and> real_date y (m - 1) d"
proof
  assume "isCalendarDay y m d"
  then have e: "1 \<le> y" "YearFromDay (MakeDay (utc_year y) (m - 1) d) = y" "MonthFromDay (MakeDay (utc_year y) (m - 1) d) = m - 1"
    "DateFromDay (MakeDay (utc_year y) (m - 1) d) = d" by (simp_all add: isCalendarDay_def Let_def)
  then have r: "real_date y (m - 1) d" using day_fields [of "MakeDay (utc_year y) (m - 1) d"] by simp
  moreover have "utc_year y = y"
  proof (rule ccontr)
    assume "utc_year y \<noteq> y"
    then have u: "utc_year y = 1900 + y" "y \<le> 99" by (auto simp: utc_year_def split: if_splits)
    have m: "0 \<le> m - 1" "m - 1 \<le> 11" "1 \<le> d" using r by (simp_all add: real_date_def)
    have "DayFromYear (1900 + y) \<le> MakeDay (1900 + y) (m - 1) d"
      using m MonthStart_mono [of 0 "m - 1" "InLeapYear (1900 + y)"] by (simp add: MakeDay_small MonthStart_zero)
    moreover have "MakeDay (1900 + y) (m - 1) d < DayFromYear (y + 1)" using year_of_day(2) [of "MakeDay (1900 + y) (m - 1) d"] e u by simp
    ultimately show False using DayFromYear_mono [of "y + 1" "1900 + y"] by simp
  qed
  ultimately show "1 \<le> y \<and> utc_year y = y \<and> real_date y (m - 1) d" using e by simp
qed (simp add: isCalendarDay_def fields_MakeDay Let_def)


end
