(* ===== verification/Db_Values.thy ===== *)
theory Db_Values
  imports Db_Scope Db_Temporal Canonical_Json
begin

text \<open>
  The values a handler writes (\<open>readValues\<close> of \<open>packages/db/src/store.ts\<close>, \<open>json.ts\<close>, \<open>fileValue\<close> of \<open>file-columns.ts\<close>). What a handler
  passes is an \<open>argument\<close>: a plain object with its own string keys in order, each a data property or an accessor, or anything else. Texts
  have no lone surrogates here and numbers are finite. The text of a number in JSON is the parameter \<open>numText\<close>.
\<close>

subsection \<open>Written JSON\<close>

definition MAX_JSON_DEPTH :: nat where
  "MAX_JSON_DEPTH = 64"

definition json_text :: "string \<Rightarrow> db_error + string" where
  "json_text s = (if CHR 0x00 \<in> set s then Inl (QueryRefusedError Invalid_value) else Inr (json_quote s))"

lemma mapE_cong [fundef_cong]: "xs = ys \<Longrightarrow> (\<And>x. x \<in> set ys \<Longrightarrow> f x = g x) \<Longrightarrow> mapE f xs = mapE g ys"
  by (induction ys arbitrary: xs) (simp_all add: bindE_def split: sum.splits)

fun written :: "(rat \<Rightarrow> string) \<Rightarrow> nat \<Rightarrow> node_val \<Rightarrow> db_error + string" where
  "written numText depth (NPrim (PStr s)) = json_text s"
| "written numText depth NNull = Inr ''null''"
| "written numText depth (NPrim (PBool b)) = Inr (if b then ''true'' else ''false'')"
| "written numText depth (NPrim (PNum q)) = Inr (numText q)"
| "written numText depth (NArr xs) =
     (if depth \<ge> MAX_JSON_DEPTH then Inl (QueryRefusedError Invalid_value)
      else bindE (mapE (written numText (Suc depth)) xs) (\<lambda>items. Inr (''['' @ joinWith '','' items @ '']'')))"
| "written numText depth (NObj kvs) =
     (if depth \<ge> MAX_JSON_DEPTH then Inl (QueryRefusedError Invalid_value)
      else bindE (mapE (\<lambda>kv. bindE (json_text (fst kv)) (\<lambda>k.
             bindE (written numText (Suc depth) (snd kv)) (\<lambda>v. Inr (k @ '':'' @ v)))) kvs)
           (\<lambda>members. Inr (''{'' @ joinWith '','' members @ ''}'')))"
| "written numText depth _ = Inl (QueryRefusedError Invalid_value)"

definition jsonInput :: "(rat \<Rightarrow> string) \<Rightarrow> node_val \<Rightarrow> db_error + string" where
  "jsonInput numText v = written numText 0 v"

text \<open>The same value as JSON: what \<open>JSON.stringify\<close> would write, \<^term>\<open>None\<close> for a value that is not JSON or holds a NUL.\<close>

fun all_some :: "'a option list \<Rightarrow> 'a list option" where
  "all_some [] = Some []"
| "all_some (None # xs) = None"
| "all_some (Some x # xs) = map_option (Cons x) (all_some xs)"

fun json_of :: "node_val \<Rightarrow> json option" where
  "json_of (NPrim (PStr s)) = (if CHR 0x00 \<in> set s then None else Some (JStr s))"
| "json_of NNull = Some JNull"
| "json_of (NPrim (PBool b)) = Some (JBool b)"
| "json_of (NPrim (PNum q)) = Some (JNum q)"
| "json_of (NArr xs) = map_option JArr (all_some (map json_of xs))"
| "json_of (NObj kvs) =
     map_option JObj (all_some (map (\<lambda>kv. if CHR 0x00 \<in> set (fst kv) then None else map_option (Pair (fst kv)) (json_of (snd kv))) kvs))"
| "json_of _ = None"

fun nesting :: "node_val \<Rightarrow> nat" where
  "nesting (NArr xs) = Suc (foldr max (map nesting xs) 0)"
| "nesting (NObj kvs) = Suc (foldr max (map (\<lambda>kv. nesting (snd kv)) kvs) 0)"
| "nesting _ = 0"

subsection \<open>Arguments\<close>

text \<open>A value a handler gives: absent, a file reference it holds (the file's id and kind), or plain data.\<close>

datatype input = IUndefined | IFile string string | IValue node_val

datatype 'a argument = NotPlain | Plain "(string \<times> 'a option) list"

definition temporalText :: "table_model \<Rightarrow> string \<Rightarrow> string \<Rightarrow> db_error + string" where
  "temporalText m name s =
     (if name \<in> set (tm_dates m) then dayInput s else if name \<in> set (tm_timestamps m) then timestampInput s else Inr s)"

definition fileValue :: "table_model \<Rightarrow> string \<Rightarrow> input \<Rightarrow> db_error + prim option" where
  "fileValue m name v =
     (case v of
        IValue NNull \<Rightarrow> Inr None
      | IFile fid kind \<Rightarrow> if map_of (tm_files m) name = Some kind then Inr (Some (PStr fid)) else Inl (QueryRefusedError File_value)
      | _ \<Rightarrow> Inl (QueryRefusedError File_value))"

text \<open>One value of a key the caller may write; an absent one is left out.\<close>

definition copied_value :: "(rat \<Rightarrow> string) \<Rightarrow> table_model \<Rightarrow> string \<times> input \<Rightarrow> db_error + (string \<times> prim option) list" where
  "copied_value numText m kv =
     (let name = fst kv; put = (\<lambda>v. Inr [(name, v)]) in
      if snd kv = IUndefined then Inr []
      else if map_of (tm_files m) name \<noteq> None then bindE (fileValue m name (snd kv)) put
      else if name \<in> set (tm_json m) then
        (case snd kv of
           IValue NNull \<Rightarrow> put None
         | IValue v \<Rightarrow> bindE (jsonInput numText v) (\<lambda>s. put (Some (PStr s)))
         | _ \<Rightarrow> Inl (QueryRefusedError Invalid_value))
      else
        (case snd kv of
           IValue NNull \<Rightarrow> put None
         | IValue (NPrim (PStr s)) \<Rightarrow> bindE (temporalText m name s) (\<lambda>t. put (Some (PStr t)))
         | IValue (NPrim p) \<Rightarrow> put (Some p)
         | _ \<Rightarrow> Inl (QueryRefusedError Invalid_arg)))"

text \<open>Every key is checked before any value is read.\<close>

definition readValues :: "(rat \<Rightarrow> string) \<Rightarrow> input argument \<Rightarrow> string list \<Rightarrow> table_model \<Rightarrow> db_error + (string \<times> prim option) list" where
  "readValues numText arg allowed m =
     (case arg of
        NotPlain \<Rightarrow> Inl (QueryRefusedError Invalid_arg)
      | Plain props \<Rightarrow>
          bindE (mapE (\<lambda>(key, property). case property of
              None \<Rightarrow> Inl (QueryRefusedError Invalid_arg)
            | Some v \<Rightarrow> if key \<in> set allowed then Inr (key, v) else Inl (QueryRefusedError Unknown_column)) props) (\<lambda>given.
          bindE (mapE (copied_value numText m) given) (\<lambda>vs. Inr (concat vs))))"

subsection \<open>Bound values\<close>

definition boundTimestamp :: "prim \<Rightarrow> db_error + prim" where
  "boundTimestamp v =
     (case v of
        PStr _ \<Rightarrow> bindE (storedTimestamp v) (\<lambda>s. Inr (PStr s))
      | PDate _ \<Rightarrow> bindE (storedTimestamp v) (\<lambda>s. Inr (PStr s))
      | _ \<Rightarrow> Inl (QueryRefusedError Invalid_value))"

definition boundValues :: "dialect \<Rightarrow> table_model \<Rightarrow> (string \<times> prim option) list \<Rightarrow> db_error + (string \<times> prim option) list" where
  "boundValues d m vs =
     (if d = Postgres \<or> tm_timestamps m = [] then Inr vs
      else mapE (\<lambda>(name, v). case v of
             None \<Rightarrow> Inr (name, v)
           | Some p \<Rightarrow> if name \<in> set (tm_timestamps m) then bindE (boundTimestamp p) (\<lambda>q. Inr (name, Some q)) else Inr (name, v)) vs)"

definition boundTerm :: "table_model \<Rightarrow> cond_term \<Rightarrow> db_error + cond_term" where
  "boundTerm m t =
     (case t of
        Compare name op v \<Rightarrow>
          if name \<notin> set (tm_timestamps m) then Inr t
          else (case v of
            NullValue \<Rightarrow> Inr t
          | OneValue p \<Rightarrow> bindE (boundTimestamp p) (\<lambda>q. Inr (Compare name op (OneValue q)))
          | ManyValues ps \<Rightarrow> bindE (mapE boundTimestamp ps) (\<lambda>qs. Inr (Compare name op (ManyValues qs))))
      | _ \<Rightarrow> Inr t)"

definition boundTerms :: "dialect \<Rightarrow> table_model \<Rightarrow> cond_term list \<Rightarrow> db_error + cond_term list" where
  "boundTerms d m ts = (if d = Postgres \<or> tm_timestamps m = [] then Inr ts else mapE (boundTerm m) ts)"

definition boundConditions :: "dialect \<Rightarrow> table_model \<Rightarrow> condition list \<Rightarrow> db_error + condition list" where
  "boundConditions d m cs =
     (if d = Postgres \<or> tm_timestamps m = [] then Inr cs
      else mapE (\<lambda>c. case c of
             Single t \<Rightarrow> bindE (boundTerm m t) (\<lambda>u. Inr (Single u))
           | condition.AnyOf ts \<Rightarrow> bindE (mapE (boundTerm m) ts) (\<lambda>us. Inr (condition.AnyOf us))) cs)"

definition boundState :: "dialect \<Rightarrow> table_model \<Rightarrow> (string \<times> table_model) list \<Rightarrow> select_state \<Rightarrow> db_error + select_state" where
  "boundState d m joinable st =
     (if d = Postgres then Inr st
      else
        bindE (mapE (\<lambda>j. case map_of joinable (js_table (jn_join j)) of
            None \<Rightarrow> Inr j
          | Some child \<Rightarrow> bindE (boundConditions d child (jn_conditions j)) (\<lambda>js. Inr (j\<lparr>jn_conditions := js\<rparr>))) (ss_joins st)) (\<lambda>joins.
        bindE (boundConditions d m (ss_conditions st)) (\<lambda>cs. Inr (st\<lparr>ss_conditions := cs, ss_joins := joins\<rparr>))))"

subsection \<open>The properties\<close>

lemma foldr_max: "foldr max (ns :: nat list) 0 \<le> k \<longleftrightarrow> (\<forall>n \<in> set ns. n \<le> k)"
  by (induction ns) auto

lemma all_some_map: "all_some (map f xs) = (if \<exists>x \<in> set xs. f x = None then None else Some (map (\<lambda>x. the (f x)) xs))"
proof (induction xs)
  case (Cons x xs)
  then show ?case by (cases "f x") auto
qed simp

lemma mapE_map:
  assumes "\<And>x. x \<in> set xs \<Longrightarrow> f x = (if P x then Inr (g x) else Inl e)"
  shows "mapE f xs = (if \<forall>x \<in> set xs. P x then Inr (map g xs) else Inl e)"
  using assms by (induction xs) auto

text \<open>A value within the depth is written as its JSON.\<close>

definition writes :: "(rat \<Rightarrow> string) \<Rightarrow> nat \<Rightarrow> node_val \<Rightarrow> db_error + string" where
  "writes numText depth v =
     (if json_of v \<noteq> None \<and> depth + nesting v \<le> MAX_JSON_DEPTH then Inr (stringify numText (the (json_of v)))
      else Inl (QueryRefusedError Invalid_value))"

lemma written_exact: "depth \<le> MAX_JSON_DEPTH \<Longrightarrow> written numText depth v = writes numText depth v"
proof (induction numText depth v rule: written.induct)
  case (5 numText depth xs)
  show ?case
  proof (cases "depth \<ge> MAX_JSON_DEPTH")
    case False
    let ?P = "\<lambda>x. json_of x \<noteq> None \<and> Suc depth + nesting x \<le> MAX_JSON_DEPTH"
    have "written numText (Suc depth) x = (if ?P x then Inr (stringify numText (the (json_of x))) else Inl (QueryRefusedError Invalid_value))"
      if "x \<in> set xs" for x
      using "5.IH" [OF False that] False by (simp add: writes_def)
    then have "mapE (written numText (Suc depth)) xs =
        (if \<forall>x \<in> set xs. ?P x then Inr (map (\<lambda>x. stringify numText (the (json_of x))) xs) else Inl (QueryRefusedError Invalid_value))"
      by (rule mapE_map)
    moreover have "(\<forall>x \<in> set xs. ?P x) \<longleftrightarrow> json_of (NArr xs) \<noteq> None \<and> depth + nesting (NArr xs) \<le> MAX_JSON_DEPTH"
      using False foldr_max [of "map nesting xs" "MAX_JSON_DEPTH - Suc depth"] by (auto simp: all_some_map)
    ultimately show ?thesis using False by (auto simp: writes_def all_some_map comp_def)
  qed (simp add: writes_def)
next
  case (6 numText depth kvs)
  show ?case
  proof (cases "depth \<ge> MAX_JSON_DEPTH")
    case False
    let ?P = "\<lambda>kv. CHR 0x00 \<notin> set (fst kv) \<and> json_of (snd kv) \<noteq> None \<and> Suc depth + nesting (snd kv) \<le> MAX_JSON_DEPTH"
    have "bindE (json_text (fst kv)) (\<lambda>k. bindE (written numText (Suc depth) (snd kv)) (\<lambda>v. Inr (k @ '':'' @ v))) =
        (if ?P kv then Inr (json_quote (fst kv) @ '':'' @ stringify numText (the (json_of (snd kv)))) else Inl (QueryRefusedError Invalid_value))"
      if "kv \<in> set kvs" for kv
      using "6.IH" [OF False that] False by (auto simp: writes_def json_text_def)
    then have "mapE (\<lambda>kv. bindE (json_text (fst kv)) (\<lambda>k. bindE (written numText (Suc depth) (snd kv)) (\<lambda>v. Inr (k @ '':'' @ v)))) kvs =
        (if \<forall>kv \<in> set kvs. ?P kv then Inr (map (\<lambda>kv. json_quote (fst kv) @ '':'' @ stringify numText (the (json_of (snd kv)))) kvs)
         else Inl (QueryRefusedError Invalid_value))"
      by (rule mapE_map)
    moreover have "(\<forall>kv \<in> set kvs. ?P kv) \<longleftrightarrow> json_of (NObj kvs) \<noteq> None \<and> depth + nesting (NObj kvs) \<le> MAX_JSON_DEPTH"
      using False foldr_max [of "map (\<lambda>kv. nesting (snd kv)) kvs" "MAX_JSON_DEPTH - Suc depth"] by (auto simp: all_some_map split: if_splits)
    moreover have "stringify numText (the (json_of (NObj kvs))) =
        ''{'' @ joinWith '','' (map (\<lambda>kv. json_quote (fst kv) @ '':'' @ stringify numText (the (json_of (snd kv)))) kvs) @ ''}''"
      if "\<forall>kv \<in> set kvs. ?P kv"
      using that by (fastforce simp: all_some_map comp_def intro!: arg_cong [of _ _ "joinWith '',''"])
    ultimately show ?thesis using False by (auto simp: writes_def)
  qed (simp add: writes_def)
qed (auto simp: writes_def json_text_def)

text \<open>A JSON column takes exactly the values that are JSON, nest at most 64 deep and hold no NUL character, and binds the text
  \<open>JSON.stringify\<close> writes for them.\<close>

theorem jsonInput_exact:
  "jsonInput numText v =
     (case json_of v of
        Some j \<Rightarrow> if nesting v \<le> MAX_JSON_DEPTH then Inr (stringify numText j) else Inl (QueryRefusedError Invalid_value)
      | None \<Rightarrow> Inl (QueryRefusedError Invalid_value))"
  by (auto simp: jsonInput_def written_exact writes_def split: option.splits)

end
