(* ===== verification/Db_Execution.thy ===== *)
theory Db_Execution
  imports Db_Values "HOL-Library.AList"
begin

text \<open>
  What the layer's statements do. A session (\<open>Session.run\<close> of \<open>packages/db/src/database.ts\<close>) passes a tree through the guard and runs it; the
  trees of the writes, and of the reads around them, are given SQL's meaning over tables that are lists of rows. What a database adds is the
  parameter \<open>sql_env\<close>: how it compares values, the defaults it fills, its cast of a value to text, and what it makes of the tables a
  statement leaves, which is a refusal when a constraint fails and includes the rows that follow a foreign key. One transaction runs at a time.
\<close>

subsection \<open>Tables\<close>

type_synonym sql_tables = "(string \<times> sql_row list) list"
type_synonym answer_row = "(string \<times> prim option) list"

record sql_env =
  se_opr :: sql_operators
  se_defaults :: "string \<Rightarrow> sql_row"
  se_cast :: "prim \<Rightarrow> prim"
  se_settle :: "string \<Rightarrow> sql_tables \<Rightarrow> sql_tables option"

definition table_rows :: "sql_tables \<Rightarrow> string \<Rightarrow> sql_row list" where
  "table_rows s t = (case map_of s t of None \<Rightarrow> [] | Some rows \<Rightarrow> rows)"

definition put_rows :: "string \<Rightarrow> sql_row list \<Rightarrow> sql_tables \<Rightarrow> sql_tables" where
  "put_rows t rows s = AList.update t rows s"

lemma table_rows_put [simp]: "table_rows (put_rows t rows s) u = (if u = t then rows else table_rows s u)"
  by (simp add: table_rows_def put_rows_def update_conv')

text \<open>A null is an absent cell.\<close>

definition set_cell :: "string \<Rightarrow> prim option \<Rightarrow> sql_row \<Rightarrow> sql_row" where
  "set_cell name v r = (case v of None \<Rightarrow> AList.delete name r | Some p \<Rightarrow> AList.update name p r)"

lemma map_of_set_cell [simp]: "map_of (set_cell name v r) c = (if c = name then v else map_of r c)"
  by (simp add: set_cell_def update_conv' delete_conv' split: option.splits)

definition settled :: "sql_env \<Rightarrow> string \<Rightarrow> sql_row list \<Rightarrow> answer_row list \<Rightarrow> sql_tables \<Rightarrow> db_error + answer_row list \<times> sql_tables" where
  "settled env t rows answers s =
     (case se_settle env t (put_rows t rows s) of None \<Rightarrow> Inl DatabaseError | Some s' \<Rightarrow> Inr (answers, s'))"

subsection \<open>Statements\<close>

definition row_matches :: "sql_env \<Rightarrow> string \<Rightarrow> node_val option \<Rightarrow> sql_row \<Rightarrow> bool" where
  "row_matches env t whr r \<longleftrightarrow> whr = None \<or> cond3 (se_opr env) [(t, r)] (read whr ''where'') = Some True"

definition expression :: "sql_env \<Rightarrow> sql_tuple \<Rightarrow> node_val option \<Rightarrow> prim option" where
  "expression env e n = (if kindOf n = Some ''CastNode'' then map_option (se_cast env) (operand e (read n ''expression'')) else operand e n)"

definition selected :: "sql_env \<Rightarrow> string \<Rightarrow> sql_row \<Rightarrow> node_val \<Rightarrow> string \<times> prim option" where
  "selected env t r n =
     (let sel = read (Some n) ''selection'' in
      if kindOf sel = Some ''AliasNode''
      then (text_of (read (read sel ''alias'') ''name''), expression env [(t, r)] (read sel ''node''))
      else (column_text (read sel ''column''), expression env [(t, r)] sel))"

definition project :: "sql_env \<Rightarrow> string \<Rightarrow> node_val option \<Rightarrow> sql_row \<Rightarrow> answer_row" where
  "project env t selections r = map (selected env t r) (items_of selections)"

definition limited :: "node_val option \<Rightarrow> 'a list \<Rightarrow> 'a list" where
  "limited limit xs = (case operand [] (read limit ''limit'') of Some (PNum q) \<Rightarrow> take (nat \<lfloor>q\<rfloor>) xs | _ \<Rightarrow> xs)"

definition exec_select :: "sql_env \<Rightarrow> node_val \<Rightarrow> sql_tables \<Rightarrow> answer_row list" where
  "exec_select env n s =
     (let t = (case items_of (read (read (Some n) ''from'') ''froms'') of f # _ \<Rightarrow> table_text (Some f) | [] \<Rightarrow> []) in
      limited (read (Some n) ''limit'')
        (map (project env t (read (Some n) ''selections'')) (filter (row_matches env t (read (Some n) ''where'')) (table_rows s t))))"

text \<open>Every value of an update is read from the row as it was.\<close>

definition update_value :: "sql_tuple \<Rightarrow> node_val option \<Rightarrow> prim option" where
  "update_value e n =
     (if kindOf n = Some ''BinaryOperationNode''
      then (case (operand e (read n ''leftOperand''), operand e (read n ''rightOperand'')) of
              (Some (PNum a), Some (PNum b)) \<Rightarrow> Some (PNum (a + b)) | _ \<Rightarrow> None)
      else operand e n)"

definition updated_row :: "string \<Rightarrow> node_val list \<Rightarrow> sql_row \<Rightarrow> sql_row" where
  "updated_row t updates r =
     foldl (\<lambda>acc u. set_cell (column_text (read (Some u) ''column'')) (update_value [(t, r)] (read (Some u) ''value'')) acc) r updates"

definition exec_update :: "sql_env \<Rightarrow> node_val \<Rightarrow> sql_tables \<Rightarrow> db_error + answer_row list \<times> sql_tables" where
  "exec_update env n s =
     (let t = table_text (read (Some n) ''table''); hit = row_matches env t (read (Some n) ''where'');
          change = updated_row t (items_of (read (Some n) ''updates'')); rows = table_rows s t in
      settled env t (map (\<lambda>r. if hit r then change r else r) rows)
        (map (\<lambda>r. project env t (read (read (Some n) ''returning'') ''selections'') (change r)) (filter hit rows)) s)"

definition exec_delete :: "sql_env \<Rightarrow> node_val \<Rightarrow> sql_tables \<Rightarrow> db_error + answer_row list \<times> sql_tables" where
  "exec_delete env n s =
     (let t = (case items_of (read (read (Some n) ''from'') ''froms'') of f # _ \<Rightarrow> table_text (Some f) | [] \<Rightarrow> []);
          hit = row_matches env t (read (Some n) ''where''); rows = table_rows s t in
      settled env t (filter (\<lambda>r. \<not> hit r) rows) (map (project env t (read (read (Some n) ''returning'') ''selections'')) (filter hit rows)) s)"

definition inserted_row :: "sql_row \<Rightarrow> (string \<times> prim option) list \<Rightarrow> sql_row" where
  "inserted_row defaults vs =
     concat (map (\<lambda>(c, v). case v of None \<Rightarrow> [] | Some p \<Rightarrow> [(c, p)]) vs) @ filter (\<lambda>(c, _). c \<notin> fst ` set vs) defaults"

definition conflicts :: "sql_env \<Rightarrow> string list \<Rightarrow> sql_row \<Rightarrow> sql_row \<Rightarrow> bool" where
  "conflicts env cols new r \<longleftrightarrow> list_all (\<lambda>c. compare3 (se_opr env) ''='' (map_of r c) (map_of new c) = Some True) cols"

definition exec_insert :: "sql_env \<Rightarrow> node_val \<Rightarrow> sql_tables \<Rightarrow> db_error + answer_row list \<times> sql_tables" where
  "exec_insert env n s =
     (let t = table_text (read (Some n) ''into'');
          cols = map (\<lambda>c. column_text (Some c)) (items_of (read (Some n) ''columns''));
          vals = (case items_of (read (read (Some n) ''values'') ''values'') of
                    v # _ \<Rightarrow> map (\<lambda>x. operand [] (Some x)) (items_of (read (Some v) ''values'')) | [] \<Rightarrow> []);
          new = inserted_row (se_defaults env t) (zip cols vals); rows = table_rows s t in
      if (case read (Some n) ''onConflict'' of
            None \<Rightarrow> False
          | Some c \<Rightarrow> list_ex (conflicts env (map (\<lambda>c. column_text (Some c)) (items_of (read (Some c) ''columns''))) new) rows)
      then Inr ([], s)
      else settled env t (rows @ [new]) [project env t (read (read (Some n) ''returning'') ''selections'') new] s)"

definition execute :: "sql_env \<Rightarrow> node_val \<Rightarrow> sql_tables \<Rightarrow> db_error + answer_row list \<times> sql_tables" where
  "execute env n s =
     (if kindOf (Some n) = Some ''SelectQueryNode'' then Inr (exec_select env n s, s)
      else if kindOf (Some n) = Some ''UpdateQueryNode'' then exec_update env n s
      else if kindOf (Some n) = Some ''DeleteQueryNode'' then exec_delete env n s
      else if kindOf (Some n) = Some ''InsertQueryNode'' then exec_insert env n s
      else Inl DatabaseError)"

subsection \<open>Sessions\<close>

text \<open>What an operation runs in: the dialect, whether the request may only read, the database, the key \<open>uuidv7\<close> makes for it and the
  text of numbers.\<close>

record store_runtime =
  rt_dialect :: dialect
  rt_readOnly :: bool
  rt_env :: sql_env
  rt_uuid :: string
  rt_numText :: "rat \<Rightarrow> string"

definition session_run :: "store_runtime \<Rightarrow> node_val \<Rightarrow> guard_context \<Rightarrow> sql_tables \<Rightarrow> db_error + answer_row list \<times> sql_tables" where
  "session_run rt n c s =
     bindE (assertAllowedTree n c) (\<lambda>_.
     if rt_readOnly rt \<and> (gc_root c \<noteq> SelectRoot \<or> gc_lock c \<noteq> None) then Inl (QueryRefusedError Read_only)
     else execute (rt_env rt) n s)"

text \<open>A transaction keeps what its work wrote when the work answers, and nothing when it throws. What an operation checks before it opens
  its transaction writes nothing either, so it is part of the work here.\<close>

definition run_write :: "(sql_tables \<Rightarrow> db_error + 'a \<times> sql_tables) \<Rightarrow> sql_tables \<Rightarrow> (db_error + 'a) \<times> sql_tables" where
  "run_write work s = (case work s of Inl e \<Rightarrow> (Inl e, s) | Inr (x, s') \<Rightarrow> (Inr x, s'))"

subsection \<open>The layer's statements\<close>

lemma column_text_node [simp]: "column_text (Some (columnNode c)) = c"
  by (simp add: column_text_def columnNode_def identifierNode_def)

lemma table_text_node [simp]: "table_text (Some (tableNode t)) = t"
  by (simp add: table_text_def tableNode_def identifierNode_def)

lemma row_matches_where [simp]:
  "row_matches env t (Some (scopedWhere None scope)) r \<longleftrightarrow> holds (se_opr env) [(t, r)] scope"
  "row_matches env t (Some (whereNode n)) r \<longleftrightarrow> holds (se_opr env) [(t, r)] n"
  by (simp_all add: row_matches_def scopedWhere_def whereNode_def holds_def)

lemma row_matches_conditions:
  "single (Some scope) \<Longrightarrow> row_matches env t (Some (scopedWhere (Some c) scope)) r \<longleftrightarrow>
     holds (se_opr env) [(t, r)] c \<and> holds (se_opr env) [(t, r)] scope"
  by (simp add: scopedWhere_def)

end
