(* ===== verification/Db_Store.thy ===== *)
theory Db_Store
  imports Db_Execution
begin

text \<open>
  The stores of \<open>packages/db/src/store.ts\<close>: the insert, update, move and remove of a dimension table and of a child table, the insert of an
  application table and the insert with \<open>onConflict\<close>, one row's read, and the locator of a dimension. A store's own runner has no file binding,
  so a write of a file column is refused after its statement and rolls back.
\<close>

subsection \<open>Contexts\<close>

record table_context =
  cx_model :: table_model
  cx_parent :: "table_model option"
  cx_destination :: "table_model option"
  cx_joins :: "(string \<times> fk_pair list) list"

definition guard :: "table_context \<Rightarrow> root_kind \<Rightarrow> node_val option \<Rightarrow> db_error + guard_context" where
  "guard cx kind scope =
     (if tm_view (cx_model cx) \<and> kind \<noteq> SelectRoot then Inl (QueryRefusedError Read_only)
      else Inr \<lparr>gc_root = kind, gc_table = tm_name (cx_model cx), gc_joins = if kind = SelectRoot then cx_joins cx else [],
             gc_scope = scope, gc_lock = None, gc_onConflict = False\<rparr>)"

text \<open>A statement of the context's table, under its guard.\<close>

definition guarded_run :: "store_runtime \<Rightarrow> table_context \<Rightarrow> node_val \<Rightarrow> root_kind \<Rightarrow> node_val option \<Rightarrow> sql_tables \<Rightarrow>
    db_error + answer_row list \<times> sql_tables" where
  "guarded_run rt cx n kind scope s = bindE (guard cx kind scope) (\<lambda>c. session_run rt n c s)"

definition safe_integer :: "rat \<Rightarrow> bool" where
  "safe_integer q \<longleftrightarrow> q = of_int \<lfloor>q\<rfloor> \<and> \<bar>\<lfloor>q\<rfloor>\<bar> \<le> 9007199254740991"

text \<open>The \<open>expectVersion\<close> of the caller's options, \<^term>\<open>None\<close> when there is none.\<close>

definition versionArgument :: "table_model \<Rightarrow> prim option \<Rightarrow> db_error + node_val option" where
  "versionArgument m expected =
     (case tm_version m of
        None \<Rightarrow> Inr None
      | Some version \<Rightarrow>
          (case expected of
             Some (PNum q) \<Rightarrow>
               if safe_integer q then Inr (Some (binaryNode (column (tm_name m) version) ''='' (valueNode (Some (PNum q)))))
               else Inl (QueryRefusedError Version_required)
           | _ \<Rightarrow> Inl (QueryRefusedError Version_required)))"

definition answer :: "table_model \<Rightarrow> db_error + node_val" where
  "answer m = bindE (keyOf m) (\<lambda>key. Inr (acknowledgement (tm_name m) key (tm_version m)))"

definition checkVersion :: "table_model \<Rightarrow> answer_row \<Rightarrow> db_error + unit" where
  "checkVersion m row =
     (if tm_version m = None then Inr ()
      else (case map_of row ''version'' of
              Some (Some (PNum q)) \<Rightarrow> require (safe_integer q) PolicyError
            | _ \<Rightarrow> Inl PolicyError))"

text \<open>The file references of a write, for a runner without a file binding.\<close>

definition referenceFiles :: "table_model \<Rightarrow> (string \<times> prim option) list \<Rightarrow> db_error + unit" where
  "referenceFiles m vs =
     (if list_ex (\<lambda>(name, kind). case map_of vs name of Some (Some (PStr fid)) \<Rightarrow> True | _ \<Rightarrow> False) (tm_files m)
      then Inl (QueryRefusedError File_value) else Inr ())"

text \<open>The row a select answers, as \<open>row_columns\<close> are read back; then whether there is one.\<close>

definition rowColumnsOf :: "table_model \<Rightarrow> row_columns" where
  "rowColumnsOf m = \<lparr>rc_days = tm_dates m, rc_timestamps = tm_timestamps m, rc_booleans = tm_booleans m, rc_json = tm_json m\<rparr>"

definition selectOne :: "(string \<Rightarrow> node_val option) \<Rightarrow> store_runtime \<Rightarrow> table_context \<Rightarrow> node_val \<Rightarrow> sql_tables \<Rightarrow>
    db_error + (string \<times> node_val) list" where
  "selectOne parse rt cx scope s =
     (let m = cx_model cx;
          state = \<lparr>ss_table = tm_name m, ss_columns = None, ss_conditions = [], ss_orderBy = [], ss_limit = None, ss_offset = None, ss_joins = []\<rparr> in
      bindE (selectNode state (tm_visible m) scope None (tm_dates m) (rt_dialect rt)) (\<lambda>n.
      bindE (guarded_run rt cx n SelectRoot (Some scope) s) (\<lambda>(rows, _).
      bindE (answerRows parse (rt_dialect rt) (rowColumnsOf m) rows) (\<lambda>answered.
      case answered of [] \<Rightarrow> Inl NotFoundError | row # _ \<Rightarrow> Inr row))))"

subsection \<open>Inserts\<close>

definition stampInsert :: "table_model \<Rightarrow> string \<Rightarrow> (string \<times> prim option) list \<Rightarrow> string \<Rightarrow> string \<Rightarrow> (string \<times> prim option) list" where
  "stampInsert m who vs key keyValue =
     (let keyed = AList.update key (Some (PStr keyValue)) vs;
          versioned = (case tm_version m of None \<Rightarrow> keyed | Some v \<Rightarrow> AList.update v (Some (PNum 1)) keyed) in
      case tm_createdBy m of None \<Rightarrow> versioned | Some c \<Rightarrow> AList.update c (Some (PStr who)) versioned)"

definition stampChain :: "(string \<times> prim option) list \<Rightarrow> (container \<times> string) list \<Rightarrow> (string \<times> prim option) list" where
  "stampChain row vs = foldl (\<lambda>acc (link, v). AList.update (co_column link) (Some (PStr v)) acc) row vs"

text \<open>The destination is locked for share where the Ref's chain says it lies.\<close>

definition lockDestination :: "store_runtime \<Rightarrow> table_context \<Rightarrow> ref_grant \<Rightarrow> sql_tables \<Rightarrow> db_error + unit" where
  "lockDestination rt cx r s =
     (case cx_destination cx of
        None \<Rightarrow> Inr ()
      | Some owner \<Rightarrow>
          bindE (selfLinks owner) (\<lambda>links.
          bindE (linkValues links r) (\<lambda>vs.
          bindE (linksPredicate (tm_name owner) vs) (\<lambda>scope.
          bindE (keyOf owner) (\<lambda>key.
          bindE (session_run rt (lockNode (tm_name owner) key scope True)
              \<lparr>gc_root = SelectRoot, gc_table = tm_name owner, gc_joins = [], gc_scope = Some scope, gc_lock = Some ShareLock,
               gc_onConflict = False\<rparr> s) (\<lambda>(rows, _).
          require (rows \<noteq> []) NotFoundError))))))"

definition lock_for :: "store_runtime \<Rightarrow> table_context \<Rightarrow> ref_grant option \<Rightarrow> sql_tables \<Rightarrow> db_error + unit" where
  "lock_for rt cx destination s = (case destination of None \<Rightarrow> Inr () | Some r \<Rightarrow> lockDestination rt cx r s)"

definition insertRow :: "store_runtime \<Rightarrow> table_context \<Rightarrow> (string \<times> prim option) list \<Rightarrow> ref_grant option \<Rightarrow> sql_tables \<Rightarrow>
    db_error + answer_row \<times> sql_tables" where
  "insertRow rt cx given destination s =
     (let m = cx_model cx in
      bindE (boundValues (rt_dialect rt) m given) (\<lambda>vs.
      bindE (lock_for rt cx destination s) (\<lambda>_.
      bindE (answer m) (\<lambda>returning.
      bindE (guarded_run rt cx (insertNode (tm_name m) vs returning None) InsertRoot None s) (\<lambda>(rows, s').
      case rows of
        [] \<Rightarrow> Inl (QueryRefusedError Unexpected_row)
      | row # _ \<Rightarrow>
          bindE (checkVersion m row) (\<lambda>_. bindE (referenceFiles m vs) (\<lambda>_. Inr (row, s'))))))))"

record on_conflict =
  oc_columns :: "string list"
  oc_update :: bool
  oc_updates :: "(string \<times> prim option) list"

datatype conflict_field = FieldColumns "string list" | FieldText string | FieldOther

definition plainOptions :: "'a argument \<Rightarrow> string list \<Rightarrow> db_error + (string \<times> 'a) list" where
  "plainOptions arg allowed =
     (case arg of
        NotPlain \<Rightarrow> Inl (QueryRefusedError Invalid_arg)
      | Plain props \<Rightarrow> mapE (\<lambda>(key, property). if key \<notin> set allowed then Inl (QueryRefusedError Invalid_arg)
          else (case property of None \<Rightarrow> Inl (QueryRefusedError Invalid_arg) | Some v \<Rightarrow> Inr (key, v))) props)"

definition conflict_columns :: "table_model \<Rightarrow> conflict_field option \<Rightarrow> db_error + string list" where
  "conflict_columns m field =
     (case field of
        Some (FieldColumns names) \<Rightarrow>
          bindE (mapE (\<lambda>name. if name \<notin> set (tm_columns m) \<or> name \<in> set (tm_json m) then Inl (QueryRefusedError On_conflict) else Inr name) names)
            (\<lambda>cols. if cols = [] then Inl (QueryRefusedError On_conflict) else Inr cols)
      | _ \<Rightarrow> Inl (QueryRefusedError On_conflict))"

definition conflict_mode :: "conflict_field option \<Rightarrow> db_error + bool" where
  "conflict_mode field =
     (if field = Some (FieldText ''nothing'') then Inr False else if field = Some (FieldText ''update'') then Inr True
      else Inl (QueryRefusedError On_conflict))"

definition onConflictOf :: "table_model \<Rightarrow> conflict_field argument argument option \<Rightarrow> string \<Rightarrow> (string \<times> prim option) list \<Rightarrow>
    db_error + on_conflict option" where
  "onConflictOf m options action given =
     (case options of
        None \<Rightarrow> Inr None
      | Some opts \<Rightarrow>
          bindE (plainOptions opts [''onConflict'']) (\<lambda>props.
          case map_of props ''onConflict'' of
            None \<Rightarrow> Inr None
          | Some inner \<Rightarrow>
              bindE (plainOptions inner [''columns'', ''do'']) (\<lambda>conflict.
              bindE (conflict_columns m (map_of conflict ''columns'')) (\<lambda>cols.
              bindE (conflict_mode (map_of conflict ''do'')) (\<lambda>upd.
              bindE (require (\<not> upd \<or> action \<in> set (am_update (tm_actions m))) (CapabilityError Wrong_action)) (\<lambda>_.
              Inr (Some \<lparr>oc_columns = cols, oc_update = upd,
                oc_updates = (if upd then concat (map (\<lambda>name. case map_of given name of None \<Rightarrow> [] | Some v \<Rightarrow> [(name, v)]) (tm_update m))
                              else [])\<rparr>)))))))"

text \<open>The rows a conflict may update: those in the containment the insert stamped.\<close>

definition value_terms :: "string \<Rightarrow> (string \<times> prim option) list \<Rightarrow> string list \<Rightarrow> db_error + node_val list" where
  "value_terms table vs names =
     mapE (\<lambda>name. case map_of vs name of Some (Some v) \<Rightarrow> Inr (equals table name v) | _ \<Rightarrow> Inl (QueryRefusedError On_conflict)) names"

definition insertedScope :: "table_model \<Rightarrow> (string \<times> prim option) list \<Rightarrow> db_error + node_val" where
  "insertedScope m vs =
     bindE (value_terms (tm_name m) vs
       (map co_column (tm_chain m) @ (case tm_scope m of DimensionScope _ key None \<Rightarrow> [key] | _ \<Rightarrow> []))) (\<lambda>terms.
     if terms = [] then Inr everything else allOf terms)"

datatype insert_answer = Inserted answer_row | Updated answer_row | NothingWritten

text \<open>One insert, and the update of the conflicting row; \<^term>\<open>None\<close> when the row is gone or out of reach.\<close>

definition conflict_attempt :: "store_runtime \<Rightarrow> table_context \<Rightarrow> (string \<times> prim option) list \<Rightarrow> (string \<times> prim option) list \<Rightarrow> string list \<Rightarrow>
    node_val list \<Rightarrow> node_val option \<Rightarrow> sql_tables \<Rightarrow> db_error + insert_answer option \<times> sql_tables" where
  "conflict_attempt rt cx vs updates cols matches scope s =
     (let m = cx_model cx in
      bindE (answer m) (\<lambda>returning.
      bindE (guard cx InsertRoot None) (\<lambda>c.
      bindE (session_run rt (insertNode (tm_name m) vs returning (Some cols)) (c\<lparr>gc_onConflict := True\<rparr>) s) (\<lambda>(rows, s').
      case rows of
        row # _ \<Rightarrow> bindE (checkVersion m row) (\<lambda>_. bindE (referenceFiles m vs) (\<lambda>_. Inr (Some (Inserted row), s')))
      | [] \<Rightarrow>
          (case scope of
             None \<Rightarrow> Inr (Some NothingWritten, s')
           | Some sc \<Rightarrow>
               bindE (allOf matches) (\<lambda>conditions.
               bindE (keyOf m) (\<lambda>key.
               let whr = scopedWhere (Some conditions) sc in
               bindE (if updates = [] then Inr (acknowledgementNode (tm_name m) key (tm_version m) whr)
                      else updateNode (tm_name m) updates (tm_version m) whr returning) (\<lambda>n.
               bindE (guarded_run rt cx n (if updates = [] then SelectRoot else UpdateRoot) (Some sc) s') (\<lambda>(updated, s'').
               case updated of
                 row # _ \<Rightarrow> bindE (checkVersion m row) (\<lambda>_. bindE (referenceFiles m updates) (\<lambda>_. Inr (Some (Updated row), s'')))
               | [] \<Rightarrow> Inr (None, s''))))))))))"

fun conflict_attempts :: "nat \<Rightarrow> store_runtime \<Rightarrow> table_context \<Rightarrow> (string \<times> prim option) list \<Rightarrow> (string \<times> prim option) list \<Rightarrow> string list \<Rightarrow>
    node_val list \<Rightarrow> node_val option \<Rightarrow> sql_tables \<Rightarrow> db_error + insert_answer \<times> sql_tables" where
  "conflict_attempts 0 rt cx vs updates cols matches scope s = Inl ConflictError"
| "conflict_attempts (Suc k) rt cx vs updates cols matches scope s =
     bindE (conflict_attempt rt cx vs updates cols matches scope s) (\<lambda>(result, s').
     case result of Some a \<Rightarrow> Inr (a, s') | None \<Rightarrow> conflict_attempts k rt cx vs updates cols matches scope s')"

definition insertOnConflict :: "store_runtime \<Rightarrow> table_context \<Rightarrow> (string \<times> prim option) list \<Rightarrow> on_conflict \<Rightarrow> sql_tables \<Rightarrow>
    db_error + insert_answer \<times> sql_tables" where
  "insertOnConflict rt cx given conflict s =
     (let m = cx_model cx in
      bindE (boundValues (rt_dialect rt) m given) (\<lambda>vs.
      bindE (boundValues (rt_dialect rt) m (oc_updates conflict)) (\<lambda>updates.
      bindE (value_terms (tm_name m) vs (oc_columns conflict)) (\<lambda>matches.
      bindE (if oc_update conflict then bindE (insertedScope m vs) (\<lambda>n. Inr (Some n)) else Inr None) (\<lambda>scope.
      conflict_attempts 2 rt cx vs updates (oc_columns conflict) matches scope s)))))"

record prepared_insert =
  pi_row :: "(string \<times> prim option) list"
  pi_destination :: "ref_grant option"
  pi_conflict :: "on_conflict option"

definition prepareDimensionInsert :: "store_runtime \<Rightarrow> table_model \<Rightarrow> grant \<Rightarrow> input argument \<Rightarrow> conflict_field argument argument option \<Rightarrow>
    db_error + prepared_insert" where
  "prepareDimensionInsert rt m g vs options =
     bindE (dimensionScope m) (\<lambda>(d, key, c).
     bindE (refGrant m g (listDimension (d, key, c)) Op_insert) (\<lambda>r.
     bindE (readValues (rt_numText rt) vs (tm_insert m) m) (\<lambda>row.
     bindE (onConflictOf m options (rg_action r) row) (\<lambda>conflict.
     case c of
       None \<Rightarrow>
         bindE (linkValues [\<lparr>co_dimension = d, co_column = key\<rparr>] r) (\<lambda>_.
         Inr \<lparr>pi_row = stampInsert m (rg_principal r) row key (rg_id r), pi_destination = None, pi_conflict = conflict\<rparr>)
     | Some _ \<Rightarrow>
         bindE (linkValues (tm_chain m) r) (\<lambda>links.
         Inr \<lparr>pi_row = stampChain (stampInsert m (rg_principal r) row key (rt_uuid rt)) links, pi_destination = Some r,
           pi_conflict = conflict\<rparr>)))))"

definition prepareApplicationInsert :: "store_runtime \<Rightarrow> table_model \<Rightarrow> grant \<Rightarrow> input argument \<Rightarrow> conflict_field argument argument option \<Rightarrow>
    db_error + prepared_insert" where
  "prepareApplicationInsert rt m g vs options =
     bindE (appGrant m g Op_insert) (\<lambda>a.
     bindE (readValues (rt_numText rt) vs (tm_insert m) m) (\<lambda>row.
     bindE (onConflictOf m options (ag_action a) row) (\<lambda>conflict.
     bindE (keyOf m) (\<lambda>key.
     Inr \<lparr>pi_row = stampInsert m (ag_principal a) row key (rt_uuid rt), pi_destination = None, pi_conflict = conflict\<rparr>))))"

definition prepareChildInsert :: "store_runtime \<Rightarrow> table_context \<Rightarrow> grant \<Rightarrow> input argument \<Rightarrow> conflict_field argument argument option \<Rightarrow>
    db_error + prepared_insert" where
  "prepareChildInsert rt cx g vs options =
     (let m = cx_model cx in
      bindE (childScope m (cx_parent cx)) (\<lambda>(key, col, d, k, c).
      bindE (refGrant m g d Op_insert) (\<lambda>r.
      bindE (readValues (rt_numText rt) vs (tm_insert m) m) (\<lambda>row.
      bindE (onConflictOf m options (rg_action r) row) (\<lambda>conflict.
      bindE (linkValues (tm_chain m) r) (\<lambda>links.
      Inr \<lparr>pi_row = stampChain (stampInsert m (rg_principal r) row key (rt_uuid rt)) links, pi_destination = Some r,
        pi_conflict = conflict\<rparr>))))))"

definition insertPrepared :: "store_runtime \<Rightarrow> table_context \<Rightarrow> prepared_insert \<Rightarrow> sql_tables \<Rightarrow> db_error + insert_answer \<times> sql_tables" where
  "insertPrepared rt cx p s =
     (case pi_conflict p of
        None \<Rightarrow> bindE (insertRow rt cx (pi_row p) (pi_destination p) s) (\<lambda>(row, s'). Inr (Inserted row, s'))
      | Some conflict \<Rightarrow>
          bindE (lock_for rt cx (pi_destination p) s) (\<lambda>_. insertOnConflict rt cx (pi_row p) conflict s))"

definition insertIntoDimension :: "store_runtime \<Rightarrow> table_context \<Rightarrow> grant \<Rightarrow> input argument \<Rightarrow> sql_tables \<Rightarrow> (db_error + answer_row) \<times> sql_tables" where
  "insertIntoDimension rt cx g vs =
     run_write (\<lambda>s. bindE (prepareDimensionInsert rt (cx_model cx) g vs None) (\<lambda>p. insertRow rt cx (pi_row p) (pi_destination p) s))"

definition insertIntoApplication :: "store_runtime \<Rightarrow> table_context \<Rightarrow> grant \<Rightarrow> input argument \<Rightarrow> sql_tables \<Rightarrow> (db_error + answer_row) \<times> sql_tables" where
  "insertIntoApplication rt cx g vs =
     run_write (\<lambda>s. bindE (prepareApplicationInsert rt (cx_model cx) g vs None) (\<lambda>p. insertRow rt cx (pi_row p) (pi_destination p) s))"

definition insertIntoChild :: "store_runtime \<Rightarrow> table_context \<Rightarrow> grant \<Rightarrow> input argument \<Rightarrow> sql_tables \<Rightarrow> (db_error + answer_row) \<times> sql_tables" where
  "insertIntoChild rt cx g vs =
     run_write (\<lambda>s. bindE (prepareChildInsert rt cx g vs None) (\<lambda>p. insertRow rt cx (pi_row p) (pi_destination p) s))"

subsection \<open>Updates and removes\<close>

text \<open>The rows a write addresses: its scope, and the caller's conditions beside it.\<close>

record addressed =
  ad_scope :: node_val
  ad_conditions :: "node_val option"

definition conditionsWith :: "addressed \<Rightarrow> node_val option \<Rightarrow> db_error + node_val option" where
  "conditionsWith target expected =
     (case (ad_conditions target, expected) of
        (None, e) \<Rightarrow> Inr e
      | (Some c, None) \<Rightarrow> Inr (Some c)
      | (Some c, Some e) \<Rightarrow> bindE (allOf [c, e]) (\<lambda>n. Inr (Some n)))"

definition missingOrChanged :: "store_runtime \<Rightarrow> table_context \<Rightarrow> addressed \<Rightarrow> node_val option \<Rightarrow> sql_tables \<Rightarrow> db_error + 'a" where
  "missingOrChanged rt cx target expected s =
     (if expected = None then Inl NotFoundError
      else bindE (keyOf (cx_model cx)) (\<lambda>key.
        bindE (guarded_run rt cx (existsNode (tm_name (cx_model cx)) key (ad_scope target) (ad_conditions target)) SelectRoot
            (Some (ad_scope target)) s) (\<lambda>(existing, _).
        if existing \<noteq> [] then Inl ConflictError else Inl NotFoundError)))"

definition updateRow :: "store_runtime \<Rightarrow> table_context \<Rightarrow> addressed \<Rightarrow> (string \<times> prim option) list \<Rightarrow> node_val option \<Rightarrow> ref_grant option \<Rightarrow>
    sql_tables \<Rightarrow> db_error + answer_row \<times> sql_tables" where
  "updateRow rt cx target given expected destination s =
     (let m = cx_model cx in
      bindE (boundValues (rt_dialect rt) m given) (\<lambda>changes.
      bindE (conditionsWith target expected) (\<lambda>conditions.
      let whr = scopedWhere conditions (ad_scope target) in
      bindE (keyOf m) (\<lambda>key.
      bindE (answer m) (\<lambda>returning.
      bindE (if changes = [] then Inr (acknowledgementNode (tm_name m) key (tm_version m) whr)
             else updateNode (tm_name m) changes (tm_version m) whr returning) (\<lambda>n.
      bindE (lock_for rt cx destination s) (\<lambda>_.
      bindE (guarded_run rt cx n (if changes = [] then SelectRoot else UpdateRoot) (Some (ad_scope target)) s) (\<lambda>(rows, s').
      case rows of
        row # _ \<Rightarrow> bindE (checkVersion m row) (\<lambda>_. bindE (referenceFiles m changes) (\<lambda>_. Inr (row, s')))
      | [] \<Rightarrow> missingOrChanged rt cx target expected s'))))))))"

definition removeRow :: "store_runtime \<Rightarrow> table_context \<Rightarrow> addressed \<Rightarrow> node_val option \<Rightarrow> sql_tables \<Rightarrow> db_error + unit \<times> sql_tables" where
  "removeRow rt cx target expected s =
     (let m = cx_model cx in
      bindE (conditionsWith target expected) (\<lambda>conditions.
      bindE (keyOf m) (\<lambda>key.
      bindE (guarded_run rt cx (deleteNode (tm_name m) (scopedWhere conditions (ad_scope target)) key) DeleteRoot (Some (ad_scope target)) s)
        (\<lambda>(rows, s'). if rows = [] then missingOrChanged rt cx target expected s' else Inr ((), s')))))"

definition addressing :: "node_val \<Rightarrow> addressed" where
  "addressing scope = \<lparr>ad_scope = scope, ad_conditions = None\<rparr>"

subsection \<open>The handles\<close>

definition dimension_get :: "(string \<Rightarrow> node_val option) \<Rightarrow> store_runtime \<Rightarrow> table_context \<Rightarrow> grant \<Rightarrow> sql_tables \<Rightarrow> db_error + (string \<times> node_val) list" where
  "dimension_get parse rt cx g s = bindE (objectPredicate (cx_model cx) g Op_read) (\<lambda>scope. selectOne parse rt cx scope s)"

definition dimension_update :: "store_runtime \<Rightarrow> table_context \<Rightarrow> grant \<Rightarrow> input argument \<Rightarrow> prim option \<Rightarrow> sql_tables \<Rightarrow>
    (db_error + answer_row) \<times> sql_tables" where
  "dimension_update rt cx g vs expectVersion =
     run_write (\<lambda>s.
       bindE (objectPredicate (cx_model cx) g Op_update) (\<lambda>scope.
       bindE (readValues (rt_numText rt) vs (tm_update (cx_model cx)) (cx_model cx)) (\<lambda>changes.
       bindE (versionArgument (cx_model cx) expectVersion) (\<lambda>expected.
       updateRow rt cx (addressing scope) changes expected None s))))"

definition dimension_remove :: "store_runtime \<Rightarrow> table_context \<Rightarrow> grant \<Rightarrow> sql_tables \<Rightarrow> (db_error + unit) \<times> sql_tables" where
  "dimension_remove rt cx g =
     run_write (\<lambda>s. bindE (objectPredicate (cx_model cx) g Op_delete) (\<lambda>scope. removeRow rt cx (addressing scope) None s))"

text \<open>The acknowledgement of a move, with the object's new chain.\<close>

definition dimension_move :: "store_runtime \<Rightarrow> table_context \<Rightarrow> grant \<Rightarrow> grant \<Rightarrow> sql_tables \<Rightarrow>
    (db_error + answer_row \<times> (string \<times> string) list) \<times> sql_tables" where
  "dimension_move rt cx g to =
     run_write (\<lambda>s.
       bindE (dimensionScope (cx_model cx)) (\<lambda>(d, key, c).
       case c of
         None \<Rightarrow> Inl (CapabilityError Table_kind)
       | Some ct \<Rightarrow>
           bindE (objectPredicate (cx_model cx) g Op_delete) (\<lambda>scope.
           bindE (refGrant (cx_model cx) to (co_dimension ct) Op_insert) (\<lambda>r.
           bindE (linkValues (tm_chain (cx_model cx)) r) (\<lambda>vs.
           bindE (updateRow rt cx (addressing scope) (stampChain [] vs) None (Some r) s) (\<lambda>(row, s').
           Inr ((row, map (\<lambda>(link, v). (co_dimension link, v)) vs), s')))))))"

definition child_get :: "(string \<Rightarrow> node_val option) \<Rightarrow> store_runtime \<Rightarrow> table_context \<Rightarrow> grant \<Rightarrow> string \<Rightarrow> sql_tables \<Rightarrow>
    db_error + (string \<times> node_val) list" where
  "child_get parse rt cx parent key s =
     bindE (childObjectPredicate (cx_model cx) (cx_parent cx) parent key Op_read) (\<lambda>scope. selectOne parse rt cx scope s)"

definition child_update :: "store_runtime \<Rightarrow> table_context \<Rightarrow> grant \<Rightarrow> string \<Rightarrow> input argument \<Rightarrow> prim option \<Rightarrow> sql_tables \<Rightarrow>
    (db_error + answer_row) \<times> sql_tables" where
  "child_update rt cx parent key vs expectVersion =
     run_write (\<lambda>s.
       bindE (childObjectPredicate (cx_model cx) (cx_parent cx) parent key Op_update) (\<lambda>scope.
       bindE (readValues (rt_numText rt) vs (tm_update (cx_model cx)) (cx_model cx)) (\<lambda>changes.
       bindE (versionArgument (cx_model cx) expectVersion) (\<lambda>expected.
       updateRow rt cx (addressing scope) changes expected None s))))"

definition child_remove :: "store_runtime \<Rightarrow> table_context \<Rightarrow> grant \<Rightarrow> string \<Rightarrow> sql_tables \<Rightarrow> (db_error + unit) \<times> sql_tables" where
  "child_remove rt cx parent key =
     run_write (\<lambda>s.
       bindE (childObjectPredicate (cx_model cx) (cx_parent cx) parent key Op_delete) (\<lambda>scope. removeRow rt cx (addressing scope) None s))"

subsection \<open>The locator\<close>

definition ownerOf :: "(string \<times> table_model) list \<Rightarrow> string \<Rightarrow> table_model option" where
  "ownerOf models dimension =
     find (\<lambda>m. case tm_scope m of DimensionScope d _ _ \<Rightarrow> d = dimension | _ \<Rightarrow> False) (map snd models)"

definition destinationOf :: "(string \<times> table_model) list \<Rightarrow> table_model \<Rightarrow> table_model option \<Rightarrow> table_model option" where
  "destinationOf models m parent =
     (case tm_scope m of
        ChildScope _ _ _ _ \<Rightarrow> parent
      | DimensionScope _ _ (Some c) \<Rightarrow> ownerOf models (co_dimension c)
      | _ \<Rightarrow> None)"

definition locateObject :: "(string \<times> table_model) list \<Rightarrow> store_runtime \<Rightarrow> string \<Rightarrow> string \<Rightarrow> sql_tables \<Rightarrow>
    db_error + (string \<times> string) list option" where
  "locateObject models rt dimension oid s =
     (case ownerOf models dimension of
        None \<Rightarrow> Inl (QueryRefusedError Unknown_table)
      | Some owner \<Rightarrow>
          if oid = [] then Inl (QueryRefusedError Row_address)
          else
            bindE (keyOf owner) (\<lambda>key.
            let scope = equals (tm_name owner) key (PStr oid) in
            bindE (session_run rt (locateNode (tm_name owner) (key # map co_column (tm_chain owner)) scope)
              \<lparr>gc_root = SelectRoot, gc_table = tm_name owner, gc_joins = [], gc_scope = Some scope, gc_lock = None, gc_onConflict = False\<rparr> s)
              (\<lambda>(rows, _).
              case rows of
                [] \<Rightarrow> Inr None
              | row # _ \<Rightarrow>
                  bindE (mapE (\<lambda>link. case map_of row (co_column link) of
                      Some (Some (PStr v)) \<Rightarrow> Inr (co_dimension link, v) | _ \<Rightarrow> Inl PolicyError) (tm_chain owner)) (\<lambda>chain. Inr (Some chain)))))"

end
