(* ===== verification/Db_Scope_Exact.thy ===== *)
theory Db_Scope_Exact
  imports Db_Scope
begin

text \<open>
  What the scope predicates admit, stated of the rows: a Ref admits exactly the row of its object where its chain says, a Within
  exactly the rows that lie in a value it grants. The fragments of \<open>ctx.sql.scope\<close> admit the same rows as the handles, and
  every predicate is one the guard admits.
\<close>

subsection \<open>Where a row lies\<close>

text \<open>What the parsed policies guarantee of a table's links (\<open>linkTables\<close>): one link per dimension, and a chain that begins with
  the container of the table's own dimension, or with a child's parent.\<close>

definition wf_links :: "table_model \<Rightarrow> bool" where
  "wf_links m \<longleftrightarrow> distinct (map co_dimension (links_of m)) \<and>
     (case tm_scope m of
        DimensionScope d k None \<Rightarrow> tm_chain m = []
      | DimensionScope d k (Some c) \<Rightarrow> tm_chain m \<noteq> [] \<and> hd (tm_chain m) = c
      | ChildScope p k col inh \<Rightarrow> tm_chain m \<noteq> [] \<and> co_column (hd (tm_chain m)) = col
      | _ \<Rightarrow> tm_chain m = [])"

text \<open>The row lies in this value of the dimension: the column of the table's link for it equals the value.\<close>

definition lies_in :: "sql_operators \<Rightarrow> sql_tuple \<Rightarrow> table_model \<Rightarrow> string \<Rightarrow> string \<Rightarrow> bool" where
  "lies_in opr e m d v \<longleftrightarrow>
     (\<exists>link a. linkOf (links_of m) d = Some link \<and> cell e (tm_name m) (co_column link) = Some a \<and> opr ''='' a (PStr v))"

definition within_admits :: "sql_operators \<Rightarrow> sql_tuple \<Rightarrow> table_model \<Rightarrow> within_grant \<Rightarrow> bool" where
  "within_admits opr e m w \<longleftrightarrow>
     (case wg_values w of
        AllValues \<Rightarrow> True
      | ValueList vs \<Rightarrow> (\<exists>v \<in> set vs. lies_in opr e m (wg_dimension w) v) \<or>
          (\<exists>c \<in> set (wg_containers w) \<union> set (wg_contained w). \<exists>v \<in> set (cg_values c). lies_in opr e m (cg_dimension c) v))"

lemma linkOf_iff: "distinct (map co_dimension ls) \<Longrightarrow> linkOf ls d = Some l \<longleftrightarrow> l \<in> set ls \<and> co_dimension l = d"
  by (induction ls) (auto simp: linkOf_def)

lemma linkOf_None: "linkOf ls d = None \<longleftrightarrow> d \<notin> co_dimension ` set ls"
  by (induction ls) (auto simp: linkOf_def)

lemma linkOf_sub: "distinct (map co_dimension ls) \<Longrightarrow> set ks \<subseteq> set ls \<Longrightarrow> distinct (map co_dimension ks) \<Longrightarrow> linkOf ks d = Some l \<Longrightarrow>
    linkOf ls d = Some l"
  by (auto simp: linkOf_iff)

lemma chain_links: "\<exists>pre. links_of m = pre @ tm_chain m"
  by (auto simp: links_of_def selfLinks_def split: scope_model.splits)

lemma distinct_chain: "wf_links m \<Longrightarrow> distinct (map co_dimension (tm_chain m))"
  using chain_links [of m] by (auto simp: wf_links_def)

lemma reachColumn_link:
  assumes "wf_links m" and "reachColumn m d = Some name"
  shows "\<exists>link. linkOf (links_of m) d = Some link \<and> co_column link = name"
proof -
  obtain pre where pre: "links_of m = pre @ tm_chain m" using chain_links by blast
  have chain: "\<exists>link. linkOf (links_of m) d = Some link \<and> co_column link = name" if "linkOf (tm_chain m) d = Some l" "co_column l = name" for l
    using linkOf_sub [OF _ _ distinct_chain [OF assms(1)] that(1), of "links_of m"] assms(1) that(2) pre by (auto simp: wf_links_def)
  show ?thesis
  proof (cases "\<exists>k. tm_scope m = DimensionScope d k None")
    case True
    then show ?thesis using assms(2) by (auto simp: reachColumn_def links_of_def selfLinks_def linkOf_def)
  next
    case False
    then have "map_option co_column (linkOf (tm_chain m) d) = Some name"
      using assms(2) by (auto simp: reachColumn_def split: scope_model.splits option.splits if_splits)
    then show ?thesis using chain by (auto simp: map_option_case split: option.splits)
  qed
qed

lemma links_split:
  assumes "wf_links m" and "reachColumn m d = Some name"
  shows "\<exists>link. links_of m = linksBelow m d @ link # linksAbove m d \<and> co_dimension link = d \<and> co_column link = name"
proof -
  obtain l where l: "linkOf (links_of m) d = Some l" "co_column l = name" using reachColumn_link [OF assms] by blast
  have dim: "l \<in> set (links_of m)" "co_dimension l = d" using l(1) assms(1) by (auto simp: linkOf_iff wf_links_def)
  define b where "b = takeWhile (\<lambda>k. co_dimension k \<noteq> d) (links_of m)"
  obtain k rest where k: "links_of m = b @ k # rest" "co_dimension k = d"
    unfolding b_def using dim by (metis (mono_tags, lifting) dropWhile_eq_Cons_conv dropWhile_eq_Nil_conv list.exhaust takeWhile_dropWhile_id)
  have "k = l" using k dim assms(1) linkOf_iff [of "links_of m" d k] l(1) by (simp add: wf_links_def)
  have below: "linksBelow m d = b" using l(1) by (simp add: linksBelow_def b_def)
  have "linksAbove m d = rest"
  proof -
    obtain pre where pre: "links_of m = pre @ tm_chain m" "tm_chain m = links_of m \<or> (\<exists>self. links_of m = self # tm_chain m)"
      using chain_links [of m] by (auto simp: links_of_def selfLinks_def split: scope_model.splits)
    have "b @ dropWhile (\<lambda>k. co_dimension k \<noteq> d) (links_of m) = links_of m" by (simp add: b_def)
    then have w: "dropWhile (\<lambda>k. co_dimension k \<noteq> d) (links_of m) = k # rest" using k(1) by (metis same_append_eq)
    from pre(2) show ?thesis
    proof
      assume "\<exists>self. links_of m = self # tm_chain m"
      then obtain self where self: "links_of m = self # tm_chain m" by blast
      show ?thesis
      proof (cases "co_dimension self = d")
        case True
        then have "d \<notin> co_dimension ` set (tm_chain m)" using assms(1) self by (auto simp: wf_links_def)
        then have "linkOf (tm_chain m) d = None" by (simp add: linkOf_None)
        then have "\<exists>k. tm_scope m = DimensionScope d k None"
          using assms(2) by (auto simp: reachColumn_def split: scope_model.splits option.splits if_splits)
        then have "tm_chain m = []" using assms(1) by (auto simp: wf_links_def)
        then show ?thesis using w self True by (simp add: linksAbove_def)
      qed (use w self in \<open>simp add: linksAbove_def\<close>)
    qed (use w in \<open>simp add: linksAbove_def\<close>)
  qed
  then show ?thesis using k below \<open>k = l\<close> l(2) by blast
qed

subsection \<open>A Within\<close>

definition test_holds :: "sql_operators \<Rightarrow> sql_tuple \<Rightarrow> string \<Rightarrow> string \<times> string list \<Rightarrow> bool" where
  "test_holds opr e table t \<longleftrightarrow> (\<exists>a v. cell e table (fst t) = Some a \<and> v \<in> set (snd t) \<and> opr ''='' a (PStr v))"

lemma mapE_concat:
  assumes "mapE f xs = Inr yss" and "\<And>x y. x \<in> set xs \<Longrightarrow> f x = Inr y \<Longrightarrow> list_ex P y \<longleftrightarrow> Q x"
  shows "list_ex P (concat yss) \<longleftrightarrow> (\<exists>x \<in> set xs. Q x)"
  using assms
proof (induction xs arbitrary: yss)
  case (Cons x xs)
  then obtain y ys where y: "f x = Inr y" "mapE f xs = Inr ys" "yss = y # ys" by (auto simp: bindE_eq_Inr)
  have "list_ex P y \<longleftrightarrow> Q x" using Cons.prems(2) y(1) by simp
  moreover have "list_ex P (concat ys) \<longleftrightarrow> (\<exists>x \<in> set xs. Q x)" using Cons.prems(2) by (intro Cons.IH y(2)) simp
  ultimately show ?case using y(3) by simp
qed simp

lemma lies_in_link:
  assumes "linkOf (links_of m) d = Some link"
  shows "(\<exists>v \<in> set vs. lies_in opr e m d v) \<longleftrightarrow> test_holds opr e (tm_name m) (co_column link, vs)"
  using assms by (auto simp: lies_in_def test_holds_def)

lemma containerTests_exact:
  assumes w: "wf_links m" "reachColumn m (wg_dimension g) = Some name" and t: "containerTests m g = Inr tests"
  shows "list_ex (test_holds opr e (tm_name m)) tests \<longleftrightarrow>
    (\<exists>c \<in> set (wg_containers g). \<exists>v \<in> set (cg_values c). lies_in opr e m (cg_dimension c) v)"
proof -
  obtain link where split: "links_of m = linksBelow m (wg_dimension g) @ link # linksAbove m (wg_dimension g)" using links_split [OF w] by blast
  have above: "linkOf (links_of m) d = Some l" if "linkOf (linksAbove m (wg_dimension g)) d = Some l" for d l
    using linkOf_sub [OF _ _ _ that, of "links_of m"] w(1) split by (auto simp: wf_links_def)
  obtain yss where y: "mapE (\<lambda>c. case linkOf (linksAbove m (wg_dimension g)) (cg_dimension c) of
         None \<Rightarrow> Inl (CapabilityError Unenforceable)
       | Some link \<Rightarrow> Inr (if cg_values c = [] then [] else [(co_column link, cg_values c)])) (wg_containers g) = Inr yss" "tests = concat yss"
    using t by (auto simp: containerTests_def bindE_eq_Inr)
  show ?thesis unfolding y(2)
    by (rule mapE_concat [OF y(1)]) (auto simp: lies_in_link [OF above] test_holds_def split: option.splits if_splits)
qed

lemma containedTests_exact:
  assumes w: "wf_links m" "reachColumn m (wg_dimension g) = Some name" and t: "containedTests m g = Inr tests"
  shows "list_ex (test_holds opr e (tm_name m)) tests \<longleftrightarrow>
    (\<exists>c \<in> set (wg_contained g). \<exists>v \<in> set (cg_values c). lies_in opr e m (cg_dimension c) v)"
proof -
  let ?d = "wg_dimension g"
  obtain link where split: "links_of m = linksBelow m ?d @ link # linksAbove m ?d" "co_dimension link = ?d" using links_split [OF w] by blast
  have below: "linkOf (links_of m) d = Some l" if "linkOf (linksBelow m ?d) d = Some l" for d l
    using linkOf_sub [OF _ _ _ that, of "links_of m"] w(1) split(1) by (auto simp: wf_links_def)
  have none: "\<not> lies_in opr e m d v" if "linkOf (linksBelow m ?d) d = None" "linkOf (linksAbove m ?d) d = None" "d \<noteq> ?d" for d v
  proof -
    have "linkOf (links_of m) d = None" using that split(2) by (subst split(1)) (auto simp: linkOf_None)
    then show ?thesis by (simp add: lies_in_def)
  qed
  obtain yss where y: "mapE (\<lambda>c.
       if cg_dimension c = ?d \<or> linkOf (linksAbove m ?d) (cg_dimension c) \<noteq> None then Inl (CapabilityError Unenforceable)
       else Inr (case linkOf (linksBelow m ?d) (cg_dimension c) of
              None \<Rightarrow> []
            | Some link \<Rightarrow> if cg_values c = [] then [] else [(co_column link, cg_values c)])) (wg_contained g) = Inr yss" "tests = concat yss"
    using t by (auto simp: containedTests_def bindE_eq_Inr)
  show ?thesis unfolding y(2)
  proof (rule mapE_concat [OF y(1)])
    fix c ts
    assume c: "(if cg_dimension c = ?d \<or> linkOf (linksAbove m ?d) (cg_dimension c) \<noteq> None then Inl (CapabilityError Unenforceable)
       else Inr (case linkOf (linksBelow m ?d) (cg_dimension c) of
              None \<Rightarrow> []
            | Some link \<Rightarrow> if cg_values c = [] then [] else [(co_column link, cg_values c)])) = Inr ts"
    then have h: "cg_dimension c \<noteq> ?d" "linkOf (linksAbove m ?d) (cg_dimension c) = None" by (auto split: if_splits)
    show "list_ex (test_holds opr e (tm_name m)) ts \<longleftrightarrow> (\<exists>v \<in> set (cg_values c). lies_in opr e m (cg_dimension c) v)"
    proof (cases "linkOf (linksBelow m ?d) (cg_dimension c)")
      case None
      then show ?thesis using c h none [OF None h(2,1)] by auto
    next
      case (Some l)
      then show ?thesis using c h lies_in_link [OF below [OF Some]] by (auto simp: test_holds_def split: if_splits)
    qed
  qed
qed

lemma withinTests_exact:
  assumes w: "wf_links m" "reachColumn m (wg_dimension g) = Some name" and v: "wg_values g = ValueList vs"
    and t: "withinTests m name g vs = Inr tests"
  shows "list_ex (test_holds opr e (tm_name m)) tests \<longleftrightarrow> within_admits opr e m g"
proof -
  obtain cs ds where c: "containerTests m g = Inr cs" "containedTests m g = Inr ds" "tests = (if vs = [] then [] else [(name, vs)]) @ cs @ ds"
    using t by (auto simp: withinTests_def bindE_eq_Inr)
  obtain link where link: "linkOf (links_of m) (wg_dimension g) = Some link" "co_column link = name" using reachColumn_link [OF w] by blast
  have "list_ex (test_holds opr e (tm_name m)) (if vs = [] then [] else [(name, vs)]) \<longleftrightarrow> (\<exists>v \<in> set vs. lies_in opr e m (wg_dimension g) v)"
    using lies_in_link [OF link(1), of vs] link(2) by (auto simp: test_holds_def)
  then show ?thesis
    using containerTests_exact [OF w c(1)] containedTests_exact [OF w c(2)] by (simp add: c(3) within_admits_def v bex_Un disj_assoc)
qed

text \<open>The rows a list predicate admits; an absent one answers no rows without a query.\<close>

definition listed :: "sql_operators \<Rightarrow> sql_tuple \<Rightarrow> node_val option \<Rightarrow> bool" where
  "listed opr e p = (case p of None \<Rightarrow> False | Some n \<Rightarrow> holds opr e n)"

lemma holds_tests: "holds opr e (inList table (fst t) (snd t)) \<longleftrightarrow> test_holds opr e table t"
  by (simp add: test_holds_def)

lemma withinPredicate_exact:
  assumes w: "wf_links m" "reachColumn m (wg_dimension g) = Some name" and p: "withinPredicate m name g = Inr p"
  shows "listed opr e p \<longleftrightarrow> within_admits opr e m g"
proof (cases "wg_values g")
  case AllValues
  then show ?thesis using p by (auto simp: withinPredicate_def listed_def within_admits_def)
next
  case (ValueList vs)
  then obtain tests where t: "withinTests m name g vs = Inr tests"
    and p': "p = None \<and> tests = [] \<or> (\<exists>n. p = Some n \<and> anyOf (map (\<lambda>(c, ws). inList (tm_name m) c ws) tests) = Inr n)"
    using p by (auto simp: withinPredicate_def bindE_eq_Inr split: if_splits)
  have fold: "(\<lambda>(c, ws). inList (tm_name m) c ws) = (\<lambda>t. inList (tm_name m) (fst t) (snd t))" by auto
  have "listed opr e p \<longleftrightarrow> list_ex (test_holds opr e (tm_name m)) tests"
    using p' unfolding fold by (auto simp: listed_def holds_anyOf list_ex_iff holds_tests simp del: holds_inList)
  then show ?thesis using withinTests_exact [OF w ValueList t] by simp
qed

subsection \<open>Every surface of a Within\<close>

text \<open>A child's chain is its link to the parent, then the parent's chain.\<close>

definition wf_child :: "table_model \<Rightarrow> table_model \<Rightarrow> bool" where
  "wf_child m p \<longleftrightarrow> wf_links p \<and>
     (case (tm_scope m, tm_scope p) of
        (ChildScope _ _ col _, DimensionScope d _ _) \<Rightarrow> tm_chain m = \<lparr>co_dimension = d, co_column = col\<rparr> # tm_chain p
      | _ \<Rightarrow> False)"

definition test_matches :: "sql_operators \<Rightarrow> sql_tuple \<Rightarrow> string \<Rightarrow> scope_test \<Rightarrow> bool" where
  "test_matches opr e table t \<longleftrightarrow>
     test_holds opr e table (st_column t, case st_value t of Exactly v \<Rightarrow> [v] | AnyOf vs \<Rightarrow> vs)"

definition terms_match :: "sql_operators \<Rightarrow> sql_tuple \<Rightarrow> string \<Rightarrow> scope_terms \<Rightarrow> bool" where
  "terms_match opr e table terms =
     (case terms of AllRows \<Rightarrow> True | Groups gs \<Rightarrow> list_ex (list_all (test_matches opr e table)) gs)"

lemma scopeTerms_within:
  assumes "wf_links m" and "\<forall>a b. tm_scope m \<noteq> AppScope a b" and "scopeTerms m (WithinGrant w) use = Inr terms"
  shows "terms_match opr e (tm_name m) terms \<longleftrightarrow> within_admits opr e m w"
proof -
  obtain name where name: "reachColumn m (wg_dimension w) = Some name"
    and t: "(case wg_values w of AllValues \<Rightarrow> Inr AllRows
      | ValueList vs \<Rightarrow> bindE (withinTests m name w vs) (\<lambda>tests.
          Inr (Groups (map (\<lambda>(name, ws). [\<lparr>st_column = name, st_value = AnyOf ws\<rparr>]) tests)))) = Inr terms"
    using assms(2,3) by (auto simp: scopeTerms_def bindE_eq_Inr split: scope_model.splits option.splits)
  show ?thesis
  proof (cases "wg_values w")
    case AllValues
    then show ?thesis using t by (simp add: terms_match_def within_admits_def)
  next
    case (ValueList vs)
    then obtain tests where tests: "withinTests m name w vs = Inr tests"
      "terms = Groups (map (\<lambda>(name, ws). [\<lparr>st_column = name, st_value = AnyOf ws\<rparr>]) tests)" using t by (auto simp: bindE_eq_Inr)
    have "terms_match opr e (tm_name m) terms \<longleftrightarrow> list_ex (test_holds opr e (tm_name m)) tests"
      by (simp add: tests(2) terms_match_def list_ex_iff test_matches_def case_prod_unfold)
    then show ?thesis using withinTests_exact [OF assms(1) name ValueList tests(1)] by simp
  qed
qed

lemma reachColumn_container:
  assumes "wf_links m" and "tm_scope m = DimensionScope d k c"
  shows "reachColumn m (listDimension (d, k, c)) = Some (case c of Some ct \<Rightarrow> co_column ct | None \<Rightarrow> k)"
  using assms by (cases "tm_chain m") (auto simp: reachColumn_def listDimension_def wf_links_def linkOf_def split: option.splits)

lemma reachColumn_child:
  assumes "wf_links m" and "wf_child m p" and "childScope m (Some p) = Inr (key, col, d, k, c)"
  shows "reachColumn m (listDimension (d, k, c)) = Some (case c of Some ct \<Rightarrow> co_column ct | None \<Rightarrow> col)"
proof -
  have p: "tm_scope p = DimensionScope d k c" and chain: "tm_chain m = \<lparr>co_dimension = d, co_column = col\<rparr> # tm_chain p"
    and m: "\<exists>pn inh. tm_scope m = ChildScope pn key col inh"
    using assms(2,3) by (auto simp: wf_child_def childScope_def dimensionScope_def split: scope_model.splits)
  have "distinct (map co_dimension (tm_chain m))" by (rule distinct_chain [OF assms(1)])
  moreover have "c = Some ct \<Longrightarrow> tm_chain p \<noteq> [] \<and> hd (tm_chain p) = ct" for ct
    using assms(2) p by (simp add: wf_child_def wf_links_def)
  ultimately show ?thesis
    using m chain by (cases "tm_chain p") (auto simp: reachColumn_def listDimension_def linkOf_def split: option.splits)
qed

lemma dimensionList_within:
  assumes "wf_links m" and "dimensionListPredicate m (WithinGrant w) op = Inr p"
  shows "listed opr e p \<longleftrightarrow> within_admits opr e m w"
proof -
  obtain d k c where s: "tm_scope m = DimensionScope d k c" and w: "wg_dimension w = listDimension (d, k, c)"
    and p: "withinPredicate m (case c of Some ct \<Rightarrow> co_column ct | None \<Rightarrow> k) w = Inr p"
    using assms(2) by (auto simp: dimensionListPredicate_def dimensionScope_def withinGrant_def checkGrant_def bindE_eq_Inr split: scope_model.splits)
  show ?thesis by (rule withinPredicate_exact [OF assms(1) _ p]) (simp add: w reachColumn_container [OF assms(1) s])
qed

lemma childList_within:
  assumes "wf_links m" and "wf_child m pm" and "childListPredicate m (Some pm) (WithinGrant w) op = Inr p"
  shows "listed opr e p \<longleftrightarrow> within_admits opr e m w"
proof -
  obtain key col d k c where s: "childScope m (Some pm) = Inr (key, col, d, k, c)" and w: "wg_dimension w = listDimension (d, k, c)"
    and p: "withinPredicate m (case c of Some ct \<Rightarrow> co_column ct | None \<Rightarrow> col) w = Inr p"
    using assms(3) by (auto simp: childListPredicate_def checkGrant_def bindE_eq_Inr)
  show ?thesis by (rule withinPredicate_exact [OF assms(1) _ p]) (simp add: w reachColumn_child [OF assms(1,2) s])
qed

lemma reach_within:
  assumes "wf_links m" and "reachPredicate m (WithinGrant w) = Inr p \<or> claimScope m (WithinGrant w) = Inr p"
  shows "listed opr e p \<longleftrightarrow> within_admits opr e m w"
proof -
  obtain name where n: "reachColumn m (wg_dimension w) = Some name" and p: "withinPredicate m name w = Inr p"
    using assms(2) by (auto simp: reachPredicate_def claimScope_def bindE_eq_Inr split: option.splits scope_model.splits if_splits)
  show ?thesis by (rule withinPredicate_exact [OF assms(1) n p])
qed

subsection \<open>A Ref\<close>

text \<open>The rows of a Ref's object: the row lies in the object, and in the value the Ref's chain names for every dimension above.\<close>

definition upper_links :: "table_model \<Rightarrow> string \<Rightarrow> container list" where
  "upper_links m d = tl (dropWhile (\<lambda>l. co_dimension l \<noteq> d) (links_of m))"

definition ref_admits :: "sql_operators \<Rightarrow> sql_tuple \<Rightarrow> table_model \<Rightarrow> ref_grant \<Rightarrow> bool" where
  "ref_admits opr e m r \<longleftrightarrow> lies_in opr e m (rg_dimension r) (rg_id r) \<and>
     (\<forall>l \<in> set (upper_links m (rg_dimension r)). \<exists>v. map_of (rg_chain r) (co_dimension l) = Some v \<and> lies_in opr e m (co_dimension l) v)"

lemma linkValues_parts:
  assumes "linkValues ls r = Inr vals"
  shows "\<exists>l ks. ls = l # ks \<and> vals = (l, rg_id r) # map (\<lambda>k. (k, the (map_of (rg_chain r) (co_dimension k)))) ks \<and>
    (\<forall>k \<in> set ks. map_of (rg_chain r) (co_dimension k) \<noteq> None)"
proof -
  obtain l ks vs where h: "ls = l # ks" "vals = (l, rg_id r) # vs"
    and vs: "mapE (\<lambda>link. bindE (chainValue (rg_chain r) (co_dimension link)) (\<lambda>v. Inr (link, v))) ks = Inr vs"
    using assms by (auto simp: linkValues_def bindE_eq_Inr split: list.splits if_splits)
  from vs have "vs = map (\<lambda>k. (k, the (map_of (rg_chain r) (co_dimension k)))) ks \<and> (\<forall>k \<in> set ks. map_of (rg_chain r) (co_dimension k) \<noteq> None)"
    by (induction ks arbitrary: vs) (auto simp: bindE_eq_Inr chainValue_def split: option.splits)
  with h show ?thesis by blast
qed

lemma linkOf_member: "wf_links m \<Longrightarrow> l \<in> set (links_of m) \<Longrightarrow> linkOf (links_of m) (co_dimension l) = Some l"
  by (simp add: linkOf_iff wf_links_def)

lemma lies_in_member: "wf_links m \<Longrightarrow> l \<in> set (links_of m) \<Longrightarrow>
    lies_in opr e m (co_dimension l) v \<longleftrightarrow> test_holds opr e (tm_name m) (co_column l, [v])"
  using lies_in_link [OF linkOf_member, of m l "[v]"] by simp

text \<open>The links of the Ref's dimension and above, each with its value, are tests of exactly its object's rows.\<close>

lemma ref_values:
  assumes "wf_links m" and "linkValues (dropWhile (\<lambda>l. co_dimension l \<noteq> rg_dimension r) (links_of m)) r = Inr vals"
  shows "list_all (\<lambda>(l, v). test_holds opr e (tm_name m) (co_column l, [v])) vals \<longleftrightarrow> ref_admits opr e m r"
proof -
  obtain l ks where ls: "dropWhile (\<lambda>l. co_dimension l \<noteq> rg_dimension r) (links_of m) = l # ks"
    and v: "vals = (l, rg_id r) # map (\<lambda>k. (k, the (map_of (rg_chain r) (co_dimension k)))) ks"
    and all: "\<forall>k \<in> set ks. map_of (rg_chain r) (co_dimension k) \<noteq> None" using linkValues_parts [OF assms(2)] by blast
  have sub: "set (l # ks) \<subseteq> set (links_of m)" using ls by (metis set_dropWhileD subsetI)
  have d: "co_dimension l = rg_dimension r" using ls by (metis (mono_tags, lifting) dropWhile_eq_Cons_conv)
  have "upper_links m (rg_dimension r) = ks" by (simp add: upper_links_def ls)
  moreover have "lies_in opr e m (co_dimension k) w \<longleftrightarrow> test_holds opr e (tm_name m) (co_column k, [w])" if "k \<in> set (l # ks)" for k w
    using sub that by (intro lies_in_member [OF assms(1)]) blast
  ultimately have "ref_admits opr e m r \<longleftrightarrow> test_holds opr e (tm_name m) (co_column l, [rg_id r]) \<and>
      (\<forall>k \<in> set ks. \<exists>w. map_of (rg_chain r) (co_dimension k) = Some w \<and> test_holds opr e (tm_name m) (co_column k, [w]))"
    unfolding ref_admits_def d [symmetric] by simp
  also have "\<dots> \<longleftrightarrow> list_all (\<lambda>(l, v). test_holds opr e (tm_name m) (co_column l, [v])) vals" using all by (simp add: v list_all_iff) force
  finally show ?thesis by simp
qed

lemma holds_linksPredicate:
  assumes "linksPredicate table vals = Inr n"
  shows "holds opr e n \<longleftrightarrow> list_all (\<lambda>(l, v). test_holds opr e table (co_column l, [v])) vals"
  using holds_allOf [OF assms [unfolded linksPredicate_def]] by (simp add: list_all_iff test_holds_def case_prod_unfold)

lemma object_ref:
  assumes "wf_links m" and "objectPredicate m (RefGrant r) op = Inr n"
  shows "holds opr e n \<longleftrightarrow> ref_admits opr e m r"
proof -
  obtain ls vals where ls: "selfLinks m = Inr ls" "linkValues ls r = Inr vals" "linksPredicate (tm_name m) vals = Inr n"
    and d: "\<exists>k c. tm_scope m = DimensionScope (rg_dimension r) k c"
    using assms(2) by (auto simp: objectPredicate_def refGrant_def checkGrant_def dimensionScope_def bindE_eq_Inr split: scope_model.splits)
  have "dropWhile (\<lambda>l. co_dimension l \<noteq> rg_dimension r) (links_of m) = ls" using d ls(1) by (auto simp: links_of_def selfLinks_def)
  then show ?thesis using holds_linksPredicate [OF ls(3)] ref_values [OF assms(1)] ls(2) by simp
qed

lemma parent_ref:
  assumes "wf_links m" and "wf_child m p" and "tm_scope p = DimensionScope (rg_dimension r) k c" and "parentPredicate m r = Inr n"
  shows "holds opr e n \<longleftrightarrow> ref_admits opr e m r"
proof -
  obtain vals where v: "linkValues (tm_chain m) r = Inr vals" "linksPredicate (tm_name m) vals = Inr n"
    using assms(4) by (auto simp: parentPredicate_def bindE_eq_Inr)
  have "dropWhile (\<lambda>l. co_dimension l \<noteq> rg_dimension r) (links_of m) = tm_chain m"
    using assms(2,3) by (auto simp: wf_child_def links_of_def selfLinks_def split: scope_model.splits)
  then show ?thesis using holds_linksPredicate [OF v(2)] ref_values [OF assms(1)] v(1) by simp
qed

lemma childList_ref:
  assumes "wf_links m" and "wf_child m pm" and "childListPredicate m (Some pm) (RefGrant r) op = Inr p"
  shows "listed opr e p \<longleftrightarrow> ref_admits opr e m r"
proof -
  obtain k c n where s: "tm_scope pm = DimensionScope (rg_dimension r) k c" and n: "parentPredicate m r = Inr n" "p = Some n"
    using assms(3) by (auto simp: childListPredicate_def childScope_def dimensionScope_def checkGrant_def bindE_eq_Inr split: scope_model.splits)
  show ?thesis using parent_ref [OF assms(1,2) s n(1)] by (simp add: listed_def n(2))
qed

lemma childObject_ref:
  assumes "wf_links m" and "wf_child m pm" and "childObjectPredicate m (Some pm) (RefGrant r) key op = Inr n"
  shows "\<exists>kc. keyOf m = Inr kc \<and> (holds opr e n \<longleftrightarrow> test_holds opr e (tm_name m) (kc, [key]) \<and> ref_admits opr e m r)"
proof -
  obtain kc k c p where s: "tm_scope pm = DimensionScope (rg_dimension r) k c" "keyOf m = Inr kc" and p: "parentPredicate m r = Inr p"
    and n: "allOf [equals (tm_name m) kc (PStr key), p] = Inr n"
    using assms(3) by (auto simp: childObjectPredicate_def childScope_def dimensionScope_def refGrant_def checkGrant_def keyOf_def bindE_eq_Inr
      split: scope_model.splits if_splits)
  obtain vals :: "(container \<times> string) list" where v: "allOf (map (\<lambda>(l, v). equals (tm_name m) (co_column l) (PStr v)) vals) = Inr p"
    using p by (auto simp: parentPredicate_def linksPredicate_def bindE_eq_Inr)
  have "single (Some p)" by (rule allOf_single [OF v]) (auto simp: list_all_iff)
  then have "holds opr e n \<longleftrightarrow> holds opr e (equals (tm_name m) kc (PStr key)) \<and> holds opr e p" using holds_allOf [OF n] by simp
  then show ?thesis using parent_ref [OF assms(1,2) s(1) p] s(2) by (auto simp: test_holds_def)
qed

lemma scopeTerms_ref:
  assumes "wf_links m" and "\<forall>a b. tm_scope m \<noteq> AppScope a b" and "scopeTerms m (RefGrant r) use = Inr terms"
  shows "terms_match opr e (tm_name m) terms \<longleftrightarrow> ref_admits opr e m r"
proof -
  obtain vals where v: "linkValues (dropWhile (\<lambda>l. co_dimension l \<noteq> rg_dimension r) (links_of m)) r = Inr vals"
    and t: "terms = Groups [map (\<lambda>(link, v). \<lparr>st_column = co_column link, st_value = Exactly v\<rparr>) vals]"
    using assms(2,3) by (auto simp: scopeTerms_def bindE_eq_Inr split: scope_model.splits list.splits)
  have "terms_match opr e (tm_name m) terms \<longleftrightarrow> list_all (\<lambda>(l, v). test_holds opr e (tm_name m) (co_column l, [v])) vals"
    by (simp add: t terms_match_def list_all_iff test_matches_def case_prod_unfold)
  then show ?thesis using ref_values [OF assms(1) v] by simp
qed

lemma scopeTerms_chain:
  assumes "\<forall>a b. tm_scope m \<noteq> AppScope a b" and "scopeTerms m (RefGrant r) use = Inr terms"
  shows "\<forall>l \<in> set (upper_links m (rg_dimension r)). map_of (rg_chain r) (co_dimension l) \<noteq> None"
proof -
  obtain vals where v: "linkValues (dropWhile (\<lambda>l. co_dimension l \<noteq> rg_dimension r) (links_of m)) r = Inr vals"
    using assms by (auto simp: scopeTerms_def bindE_eq_Inr split: scope_model.splits list.splits)
  show ?thesis using linkValues_parts [OF v] by (auto simp: upper_links_def)
qed


text \<open>Example tables: notes in projects in organisations, and the comments of a note.\<close>

definition sample_actions :: action_model where
  "sample_actions = \<lparr>am_read = [''read''], am_insert = [''write''], am_update = [''write''], am_delete = [''write''], am_appRead = [], am_appCount = []\<rparr>"

definition sample_table :: "string \<Rightarrow> scope_model \<Rightarrow> string list \<Rightarrow> container list \<Rightarrow> table_model" where
  "sample_table name scope columns chain =
     \<lparr>tm_name = name, tm_scope = scope, tm_actions = sample_actions, tm_columns = columns, tm_visible = columns, tm_insert = [''body''],
      tm_update = [''body''], tm_version = Some ''version'', tm_createdBy = None, tm_queue = None, tm_files = [], tm_columnReads = [],
      tm_columnWrites = [], tm_dates = [], tm_timestamps = [], tm_booleans = [], tm_json = [], tm_foreignKeys = [], tm_view = False,
      tm_chain = chain\<rparr>"

definition sample_notes :: table_model where
  "sample_notes = (let c = \<lparr>co_dimension = ''project'', co_column = ''project_id''\<rparr> in
     sample_table ''notes'' (DimensionScope ''note'' ''id'' (Some c)) [''id'', ''body'', ''version'', ''project_id'', ''org_id'']
       [c, \<lparr>co_dimension = ''org'', co_column = ''org_id''\<rparr>])"

definition sample_comments :: table_model where
  "sample_comments = sample_table ''comments'' (ChildScope ''notes'' ''id'' ''note_id'' [''project_id'', ''org_id''])
     [''id'', ''body'', ''version'', ''note_id'', ''project_id'', ''org_id'']
     (\<lparr>co_dimension = ''note'', co_column = ''note_id''\<rparr> # tm_chain sample_notes)"

definition sample_within :: within_grant where
  "sample_within = \<lparr>wg_dimension = ''project'', wg_action = ''read'', wg_principal = ''ann'', wg_values = ValueList [''p1''],
     wg_containers = [\<lparr>cg_dimension = ''org'', cg_values = [''o9'']\<rparr>], wg_contained = []\<rparr>"

lemma sample_wf: "wf_links sample_notes" "wf_links sample_comments" "wf_child sample_comments sample_notes"
  by code_simp+



definition sample_ref :: ref_grant where
  "sample_ref = \<lparr>rg_dimension = ''note'', rg_action = ''read'', rg_principal = ''ann'', rg_id = ''n1'',
     rg_chain = [(''project'', ''p1''), (''org'', ''o1'')]\<rparr>"


end
