(* ===== verification/Db_Policy.thy ===== *)
theory Db_Policy
  imports Db_Scope_Exact
begin

text \<open>
  The table policies of \<open>packages/db/src/policy.ts\<close>: what \<open>defineTables\<close> and \<open>readTables\<close> parse from a vocabulary, the generated
  column list and the policies. The inputs are plain data (\<open>node_val\<close>), where an object's keys are distinct and an undefined property
  is an absent one. Every refusal is a \<open>PolicyError\<close>; its message is left out. A name set is the list of its names.
\<close>

subsection \<open>Plain inputs\<close>

definition plainRecord :: "node_val option \<Rightarrow> db_error + (string \<times> node_val) list" where
  "plainRecord v = (case v of Some (NObj ps) \<Rightarrow> Inr ps | _ \<Rightarrow> Inl PolicyError)"

definition onlyFields :: "(string \<times> node_val) list \<Rightarrow> string list \<Rightarrow> db_error + unit" where
  "onlyFields r allowed = require (list_all (\<lambda>(k, _). k \<in> set allowed) r) PolicyError"

text \<open>The elements of a plain array; every caller refuses anything else.\<close>

definition parseList :: "node_val option \<Rightarrow> (node_val \<Rightarrow> db_error + 'b) \<Rightarrow> db_error + 'b list" where
  "parseList v f = (case v of Some (NArr xs) \<Rightarrow> mapE f xs | _ \<Rightarrow> Inl PolicyError)"

definition text_value :: "node_val option \<Rightarrow> string option" where
  "text_value v = (case v of Some (NPrim (PStr s)) \<Rightarrow> Some s | _ \<Rightarrow> None)"

definition nonEmpty :: "node_val option \<Rightarrow> db_error + string" where
  "nonEmpty v = (case text_value v of Some s \<Rightarrow> if s = [] then Inl PolicyError else Inr s | None \<Rightarrow> Inl PolicyError)"

definition nameSet :: "string list \<Rightarrow> string list" where
  "nameSet names = add_new [] names"

lemma set_nameSet [simp]: "set (nameSet names) = set names"
  by (simp add: nameSet_def)

text \<open>A column a policy states, and one a convention derives, must be a column of the table.\<close>

definition column_named :: "string list \<Rightarrow> node_val option \<Rightarrow> db_error + string" where
  "column_named cols v =
     (case text_value v of Some s \<Rightarrow> if s \<in> set cols then Inr s else Inl PolicyError | None \<Rightarrow> Inl PolicyError)"

definition column_derived :: "string list \<Rightarrow> string \<Rightarrow> db_error + string" where
  "column_derived cols name = (if name \<in> set cols then Inr name else Inl PolicyError)"

definition columnsOf :: "string list \<Rightarrow> node_val option \<Rightarrow> db_error + string list" where
  "columnsOf cols v = (case v of None \<Rightarrow> Inr [] | Some _ \<Rightarrow> parseList v (\<lambda>n. column_named cols (Some n)))"

subsection \<open>The vocabulary\<close>

type_synonym containment = "(string \<times> string option) list"

record vocabulary_model =
  vm_dimensions :: containment
  vm_actions :: "string list"

definition container_of :: "containment \<Rightarrow> string \<Rightarrow> string option" where
  "container_of cm d = (case map_of cm d of Some (Some c) \<Rightarrow> Some c | _ \<Rightarrow> None)"

definition dimension_container :: "(string \<times> node_val) list \<Rightarrow> node_val \<Rightarrow> db_error + string option" where
  "dimension_container dims v =
     bindE (plainRecord (Some v)) (\<lambda>r.
     case map_of r ''in'' of
       None \<Rightarrow> Inr None
     | Some c \<Rightarrow>
         (case text_value (Some c) of
            Some name \<Rightarrow> if map_of dims name \<noteq> None then Inr (Some name) else Inl PolicyError
          | None \<Rightarrow> Inl PolicyError))"

text \<open>The walk up from a dimension: a cycle when it comes back to the first, or takes more steps than there are dimensions.\<close>

function cyclic_from :: "containment \<Rightarrow> string \<Rightarrow> nat \<Rightarrow> string option \<Rightarrow> bool" where
  "cyclic_from cm first len None = False"
| "cyclic_from cm first len (Some up) =
     (if up = first \<or> Suc len > length cm then True else cyclic_from cm first (Suc len) (container_of cm up))"
  by pat_completeness auto
termination
  by (relation "measure (\<lambda>(cm, first, len, up). length cm - len)") auto

definition parseVocabulary :: "node_val \<Rightarrow> db_error + vocabulary_model" where
  "parseVocabulary input =
     bindE (plainRecord (Some input)) (\<lambda>vocabulary.
     bindE (plainRecord (map_of vocabulary ''dimensions'')) (\<lambda>dims.
     bindE (mapE (\<lambda>(name, v). bindE (dimension_container dims v) (\<lambda>c. Inr (name, c))) dims) (\<lambda>cm.
     bindE (require (list_all (\<lambda>(name, _). \<not> cyclic_from cm name 1 (container_of cm name)) cm) PolicyError) (\<lambda>_.
     bindE (plainRecord (map_of vocabulary ''actions'')) (\<lambda>acts.
     Inr \<lparr>vm_dimensions = cm, vm_actions = nameSet (map fst acts)\<rparr>)))))"

subsection \<open>One table\<close>

datatype parsed_scope =
    PDimension string string "container option"
  | PChild string string "string option" "string list option"
  | PReference string
  | PApp string string

record parsed_table =
  pt_name :: string
  pt_scope :: parsed_scope
  pt_actions :: action_model
  pt_columns :: "string list"
  pt_visible :: "string list"
  pt_insert :: "string list"
  pt_update :: "string list"
  pt_version :: "string option"
  pt_createdBy :: "string option"
  pt_queue :: "queue_model option"
  pt_files :: "(string \<times> string) list"
  pt_columnReads :: "(string \<times> string) list"
  pt_columnWrites :: "(string \<times> string) list"
  pt_dates :: "string list"
  pt_timestamps :: "string list"
  pt_booleans :: "string list"
  pt_json :: "string list"
  pt_foreignKeys :: "foreign_key list"
  pt_view :: bool

definition COLUMN_LIST_FIELDS :: "string list" where
  "COLUMN_LIST_FIELDS = [''columns'', ''foreignKeys'', ''dates'', ''timestamps'', ''booleans'', ''json'', ''view'']"

definition FOREIGN_KEY_FIELDS :: "string list" where
  "FOREIGN_KEY_FIELDS = [''columns'', ''table'', ''references'']"

definition POLICY_FIELDS :: "string list" where
  "POLICY_FIELDS = [''scope'', ''actions'', ''insert'', ''update'', ''version'', ''createdBy'', ''columns'', ''queue'', ''files'']"

definition QUEUE_FIELDS :: "string list" where
  "QUEUE_FIELDS = [''attempts'', ''due'', ''maxAttempts'']"

definition ACTION_FIELDS :: "string list" where
  "ACTION_FIELDS = [''read'', ''insert'', ''update'', ''delete'', ''appRead'', ''appCount'']"

definition DIMENSION_FIELDS :: "string list" where
  "DIMENSION_FIELDS = [''dimension'', ''key'', ''in'']"

definition CONTAINER_FIELDS :: "string list" where
  "CONTAINER_FIELDS = [''dimension'', ''column'']"

definition CHILD_FIELDS :: "string list" where
  "CHILD_FIELDS = [''child'', ''key'', ''column'', ''inherit'']"

definition REFERENCE_FIELDS :: "string list" where
  "REFERENCE_FIELDS = [''reference'']"

definition APPLICATION_FIELDS :: "string list" where
  "APPLICATION_FIELDS = [''app'', ''key'']"

definition COLUMN_FIELDS :: "string list" where
  "COLUMN_FIELDS = [''read'', ''write'']"

definition DEFAULT_MAX_ATTEMPTS :: nat where
  "DEFAULT_MAX_ATTEMPTS = 10"

definition isViewEntry :: "node_val option \<Rightarrow> db_error + bool" where
  "isViewEntry entry =
     bindE (plainRecord entry) (\<lambda>r.
     case map_of r ''view'' of
       None \<Rightarrow> Inr False
     | Some v \<Rightarrow> if v = NPrim (PBool True) then Inr True else Inl PolicyError)"

text \<open>A containment column is the one the vocabulary's container is carried in: \<open><container>_id\<close>, or the stated one.\<close>

definition parseContainer :: "string option \<Rightarrow> node_val option \<Rightarrow> string list \<Rightarrow> db_error + container option" where
  "parseContainer container input cols =
     (case container of
        None \<Rightarrow> if input = None then Inr None else Inl PolicyError
      | Some c \<Rightarrow>
          if input = None then bindE (column_derived cols (c @ ''_id'')) (\<lambda>name. Inr (Some \<lparr>co_dimension = c, co_column = name\<rparr>))
          else
            bindE (plainRecord input) (\<lambda>stated.
            bindE (onlyFields stated CONTAINER_FIELDS) (\<lambda>_.
            bindE (require (map_of stated ''dimension'' = None \<or> text_value (map_of stated ''dimension'') = Some c) PolicyError) (\<lambda>_.
            bindE (column_named cols (map_of stated ''column'')) (\<lambda>name. Inr (Some \<lparr>co_dimension = c, co_column = name\<rparr>))))))"

definition scope_key :: "(string \<times> node_val) list \<Rightarrow> string list \<Rightarrow> db_error + string" where
  "scope_key scope cols =
     (case map_of scope ''key'' of None \<Rightarrow> column_derived cols ''id'' | Some v \<Rightarrow> column_named cols (Some v))"

definition parseScope :: "(string \<times> node_val) list \<Rightarrow> string list \<Rightarrow> containment \<Rightarrow> db_error + parsed_scope" where
  "parseScope scope cols cm =
     (if map_of scope ''dimension'' \<noteq> None then
        bindE (onlyFields scope DIMENSION_FIELDS) (\<lambda>_.
        bindE (nonEmpty (map_of scope ''dimension'')) (\<lambda>d.
        case map_of cm d of
          None \<Rightarrow> Inl PolicyError
        | Some c \<Rightarrow>
            bindE (parseContainer c (map_of scope ''in'') cols) (\<lambda>container.
            bindE (scope_key scope cols) (\<lambda>key. Inr (PDimension d key container)))))
      else if map_of scope ''child'' \<noteq> None then
        bindE (onlyFields scope CHILD_FIELDS) (\<lambda>_.
        bindE (nonEmpty (map_of scope ''child'')) (\<lambda>parent.
        bindE (scope_key scope cols) (\<lambda>key.
        bindE (case map_of scope ''column'' of None \<Rightarrow> Inr None | Some v \<Rightarrow> bindE (column_named cols (Some v)) (\<lambda>n. Inr (Some n))) (\<lambda>name.
        bindE (case map_of scope ''inherit'' of None \<Rightarrow> Inr None | Some v \<Rightarrow> bindE (columnsOf cols (Some v)) (\<lambda>ns. Inr (Some ns))) (\<lambda>inherit.
        Inr (PChild parent key name inherit))))))
      else if map_of scope ''reference'' \<noteq> None then
        bindE (onlyFields scope REFERENCE_FIELDS) (\<lambda>_. bindE (nonEmpty (map_of scope ''reference'')) (\<lambda>reason. Inr (PReference reason)))
      else if map_of scope ''app'' \<noteq> None \<and> map_of scope ''inbox'' = None then
        bindE (onlyFields scope APPLICATION_FIELDS) (\<lambda>_.
        bindE (nonEmpty (map_of scope ''app'')) (\<lambda>reason. bindE (scope_key scope cols) (\<lambda>key. Inr (PApp reason key))))
      else Inl PolicyError)"

text \<open>The actions of each operation: an action of the vocabulary, or a non-empty list of distinct ones.\<close>

definition action_named :: "string list \<Rightarrow> node_val option \<Rightarrow> db_error + string" where
  "action_named acts v = bindE (nonEmpty v) (\<lambda>n. if n \<in> set acts then Inr n else Inl PolicyError)"

definition distinctActions :: "string list \<Rightarrow> node_val option \<Rightarrow> db_error + string list" where
  "distinctActions acts v =
     bindE (parseList v (\<lambda>n. action_named acts (Some n))) (\<lambda>names.
     bindE (require (names \<noteq> []) PolicyError) (\<lambda>_.
     bindE (require (distinct names) PolicyError) (\<lambda>_. Inr names)))"

definition operation_actions :: "string list \<Rightarrow> (string \<times> node_val) list \<Rightarrow> string \<Rightarrow> db_error + string list" where
  "operation_actions acts actions field =
     (case map_of actions field of
        None \<Rightarrow> if field = ''read'' then Inl PolicyError else Inr []
      | Some (NArr xs) \<Rightarrow> distinctActions acts (Some (NArr xs))
      | Some v \<Rightarrow> bindE (action_named acts (Some v)) (\<lambda>n. Inr [n]))"

definition reach_actions :: "string list \<Rightarrow> (string \<times> node_val) list \<Rightarrow> bool \<Rightarrow> string list \<Rightarrow> string \<Rightarrow> db_error + string list" where
  "reach_actions acts actions records rd field =
     (case map_of actions field of
        None \<Rightarrow> Inr []
      | Some v \<Rightarrow>
          if \<not> records then Inl PolicyError
          else bindE (distinctActions acts (Some v)) (\<lambda>names.
               bindE (require (list_all (\<lambda>n. n \<notin> set rd) names) PolicyError) (\<lambda>_. Inr names)))"

definition parseActions :: "string list \<Rightarrow> (string \<times> node_val) list \<Rightarrow> node_val option \<Rightarrow> db_error + action_model" where
  "parseActions acts scope input =
     bindE (plainRecord input) (\<lambda>actions.
     bindE (onlyFields actions ACTION_FIELDS) (\<lambda>_.
     bindE (operation_actions acts actions ''read'') (\<lambda>rd.
     let records = (map_of scope ''dimension'' \<noteq> None \<or> map_of scope ''child'' \<noteq> None) in
     bindE (reach_actions acts actions records rd ''appRead'') (\<lambda>appRead.
     bindE (reach_actions acts actions records rd ''appCount'') (\<lambda>appCount.
     bindE (require (list_all (\<lambda>n. n \<notin> set appRead) appCount) PolicyError) (\<lambda>_.
     bindE (operation_actions acts actions ''insert'') (\<lambda>ins.
     bindE (operation_actions acts actions ''update'') (\<lambda>upd.
     bindE (operation_actions acts actions ''delete'') (\<lambda>del.
     Inr \<lparr>am_read = rd, am_insert = ins, am_update = upd, am_delete = del, am_appRead = appRead, am_appCount = appCount\<rparr>)))))))))"

definition parseForeignKeys :: "string list \<Rightarrow> node_val option \<Rightarrow> db_error + foreign_key list" where
  "parseForeignKeys cols input =
     parseList input (\<lambda>item.
       bindE (plainRecord (Some item)) (\<lambda>key.
       bindE (onlyFields key FOREIGN_KEY_FIELDS) (\<lambda>_.
       bindE (parseList (map_of key ''columns'') (\<lambda>n. column_named cols (Some n))) (\<lambda>columns.
       bindE (parseList (map_of key ''references'') (\<lambda>n. nonEmpty (Some n))) (\<lambda>refs.
       bindE (require (columns \<noteq> [] \<and> length columns = length refs) PolicyError) (\<lambda>_.
       bindE (nonEmpty (map_of key ''table'')) (\<lambda>t.
       Inr \<lparr>fk_columns = columns, fk_table = t, fk_references = refs\<rparr>)))))))"

definition parseColumnSet :: "string list \<Rightarrow> node_val option \<Rightarrow> db_error + string list" where
  "parseColumnSet cols input =
     (case input of None \<Rightarrow> Inr [] | Some _ \<Rightarrow> bindE (parseList input (\<lambda>n. column_named cols (Some n))) (\<lambda>names. Inr (nameSet names)))"

text \<open>A column's own actions. Its write action takes the column from the table's update action.\<close>

definition columnWrite :: "string \<Rightarrow> string \<Rightarrow> action_model \<Rightarrow> string list \<Rightarrow> db_error + string" where
  "columnWrite name write actions upd =
     bindE (require (name \<notin> set upd) PolicyError) (\<lambda>_.
     bindE (require (write \<notin> set (am_update actions)) PolicyError) (\<lambda>_. Inr write))"

definition column_policy ::
  "string list \<Rightarrow> string list \<Rightarrow> action_model \<Rightarrow> string list \<Rightarrow> bool \<Rightarrow> string \<times> node_val \<Rightarrow> db_error + string \<times> string option \<times> string option"
where
  "column_policy cols acts actions upd view p =
     bindE (column_named cols (Some (text_node (fst p)))) (\<lambda>name.
     bindE (plainRecord (Some (snd p))) (\<lambda>policy.
     bindE (onlyFields policy COLUMN_FIELDS) (\<lambda>_.
     bindE (require (map_of policy ''read'' \<noteq> None \<or> map_of policy ''write'' \<noteq> None) PolicyError) (\<lambda>_.
     bindE (case map_of policy ''read'' of None \<Rightarrow> Inr None | Some v \<Rightarrow> bindE (action_named acts (Some v)) (\<lambda>a. Inr (Some a))) (\<lambda>rd.
     bindE (case map_of policy ''write'' of
              None \<Rightarrow> Inr None
            | Some v \<Rightarrow>
                if view then Inl PolicyError
                else bindE (action_named acts (Some v)) (\<lambda>w. bindE (columnWrite name w actions upd) (\<lambda>a. Inr (Some a)))) (\<lambda>wr.
     Inr (name, rd, wr)))))))"

definition reads_of :: "(string \<times> string option \<times> string option) list \<Rightarrow> (string \<times> string) list" where
  "reads_of ps = List.map_filter (\<lambda>(name, rd, wr). map_option (Pair name) rd) ps"

definition writes_of :: "(string \<times> string option \<times> string option) list \<Rightarrow> (string \<times> string) list" where
  "writes_of ps = List.map_filter (\<lambda>(name, rd, wr). map_option (Pair name) wr) ps"

text \<open>With several read actions, a column of one of them is hidden from the others.\<close>

definition restricted_of :: "action_model \<Rightarrow> (string \<times> string) list \<Rightarrow> string list" where
  "restricted_of actions rds = map fst (filter (\<lambda>(name, rd). length (am_read actions) > 1 \<or> rd \<notin> set (am_read actions)) rds)"

definition positive_integer :: "node_val \<Rightarrow> nat option" where
  "positive_integer v =
     (case v of
        NPrim (PNum q) \<Rightarrow>
          if snd (quotient_of q) = 1 \<and> 1 \<le> q \<and> q \<le> 9007199254740991 then Some (nat (fst (quotient_of q))) else None
      | _ \<Rightarrow> None)"

definition parseQueue ::
  "string list \<Rightarrow> string list \<Rightarrow> string option \<Rightarrow> action_model \<Rightarrow> string list \<Rightarrow> (string \<times> string) list \<Rightarrow> node_val \<Rightarrow> db_error + queue_model"
where
  "parseQueue cols timestamps version actions upd writes input =
     bindE (plainRecord (Some input)) (\<lambda>queue.
     bindE (onlyFields queue QUEUE_FIELDS) (\<lambda>_.
     bindE (column_named cols (map_of queue ''attempts'')) (\<lambda>attempts.
     bindE (column_named cols (map_of queue ''due'')) (\<lambda>due.
     bindE (require (attempts \<noteq> due) PolicyError) (\<lambda>_.
     bindE (require (due \<in> set timestamps) PolicyError) (\<lambda>_.
     bindE (case map_of queue ''maxAttempts'' of
              None \<Rightarrow> Inr DEFAULT_MAX_ATTEMPTS
            | Some v \<Rightarrow> (case positive_integer v of None \<Rightarrow> Inl PolicyError | Some n \<Rightarrow> Inr n)) (\<lambda>maxAttempts.
     bindE (require (version \<noteq> None) PolicyError) (\<lambda>_.
     bindE (require (am_update actions \<noteq> []) PolicyError) (\<lambda>_.
     bindE (require (\<not> (''ref'' \<in> set cols \<or> ''version'' \<in> set cols \<and> version \<noteq> Some ''version'')) PolicyError) (\<lambda>_.
     bindE (require (list_all (\<lambda>n. n \<notin> set upd \<and> n \<notin> fst ` set writes) [attempts, due]) PolicyError) (\<lambda>_.
     Inr \<lparr>qm_attempts = attempts, qm_due = due, qm_maxAttempts = maxAttempts\<rparr>)))))))))))"

definition key_of_scope :: "parsed_scope \<Rightarrow> string option" where
  "key_of_scope s = (case s of PDimension _ k _ \<Rightarrow> Some k | PChild _ k _ _ \<Rightarrow> Some k | PApp _ k \<Rightarrow> Some k | PReference _ \<Rightarrow> None)"

definition layer_columns :: "parsed_scope \<Rightarrow> string option \<Rightarrow> string option \<Rightarrow> queue_model option \<Rightarrow> string list" where
  "layer_columns scope version createdBy queue =
     List.map_filter id
       ([key_of_scope scope,
         case scope of PDimension _ _ c \<Rightarrow> map_option co_column c | PChild _ _ name _ \<Rightarrow> name | _ \<Rightarrow> None,
         version, createdBy, map_option qm_attempts queue, map_option qm_due queue])"

definition parseFileColumns ::
  "string list \<Rightarrow> parsed_scope \<Rightarrow> string option \<Rightarrow> string option \<Rightarrow> queue_model option \<Rightarrow> node_val \<Rightarrow> db_error + (string \<times> string) list"
where
  "parseFileColumns cols scope version createdBy queue input =
     bindE (plainRecord (Some input)) (\<lambda>files.
     bindE (require (files \<noteq> []) PolicyError) (\<lambda>_.
     mapE (\<lambda>(n, v).
       bindE (column_named cols (Some (text_node n))) (\<lambda>name.
       bindE (require (name \<notin> set (layer_columns scope version createdBy queue)) PolicyError) (\<lambda>_.
       case text_value (Some v) of
         Some kind \<Rightarrow> if isPlainIdentifier kind then Inr (name, kind) else Inl PolicyError
       | None \<Rightarrow> Inl PolicyError))) files))"

definition optional_column :: "string list \<Rightarrow> node_val option \<Rightarrow> db_error + string option" where
  "optional_column cols v = (case v of None \<Rightarrow> Inr None | Some _ \<Rightarrow> bindE (column_named cols v) (\<lambda>n. Inr (Some n)))"

definition writable_scope :: "parsed_scope \<Rightarrow> bool \<Rightarrow> bool" where
  "writable_scope scope view \<longleftrightarrow> \<not> view \<and> key_of_scope scope \<noteq> None"

text \<open>What a table no handler writes states: no column list, no version, creator, write action, queue or file, no writing operation.\<close>

definition states_no_write ::
  "action_model \<Rightarrow> string list \<Rightarrow> string list \<Rightarrow> string option \<Rightarrow> string option \<Rightarrow> (string \<times> string) list \<Rightarrow> (string \<times> node_val) list \<Rightarrow> bool"
where
  "states_no_write actions ins upd version createdBy writes policy \<longleftrightarrow>
     ins = [] \<and> upd = [] \<and> version = None \<and> createdBy = None \<and> writes = [] \<and>
     map_of policy ''queue'' = None \<and> map_of policy ''files'' = None \<and>
     am_insert actions = [] \<and> am_update actions = [] \<and> am_delete actions = []"

definition parseTable :: "string \<Rightarrow> node_val option \<Rightarrow> node_val option \<Rightarrow> vocabulary_model \<Rightarrow> db_error + parsed_table" where
  "parseTable table columnList policyInput vocabulary =
     bindE (require (isPlainIdentifier table) PolicyError) (\<lambda>_.
     bindE (plainRecord policyInput) (\<lambda>policy.
     bindE (onlyFields policy POLICY_FIELDS) (\<lambda>_.
     bindE (plainRecord columnList) (\<lambda>entry.
     bindE (onlyFields entry COLUMN_LIST_FIELDS) (\<lambda>_.
     bindE (parseList (map_of entry ''columns'') (\<lambda>n.
       case text_value (Some n) of Some s \<Rightarrow> if isPlainIdentifier s then Inr s else Inl PolicyError | None \<Rightarrow> Inl PolicyError)) (\<lambda>columnNames.
     let cols = nameSet columnNames; acts = vm_actions vocabulary in
     bindE (plainRecord (map_of policy ''scope'')) (\<lambda>scopeInput.
     bindE (parseForeignKeys cols (map_of entry ''foreignKeys'')) (\<lambda>foreignKeys.
     bindE (parseScope scopeInput cols (vm_dimensions vocabulary)) (\<lambda>scope.
     bindE (isViewEntry columnList) (\<lambda>view.
     bindE (require (view \<longrightarrow> (case scope of PChild _ _ _ _ \<Rightarrow> True | PReference _ \<Rightarrow> True | _ \<Rightarrow> False)) PolicyError) (\<lambda>_.
     bindE (parseActions acts scopeInput (map_of policy ''actions'')) (\<lambda>actions.
     bindE (columnsOf cols (map_of policy ''insert'')) (\<lambda>insertNames.
     bindE (columnsOf cols (map_of policy ''update'')) (\<lambda>updateNames.
     let ins = nameSet insertNames; upd = nameSet updateNames in
     bindE (optional_column cols (map_of policy ''version'')) (\<lambda>version.
     bindE (optional_column cols (map_of policy ''createdBy'')) (\<lambda>createdBy.
     bindE (case map_of policy ''columns'' of None \<Rightarrow> Inr [] | Some v \<Rightarrow> plainRecord (Some v)) (\<lambda>columnPolicies.
     bindE (mapE (column_policy cols acts actions upd view) columnPolicies) (\<lambda>declared.
     let rds = reads_of declared; wrs = writes_of declared in
     bindE (require (\<forall>k \<in> set_option (key_of_scope scope) \<union> set_option version. k \<notin> fst ` set columnPolicies) PolicyError) (\<lambda>_.
     bindE (require (\<not> (view \<and> (map_of policy ''insert'' \<noteq> None \<or> map_of policy ''update'' \<noteq> None))) PolicyError) (\<lambda>_.
     bindE (require (writable_scope scope view \<or> states_no_write actions ins upd version createdBy wrs policy) PolicyError) (\<lambda>_.
     bindE (parseColumnSet cols (map_of entry ''dates'')) (\<lambda>dates.
     bindE (parseColumnSet cols (map_of entry ''timestamps'')) (\<lambda>timestamps.
     bindE (parseColumnSet cols (map_of entry ''booleans'')) (\<lambda>booleans.
     bindE (parseColumnSet cols (map_of entry ''json'')) (\<lambda>json.
     bindE (case map_of policy ''queue'' of
              None \<Rightarrow> Inr None
            | Some v \<Rightarrow> bindE (parseQueue cols timestamps version actions upd wrs v) (\<lambda>q. Inr (Some q))) (\<lambda>queue.
     bindE (case map_of policy ''files'' of None \<Rightarrow> Inr [] | Some v \<Rightarrow> parseFileColumns cols scope version createdBy queue v) (\<lambda>files.
     Inr \<lparr>pt_name = table, pt_scope = scope, pt_actions = actions, pt_columns = cols,
       pt_visible = filter (\<lambda>n. n \<notin> set (restricted_of actions rds)) columnNames,
       pt_insert = ins, pt_update = upd, pt_version = version, pt_createdBy = createdBy, pt_queue = queue, pt_files = files,
       pt_columnReads = rds, pt_columnWrites = wrs, pt_dates = dates, pt_timestamps = timestamps, pt_booleans = booleans,
       pt_json = json, pt_foreignKeys = foreignKeys, pt_view = view\<rparr>)))))))))))))))))))))))))))"

subsection \<open>Linking the tables\<close>

record stamp =
  sp_column :: string
  sp_insertable :: bool

text \<open>The columns the layer writes itself: the key, every containment link, the version, the creator and a queue's columns.\<close>

definition stampsOf :: "parsed_table \<Rightarrow> container list \<Rightarrow> stamp list" where
  "stampsOf t chain =
     (let own = (\<lambda>c. \<lparr>sp_column = c, sp_insertable = False\<rparr>) in
      (case key_of_scope (pt_scope t) of None \<Rightarrow> [] | Some k \<Rightarrow> [own k]) @
      map (\<lambda>l. own (co_column l)) chain @
      (case pt_version t of None \<Rightarrow> [] | Some v \<Rightarrow> [own v]) @
      (case pt_createdBy t of None \<Rightarrow> [] | Some v \<Rightarrow> [own v]) @
      (case pt_queue t of None \<Rightarrow> [] | Some q \<Rightarrow> [own (qm_attempts q), \<lparr>sp_column = qm_due q, sp_insertable = True\<rparr>]))"

definition stamp_ok :: "parsed_table \<Rightarrow> stamp \<Rightarrow> bool" where
  "stamp_ok t s \<longleftrightarrow> (sp_insertable s \<or> sp_column s \<notin> set (pt_insert t)) \<and> sp_column s \<notin> set (pt_update t) \<and>
     sp_column s \<notin> fst ` set (pt_columnWrites t)"

definition checkStamps :: "parsed_table \<Rightarrow> container list \<Rightarrow> db_error + unit" where
  "checkStamps t chain =
     (let stamps = stampsOf t chain in
      require (list_all (\<lambda>s. sp_column s \<notin> set (pt_json t)) stamps \<and>
        (pt_view t \<or> distinct (map sp_column stamps) \<and> list_all (stamp_ok t) stamps)) PolicyError)"

definition references_key :: "parsed_table \<Rightarrow> string \<Rightarrow> string \<Rightarrow> string \<Rightarrow> bool" where
  "references_key t name target key \<longleftrightarrow>
     list_ex (\<lambda>fk. fk_table fk = target \<and> (name, key) \<in> set (zip (fk_columns fk) (fk_references fk))) (pt_foreignKeys t)"

definition owner_key :: "parsed_table \<Rightarrow> string" where
  "owner_key o' = (case pt_scope o' of PDimension _ k _ \<Rightarrow> k | _ \<Rightarrow> [])"

definition requireReference :: "parsed_table \<Rightarrow> container \<Rightarrow> parsed_table \<Rightarrow> db_error + unit" where
  "requireReference t link owner = require (references_key t (co_column link) (pt_name owner) (owner_key owner)) PolicyError"

definition coversPairs :: "foreign_key \<Rightarrow> (string \<times> string) list \<Rightarrow> bool" where
  "coversPairs fk pairs \<longleftrightarrow> list_all (\<lambda>p. p \<in> set (zip (fk_columns fk) (fk_references fk))) pairs"

text \<open>One composite foreign key ties the containment column and the whole inherited chain to the owner's row. A missing chain column is
  left to the chain check.\<close>

definition requireCoveringKey :: "parsed_table \<Rightarrow> container \<Rightarrow> parsed_table \<Rightarrow> container list \<Rightarrow> db_error + unit" where
  "requireCoveringKey t link owner ownerChain =
     (if ownerChain = [] \<or> \<not> list_all (\<lambda>l. co_column l \<in> set (pt_columns t)) ownerChain then Inr ()
      else require (list_ex (\<lambda>fk. fk_table fk = pt_name owner \<and>
             coversPairs fk ((co_column link, owner_key owner) # map (\<lambda>l. (co_column l, co_column l)) ownerChain)) (pt_foreignKeys t)) PolicyError)"

definition checkForeignKeys :: "parsed_table list \<Rightarrow> parsed_table \<Rightarrow> db_error + unit" where
  "checkForeignKeys parsed t =
     require (list_all (\<lambda>fk. case find (\<lambda>u. pt_name u = fk_table fk) parsed of
         None \<Rightarrow> False
       | Some target \<Rightarrow> list_all (\<lambda>c. c \<in> set (pt_columns target)) (fk_references fk)) (pt_foreignKeys t)) PolicyError"

definition owned_dimension :: "parsed_table \<Rightarrow> string option" where
  "owned_dimension t = (case pt_scope t of PDimension d _ _ \<Rightarrow> Some d | _ \<Rightarrow> None)"

definition owner_of :: "parsed_table list \<Rightarrow> string \<Rightarrow> parsed_table option" where
  "owner_of parsed d = find (\<lambda>t. owned_dimension t = Some d) parsed"

definition table_named :: "parsed_table list \<Rightarrow> string \<Rightarrow> parsed_table option" where
  "table_named parsed n = find (\<lambda>t. pt_name t = n) parsed"

definition parentColumn :: "parsed_table \<Rightarrow> string \<Rightarrow> db_error + string" where
  "parentColumn t name = (if name \<in> set (pt_columns t) then Inr name else Inl PolicyError)"

definition inherits_exactly :: "string list \<Rightarrow> string list \<Rightarrow> bool" where
  "inherits_exactly inherit expected \<longleftrightarrow>
     length inherit = length expected \<and> length (nameSet inherit) = length expected \<and> list_all (\<lambda>c. c \<in> set inherit) expected"

type_synonym resolution = "scope_model \<times> container list"

text \<open>A child inherits exactly its parent's containment columns. A view has no foreign key: only its SQL states its containment.\<close>

definition child_link ::
  "parsed_table \<Rightarrow> parsed_table \<Rightarrow> string \<Rightarrow> string \<Rightarrow> string \<Rightarrow> string option \<Rightarrow> string list option \<Rightarrow> container list \<Rightarrow> db_error + resolution"
where
  "child_link t p d parent key name inherit parentChain =
     (let expected = map co_column parentChain;
          inherited = (case inherit of None \<Rightarrow> expected | Some i \<Rightarrow> i) in
      bindE (require (inherits_exactly inherited expected) PolicyError) (\<lambda>_.
      bindE (case name of Some n \<Rightarrow> Inr n | None \<Rightarrow> parentColumn t (d @ ''_id'')) (\<lambda>col.
      let l = \<lparr>co_dimension = d, co_column = col\<rparr> in
      bindE (if pt_view t then Inr () else bindE (requireReference t l p) (\<lambda>_. requireCoveringKey t l p parentChain)) (\<lambda>_.
      Inr (ChildScope parent key col inherited, l # parentChain)))))"

text \<open>A row carries its whole containment chain, and the layer stamps each of its columns.\<close>

definition checked_chain :: "parsed_table \<Rightarrow> resolution \<Rightarrow> db_error + resolution" where
  "checked_chain t r =
     bindE (require (list_all (\<lambda>l. co_column l \<in> set (pt_columns t)) (snd r)) PolicyError) (\<lambda>_.
     bindE (checkStamps t (snd r)) (\<lambda>_. Inr r))"

lemma bindE_cong [fundef_cong]: "m = m' \<Longrightarrow> (\<And>x. m' = Inr x \<Longrightarrow> f x = g x) \<Longrightarrow> bindE m f = bindE m' g"
  by (cases m') auto

definition unvisited :: "parsed_table list \<Rightarrow> string list \<Rightarrow> nat" where
  "unvisited parsed path = card (pt_name ` set parsed - set path)"

lemma unvisited_less: "t \<in> set parsed \<Longrightarrow> pt_name t \<notin> set path \<Longrightarrow> unvisited parsed (path @ [pt_name t]) < unvisited parsed path"
  unfolding unvisited_def by (rule psubset_card_mono) auto

lemma unvisited_le: "unvisited parsed (path @ [n]) \<le> unvisited parsed path"
  unfolding unvisited_def by (rule card_mono) auto

lemma owner_of_Some: "owner_of parsed d = Some t \<Longrightarrow> t \<in> set parsed \<and> owned_dimension t = Some d"
  by (auto simp: owner_of_def find_Some_iff)

lemma table_named_Some: "table_named parsed n = Some t \<Longrightarrow> t \<in> set parsed \<and> pt_name t = n"
  by (auto simp: table_named_def find_Some_iff)

lemma container_of_dom: "container_of cm d = Some c \<Longrightarrow> d \<in> fst ` set cm"
  by (auto simp: container_of_def split: option.splits dest: map_of_SomeD intro: rev_image_eqI)

lemma unseen_less: "container_of cm d = Some c \<Longrightarrow> d \<notin> set seen \<Longrightarrow>
    card (fst ` set cm - set (d # seen)) < card (fst ` set cm - set seen)"
  using container_of_dom by (intro psubset_card_mono) auto

definition resolve_rank :: "parsed_table list \<Rightarrow> string list \<Rightarrow> parsed_table \<Rightarrow> nat" where
  "resolve_rank parsed visiting t = unvisited parsed visiting + (if t \<in> set parsed then 0 else 1)"

lemma resolve_rank_less:
  "pt_name t \<notin> set visiting \<Longrightarrow> unvisited parsed (visiting @ [pt_name t]) < resolve_rank parsed visiting t"
  using unvisited_less [of t parsed visiting] unvisited_le [of parsed visiting "pt_name t"] by (auto simp: resolve_rank_def)

lemma resolve_rank_in: "t \<in> set parsed \<Longrightarrow> resolve_rank parsed visiting t = unvisited parsed visiting"
  by (simp add: resolve_rank_def)

text \<open>The resolution of a table and the links above a dimension, which call each other: \<open>visiting\<close> is the path of tables whose chains are
  being resolved. The cache of resolved tables is left out: it only answers again what the resolution answered. The walk past dimensions
  no table owns stops at a dimension it has seen, which an accepted vocabulary never shows it.\<close>

function resolve :: "parsed_table list \<Rightarrow> containment \<Rightarrow> string list \<Rightarrow> parsed_table \<Rightarrow> db_error + resolution"
  and aboveLinks :: "parsed_table list \<Rightarrow> containment \<Rightarrow> string list \<Rightarrow> string list \<Rightarrow> string \<Rightarrow> db_error + container list"
where
  "resolve parsed cm visiting t =
     (if pt_name t \<in> set visiting then Inl PolicyError
      else let path = visiting @ [pt_name t] in
        bindE
          (case pt_scope t of
             PDimension d k None \<Rightarrow> Inr (DimensionScope d k None, [])
           | PDimension d k (Some c) \<Rightarrow>
               bindE (case owner_of parsed (co_dimension c) of
                        None \<Rightarrow> Inr ()
                      | Some owner \<Rightarrow>
                          bindE (requireReference t c owner) (\<lambda>_.
                          bindE (resolve parsed cm path owner) (\<lambda>r. requireCoveringKey t c owner (snd r)))) (\<lambda>_.
               bindE (aboveLinks parsed cm path [] (co_dimension c)) (\<lambda>ups. Inr (DimensionScope d k (Some c), c # ups)))
           | PChild parent key name inherit \<Rightarrow>
               (case table_named parsed parent of
                  None \<Rightarrow> Inl PolicyError
                | Some p \<Rightarrow>
                    (case owned_dimension p of
                       None \<Rightarrow> Inl PolicyError
                     | Some d \<Rightarrow> bindE (resolve parsed cm path p) (\<lambda>r. child_link t p d parent key name inherit (snd r))))
           | PReference reason \<Rightarrow> Inr (ReferenceScope reason, [])
           | PApp reason key \<Rightarrow> Inr (AppScope reason key, []))
          (checked_chain t))"
| "aboveLinks parsed cm path seen d =
     (case owner_of parsed d of
        Some owner \<Rightarrow> bindE (resolve parsed cm path owner) (\<lambda>r. Inr (snd r))
      | None \<Rightarrow>
          (case container_of cm d of
             None \<Rightarrow> Inr []
           | Some c \<Rightarrow>
               if d \<in> set seen then Inl PolicyError
               else bindE (aboveLinks parsed cm path (d # seen) c) (\<lambda>ups. Inr (\<lparr>co_dimension = c, co_column = c @ ''_id''\<rparr> # ups))))"
  by pat_completeness auto
termination
proof (relation "measures [
    case_sum (\<lambda>(parsed, cm, visiting, t). resolve_rank parsed visiting t) (\<lambda>(parsed, cm, path, seen, d). unvisited parsed path),
    case_sum (\<lambda>_. 0) (\<lambda>(parsed, cm, path, seen, d). Suc (card (fst ` set cm - set seen)))]", goal_cases)
qed (auto simp: resolve_rank_less resolve_rank_in dest!: owner_of_Some table_named_Some unseen_less)

declare resolve.simps [simp del] aboveLinks.simps [simp del]

definition model_of :: "parsed_table \<Rightarrow> resolution \<Rightarrow> table_model" where
  "model_of t r =
     \<lparr>tm_name = pt_name t, tm_scope = fst r, tm_actions = pt_actions t, tm_columns = pt_columns t, tm_visible = pt_visible t,
      tm_insert = pt_insert t, tm_update = pt_update t, tm_version = pt_version t, tm_createdBy = pt_createdBy t, tm_queue = pt_queue t,
      tm_files = pt_files t, tm_columnReads = pt_columnReads t, tm_columnWrites = pt_columnWrites t, tm_dates = pt_dates t,
      tm_timestamps = pt_timestamps t, tm_booleans = pt_booleans t, tm_json = pt_json t, tm_foreignKeys = pt_foreignKeys t,
      tm_view = pt_view t, tm_chain = snd r\<rparr>"

text \<open>One table owns a dimension; every foreign key names a table and columns it has; every chain resolves.\<close>

definition linkTables :: "parsed_table list \<Rightarrow> containment \<Rightarrow> db_error + (string \<times> table_model) list" where
  "linkTables parsed cm =
     bindE (require (distinct (List.map_filter owned_dimension parsed)) PolicyError) (\<lambda>_.
     bindE (mapE (checkForeignKeys parsed) parsed) (\<lambda>_.
     mapE (\<lambda>t. bindE (resolve parsed cm [] t) (\<lambda>r. Inr (pt_name t, model_of t r))) parsed))"

text \<open>Every table has a policy; a view without one is left to \<open>ctx.sql\<close>.\<close>

definition parseTables :: "node_val \<Rightarrow> node_val \<Rightarrow> vocabulary_model \<Rightarrow> db_error + (string \<times> table_model) list" where
  "parseTables columnsInput policiesInput vocabulary =
     bindE (plainRecord (Some columnsInput)) (\<lambda>columns.
     bindE (plainRecord (Some policiesInput)) (\<lambda>policies.
     bindE (require (list_all (\<lambda>(t, _). map_of columns t \<noteq> None) policies) PolicyError) (\<lambda>_.
     bindE (mapE (\<lambda>(t, entry).
         case map_of policies t of
           None \<Rightarrow> bindE (isViewEntry (Some entry)) (\<lambda>view. if view then Inr None else Inl PolicyError)
         | Some policy \<Rightarrow> bindE (parseTable t (Some entry) (Some policy) vocabulary) (\<lambda>p. Inr (Some p))) columns) (\<lambda>parsed.
     linkTables (List.map_filter id parsed) (vm_dimensions vocabulary)))))"

definition readTables :: "node_val \<Rightarrow> node_val \<Rightarrow> node_val \<Rightarrow> db_error + (string \<times> table_model) list" where
  "readTables columns policies vocabulary = bindE (parseVocabulary vocabulary) (parseTables columns policies)"

end
