(* ===== verification/Db_Policy_Sound.thy ===== *)
theory Db_Policy_Sound
  imports Db_Policy
begin

text \<open>
  What an accepted policy guarantees: the vocabulary's containment ends at every dimension, each table's chain is the lineage of its
  dimension, a child's chain is its parent's behind the link to it, and the foreign keys put every row where its owner's row lies.
\<close>

subsection \<open>The lineage of a dimension\<close>

inductive lineage :: "containment \<Rightarrow> string \<Rightarrow> string list \<Rightarrow> bool" for cm where
  top: "container_of cm d = None \<Longrightarrow> lineage cm d []"
| up: "container_of cm d = Some c \<Longrightarrow> lineage cm c cs \<Longrightarrow> lineage cm d (c # cs)"

inductive_cases lineage_NilE: "lineage cm d []"
inductive_cases lineage_ConsE: "lineage cm d (c # cs)"

lemma lineage_unique: "lineage cm d cs \<Longrightarrow> lineage cm d cs' \<Longrightarrow> cs = cs'"
proof (induction arbitrary: cs' rule: lineage.induct)
  case (top d)
  then show ?case by (auto elim: lineage.cases)
next
  case (up d c cs)
  from up.prems up.hyps(1) obtain cs'' where "cs' = c # cs''" "lineage cm c cs''" by (auto elim: lineage.cases)
  then show ?case using up.IH by simp
qed

lemma lineage_member: "lineage cm d cs \<Longrightarrow> x \<in> set cs \<Longrightarrow> \<exists>bs. lineage cm x bs \<and> length bs < length cs"
proof (induction rule: lineage.induct)
  case (up d c cs)
  then show ?case by (cases "x = c") (auto intro: less_SucI)
qed simp

lemma lineage_distinct: "lineage cm d cs \<Longrightarrow> distinct (d # cs)"
proof (induction rule: lineage.induct)
  case (up d c cs)
  have "lineage cm d (c # cs)" by (rule lineage.up [OF up.hyps])
  then have "d \<notin> set (c # cs)" using lineage_member lineage_unique by (metis less_irrefl)
  then show ?case using up.IH by simp
qed simp

lemma cyclic_from_lineage: "\<not> cyclic_from cm first len up \<Longrightarrow> case up of None \<Rightarrow> True | Some d \<Rightarrow> \<exists>cs. lineage cm d cs"
proof (induction cm first len up rule: cyclic_from.induct)
  case (2 cm first len d)
  then have "case container_of cm d of None \<Rightarrow> True | Some c \<Rightarrow> \<exists>cs. lineage cm c cs" by (simp split: if_splits)
  then show ?case by (cases "container_of cm d") (auto intro: lineage.intros)
qed simp

lemma lineage_not_cyclic:
  assumes "lineage cm d cs" and "first \<notin> set (d # cs)" and "len + length cs < length cm"
  shows "\<not> cyclic_from cm first len (Some d)"
  using assms by (induction arbitrary: len rule: lineage.induct) auto

definition closed_containment :: "containment \<Rightarrow> bool" where
  "closed_containment cm \<longleftrightarrow> (\<forall>d c. container_of cm d = Some c \<longrightarrow> c \<in> fst ` set cm)"

lemma lineage_keys: "lineage cm d cs \<Longrightarrow> closed_containment cm \<Longrightarrow> set cs \<subseteq> fst ` set cm"
  by (induction rule: lineage.induct) (auto simp: closed_containment_def)

text \<open>The check accepts exactly the containments in which every walk up ends.\<close>

lemma acyclic_iff:
  assumes "closed_containment cm"
  shows "list_all (\<lambda>(name, _). \<not> cyclic_from cm name 1 (container_of cm name)) cm \<longleftrightarrow> (\<forall>d. \<exists>cs. lineage cm d cs)"
proof
  assume ok: "list_all (\<lambda>(name, _). \<not> cyclic_from cm name 1 (container_of cm name)) cm"
  show "\<forall>d. \<exists>cs. lineage cm d cs"
  proof
    fix d
    show "\<exists>cs. lineage cm d cs"
    proof (cases "container_of cm d")
      case (Some c)
      then have "d \<in> fst ` set cm" by (rule container_of_dom)
      then have "\<not> cyclic_from cm d 1 (container_of cm d)" using ok by (auto simp: list_all_iff)
      then show ?thesis using cyclic_from_lineage [of cm d 1 "Some c"] Some by (auto intro: lineage.intros)
    qed (auto intro: lineage.intros)
  qed
next
  assume all: "\<forall>d. \<exists>cs. lineage cm d cs"
  have "\<not> cyclic_from cm d 1 (container_of cm d)" if "d \<in> fst ` set cm" for d
  proof (cases "container_of cm d")
    case (Some c)
    obtain cs where cs: "lineage cm c cs" using all by blast
    have up: "lineage cm d (c # cs)" by (rule lineage.up [OF Some cs])
    have "distinct (d # c # cs)" by (rule lineage_distinct [OF up])
    moreover have "set (d # c # cs) \<subseteq> fst ` set cm" using lineage_keys [OF up assms] that by auto
    ultimately have "length (d # c # cs) \<le> card (fst ` set cm)" by (metis card_mono distinct_card finite_imageI finite_set)
    also have "\<dots> \<le> length cm" by (metis card_length length_map set_map)
    finally show ?thesis using lineage_not_cyclic [OF cs, of d 1] \<open>distinct (d # c # cs)\<close> Some by simp
  qed simp
  then show "list_all (\<lambda>(name, _). \<not> cyclic_from cm name 1 (container_of cm name)) cm" by (force simp: list_all_iff)
qed

lemma mapE_member: "mapE f xs = Inr ys \<Longrightarrow> y \<in> set ys \<Longrightarrow> \<exists>x \<in> set xs. f x = Inr y"
  by (auto simp: mapE_eq_Inr list_all2_conv_all_nth in_set_conv_nth) (metis nth_mem)

lemma mapE_image: "mapE f xs = Inr ys \<Longrightarrow> x \<in> set xs \<Longrightarrow> \<exists>y \<in> set ys. f x = Inr y"
  by (auto simp: mapE_eq_Inr list_all2_conv_all_nth in_set_conv_nth)

lemma parseVocabulary_containment:
  assumes "parseVocabulary input = Inr v"
  shows "closed_containment (vm_dimensions v)" and "\<forall>d. \<exists>cs. lineage (vm_dimensions v) d cs"
proof -
  obtain dims where cm: "mapE (\<lambda>(name, v). bindE (dimension_container dims v) (\<lambda>c. Inr (name, c))) dims = Inr (vm_dimensions v)"
    and ok: "list_all (\<lambda>(name, _). \<not> cyclic_from (vm_dimensions v) name 1 (container_of (vm_dimensions v) name)) (vm_dimensions v)"
    using assms by (auto simp: parseVocabulary_def bindE_eq_Inr)
  have "c \<in> fst ` set (vm_dimensions v)" if "container_of (vm_dimensions v) d = Some c" for d c
  proof -
    have "(d, Some c) \<in> set (vm_dimensions v)" using that by (auto simp: container_of_def split: option.splits dest: map_of_SomeD)
    then obtain w where "dimension_container dims w = Inr (Some c)" using mapE_member [OF cm] by (fastforce simp: bindE_eq_Inr)
    then have "map_of dims c \<noteq> None" by (auto simp: dimension_container_def bindE_def split: sum.splits option.splits if_splits)
    then obtain u where "(c, u) \<in> set dims" by (auto dest: map_of_SomeD)
    then show ?thesis using mapE_image [OF cm] by (force simp: bindE_eq_Inr)
  qed
  then show "closed_containment (vm_dimensions v)" by (simp add: closed_containment_def)
  then show "\<forall>d. \<exists>cs. lineage (vm_dimensions v) d cs" using acyclic_iff ok by blast
qed

subsection \<open>Chains\<close>

text \<open>A table's own dimension is in the container the vocabulary puts it in, carried in one of the table's columns.\<close>

definition scope_of_vocabulary :: "containment \<Rightarrow> parsed_table \<Rightarrow> bool" where
  "scope_of_vocabulary cm t \<longleftrightarrow> (\<forall>d k c. pt_scope t = PDimension d k c \<longrightarrow> map_option co_dimension c = container_of cm d)"

lemma parseContainer_dimension: "parseContainer c input cols = Inr ct \<Longrightarrow> map_option co_dimension ct = c"
  by (auto simp: parseContainer_def bindE_eq_Inr split: option.splits if_splits)

lemma parseScope_vocabulary: "parseScope scope cols cm = Inr (PDimension d k c) \<Longrightarrow> map_option co_dimension c = container_of cm d"
  by (auto simp: parseScope_def bindE_eq_Inr container_of_def dest!: parseContainer_dimension split: option.splits if_splits)

lemma parseTable_scope:
  assumes "parseTable n entry policy v = Inr t"
  shows "pt_name t = n" and "scope_of_vocabulary (vm_dimensions v) t"
  using assms by (auto simp: parseTable_def Let_def bindE_eq_Inr scope_of_vocabulary_def parseScope_vocabulary)

lemma parseTables_parts:
  assumes "parseTables columns policies v = Inr models"
  shows "\<exists>parsed. linkTables parsed (vm_dimensions v) = Inr models \<and> (\<forall>t \<in> set parsed. scope_of_vocabulary (vm_dimensions v) t)"
proof -
  obtain cols pols ts where ts: "mapE (\<lambda>(t, entry). case map_of pols t of
           None \<Rightarrow> bindE (isViewEntry (Some entry)) (\<lambda>view. if view then Inr None else Inl PolicyError)
         | Some policy \<Rightarrow> bindE (parseTable t (Some entry) (Some policy) v) (\<lambda>p. Inr (Some p))) cols = Inr ts"
    and l: "linkTables (List.map_filter id ts) (vm_dimensions v) = Inr models"
    using assms by (auto simp: parseTables_def bindE_eq_Inr)
  have "scope_of_vocabulary (vm_dimensions v) t" if "t \<in> set (List.map_filter id ts)" for t
  proof -
    have "Some t \<in> set ts" using that by (auto simp: map_filter_def)
    from mapE_member [OF ts this] obtain n entry policy where "parseTable n (Some entry) (Some policy) v = Inr t"
      by (auto simp: bindE_eq_Inr split: option.splits if_splits)
    then show ?thesis by (rule parseTable_scope)
  qed
  with l show ?thesis by blast
qed

lemma child_link_Inr:
  assumes "child_link t p d parent key name inherit parentChain = Inr r"
  shows "\<exists>col inh. r = (ChildScope parent key col inh, \<lparr>co_dimension = d, co_column = col\<rparr> # parentChain) \<and>
    (pt_view t \<or> requireReference t \<lparr>co_dimension = d, co_column = col\<rparr> p = Inr () \<and>
      requireCoveringKey t \<lparr>co_dimension = d, co_column = col\<rparr> p parentChain = Inr ())"
  using assms by (auto simp: child_link_def Let_def bindE_eq_Inr split: if_splits)

lemma checked_chain_Inr: "checked_chain t r = Inr r' \<longleftrightarrow>
    r' = r \<and> list_all (\<lambda>l. co_column l \<in> set (pt_columns t)) (snd r) \<and> checkStamps t (snd r) = Inr ()"
  by (auto simp: checked_chain_def bindE_eq_Inr)

text \<open>The cases of a successful resolution.\<close>

lemma resolve_cases:
  assumes "resolve parsed cm visiting t = Inr r"
  obtains (Top) d k where "pt_scope t = PDimension d k None" and "r = (DimensionScope d k None, [])"
  | (Contained) d k c ups where "pt_scope t = PDimension d k (Some c)" and "r = (DimensionScope d k (Some c), c # ups)"
      and "aboveLinks parsed cm (visiting @ [pt_name t]) [] (co_dimension c) = Inr ups"
      and "(case owner_of parsed (co_dimension c) of None \<Rightarrow> Inr () | Some owner \<Rightarrow> bindE (requireReference t c owner) (\<lambda>_.
          bindE (resolve parsed cm (visiting @ [pt_name t]) owner) (\<lambda>r. requireCoveringKey t c owner (snd r)))) = Inr ()"
  | (Child) parent key name inherit p d s where "pt_scope t = PChild parent key name inherit" and "table_named parsed parent = Some p"
      and "owned_dimension p = Some d" and "resolve parsed cm (visiting @ [pt_name t]) p = Inr s"
      and "child_link t p d parent key name inherit (snd s) = Inr r"
  | (Reference) reason where "pt_scope t = PReference reason" and "r = (ReferenceScope reason, [])"
  | (App) reason key where "pt_scope t = PApp reason key" and "r = (AppScope reason key, [])"
proof (cases "pt_scope t")
  case (PDimension d k c)
  show ?thesis
  proof (cases c)
    case None
    with PDimension assms show ?thesis unfolding resolve.simps [of parsed cm visiting t]
      by (intro Top) (auto simp: Let_def checked_chain_Inr split: if_splits)
  next
    case (Some ct)
    with PDimension assms obtain ups where "aboveLinks parsed cm (visiting @ [pt_name t]) [] (co_dimension ct) = Inr ups"
      "r = (DimensionScope d k (Some ct), ct # ups)"
      "(case owner_of parsed (co_dimension ct) of None \<Rightarrow> Inr () | Some owner \<Rightarrow> bindE (requireReference t ct owner) (\<lambda>_.
          bindE (resolve parsed cm (visiting @ [pt_name t]) owner) (\<lambda>r. requireCoveringKey t ct owner (snd r)))) = Inr ()"
      unfolding resolve.simps [of parsed cm visiting t] by (auto simp: Let_def bindE_eq_Inr checked_chain_Inr split: if_splits)
    then show ?thesis using PDimension Some by (intro Contained [of d k ct ups]) simp_all
  qed
next
  case (PChild parent key name inherit)
  with assms obtain p d s where "table_named parsed parent = Some p" "owned_dimension p = Some d"
    "resolve parsed cm (visiting @ [pt_name t]) p = Inr s" "child_link t p d parent key name inherit (snd s) = Inr r"
    unfolding resolve.simps [of parsed cm visiting t]
    by (auto simp: Let_def bindE_eq_Inr checked_chain_Inr split: if_splits option.splits)
  then show ?thesis using PChild by (intro Child)
next
  case (PReference reason)
  with assms show ?thesis unfolding resolve.simps [of parsed cm visiting t]
    by (intro Reference) (auto simp: Let_def checked_chain_Inr split: if_splits)
next
  case (PApp reason key)
  with assms show ?thesis unfolding resolve.simps [of parsed cm visiting t]
    by (intro App) (auto simp: Let_def checked_chain_Inr split: if_splits)
qed

lemma resolve_checked:
  "resolve parsed cm visiting t = Inr r \<Longrightarrow> pt_name t \<notin> set visiting \<and> checked_chain t r = Inr r"
  by (subst (asm) resolve.simps) (auto simp: Let_def bindE_eq_Inr checked_chain_Inr split: if_splits)

lemma aboveLinks_cases:
  assumes "aboveLinks parsed cm path seen d = Inr ups"
  obtains (Owned) owner r where "owner_of parsed d = Some owner" and "resolve parsed cm path owner = Inr r" and "ups = snd r"
  | (Top) "owner_of parsed d = None" and "container_of cm d = None" and "ups = []"
  | (Unowned) c more where "owner_of parsed d = None" and "container_of cm d = Some c" and "d \<notin> set seen"
      and "aboveLinks parsed cm path (d # seen) c = Inr more" and "ups = \<lparr>co_dimension = c, co_column = c @ ''_id''\<rparr> # more"
  using assms unfolding aboveLinks.simps [of parsed cm path seen d]
  by (auto simp: bindE_eq_Inr split: option.splits if_splits)

text \<open>What the resolution answers, without the path it took: a table's scope and chain, and the links above a dimension.\<close>

inductive resolves :: "parsed_table list \<Rightarrow> containment \<Rightarrow> parsed_table \<Rightarrow> resolution \<Rightarrow> bool"
  and links_over :: "parsed_table list \<Rightarrow> containment \<Rightarrow> string \<Rightarrow> container list \<Rightarrow> bool"
  for parsed cm
where
  topmost: "pt_scope t = PDimension d k None \<Longrightarrow> resolves parsed cm t (DimensionScope d k None, [])"
| contained: "pt_scope t = PDimension d k (Some c) \<Longrightarrow> links_over parsed cm (co_dimension c) ups \<Longrightarrow>
    (\<And>owner. owner_of parsed (co_dimension c) = Some owner \<Longrightarrow>
      requireReference t c owner = Inr () \<and> requireCoveringKey t c owner ups = Inr ()) \<Longrightarrow>
    resolves parsed cm t (DimensionScope d k (Some c), c # ups)"
| child: "pt_scope t = PChild parent key name inherit \<Longrightarrow> table_named parsed parent = Some p \<Longrightarrow> owned_dimension p = Some d \<Longrightarrow>
    resolves parsed cm p s \<Longrightarrow> child_link t p d parent key name inherit (snd s) = Inr r \<Longrightarrow> resolves parsed cm t r"
| reference: "pt_scope t = PReference reason \<Longrightarrow> resolves parsed cm t (ReferenceScope reason, [])"
| application: "pt_scope t = PApp reason key \<Longrightarrow> resolves parsed cm t (AppScope reason key, [])"
| owned: "owner_of parsed d = Some owner \<Longrightarrow> resolves parsed cm owner r \<Longrightarrow> links_over parsed cm d (snd r)"
| ended: "owner_of parsed d = None \<Longrightarrow> container_of cm d = None \<Longrightarrow> links_over parsed cm d []"
| unowned: "owner_of parsed d = None \<Longrightarrow> container_of cm d = Some c \<Longrightarrow> links_over parsed cm c ups \<Longrightarrow>
    links_over parsed cm d (\<lparr>co_dimension = c, co_column = c @ ''_id''\<rparr> # ups)"

lemma resolve_resolves:
  shows "resolve parsed cm visiting t = Inr r \<Longrightarrow> resolves parsed cm t r"
    and "aboveLinks parsed cm path seen d = Inr ups \<Longrightarrow> links_over parsed cm d ups"
proof (induction parsed cm visiting t and parsed cm path seen d arbitrary: r and ups rule: resolve_aboveLinks.induct)
  case (1 parsed cm visiting t)
  have fresh: "pt_name t \<notin> set visiting" using resolve_checked [OF "1.prems"] by blast
  from "1.prems" show ?case
  proof (cases rule: resolve_cases)
    case (Contained d k c ups)
    have "links_over parsed cm (co_dimension c) ups" by (rule "1.IH"(2) [OF fresh refl Contained(1) refl Contained(4) Contained(3)])
    moreover have "requireReference t c owner = Inr () \<and> requireCoveringKey t c owner ups = Inr ()"
      if "owner_of parsed (co_dimension c) = Some owner" for owner
      using Contained(3,4) that by (auto simp: bindE_eq_Inr aboveLinks.simps [of parsed cm _ "[]"])
    ultimately show ?thesis unfolding Contained(2) by (rule resolves_links_over.contained [OF Contained(1)])
  next
    case (Child parent key name inherit p d s)
    show ?thesis by (rule resolves_links_over.child [OF Child(1-3) "1.IH"(3) [OF fresh refl Child(1-4)] Child(5)])
  qed (simp_all add: resolves_links_over.intros)
next
  case (2 parsed cm path seen d)
  from "2.prems" show ?case
    by (cases rule: aboveLinks_cases) (use "2.IH" in \<open>auto intro: resolves_links_over.intros\<close>)
qed

text \<open>The answer is unique: the path, and the cache of resolved tables, do not change it.\<close>

inductive_cases resolves_dimensionE: "resolves parsed cm t (DimensionScope d k c, chain)"
inductive_cases resolves_childE: "resolves parsed cm t (ChildScope parent key col inh, chain)"

lemma resolves_unique:
  shows "resolves parsed cm t r \<Longrightarrow> resolves parsed cm t r' \<Longrightarrow> r = r'"
    and "links_over parsed cm d ups \<Longrightarrow> links_over parsed cm d ups' \<Longrightarrow> ups = ups'"
proof (induction arbitrary: r' and ups' rule: resolves_links_over.inducts)
  case (contained t d k c ups)
  from contained.prems contained(1) obtain ups'' where "links_over parsed cm (co_dimension c) ups''" "r' = (DimensionScope d k (Some c), c # ups'')"
    by cases auto
  with contained.IH show ?case by blast
next
  case (child t parent key name inherit p d s r)
  from child.prems child.hyps(1,2) child.IH(1) obtain s' where "resolves parsed cm p s'" "child_link t p d parent key name inherit (snd s') = Inr r'"
    by cases auto
  with child.IH child.hyps(3) show ?case by (metis sum.inject(2))
next
  case (owned d owner r)
  from owned.prems owned(1) obtain r'' where "resolves parsed cm owner r''" "ups' = snd r''" by cases auto
  with owned.IH show ?case by blast
next
  case (unowned d c ups)
  from unowned.prems unowned(1,2) obtain ups'' where "links_over parsed cm c ups''" "ups' = \<lparr>co_dimension = c, co_column = c @ ''_id''\<rparr> # ups''"
    by cases auto
  with unowned.IH show ?case by blast
qed (auto elim: resolves.cases links_over.cases)

text \<open>The chain of a dimension's table is the lineage of its dimension, a child's the lineage of its parent's dimension behind it.\<close>

definition chain_lineage :: "containment \<Rightarrow> parsed_table \<Rightarrow> container list \<Rightarrow> bool" where
  "chain_lineage cm t chain \<longleftrightarrow>
     (case pt_scope t of
        PDimension d _ _ \<Rightarrow> lineage cm d (map co_dimension chain)
      | PChild _ _ _ _ \<Rightarrow> chain \<noteq> [] \<and> lineage cm (co_dimension (hd chain)) (map co_dimension (tl chain))
      | _ \<Rightarrow> chain = [])"

lemma owned_dimension_iff: "owned_dimension t = Some d \<longleftrightarrow> (\<exists>k c. pt_scope t = PDimension d k c)"
  by (auto simp: owned_dimension_def split: parsed_scope.splits)

lemma resolves_lineage:
  assumes "\<forall>t \<in> set parsed. scope_of_vocabulary cm t"
  shows "resolves parsed cm t r \<Longrightarrow> scope_of_vocabulary cm t \<Longrightarrow> chain_lineage cm t (snd r)"
    and "links_over parsed cm d ups \<Longrightarrow> lineage cm d (map co_dimension ups)"
proof (induction rule: resolves_links_over.inducts)
  case (topmost t d k)
  then show ?case by (auto simp: chain_lineage_def scope_of_vocabulary_def intro: lineage.top)
next
  case (contained t d k c ups)
  have "container_of cm d = Some (co_dimension c)" using contained.hyps(1) contained.prems by (auto simp: scope_of_vocabulary_def)
  then show ?case using contained by (simp add: chain_lineage_def lineage.up)
next
  case (child t parent key name inherit p d s r)
  have "p \<in> set parsed" using child.IH(1) table_named_Some by blast
  then have "lineage cm d (map co_dimension (snd s))" using child.hyps child.IH assms by (auto simp: chain_lineage_def owned_dimension_iff)
  then show ?case using child.hyps by (auto simp: chain_lineage_def dest!: child_link_Inr)
next
  case (owned d owner r)
  then show ?case using owner_of_Some [OF owned(1)] assms by (auto simp: chain_lineage_def owned_dimension_iff)
qed (simp_all add: chain_lineage_def lineage.intros)

lemma linkTables_model:
  assumes "linkTables parsed cm = Inr models" and "(n, m) \<in> set models"
  shows "\<exists>t r. t \<in> set parsed \<and> resolve parsed cm [] t = Inr r \<and> n = pt_name t \<and> m = model_of t r"
proof -
  have "mapE (\<lambda>t. bindE (resolve parsed cm [] t) (\<lambda>r. Inr (pt_name t, model_of t r))) parsed = Inr models"
    using assms(1) by (auto simp: linkTables_def bindE_eq_Inr)
  from mapE_member [OF this assms(2)] show ?thesis by (auto simp: bindE_eq_Inr)
qed

lemma linkTables_member:
  assumes "linkTables parsed cm = Inr models" and "t \<in> set parsed"
  shows "\<exists>r. resolve parsed cm [] t = Inr r \<and> (pt_name t, model_of t r) \<in> set models"
proof -
  have "mapE (\<lambda>t. bindE (resolve parsed cm [] t) (\<lambda>r. Inr (pt_name t, model_of t r))) parsed = Inr models"
    using assms(1) by (auto simp: linkTables_def bindE_eq_Inr)
  from mapE_image [OF this assms(2)] show ?thesis by (auto simp: bindE_eq_Inr)
qed

lemma model_of_simps [simp]:
  "tm_name (model_of t r) = pt_name t" "tm_scope (model_of t r) = fst r" "tm_chain (model_of t r) = snd r"
  "tm_columns (model_of t r) = pt_columns t" "tm_foreignKeys (model_of t r) = pt_foreignKeys t" "tm_view (model_of t r) = pt_view t"
  "tm_insert (model_of t r) = pt_insert t" "tm_update (model_of t r) = pt_update t" "tm_columnWrites (model_of t r) = pt_columnWrites t"
  "tm_version (model_of t r) = pt_version t" "tm_createdBy (model_of t r) = pt_createdBy t" "tm_queue (model_of t r) = pt_queue t"
  by (simp_all add: model_of_def)

lemma model_wf_links:
  assumes "\<forall>t \<in> set parsed. scope_of_vocabulary cm t" and "t \<in> set parsed" and "resolves parsed cm t r"
  shows "wf_links (model_of t r)"
proof -
  have "chain_lineage cm t (snd r)" using resolves_lineage(1) [OF assms(1,3)] assms(1,2) by blast
  with assms(3) show ?thesis
  proof (cases rule: resolves.cases)
    case (contained d k c ups)
    then show ?thesis using \<open>chain_lineage cm t (snd r)\<close> by (auto simp: chain_lineage_def wf_links_def links_of_def selfLinks_def dest: lineage_distinct)
  next
    case (child parent key name inherit p d s)
    obtain l ls where "snd r = l # ls" "lineage cm (co_dimension l) (map co_dimension ls)"
      using \<open>chain_lineage cm t (snd r)\<close> child(1) by (cases "snd r") (auto simp: chain_lineage_def)
    then show ?thesis using child_link_Inr [OF child(5)] by (auto simp: wf_links_def links_of_def selfLinks_def dest: lineage_distinct)
  qed (auto simp: wf_links_def links_of_def selfLinks_def)
qed

subsection \<open>Owners\<close>

lemma map_filter_unique: "distinct (List.map_filter f xs) \<Longrightarrow> x \<in> set xs \<Longrightarrow> y \<in> set xs \<Longrightarrow> f x = Some d \<Longrightarrow> f y = Some d \<Longrightarrow> x = y"
proof (induction xs)
  case (Cons z zs)
  have "d \<in> set (List.map_filter f zs)" if "w \<in> set zs" "f w = Some d" for w
    using that by (force simp: map_filter_def)
  with Cons show ?case by (auto simp: List.map_filter_simps split: option.splits)
qed simp

lemma linkTables_owner:
  assumes "linkTables parsed cm = Inr models" and "t \<in> set parsed" and "owned_dimension t = Some d"
  shows "owner_of parsed d = Some t"
proof -
  have dist: "distinct (List.map_filter owned_dimension parsed)" using assms(1) by (auto simp: linkTables_def bindE_eq_Inr)
  obtain u where "owner_of parsed d = Some u"
    using assms(2,3) by (cases "owner_of parsed d") (auto simp: owner_of_def find_None_iff)
  with map_filter_unique [OF dist] assms(2,3) owner_of_Some show ?thesis by metis
qed

lemma resolves_dimension:
  assumes "resolves parsed cm u s" and "fst s = DimensionScope d k c"
  shows "pt_scope u = PDimension d k c"
  using assms by cases (auto dest!: child_link_Inr)

text \<open>A table that owns the dimension of another's first link: the rest of that chain is its own, and the foreign keys tie the row to it.\<close>

lemma resolves_owner:
  assumes l: "linkTables parsed cm = Inr models" and r: "resolves parsed cm t r" and chain: "snd r = k # ks"
    and u: "u \<in> set parsed" "owned_dimension u = Some (co_dimension k)" "resolves parsed cm u s"
  shows "ks = snd s" and "\<not> pt_view t \<or> (\<exists>d key c. fst r = DimensionScope d key c) \<Longrightarrow>
    requireReference t k u = Inr () \<and> requireCoveringKey t k u (snd s) = Inr ()"
proof -
  have owner: "owner_of parsed (co_dimension k) = Some u" by (rule linkTables_owner [OF l u(1,2)])
  have "ks = snd s \<and> (\<not> pt_view t \<or> (\<exists>d key c. fst r = DimensionScope d key c) \<longrightarrow>
    requireReference t k u = Inr () \<and> requireCoveringKey t k u (snd s) = Inr ())"
    using r
  proof cases
    case (contained d key c ups)
    have "links_over parsed cm (co_dimension k) (snd s)" by (rule resolves_links_over.owned [OF owner u(3)])
    then have "ups = snd s" using contained(1,3) chain resolves_unique(2) by auto
    then show ?thesis using contained(1,4) chain owner by auto
  next
    case (child parent key name inherit p d s')
    obtain col inh where h: "r = (ChildScope parent key col inh, \<lparr>co_dimension = d, co_column = col\<rparr> # snd s')"
      "pt_view t \<or> requireReference t \<lparr>co_dimension = d, co_column = col\<rparr> p = Inr () \<and>
        requireCoveringKey t \<lparr>co_dimension = d, co_column = col\<rparr> p (snd s') = Inr ()"
      using child_link_Inr [OF child(5)] by blast
    have "p \<in> set parsed" using child(2) table_named_Some by blast
    then have "owner_of parsed d = Some p" using linkTables_owner [OF l _ child(3)] by blast
    then have "p = u" using owner chain h(1) by auto
    then have "s' = s" using child(4) u(3) resolves_unique(1) by blast
    with h chain \<open>p = u\<close> show ?thesis by auto
  qed (use chain in auto)
  then show "ks = snd s" and "\<not> pt_view t \<or> (\<exists>d key c. fst r = DimensionScope d key c) \<Longrightarrow>
    requireReference t k u = Inr () \<and> requireCoveringKey t k u (snd s) = Inr ()" by blast+
qed

subsection \<open>Foreign keys\<close>

type_synonym table_row = "string \<Rightarrow> prim option"

text \<open>A foreign key as the database enforces it (\<open>MATCH SIMPLE\<close>): a row with no null in the key's columns has a row it references.\<close>

definition enforced :: "(string \<Rightarrow> table_row set) \<Rightarrow> table_model \<Rightarrow> bool" where
  "enforced rows m \<longleftrightarrow> (\<forall>fk \<in> set (tm_foreignKeys m). \<forall>row \<in> rows (tm_name m).
     (\<forall>c \<in> set (fk_columns fk). row c \<noteq> None) \<longrightarrow>
     (\<exists>target \<in> rows (fk_table fk). \<forall>p \<in> set (zip (fk_columns fk) (fk_references fk)). target (snd p) = row (fst p)))"

lemma covering_pairs:
  assumes "requireReference t k u = Inr ()" and "requireCoveringKey t k u chain = Inr ()"
    and "list_all (\<lambda>l. co_column l \<in> set (pt_columns t)) chain"
  shows "\<exists>fk \<in> set (pt_foreignKeys t). fk_table fk = pt_name u \<and>
    coversPairs fk ((co_column k, owner_key u) # map (\<lambda>l. (co_column l, co_column l)) chain)"
  using assms by (cases "chain = []")
    (auto simp: requireReference_def requireCoveringKey_def references_key_def coversPairs_def list_ex_iff)

lemma covered_row:
  assumes "enforced rows m" and "fk \<in> set (tm_foreignKeys m)" and "coversPairs fk pairs" and "row \<in> rows (tm_name m)"
    and "\<forall>c \<in> set (fk_columns fk). row c \<noteq> None"
  shows "\<exists>target \<in> rows (fk_table fk). \<forall>p \<in> set pairs. target (snd p) = row (fst p)"
  using assms by (fastforce simp: enforced_def coversPairs_def list_all_iff)

lemma readTables_parts:
  assumes "readTables columns policies vocabulary = Inr models"
  shows "\<exists>parsed cm. linkTables parsed cm = Inr models \<and> (\<forall>t \<in> set parsed. scope_of_vocabulary cm t)"
  using assms parseTables_parts by (fastforce simp: readTables_def bindE_eq_Inr)

text \<open>C8: A row lies where its container's row lies. For a table of accepted policies whose chain begins with a dimension another
  table owns, the rest of the chain is the owner's own chain; and when the database enforces the table's foreign keys, a row whose key
  columns are not null references a row of the owner that carries the same value in every column of the chain. A Within of an ancestor,
  which tests the inherited column alone, therefore admits a row exactly when it admits the row's container.\<close>

theorem row_lies_with_owner:
  assumes "readTables columns policies vocabulary = Inr models" and "(n, m) \<in> set models" and "(n', om) \<in> set models"
    and "tm_chain m = k # ks" and "tm_scope om = DimensionScope (co_dimension k) key c"
  shows "ks = tm_chain om \<and>
    (\<not> tm_view m \<and> enforced rows m \<and> row \<in> rows n \<and>
      (\<forall>fk \<in> set (tm_foreignKeys m). fk_table fk = n' \<longrightarrow> (\<forall>cl \<in> set (fk_columns fk). row cl \<noteq> None)) \<longrightarrow>
      (\<exists>target \<in> rows n'. target key = row (co_column k) \<and> (\<forall>l \<in> set (tm_chain om). target (co_column l) = row (co_column l))))"
proof -
  obtain parsed cm where l: "linkTables parsed cm = Inr models" using readTables_parts [OF assms(1)] by blast
  obtain t r where t: "t \<in> set parsed" "resolve parsed cm [] t = Inr r" "n = pt_name t" "m = model_of t r"
    using linkTables_model [OF l assms(2)] by blast
  obtain u s where u: "u \<in> set parsed" "resolve parsed cm [] u = Inr s" "n' = pt_name u" "om = model_of u s"
    using linkTables_model [OF l assms(3)] by blast
  have rs: "resolves parsed cm t r" "resolves parsed cm u s" using t(2) u(2) resolve_resolves(1) by blast+
  have own: "owned_dimension u = Some (co_dimension k)" "owner_key u = key"
    using resolves_dimension [OF rs(2)] assms(5) u(4) by (auto simp: owned_dimension_def owner_key_def)
  have chain: "snd r = k # ks" using assms(4) t(4) by simp
  note owner = resolves_owner [OF l rs(1) chain u(1) own(1) rs(2)]
  show ?thesis
  proof (intro conjI impI)
    show "ks = tm_chain om" using owner(1) u(4) by simp
    assume h: "\<not> tm_view m \<and> enforced rows m \<and> row \<in> rows n \<and>
      (\<forall>fk \<in> set (tm_foreignKeys m). fk_table fk = n' \<longrightarrow> (\<forall>cl \<in> set (fk_columns fk). row cl \<noteq> None))"
    then have req: "requireReference t k u = Inr () \<and> requireCoveringKey t k u (snd s) = Inr ()" using owner(2) t(4) by simp
    have "list_all (\<lambda>l. co_column l \<in> set (pt_columns t)) (snd s)"
      using resolve_checked [OF t(2)] chain owner(1) by (simp add: checked_chain_Inr)
    then obtain fk where fk: "fk \<in> set (pt_foreignKeys t)" "fk_table fk = n'"
      "coversPairs fk ((co_column k, key) # map (\<lambda>l. (co_column l, co_column l)) (snd s))"
      using covering_pairs req own(2) u(3) by blast
    have "\<exists>target \<in> rows (fk_table fk). \<forall>p \<in> set ((co_column k, key) # map (\<lambda>l. (co_column l, co_column l)) (snd s)). target (snd p) = row (fst p)"
      by (rule covered_row [of rows m]) (use h fk t(3,4) in auto)
    then show "\<exists>target \<in> rows n'. target key = row (co_column k) \<and> (\<forall>l \<in> set (tm_chain om). target (co_column l) = row (co_column l))"
      using fk(2) u(4) by auto
  qed
qed

subsection \<open>An example application\<close>

definition obj :: "(string \<times> node_val) list \<Rightarrow> node_val" where
  "obj ps = NObj ps"

definition texts :: "string list \<Rightarrow> node_val" where
  "texts ss = NArr (map text_node ss)"

definition sample_vocabulary :: node_val where
  "sample_vocabulary = obj [
     (''dimensions'', obj [(''org'', obj []), (''project'', obj [(''in'', text_node ''org'')])]),
     (''actions'', obj [(''read'', obj []), (''write'', obj [])])]"

definition sample_key :: "string list \<Rightarrow> string \<Rightarrow> string list \<Rightarrow> node_val" where
  "sample_key columns t refs = obj [(''columns'', texts columns), (''table'', text_node t), (''references'', texts refs)]"

definition sample_columns :: node_val where
  "sample_columns = obj [
     (''orgs'', obj [(''columns'', texts [''id'', ''name'']), (''foreignKeys'', NArr [])]),
     (''projects'', obj [(''columns'', texts [''id'', ''org_id'', ''name'', ''version'']),
        (''foreignKeys'', NArr [sample_key [''org_id''] ''orgs'' [''id'']])]),
     (''tasks'', obj [(''columns'', texts [''id'', ''project_id'', ''org_id'', ''body'', ''version'']),
        (''foreignKeys'', NArr [sample_key [''project_id'', ''org_id''] ''projects'' [''id'', ''org_id'']])])]"

definition sample_policy :: "node_val \<Rightarrow> string \<Rightarrow> node_val" where
  "sample_policy scope name = obj [(''scope'', scope),
     (''actions'', obj [(''read'', text_node ''read''), (''update'', text_node ''write'')]), (''update'', texts [name])]"

definition sample_policies :: node_val where
  "sample_policies = obj [
     (''orgs'', sample_policy (obj [(''dimension'', text_node ''org'')]) ''name''),
     (''projects'', sample_policy (obj [(''dimension'', text_node ''project'')]) ''name''),
     (''tasks'', sample_policy (obj [(''child'', text_node ''projects'')]) ''body'')]"

definition sample_models :: "(string \<times> table_model) list" where
  "sample_models = (case readTables sample_columns sample_policies sample_vocabulary of Inr ms \<Rightarrow> ms | Inl _ \<Rightarrow> [])"

lemma sample_readTables: "readTables sample_columns sample_policies sample_vocabulary = Inr sample_models"
proof -
  have "case readTables sample_columns sample_policies sample_vocabulary of Inr _ \<Rightarrow> True | Inl _ \<Rightarrow> False" by code_simp
  then show ?thesis by (auto simp: sample_models_def split: sum.splits)
qed

lemma sample_tables:
  "\<exists>m. (''tasks'', m) \<in> set sample_models \<and> \<not> tm_view m \<and> tm_name m = ''tasks'' \<and>
     tm_foreignKeys m = [\<lparr>fk_columns = [''project_id'', ''org_id''], fk_table = ''projects'', fk_references = [''id'', ''org_id'']\<rparr>] \<and>
     tm_chain m = [\<lparr>co_dimension = ''project'', co_column = ''project_id''\<rparr>, \<lparr>co_dimension = ''org'', co_column = ''org_id''\<rparr>]"
  "\<exists>m. (''projects'', m) \<in> set sample_models \<and>
     tm_scope m = DimensionScope ''project'' ''id'' (Some \<lparr>co_dimension = ''org'', co_column = ''org_id''\<rparr>)"
proof -
  have "list_ex (\<lambda>(n, m). n = ''tasks'' \<and> \<not> tm_view m \<and> tm_name m = ''tasks'' \<and>
     tm_foreignKeys m = [\<lparr>fk_columns = [''project_id'', ''org_id''], fk_table = ''projects'', fk_references = [''id'', ''org_id'']\<rparr>] \<and>
     tm_chain m = [\<lparr>co_dimension = ''project'', co_column = ''project_id''\<rparr>, \<lparr>co_dimension = ''org'', co_column = ''org_id''\<rparr>]) sample_models"
    by code_simp
  then show "\<exists>m. (''tasks'', m) \<in> set sample_models \<and> \<not> tm_view m \<and> tm_name m = ''tasks'' \<and>
     tm_foreignKeys m = [\<lparr>fk_columns = [''project_id'', ''org_id''], fk_table = ''projects'', fk_references = [''id'', ''org_id'']\<rparr>] \<and>
     tm_chain m = [\<lparr>co_dimension = ''project'', co_column = ''project_id''\<rparr>, \<lparr>co_dimension = ''org'', co_column = ''org_id''\<rparr>]"
    by (auto simp: list_ex_iff)
  have "list_ex (\<lambda>(n, m). n = ''projects'' \<and>
     tm_scope m = DimensionScope ''project'' ''id'' (Some \<lparr>co_dimension = ''org'', co_column = ''org_id''\<rparr>)) sample_models"
    by code_simp
  then show "\<exists>m. (''projects'', m) \<in> set sample_models \<and>
     tm_scope m = DimensionScope ''project'' ''id'' (Some \<lparr>co_dimension = ''org'', co_column = ''org_id''\<rparr>)"
    by (auto simp: list_ex_iff)
qed

definition sample_task :: table_row where
  "sample_task = [''id'' \<mapsto> PStr ''t1'', ''project_id'' \<mapsto> PStr ''p1'', ''org_id'' \<mapsto> PStr ''o1'']"

definition sample_project :: table_row where
  "sample_project = [''id'' \<mapsto> PStr ''p1'', ''org_id'' \<mapsto> PStr ''o1'']"

definition sample_rows :: "string \<Rightarrow> table_row set" where
  "sample_rows t = (if t = ''tasks'' then {sample_task} else if t = ''projects'' then {sample_project} else {})"

theorem row_lies_with_owner_witness:
  "\<exists>target \<in> sample_rows ''projects''. target ''id'' = sample_task ''project_id'' \<and> target ''org_id'' = sample_task ''org_id''"
proof -
  obtain m where m: "(''tasks'', m) \<in> set sample_models" "\<not> tm_view m" "tm_name m = ''tasks''"
    "tm_foreignKeys m = [\<lparr>fk_columns = [''project_id'', ''org_id''], fk_table = ''projects'', fk_references = [''id'', ''org_id'']\<rparr>]"
    "tm_chain m = [\<lparr>co_dimension = ''project'', co_column = ''project_id''\<rparr>, \<lparr>co_dimension = ''org'', co_column = ''org_id''\<rparr>]"
    using sample_tables(1) by blast
  obtain om where om: "(''projects'', om) \<in> set sample_models"
    "tm_scope om = DimensionScope ''project'' ''id'' (Some \<lparr>co_dimension = ''org'', co_column = ''org_id''\<rparr>)"
    using sample_tables(2) by blast
  have "enforced sample_rows m" by (simp add: enforced_def m(3,4) sample_rows_def sample_task_def sample_project_def)
  moreover have "sample_task \<in> sample_rows ''tasks''" by (simp add: sample_rows_def)
  moreover note lies = row_lies_with_owner [OF sample_readTables m(1) om(1) m(5), of "''id''" _ sample_rows sample_task]
  moreover have "tm_chain om = [\<lparr>co_dimension = ''org'', co_column = ''org_id''\<rparr>]" using lies om(2) by simp
  ultimately show ?thesis using m(2,4) om(2) by (simp add: sample_task_def)
qed

subsection \<open>Accepted policies\<close>

text \<open>The columns the layer writes itself.\<close>

definition layer_stamps :: "table_model \<Rightarrow> string list" where
  "layer_stamps m =
     (case keyOf m of Inr k \<Rightarrow> [k] | Inl _ \<Rightarrow> []) @ map co_column (tm_chain m) @
     (case tm_version m of None \<Rightarrow> [] | Some v \<Rightarrow> [v]) @ (case tm_createdBy m of None \<Rightarrow> [] | Some v \<Rightarrow> [v]) @
     (case tm_queue m of None \<Rightarrow> [] | Some q \<Rightarrow> [qm_attempts q, qm_due q])"

lemma resolves_key:
  assumes "resolves parsed cm t r"
  shows "key_of_scope (pt_scope t) = (case keyOf (model_of t r) of Inr k \<Rightarrow> Some k | Inl _ \<Rightarrow> None)"
  using assms by cases (auto simp: key_of_scope_def keyOf_def dest!: child_link_Inr)

lemma layer_stamps_of:
  assumes "resolves parsed cm t r"
  shows "layer_stamps (model_of t r) = map sp_column (stampsOf t (snd r))"
  using resolves_key [OF assms] by (auto simp: layer_stamps_def stampsOf_def Let_def split: option.splits sum.splits)

lemma checkStamps_layer:
  assumes "resolves parsed cm t r" and "checkStamps t (snd r) = Inr ()" and "\<not> pt_view t"
  shows "distinct (layer_stamps (model_of t r))"
    and "s \<in> set (layer_stamps (model_of t r)) \<Longrightarrow> s \<notin> set (pt_update t) \<and> s \<notin> fst ` set (pt_columnWrites t) \<and>
      (s \<in> set (pt_insert t) \<longrightarrow> (\<exists>q. pt_queue t = Some q \<and> s = qm_due q))"
proof -
  have ok: "distinct (map sp_column (stampsOf t (snd r)))" "list_all (stamp_ok t) (stampsOf t (snd r))"
    using assms(2,3) by (auto simp: checkStamps_def Let_def)
  show "distinct (layer_stamps (model_of t r))" using ok(1) layer_stamps_of [OF assms(1)] by simp
  assume "s \<in> set (layer_stamps (model_of t r))"
  then obtain st where st: "st \<in> set (stampsOf t (snd r))" "sp_column st = s" using layer_stamps_of [OF assms(1)] by auto
  then have "sp_insertable st \<longrightarrow> (\<exists>q. pt_queue t = Some q \<and> s = qm_due q)" by (cases "pt_queue t") (auto simp: stampsOf_def Let_def split: option.splits)
  moreover have "stamp_ok t st" using ok(2) st(1) by (simp add: list_all_iff)
  ultimately show "s \<notin> set (pt_update t) \<and> s \<notin> fst ` set (pt_columnWrites t) \<and>
      (s \<in> set (pt_insert t) \<longrightarrow> (\<exists>q. pt_queue t = Some q \<and> s = qm_due q))" using st(2) by (auto simp: stamp_ok_def)
qed

text \<open>C9: What every table of accepted policies satisfies. Its links are well formed (one column per dimension, the nearest first, all
  of them columns of the table); a child's parent is a table of the same policies and the child's chain is the link to it followed by the
  parent's chain; and, a view aside, the columns the layer stamps (the key, the containment links, the version, the creator, a queue's
  columns) are pairwise distinct and no handler writes them: none is in the update list or has a write action, and only a queue's due
  time may be inserted.\<close>

theorem accepted_policies_wf:
  assumes "readTables columns policies vocabulary = Inr models" and "(n, m) \<in> set models"
  shows "tm_name m = n \<and> wf_links m \<and> (\<forall>l \<in> set (tm_chain m). co_column l \<in> set (tm_columns m)) \<and>
    (case tm_scope m of ChildScope parent _ _ _ \<Rightarrow> \<exists>p. (parent, p) \<in> set models \<and> wf_child m p | _ \<Rightarrow> True) \<and>
    (tm_view m \<or> distinct (layer_stamps m) \<and>
      (\<forall>s \<in> set (layer_stamps m). s \<notin> set (tm_update m) \<and> s \<notin> fst ` set (tm_columnWrites m) \<and>
        (s \<in> set (tm_insert m) \<longrightarrow> (\<exists>q. tm_queue m = Some q \<and> s = qm_due q))))"
proof -
  obtain parsed cm where l: "linkTables parsed cm = Inr models" and voc: "\<forall>t \<in> set parsed. scope_of_vocabulary cm t"
    using readTables_parts [OF assms(1)] by blast
  obtain t r where t: "t \<in> set parsed" "resolve parsed cm [] t = Inr r" "n = pt_name t" "m = model_of t r"
    using linkTables_model [OF l assms(2)] by blast
  have r: "resolves parsed cm t r" by (rule resolve_resolves(1) [OF t(2)])
  note checked = resolve_checked [OF t(2), THEN conjunct2, unfolded checked_chain_Inr]
  have child: "\<exists>p. (parent, p) \<in> set models \<and> wf_child m p" if "tm_scope m = ChildScope parent key col inh" for parent key col inh
    using r
  proof cases
    case (child parent' key' name inherit p d s)
    have p: "p \<in> set parsed" "pt_name p = parent'" using child(2) table_named_Some by blast+
    obtain s' where s': "resolve parsed cm [] p = Inr s'" "(parent', model_of p s') \<in> set models" using linkTables_member [OF l p(1)] p(2) by blast
    have "s' = s" using resolves_unique(1) [OF resolve_resolves(1) [OF s'(1)] child(4)] .
    moreover have "wf_links (model_of p s)" by (rule model_wf_links [OF voc p(1) child(4)])
    moreover have "\<exists>k c. fst s = DimensionScope d k c" using child(4,3) by cases (auto simp: owned_dimension_def dest!: child_link_Inr)
    ultimately show ?thesis using s'(2) child_link_Inr [OF child(5)] that t(4) by (auto simp: wf_child_def)
  qed (use that t(4) in auto)
  show ?thesis
    using t(3,4) model_wf_links [OF voc t(1) r] checked checkStamps_layer [OF r] child
    by (auto simp: list_all_iff split: scope_model.splits)
qed

theorem accepted_policies_wf_witness:
  "\<exists>m p. (''tasks'', m) \<in> set sample_models \<and> (''projects'', p) \<in> set sample_models \<and> wf_child m p \<and> distinct (layer_stamps m)"
proof -
  obtain m where m: "(''tasks'', m) \<in> set sample_models" "\<not> tm_view m" using sample_tables(1) by blast
  have "list_all (\<lambda>(n, m). n = ''tasks'' \<longrightarrow> (case tm_scope m of ChildScope parent _ _ _ \<Rightarrow> parent = ''projects'' | _ \<Rightarrow> False)) sample_models"
    by code_simp
  then have "case tm_scope m of ChildScope parent _ _ _ \<Rightarrow> parent = ''projects'' | _ \<Rightarrow> False" using m(1) by (auto simp: list_all_iff)
  then show ?thesis using accepted_policies_wf [OF sample_readTables m(1)] m by (auto split: scope_model.splits)
qed

subsection \<open>Termination\<close>

lemma aboveLinks_seen: "lineage cm d cs \<Longrightarrow> set seen \<inter> set (d # cs) = {} \<Longrightarrow> aboveLinks parsed cm path seen d = aboveLinks parsed cm path [] d"
proof (induction arbitrary: seen rule: lineage.induct)
  case (top d)
  then show ?case by (simp add: aboveLinks.simps [of _ _ _ _ d] split: option.splits)
next
  case (up d c cs)
  have "distinct (d # c # cs)" by (rule lineage_distinct [OF lineage.up [OF up.hyps]])
  then have "aboveLinks parsed cm path (d # seen) c = aboveLinks parsed cm path [d] c"
    using up.IH [of "d # seen"] up.IH [of "[d]"] up.prems by auto
  then show ?case using up.hyps(1) up.prems by (simp add: aboveLinks.simps [of _ _ _ _ d] split: option.splits)
qed

text \<open>C17: The containment walks end. A vocabulary is accepted only when, from every dimension, the walk up its containers ends without
  meeting a dimension twice; so the links above a dimension are what \<open>resolveChain\<close> computes by its own unbounded recursion: the chain of
  the table that owns the dimension, or, past a dimension no table owns, the container's link and the links above the container. And a
  containment whose names are closed is refused for a cycle only when some walk does not end.\<close>

theorem containment_walks_end:
  assumes "parseVocabulary input = Inr v"
  shows "(\<forall>d. \<exists>cs. lineage (vm_dimensions v) d cs \<and> distinct (d # cs) \<and> set cs \<subseteq> fst ` set (vm_dimensions v)) \<and>
    aboveLinks parsed (vm_dimensions v) path [] d =
      (case owner_of parsed d of
         Some owner \<Rightarrow> bindE (resolve parsed (vm_dimensions v) path owner) (\<lambda>r. Inr (snd r))
       | None \<Rightarrow>
           (case container_of (vm_dimensions v) d of
              None \<Rightarrow> Inr []
            | Some c \<Rightarrow> bindE (aboveLinks parsed (vm_dimensions v) path [] c)
                (\<lambda>ups. Inr (\<lparr>co_dimension = c, co_column = c @ ''_id''\<rparr> # ups)))) \<and>
    (closed_containment cm \<and> (\<forall>d. \<exists>cs. lineage cm d cs) \<longrightarrow> list_all (\<lambda>(name, _). \<not> cyclic_from cm name 1 (container_of cm name)) cm)"
proof (intro conjI impI)
  note voc = parseVocabulary_containment [OF assms]
  show "\<forall>d. \<exists>cs. lineage (vm_dimensions v) d cs \<and> distinct (d # cs) \<and> set cs \<subseteq> fst ` set (vm_dimensions v)"
    using voc lineage_distinct lineage_keys by meson
  have "aboveLinks parsed (vm_dimensions v) path [d] c = aboveLinks parsed (vm_dimensions v) path [] c"
    if "container_of (vm_dimensions v) d = Some c" for c
  proof -
    obtain cs where "lineage (vm_dimensions v) c cs" using voc(2) by blast
    then show ?thesis using lineage_distinct [OF lineage.up [OF that]] by (intro aboveLinks_seen) auto
  qed
  then show "aboveLinks parsed (vm_dimensions v) path [] d =
      (case owner_of parsed d of
         Some owner \<Rightarrow> bindE (resolve parsed (vm_dimensions v) path owner) (\<lambda>r. Inr (snd r))
       | None \<Rightarrow>
           (case container_of (vm_dimensions v) d of
              None \<Rightarrow> Inr []
            | Some c \<Rightarrow> bindE (aboveLinks parsed (vm_dimensions v) path [] c)
                (\<lambda>ups. Inr (\<lparr>co_dimension = c, co_column = c @ ''_id''\<rparr> # ups))))"
    by (subst aboveLinks.simps) (simp split: option.splits)
qed (use acyclic_iff in blast)

theorem containment_walks_end_witness:
  "\<exists>v. parseVocabulary sample_vocabulary = Inr v \<and> (\<exists>cs. lineage (vm_dimensions v) ''project'' cs)"
proof -
  obtain v where v: "parseVocabulary sample_vocabulary = Inr v" using sample_readTables by (auto simp: readTables_def bindE_eq_Inr)
  then show ?thesis using containment_walks_end [OF v] by blast
qed

end
