(* ===== verification/Db_Store_Sound.thy ===== *)
theory Db_Store_Sound
  imports Db_Store Db_Policy_Sound
begin

text \<open>
  What the stores' writes do to the tables: an update, a move and a remove touch only the rows their Ref names and an update leaves them where they
  lie; an update under \<open>expectVersion\<close> is refused when the row changed; an inserted row lies under the Ref it was inserted with; and the
  locator's chain is the one a Ref of the object needs.
\<close>

subsection \<open>Statements\<close>

text \<open>What the layer relies on of a database: settling a statement leaves the rows it wrote in its own table as they are.\<close>

definition settle_keeps :: "sql_env \<Rightarrow> bool" where
  "settle_keeps env \<longleftrightarrow> (\<forall>t s s'. se_settle env t s = Some s' \<longrightarrow> table_rows s' t = table_rows s t)"

lemma settled_Inr: "settle_keeps env \<Longrightarrow> settled env t rows answers s = Inr (as, s') \<Longrightarrow> as = answers \<and> table_rows s' t = rows"
  by (auto simp: settled_def settle_keeps_def split: option.splits)

definition update_nodes :: "string \<Rightarrow> (string \<times> prim option) list \<Rightarrow> string option \<Rightarrow> node_val list" where
  "update_nodes t vs bump =
     map (\<lambda>(name, v). mk ''ColumnUpdateNode'' [(''column'', columnNode name), (''value'', valueNode v)]) vs @
     (case bump of None \<Rightarrow> []
      | Some b \<Rightarrow> [mk ''ColumnUpdateNode'' [(''column'', columnNode b), (''value'', binaryNode (column t b) ''+'' (valueNode (Some (PNum 1))))]])"

definition changed_row :: "string \<Rightarrow> (string \<times> prim option) list \<Rightarrow> string option \<Rightarrow> sql_row \<Rightarrow> sql_row" where
  "changed_row t vs bump r = updated_row t (update_nodes t vs bump) r"

lemma operand_valueNode [simp]: "operand e (Some (valueNode v)) = v"
  by (cases v) (simp_all add: operand_def valueNode_def)

lemma kindOf_valueNode [simp]: "kindOf (Some (valueNode v)) = Some ''ValueNode''"
  by (simp add: valueNode_def)

lemma cell_self [simp]: "cell [(t, r)] t c = map_of r c"
  by (simp add: cell_def)

text \<open>The cells of an updated row: the last value given for a column, the version one higher, the others as they were.\<close>

definition bumped :: "prim option \<Rightarrow> prim option" where
  "bumped v = (case v of Some (PNum q) \<Rightarrow> Some (PNum (q + 1)) | _ \<Rightarrow> None)"

lemma foldl_set_cell: "map_of (foldl (\<lambda>acc (name, v). set_cell name v acc) r vs) c = (case map_of (rev vs) c of None \<Rightarrow> map_of r c | Some v \<Rightarrow> v)"
  by (induction vs arbitrary: r) (auto simp: map_add_def split: option.splits)

lemma changed_cells:
  "map_of (changed_row t vs bump r) c =
     (if bump = Some c then bumped (map_of r c) else case map_of (rev vs) c of None \<Rightarrow> map_of r c | Some v \<Rightarrow> v)"
proof -
  let ?f = "\<lambda>acc u. set_cell (column_text (read (Some u) ''column'')) (update_value [(t, r)] (read (Some u) ''value'')) acc"
  have "foldl ?f x (map (\<lambda>(name, v). mk ''ColumnUpdateNode'' [(''column'', columnNode name), (''value'', valueNode v)]) vs) =
      foldl (\<lambda>acc (name, v). set_cell name v acc) x vs" for x
    by (induction vs arbitrary: x) (auto simp: update_value_def)
  moreover have "update_value [(t, r)] (Some (binaryNode (column t b) ''+'' (valueNode (Some (PNum 1))))) = bumped (map_of r b)" for b
    by (simp add: update_value_def binaryNode_def bumped_def split: option.splits prim.splits)
  ultimately show ?thesis
    by (simp add: changed_row_def updated_row_def update_nodes_def foldl_set_cell split: option.splits)
qed

lemma updateNode_Inr:
  "updateNode t vs bump whr ret = Inr n \<Longrightarrow>
     n = mk ''UpdateQueryNode'' [(''table'', tableNode t), (''updates'', NArr (update_nodes t vs bump)), (''where'', whr), (''returning'', ret)]"
  by (auto simp: updateNode_def update_nodes_def Let_def split: if_splits)

lemma execute_update:
  assumes "settle_keeps env" and "updateNode t vs bump whr ret = Inr n" and "execute env n s = Inr (answers, s')"
  shows "table_rows s' t = map (\<lambda>r. if row_matches env t (Some whr) r then changed_row t vs bump r else r) (table_rows s t)"
    and "answers = map (\<lambda>r. project env t (read (Some ret) ''selections'') (changed_row t vs bump r)) (filter (row_matches env t (Some whr)) (table_rows s t))"
  using assms(3) settled_Inr [OF assms(1)]
  by (auto simp: updateNode_Inr [OF assms(2)] execute_def exec_update_def changed_row_def Let_def)

lemma execute_select_tables: "execute env (mk ''SelectQueryNode'' ps) s = Inr (answers, s') \<Longrightarrow> s' = s"
  by (simp add: execute_def)

lemma execute_delete:
  assumes "settle_keeps env" and "execute env (deleteNode t whr key) s = Inr (answers, s')"
  shows "table_rows s' t = filter (\<lambda>r. \<not> row_matches env t (Some whr) r) (table_rows s t)"
    and "answers = [] \<longleftrightarrow> filter (row_matches env t (Some whr)) (table_rows s t) = []"
proof -
  have e: "settled env t (filter (\<lambda>r. \<not> row_matches env t (Some whr) r) (table_rows s t))
      (map (project env t (read (Some (acknowledgement t key None)) ''selections'')) (filter (row_matches env t (Some whr)) (table_rows s t))) s =
      Inr (answers, s')"
    using assms(2) by (simp add: deleteNode_def execute_def exec_delete_def fromNode_def Let_def)
  show "table_rows s' t = filter (\<lambda>r. \<not> row_matches env t (Some whr) r) (table_rows s t)"
    "answers = [] \<longleftrightarrow> filter (row_matches env t (Some whr)) (table_rows s t) = []"
    using settled_Inr [OF assms(1) e] by simp_all
qed

lemma session_run_Inr: "session_run rt n c s = Inr x \<Longrightarrow> execute (rt_env rt) n s = Inr x"
  by (auto simp: session_run_def bindE_eq_Inr split: if_splits)

lemma guarded_run_Inr: "guarded_run rt cx n kind scope s = Inr x \<Longrightarrow> execute (rt_env rt) n s = Inr x"
  by (auto simp: guarded_run_def bindE_eq_Inr dest: session_run_Inr)

subsection \<open>Rewritten tables\<close>

text \<open>A table after a write: each row kept, changed by one step of \<open>change\<close>, or gone where \<open>gone\<close> allows it; nothing added.\<close>

inductive rewritten :: "(sql_row \<Rightarrow> sql_row \<Rightarrow> bool) \<Rightarrow> (sql_row \<Rightarrow> bool) \<Rightarrow> sql_row list \<Rightarrow> sql_row list \<Rightarrow> bool" for change gone where
  empty: "rewritten change gone [] []"
| keep: "rewritten change gone xs ys \<Longrightarrow> rewritten change gone (x # xs) (x # ys)"
| alter: "change x y \<Longrightarrow> rewritten change gone xs ys \<Longrightarrow> rewritten change gone (x # xs) (y # ys)"
| drop: "gone x \<Longrightarrow> rewritten change gone xs ys \<Longrightarrow> rewritten change gone (x # xs) ys"

inductive_cases rewritten_NilE: "rewritten change gone [] ys"

lemma rewritten_refl [simp]: "rewritten change gone xs xs"
  by (induction xs) (auto intro: rewritten.intros)

lemma rewritten_map: "(\<And>x. x \<in> set xs \<Longrightarrow> hit x \<Longrightarrow> change x (f x)) \<Longrightarrow> rewritten change gone xs (map (\<lambda>x. if hit x then f x else x) xs)"
  by (induction xs) (auto intro: rewritten.intros)

lemma rewritten_filter: "(\<And>x. x \<in> set xs \<Longrightarrow> hit x \<Longrightarrow> gone x) \<Longrightarrow> rewritten change gone xs (filter (\<lambda>x. \<not> hit x) xs)"
  by (induction xs) (auto intro: rewritten.intros)

lemma rewritten_mono:
  assumes "rewritten change gone xs ys" and "\<And>x y. change x y \<Longrightarrow> change' x y" and "\<And>x. gone x \<Longrightarrow> gone' x"
  shows "rewritten change' gone' xs ys"
  using assms(1) by induction (auto intro: rewritten.intros assms(2,3))

text \<open>A row no step of the write applies to is still there.\<close>

lemma rewritten_keeps: "rewritten change gone xs ys \<Longrightarrow> x \<in> set xs \<Longrightarrow> (\<And>y. \<not> change x y) \<Longrightarrow> \<not> gone x \<Longrightarrow> x \<in> set ys"
  by (induction rule: rewritten.induct) auto


subsection \<open>Written values\<close>

lemma boundValues_names: "boundValues d m vs = Inr bs \<Longrightarrow> map fst bs = map fst vs"
proof -
  have "mapE f vs = Inr bs \<Longrightarrow> (\<And>kv b. f kv = Inr b \<Longrightarrow> fst b = fst kv) \<Longrightarrow> map fst bs = map fst vs" for f :: "string \<times> prim option \<Rightarrow> db_error + string \<times> prim option"
    by (induction vs arbitrary: bs) (auto simp: bindE_eq_Inr)
  then show "boundValues d m vs = Inr bs \<Longrightarrow> map fst bs = map fst vs"
    by (fastforce simp: boundValues_def bindE_eq_Inr split: if_splits option.splits)
qed

lemma copied_value_names: "copied_value numText m kv = Inr vs \<Longrightarrow> fst ` set vs \<subseteq> {fst kv}"
  by (auto simp: copied_value_def Let_def bindE_eq_Inr split: if_splits input.splits node_val.splits prim.splits)

lemma readValues_names:
  assumes "readValues numText arg allowed m = Inr vs"
  shows "fst ` set vs \<subseteq> set allowed"
proof -
  obtain props given vss where p: "mapE (\<lambda>(key, property). case property of None \<Rightarrow> Inl (QueryRefusedError Invalid_arg)
      | Some v \<Rightarrow> if key \<in> set allowed then Inr (key, v) else Inl (QueryRefusedError Unknown_column)) props = Inr given"
    and v: "mapE (copied_value numText m) given = Inr vss" "vs = concat vss"
    using assms by (auto simp: readValues_def bindE_eq_Inr split: argument.splits)
  have g: "fst kv \<in> set allowed" if "kv \<in> set given" for kv
    using p that by (induction props arbitrary: given) (auto simp: bindE_eq_Inr split: option.splits if_splits)
  have "\<exists>kv \<in> set given. fst x = fst kv" if "x \<in> set (concat vss)" for x
    using v(1) that
  proof (induction given arbitrary: vss)
    case (Cons kv given)
    then obtain v rest where "copied_value numText m kv = Inr v" "mapE (copied_value numText m) given = Inr rest" "vss = v # rest"
      by (auto simp: bindE_eq_Inr)
    then show ?case using Cons copied_value_names [of numText m kv v] by fastforce
  qed simp
  then show ?thesis using g v(2) by fastforce
qed

lemma stampChain_names: "fst ` set (stampChain row vs) = fst ` set row \<union> co_column ` fst ` set vs"
proof (induction vs arbitrary: row)
  case (Cons a vs)
  then show ?case by (cases a) (simp add: stampChain_def dom_update Un_commute)
qed (simp add: stampChain_def)

subsection \<open>One update or remove\<close>

abbreviation env_of :: "store_runtime \<Rightarrow> sql_env" where
  "env_of rt \<equiv> rt_env rt"

text \<open>The rows a write hits: those of its scope that meet its conditions.\<close>

definition hits :: "store_runtime \<Rightarrow> table_model \<Rightarrow> addressed \<Rightarrow> node_val option \<Rightarrow> sql_row \<Rightarrow> bool" where
  "hits rt m target conditions = row_matches (rt_env rt) (tm_name m) (Some (scopedWhere conditions (ad_scope target)))"

lemma limited_Nil [simp]: "limited l [] = []"
  by (simp add: limited_def split: option.splits prim.splits)

lemma exec_acknowledgement:
  "execute env (acknowledgementNode t key v whr) s = Inr (row # rows, s') \<Longrightarrow> s' = s \<and> (\<exists>r \<in> set (table_rows s t). row_matches env t (Some whr) r)"
  by (auto simp: acknowledgementNode_def execute_def exec_select_def fromNode_def Let_def dest!: sym [of "limited _ _"])
    (metis filter_False limited_Nil list.distinct(1) list.map_disc_iff)

lemma exec_exists:
  "execute env (existsNode t key scope conditions) s = Inr (rows, s') \<Longrightarrow>
     s' = s \<and> (rows \<noteq> [] \<longleftrightarrow> (\<exists>r \<in> set (table_rows s t). row_matches env t (Some (scopedWhere conditions scope)) r))"
  by (auto simp: existsNode_def execute_def exec_select_def fromNode_def limitNode_def limited_def filter_empty_conv take_eq_Nil Let_def)

lemma missingOrChanged_Inl [simp]: "missingOrChanged rt cx target expected s \<noteq> Inr x"
  by (auto simp: missingOrChanged_def bindE_eq_Inr)

lemma updateRow_Inr:
  assumes "updateRow rt cx target given expected destination s = Inr (row, s')" and keeps: "settle_keeps (rt_env rt)"
  shows "\<exists>changes conditions. boundValues (rt_dialect rt) (cx_model cx) given = Inr changes \<and> conditionsWith target expected = Inr conditions \<and>
    lock_for rt cx destination s = Inr () \<and> (\<exists>r \<in> set (table_rows s (tm_name (cx_model cx))). hits rt (cx_model cx) target conditions r) \<and>
    (if changes = [] then s' = s
     else table_rows s' (tm_name (cx_model cx)) =
       map (\<lambda>r. if hits rt (cx_model cx) target conditions r then changed_row (tm_name (cx_model cx)) changes (tm_version (cx_model cx)) r else r)
         (table_rows s (tm_name (cx_model cx))))"
proof -
  let ?m = "cx_model cx"
  obtain changes conditions key ret n rows where c: "boundValues (rt_dialect rt) ?m given = Inr changes" "conditionsWith target expected = Inr conditions"
      "lock_for rt cx destination s = Inr ()"
    and n: "(if changes = [] then Inr (acknowledgementNode (tm_name ?m) key (tm_version ?m) (scopedWhere conditions (ad_scope target)))
             else updateNode (tm_name ?m) changes (tm_version ?m) (scopedWhere conditions (ad_scope target)) ret) = Inr n"
    and e: "execute (rt_env rt) n s = Inr (row # rows, s')"
  proof -
    obtain changes where 1: "boundValues (rt_dialect rt) ?m given = Inr changes"
      using assms(1) by (auto simp: updateRow_def bindE_eq_Inr Let_def)
    obtain conditions where 2: "conditionsWith target expected = Inr conditions"
      using assms(1) by (auto simp: updateRow_def bindE_eq_Inr Let_def)
    obtain key where 3: "keyOf ?m = Inr key" using assms(1) by (auto simp: updateRow_def bindE_eq_Inr Let_def)
    obtain ret where 4: "answer ?m = Inr ret" using 3 by (auto simp: answer_def)
    have 5: "lock_for rt cx destination s = Inr ()" using assms(1) by (auto simp: updateRow_def bindE_eq_Inr Let_def)
    obtain n where 6: "(if changes = [] then Inr (acknowledgementNode (tm_name ?m) key (tm_version ?m) (scopedWhere conditions (ad_scope target)))
             else updateNode (tm_name ?m) changes (tm_version ?m) (scopedWhere conditions (ad_scope target)) ret) = Inr n"
      using assms(1) by (auto simp: updateRow_def bindE_eq_Inr Let_def 1 2 3 4)
    obtain rows s1 where g: "guarded_run rt cx n (if changes = [] then SelectRoot else UpdateRoot) (Some (ad_scope target)) s = Inr (rows, s1)"
      and a: "(case rows of
            row # _ \<Rightarrow> bindE (checkVersion ?m row) (\<lambda>_. bindE (referenceFiles ?m changes) (\<lambda>_. Inr (row, s1)))
          | [] \<Rightarrow> missingOrChanged rt cx target expected s1) = Inr (row, s')"
      using assms(1) by (simp only: updateRow_def Let_def 1 2 3 4 5 6 bindE_Inr) (auto simp: bindE_eq_Inr)
    have "s1 = s' \<and> (\<exists>rest. rows = row # rest)" using a by (cases rows) (auto simp: bindE_eq_Inr)
    then show ?thesis using that 1 2 5 6 guarded_run_Inr [OF g] by blast
  qed
  show ?thesis
  proof (cases "changes = []")
    case True
    then show ?thesis using c n e exec_acknowledgement by (fastforce simp: hits_def)
  next
    case False
    then have u: "updateNode (tm_name ?m) changes (tm_version ?m) (scopedWhere conditions (ad_scope target)) ret = Inr n" using n by simp
    have "filter (hits rt ?m target conditions) (table_rows s (tm_name ?m)) \<noteq> []" using execute_update(2) [OF keeps u e] by (auto simp: hits_def)
    then show ?thesis using c False execute_update(1) [OF keeps u e] by (auto simp: hits_def filter_empty_conv)
  qed
qed

lemma removeRow_Inr:
  assumes "removeRow rt cx target expected s = Inr (u, s')" and keeps: "settle_keeps (rt_env rt)"
  shows "\<exists>conditions. conditionsWith target expected = Inr conditions \<and>
    (\<exists>r \<in> set (table_rows s (tm_name (cx_model cx))). hits rt (cx_model cx) target conditions r) \<and>
    table_rows s' (tm_name (cx_model cx)) = filter (\<lambda>r. \<not> hits rt (cx_model cx) target conditions r) (table_rows s (tm_name (cx_model cx)))"
proof -
  let ?m = "cx_model cx"
  obtain conditions key rows where c: "conditionsWith target expected = Inr conditions"
    and e: "execute (rt_env rt) (deleteNode (tm_name ?m) (scopedWhere conditions (ad_scope target)) key) s = Inr (rows, s')" "rows \<noteq> []"
    using assms(1) by (auto simp: removeRow_def bindE_eq_Inr Let_def dest!: guarded_run_Inr split: if_splits)
  show ?thesis using c execute_delete [OF keeps e(1)] e(2) by (auto simp: hits_def filter_empty_conv)
qed

subsection \<open>The rows of a Ref\<close>

lemma linksPredicate_single: "linksPredicate t vs = Inr n \<Longrightarrow> single (Some n)"
  unfolding linksPredicate_def by (rule allOf_single, assumption) (auto simp: list_all_iff)

lemma object_single: "objectPredicate m g op = Inr n \<Longrightarrow> single (Some n)"
  by (auto simp: objectPredicate_def bindE_eq_Inr dest: linksPredicate_single)

lemma childObject_single: "childObjectPredicate m parent g key op = Inr n \<Longrightarrow> single (Some n)"
  by (auto simp: childObjectPredicate_def parentPredicate_def bindE_eq_Inr split: if_splits dest!: linksPredicate_single intro: allOf_single)

lemma conditionsWith_addressing [simp]: "conditionsWith (addressing scope) expected = Inr expected"
  by (simp add: conditionsWith_def addressing_def split: option.splits)

lemma addressing_parts [simp]: "ad_scope (addressing scope) = scope" "ad_conditions (addressing scope) = None"
  by (simp_all add: addressing_def)

lemma hits_addressing:
  assumes "single (Some scope)"
  shows "hits rt m (addressing scope) conditions r \<longleftrightarrow>
    holds (se_opr (rt_env rt)) [(tm_name m, r)] scope \<and> (\<forall>c. conditions = Some c \<longrightarrow> holds (se_opr (rt_env rt)) [(tm_name m, r)] c)"
  using assms by (cases conditions) (auto simp: hits_def addressing_def row_matches_conditions)

text \<open>A scope of a Ref: the rows it matches are rows of the Ref's object.\<close>

definition ref_scope :: "sql_operators \<Rightarrow> table_context \<Rightarrow> ref_grant \<Rightarrow> operation \<Rightarrow> node_val \<Rightarrow> bool" where
  "ref_scope opr cx r op scope \<longleftrightarrow> single (Some scope) \<and> (\<forall>x. holds opr [(tm_name (cx_model cx), x)] scope \<longrightarrow> ref_admits opr [(tm_name (cx_model cx), x)] (cx_model cx) r)"

lemma ref_scope_object: "wf_links (cx_model cx) \<Longrightarrow> objectPredicate (cx_model cx) (RefGrant r) op = Inr scope \<Longrightarrow> ref_scope opr cx r op scope"
  using object_ref object_single by (fastforce simp: ref_scope_def)

lemma ref_scope_child:
  assumes "wf_links (cx_model cx)" and "cx_parent cx = Some p" and "wf_child (cx_model cx) p"
    and "childObjectPredicate (cx_model cx) (cx_parent cx) (RefGrant r) key op = Inr scope"
  shows "ref_scope opr cx r op scope"
  using childObject_ref [OF assms(1,3)] assms(2,4) childObject_single by (fastforce simp: ref_scope_def)

lemma linkOf_mem: "linkOf ls d = Some l \<Longrightarrow> l \<in> set ls"
  by (auto simp: linkOf_def find_Some_iff)

lemma ref_admits_cong:
  assumes "\<And>l. l \<in> set (links_of m) \<Longrightarrow> map_of y (co_column l) = map_of x (co_column l)"
  shows "ref_admits opr [(tm_name m, y)] m r \<longleftrightarrow> ref_admits opr [(tm_name m, x)] m r"
proof -
  have "lies_in opr [(tm_name m, y)] m d v \<longleftrightarrow> lies_in opr [(tm_name m, x)] m d v" for d v
  proof (cases "linkOf (links_of m) d")
    case (Some l)
    then show ?thesis using assms [OF linkOf_mem [OF Some]] by (simp add: lies_in_def)
  qed (simp add: lies_in_def)
  then show ?thesis by (simp add: ref_admits_def)
qed

text \<open>The columns that place a row are stamped by the layer, and its version is none of them.\<close>

lemma link_stamps:
  assumes "l \<in> set (links_of m)"
  shows "co_column l \<in> set (layer_stamps m)" and "distinct (layer_stamps m) \<Longrightarrow> tm_version m \<noteq> Some (co_column l)"
  using assms by (auto simp: links_of_def selfLinks_def layer_stamps_def keyOf_def split: scope_model.splits option.splits sum.splits)

subsection \<open>A store of two tenants\<close>

definition demo_tenants :: table_model where
  "demo_tenants =
     \<lparr>tm_name = ''tenants'', tm_scope = DimensionScope ''tenant'' ''id'' None,
      tm_actions = \<lparr>am_read = [''view''], am_insert = [], am_update = [], am_delete = [], am_appRead = [], am_appCount = []\<rparr>,
      tm_columns = [''id''], tm_visible = [''id''], tm_insert = [], tm_update = [], tm_version = None, tm_createdBy = None, tm_queue = None,
      tm_files = [], tm_columnReads = [], tm_columnWrites = [], tm_dates = [], tm_timestamps = [], tm_booleans = [], tm_json = [],
      tm_foreignKeys = [], tm_view = False, tm_chain = []\<rparr>"

definition demo_projects :: table_model where
  "demo_projects =
     \<lparr>tm_name = ''projects'', tm_scope = DimensionScope ''project'' ''id'' (Some \<lparr>co_dimension = ''tenant'', co_column = ''tenant_id''\<rparr>),
      tm_actions = \<lparr>am_read = [''view''], am_insert = [''edit''], am_update = [''edit''], am_delete = [''edit''], am_appRead = [], am_appCount = []\<rparr>,
      tm_columns = [''id'', ''tenant_id'', ''title'', ''version''], tm_visible = [''id'', ''title''], tm_insert = [''title''], tm_update = [''title''],
      tm_version = Some ''version'', tm_createdBy = None, tm_queue = None,
      tm_files = [], tm_columnReads = [], tm_columnWrites = [], tm_dates = [], tm_timestamps = [], tm_booleans = [], tm_json = [],
      tm_foreignKeys = [], tm_view = False, tm_chain = [\<lparr>co_dimension = ''tenant'', co_column = ''tenant_id''\<rparr>]\<rparr>"

definition demo_context :: table_context where
  "demo_context = \<lparr>cx_model = demo_projects, cx_parent = None, cx_destination = Some demo_tenants, cx_joins = []\<rparr>"

definition demo_runtime :: store_runtime where
  "demo_runtime =
     \<lparr>rt_dialect = Postgres, rt_readOnly = False,
      rt_env = \<lparr>se_opr = \<lambda>op a b. op = ''='' \<and> a = b, se_defaults = \<lambda>_. [], se_cast = \<lambda>p. p, se_settle = \<lambda>_ s. Some s\<rparr>,
      rt_uuid = ''p3'', rt_numText = \<lambda>_. ''0''\<rparr>"

definition demo_tables :: sql_tables where
  "demo_tables =
     [(''tenants'', [[(''id'', PStr ''t1'')], [(''id'', PStr ''t2'')]]),
      (''projects'', [[(''id'', PStr ''p1''), (''tenant_id'', PStr ''t1''), (''title'', PStr ''a''), (''version'', PNum 4)],
                     [(''id'', PStr ''p2''), (''tenant_id'', PStr ''t2''), (''title'', PStr ''b''), (''version'', PNum 4)]])]"

definition demo_project :: ref_grant where
  "demo_project = \<lparr>rg_dimension = ''project'', rg_action = ''edit'', rg_principal = ''user:u'', rg_id = ''p1'', rg_chain = [(''tenant'', ''t1'')]\<rparr>"

definition demo_tenant :: ref_grant where
  "demo_tenant = \<lparr>rg_dimension = ''tenant'', rg_action = ''edit'', rg_principal = ''user:u'', rg_id = ''t2'', rg_chain = []\<rparr>"

definition demo_values :: "input argument" where
  "demo_values = Plain [(''title'', Some (IValue (NPrim (PStr ''z''))))]"

abbreviation demo_update :: "rat \<Rightarrow> (db_error + answer_row) \<times> sql_tables" where
  "demo_update q \<equiv> dimension_update demo_runtime demo_context (RefGrant demo_project) demo_values (Some (PNum q)) demo_tables"

abbreviation demo_remove :: "(db_error + unit) \<times> sql_tables" where
  "demo_remove \<equiv> dimension_remove demo_runtime demo_context (RefGrant demo_project) demo_tables"

abbreviation demo_insert :: "(db_error + answer_row) \<times> sql_tables" where
  "demo_insert \<equiv> insertIntoDimension demo_runtime demo_context (RefGrant demo_tenant) demo_values demo_tables"

abbreviation demo_move :: "(db_error + answer_row \<times> (string \<times> string) list) \<times> sql_tables" where
  "demo_move \<equiv> dimension_move demo_runtime demo_context (RefGrant demo_project) (RefGrant demo_tenant) demo_tables"

lemma demo_wf: "settle_keeps (rt_env demo_runtime)" "wf_links (cx_model demo_context)" "wf_links demo_tenants" "distinct (layer_stamps (cx_model demo_context))"
  by (simp_all add: settle_keeps_def demo_runtime_def demo_context_def demo_projects_def demo_tenants_def wf_links_def links_of_def selfLinks_def
      layer_stamps_def keyOf_def)

lemma demo_equality: "\<forall>v. se_opr (rt_env demo_runtime) ''='' (PStr v) (PStr v)" "\<forall>a b. se_opr (rt_env demo_runtime) ''='' (PNum a) (PNum b) \<longleftrightarrow> a = b"
  by (simp_all add: demo_runtime_def)

lemma demo_owner: "cx_destination demo_context = Some demo_tenants"
  "destinationOf [(''tenants'', demo_tenants)] (cx_model demo_context) (cx_parent demo_context) = Some demo_tenants"
  by (simp_all add: demo_context_def demo_projects_def demo_tenants_def destinationOf_def ownerOf_def)

subsection \<open>Updates and removes\<close>

text \<open>One step of an update through a Ref: a row of the Ref's object, which stays there and keeps every column but the update columns and
  the version.\<close>

definition updates_within :: "sql_operators \<Rightarrow> table_model \<Rightarrow> ref_grant \<Rightarrow> sql_row \<Rightarrow> sql_row \<Rightarrow> bool" where
  "updates_within opr m r x y \<longleftrightarrow>
     ref_admits opr [(tm_name m, x)] m r \<and> ref_admits opr [(tm_name m, y)] m r \<and>
     (\<forall>c. c \<notin> set (tm_update m) \<longrightarrow> tm_version m \<noteq> Some c \<longrightarrow> map_of y c = map_of x c)"

lemma changed_keeps: "c \<notin> fst ` set vs \<Longrightarrow> bump \<noteq> Some c \<Longrightarrow> map_of (changed_row t vs bump r) c = map_of r c"
  by (simp add: changed_cells map_of_eq_None_iff [THEN iffD2] split: option.splits)

lemma changed_updates_within:
  assumes "ref_admits opr [(tm_name m, x)] m r" and "fst ` set changes \<subseteq> set (tm_update m)"
    and "distinct (layer_stamps m)" and "set (layer_stamps m) \<inter> set (tm_update m) = {}"
  shows "updates_within opr m r x (changed_row (tm_name m) changes (tm_version m) x)"
proof -
  let ?y = "changed_row (tm_name m) changes (tm_version m) x"
  have "map_of ?y (co_column l) = map_of x (co_column l)" if "l \<in> set (links_of m)" for l
    using link_stamps [OF that] assms(2-4) by (intro changed_keeps) blast+
  then have "ref_admits opr [(tm_name m, ?y)] m r" using assms(1) ref_admits_cong [of m ?y x] by blast
  moreover have "map_of ?y c = map_of x c" if "c \<notin> set (tm_update m)" "tm_version m \<noteq> Some c" for c
    using that assms(2) by (intro changed_keeps) blast+
  ultimately show ?thesis using assms(1) by (simp add: updates_within_def)
qed

lemma update_confined:
  assumes "settle_keeps (rt_env rt)" and "ref_scope (se_opr (rt_env rt)) cx r Op_update scope"
    and "readValues numText vs (tm_update (cx_model cx)) (cx_model cx) = Inr given"
    and "distinct (layer_stamps (cx_model cx))" and "set (layer_stamps (cx_model cx)) \<inter> set (tm_update (cx_model cx)) = {}"
    and "updateRow rt cx (addressing scope) given expected None s = Inr (row, s')"
  shows "rewritten (updates_within (se_opr (rt_env rt)) (cx_model cx) r) (\<lambda>_. False)
    (table_rows s (tm_name (cx_model cx))) (table_rows s' (tm_name (cx_model cx)))"
proof -
  let ?m = "cx_model cx"
  obtain changes where c: "boundValues (rt_dialect rt) ?m given = Inr changes"
    and t: "if changes = [] then s' = s else table_rows s' (tm_name ?m) =
       map (\<lambda>r. if hits rt ?m (addressing scope) expected r then changed_row (tm_name ?m) changes (tm_version ?m) r else r) (table_rows s (tm_name ?m))"
    using updateRow_Inr [OF assms(6,1)] by auto
  have "fst ` set changes \<subseteq> set (tm_update ?m)"
    using boundValues_names [OF c] readValues_names [OF assms(3)] by (metis list.set_map)
  then have "updates_within (se_opr (rt_env rt)) ?m r x (changed_row (tm_name ?m) changes (tm_version ?m) x)"
    if "hits rt ?m (addressing scope) expected x" for x
    using that assms(2,4,5) by (intro changed_updates_within) (auto simp: ref_scope_def hits_addressing)
  then show ?thesis using t by (auto intro: rewritten_map split: if_splits)
qed

lemma run_write_cases: "run_write work s = (res, s') \<Longrightarrow> (\<exists>e. res = Inl e \<and> s' = s) \<or> (\<exists>x. work s = Inr (x, s') \<and> res = Inr x)"
  by (auto simp: run_write_def split: sum.splits prod.splits)

text \<open>C10: an update through a Ref changes only rows of the object the Ref names, and such a row stays in the object: no row outside is
  touched, none is added or removed, and of a changed row only the columns of the update list and the version change. This holds of the update of
  a dimension table and of a child table, whatever the update answers.\<close>

theorem ref_updates_confined:
  assumes "settle_keeps (rt_env rt)" and "wf_links (cx_model cx)"
    and "distinct (layer_stamps (cx_model cx))" and "set (layer_stamps (cx_model cx)) \<inter> set (tm_update (cx_model cx)) = {}"
    and "dimension_update rt cx (RefGrant r) vs expectVersion s = (res, s') \<or>
      cx_parent cx = Some p \<and> wf_child (cx_model cx) p \<and> child_update rt cx (RefGrant r) key vs expectVersion s = (res, s')"
  shows "rewritten (updates_within (se_opr (rt_env rt)) (cx_model cx) r) (\<lambda>_. False)
    (table_rows s (tm_name (cx_model cx))) (table_rows s' (tm_name (cx_model cx)))"
proof (cases "s' = s")
  case False
  then obtain scope given expected row where "ref_scope (se_opr (rt_env rt)) cx r Op_update scope"
    and "readValues (rt_numText rt) vs (tm_update (cx_model cx)) (cx_model cx) = Inr given"
    and "updateRow rt cx (addressing scope) given expected None s = Inr (row, s')"
    using assms(5) ref_scope_object [OF assms(2)] ref_scope_child [OF assms(2)]
    by (fastforce simp: dimension_update_def child_update_def bindE_eq_Inr dest!: run_write_cases)
  then show ?thesis using update_confined assms(1,3,4) by blast
qed simp

text \<open>Witness: the update of a project at its version.\<close>

theorem ref_updates_confined_witness:
  "fst (demo_update 4) = Inr [(''id'', Some (PStr ''p1'')), (''version'', Some (PNum 5))] \<and>
   rewritten (updates_within (se_opr (rt_env demo_runtime)) (cx_model demo_context) demo_project) (\<lambda>_. False)
     (table_rows demo_tables (tm_name (cx_model demo_context)))
     (table_rows (snd (demo_update 4)) (tm_name (cx_model demo_context)))"
proof
  show "fst (demo_update 4) = Inr [(''id'', Some (PStr ''p1'')), (''version'', Some (PNum 5))]" by code_simp
  show "rewritten (updates_within (se_opr (rt_env demo_runtime)) (cx_model demo_context) demo_project) (\<lambda>_. False)
     (table_rows demo_tables (tm_name (cx_model demo_context)))
     (table_rows (snd (demo_update 4)) (tm_name (cx_model demo_context)))"
    by (rule ref_updates_confined [where p = demo_tenants and key = "''p1''", OF demo_wf(1,2,4)], code_simp, rule disjI1, rule surjective_pairing)
qed

text \<open>a remove through a Ref takes away only rows of the object the Ref names and changes none. When it succeeds it took at least one and
  leaves none of the rows it addressed; otherwise every table is as it was.\<close>

theorem ref_removes_confined:
  assumes "settle_keeps (rt_env rt)" and "wf_links (cx_model cx)"
    and "dimension_remove rt cx (RefGrant r) s = (res, s')"
  shows "rewritten (\<lambda>_ _. False) (\<lambda>x. ref_admits (se_opr (rt_env rt)) [(tm_name (cx_model cx), x)] (cx_model cx) r)
      (table_rows s (tm_name (cx_model cx))) (table_rows s' (tm_name (cx_model cx))) \<and>
    (case res of
       Inl _ \<Rightarrow> s' = s
     | Inr _ \<Rightarrow> (\<exists>x \<in> set (table_rows s (tm_name (cx_model cx))). ref_admits (se_opr (rt_env rt)) [(tm_name (cx_model cx), x)] (cx_model cx) r) \<and>
         (\<forall>x \<in> set (table_rows s' (tm_name (cx_model cx))). \<not> ref_admits (se_opr (rt_env rt)) [(tm_name (cx_model cx), x)] (cx_model cx) r))"
proof (cases res)
  case (Inl e)
  then have "s' = s" using run_write_cases [OF assms(3) [unfolded dimension_remove_def]] by auto
  then show ?thesis using Inl by simp
next
  case (Inr u)
  let ?m = "cx_model cx" and ?opr = "se_opr (rt_env rt)"
  obtain scope where o: "objectPredicate ?m (RefGrant r) Op_delete = Inr scope" and rm: "removeRow rt cx (addressing scope) None s = Inr (u, s')"
    using run_write_cases [OF assms(3) [unfolded dimension_remove_def]] Inr by (auto simp: bindE_eq_Inr)
  have h: "hits rt ?m (addressing scope) None x \<longleftrightarrow> ref_admits ?opr [(tm_name ?m, x)] ?m r" for x
    using hits_addressing [OF object_single [OF o]] object_ref [OF assms(2) o] by simp
  have "(\<exists>x \<in> set (table_rows s (tm_name ?m)). hits rt ?m (addressing scope) None x) \<and>
      table_rows s' (tm_name ?m) = filter (\<lambda>x. \<not> hits rt ?m (addressing scope) None x) (table_rows s (tm_name ?m))"
    using removeRow_Inr [OF rm assms(1)] by simp
  then show ?thesis using Inr rewritten_filter unfolding h by auto
qed

text \<open>Witness: the remove of a project.\<close>

theorem ref_removes_confined_witness:
  "fst (demo_remove) = Inr () \<and>
   rewritten (\<lambda>_ _. False) (\<lambda>x. ref_admits (se_opr (rt_env demo_runtime)) [(tm_name (cx_model demo_context), x)] (cx_model demo_context) demo_project)
     (table_rows demo_tables (tm_name (cx_model demo_context)))
     (table_rows (snd (demo_remove)) (tm_name (cx_model demo_context)))"
proof
  show "fst (demo_remove) = Inr ()" by code_simp
  show "rewritten (\<lambda>_ _. False) (\<lambda>x. ref_admits (se_opr (rt_env demo_runtime)) [(tm_name (cx_model demo_context), x)] (cx_model demo_context) demo_project)
     (table_rows demo_tables (tm_name (cx_model demo_context)))
     (table_rows (snd (demo_remove)) (tm_name (cx_model demo_context)))"
    by (rule ref_removes_confined [OF demo_wf(1,2) surjective_pairing, THEN conjunct1])
qed

subsection \<open>Versions\<close>

text \<open>The version a row has equals the expected one, as the database compares them.\<close>

definition at_version :: "sql_operators \<Rightarrow> string \<Rightarrow> rat \<Rightarrow> sql_row \<Rightarrow> bool" where
  "at_version opr version q x \<longleftrightarrow> compare3 opr ''='' (map_of x version) (Some (PNum q)) = Some True"

lemma versionArgument_holds:
  assumes "versionArgument m (Some (PNum q)) = Inr expected" and "tm_version m = Some version"
  shows "\<exists>e. expected = Some e \<and> (\<forall>x. holds opr [(tm_name m, x)] e \<longleftrightarrow> at_version opr version q x)"
  using assms by (auto simp: versionArgument_def holds_binary at_version_def split: if_splits)

text \<open>Only the follow-up read of a write that hit no row answers a conflict or a missing row.\<close>

definition missing :: "db_error \<Rightarrow> bool" where
  "missing e \<longleftrightarrow> e = ConflictError \<or> e = NotFoundError"

lemma bindE_eq_Inl: "bindE m f = Inl e \<longleftrightarrow> m = Inl e \<or> (\<exists>x. m = Inr x \<and> f x = Inl e)"
  by (cases m) auto

lemma mapE_eq_Inl: "mapE f xs = Inl e \<Longrightarrow> \<exists>x \<in> set xs. f x = Inl e"
  by (induction xs) (auto simp: bindE_eq_Inl)

lemma boundTimestamp_error: "boundTimestamp p = Inl e \<Longrightarrow> \<not> missing e"
  by (auto simp: boundTimestamp_def storedTimestamp_def missing_def bindE_eq_Inl Let_def split: prim.splits option.splits if_splits)

lemma boundValues_error: "boundValues d m vs = Inl e \<Longrightarrow> \<not> missing e"
  by (auto simp: boundValues_def bindE_eq_Inl dest!: mapE_eq_Inl boundTimestamp_error split: if_splits option.splits)

lemma guard_error: "assertAllowedTree n c = Inl e \<Longrightarrow> \<not> missing e"
  by (auto simp: assertAllowedTree_def checkRoot_def soleFrom_def missing_def bindE_eq_Inl
      split: if_splits option.splits root_kind.splits node_val.splits list.splits)

lemma execute_error: "execute env n s = Inl e \<Longrightarrow> \<not> missing e"
  by (auto simp: execute_def exec_update_def exec_delete_def exec_insert_def settled_def missing_def Let_def split: if_splits option.splits)

lemma guarded_run_error: "guarded_run rt cx n kind scope s = Inl e \<Longrightarrow> \<not> missing e"
  by (auto simp: guarded_run_def session_run_def guard_def bindE_eq_Inl split: if_splits dest: guard_error execute_error)
    (auto simp: missing_def)

lemma updateNode_error: "updateNode t vs bump whr ret = Inl e \<Longrightarrow> \<not> missing e"
  by (auto simp: updateNode_def missing_def Let_def split: if_splits)

lemma keyOf_error: "keyOf m = Inl e \<Longrightarrow> \<not> missing e" "answer m = Inl e \<Longrightarrow> \<not> missing e"
  by (auto simp: keyOf_def answer_def missing_def bindE_eq_Inl split: scope_model.splits)

lemma checks_error: "checkVersion m row = Inl e \<Longrightarrow> \<not> missing e" "referenceFiles m vs = Inl e \<Longrightarrow> \<not> missing e"
  by (auto simp: checkVersion_def referenceFiles_def require_def missing_def split: if_splits option.splits prim.splits)

lemma updateRow_missing:
  assumes "updateRow rt cx (addressing scope) given (Some e) None s = Inl err" and "missing err" and keeps: "settle_keeps (rt_env rt)"
  shows "\<not> (\<exists>x \<in> set (table_rows s (tm_name (cx_model cx))). hits rt (cx_model cx) (addressing scope) (Some e) x) \<and>
    (err = ConflictError \<longleftrightarrow> (\<exists>x \<in> set (table_rows s (tm_name (cx_model cx))). hits rt (cx_model cx) (addressing scope) None x))"
proof -
  let ?m = "cx_model cx" and ?t = "tm_name (cx_model cx)"
  note quiet = boundValues_error keyOf_error updateNode_error guarded_run_error checks_error
  obtain changes where 1: "boundValues (rt_dialect rt) ?m given = Inr changes"
    using assms(1,2) quiet by (cases "boundValues (rt_dialect rt) ?m given") (auto simp: updateRow_def)
  obtain key where 3: "keyOf ?m = Inr key" using assms(1,2) quiet by (cases "keyOf ?m") (auto simp: updateRow_def 1)
  obtain ret where 4: "answer ?m = Inr ret" using 3 by (auto simp: answer_def)
  define whr where "whr = scopedWhere (Some e) scope"
  define stmt where "stmt = (if changes = [] then Inr (acknowledgementNode ?t key (tm_version ?m) whr) else updateNode ?t changes (tm_version ?m) whr ret)"
  have u: "bindE stmt (\<lambda>n. bindE (guarded_run rt cx n (if changes = [] then SelectRoot else UpdateRoot) (Some scope) s) (\<lambda>(rows, s').
      case rows of
        row # _ \<Rightarrow> bindE (checkVersion ?m row) (\<lambda>_. bindE (referenceFiles ?m changes) (\<lambda>_. Inr (row, s')))
      | [] \<Rightarrow> missingOrChanged rt cx (addressing scope) (Some e) s')) = Inl err"
    using assms(1)
    by (simp only: updateRow_def Let_def 1 3 4 lock_for_def option.case stmt_def whr_def conditionsWith_addressing addressing_parts bindE_Inr)
  obtain n where n: "stmt = Inr n" using u assms(2) quiet by (cases stmt) (auto simp: stmt_def split: if_splits)
  obtain rows s' where r: "guarded_run rt cx n (if changes = [] then SelectRoot else UpdateRoot) (Some scope) s = Inr (rows, s')"
    using u assms(2) quiet n by (cases "guarded_run rt cx n (if changes = [] then SelectRoot else UpdateRoot) (Some scope) s") auto
  have none: "rows = []" using u n r assms(2) quiet by (cases rows) (auto simp: bindE_eq_Inl)
  note ex = guarded_run_Inr [OF r]
  have same: "\<not> (\<exists>x \<in> set (table_rows s ?t). row_matches (rt_env rt) ?t (Some whr) x) \<and> table_rows s' ?t = table_rows s ?t"
  proof (cases "changes = []")
    case True
    then show ?thesis using ex n none
      by (auto simp: stmt_def acknowledgementNode_def execute_def exec_select_def fromNode_def limitNode_def limited_def filter_empty_conv take_eq_Nil
          Let_def)
  next
    case False
    then have "updateNode ?t changes (tm_version ?m) whr ret = Inr n" using n by (simp add: stmt_def)
    note upd = execute_update [OF keeps this ex]
    have "filter (row_matches (rt_env rt) ?t (Some whr)) (table_rows s ?t) = []" using upd(2) none by simp
    then have "\<not> (\<exists>x \<in> set (table_rows s ?t). row_matches (rt_env rt) ?t (Some whr) x)" by (simp add: filter_empty_conv)
    moreover from this have "table_rows s' ?t = table_rows s ?t" using upd(1) by (simp add: map_idI)
    ultimately show ?thesis by simp
  qed
  have m: "missingOrChanged rt cx (addressing scope) (Some e) s' = (Inl err :: db_error + answer_row \<times> sql_tables)" using u n r none by simp
  obtain existing s2 where g: "guarded_run rt cx (existsNode ?t key scope None) SelectRoot (Some scope) s' = Inr (existing, s2)"
    using m assms(2) quiet 3
    by (cases "guarded_run rt cx (existsNode ?t key scope None) SelectRoot (Some scope) s'") (auto simp: missingOrChanged_def addressing_def)
  have "err = ConflictError \<longleftrightarrow> existing \<noteq> []" using m g 3 by (auto simp: missingOrChanged_def addressing_def split: if_splits)
  then show ?thesis using same exec_exists [OF guarded_run_Inr [OF g]] by (simp add: hits_def addressing_def whr_def)
qed

lemma linkValues_error: "linkValues ls r = Inl e \<Longrightarrow> \<not> missing e"
  by (auto simp: linkValues_def chainValue_def missing_def bindE_eq_Inl split: list.splits if_splits option.splits dest!: mapE_eq_Inl)

lemma refGrant_error: "refGrant m g d op = Inl e \<Longrightarrow> \<not> missing e"
  by (auto simp: refGrant_def checkGrant_def checkAction_def requiredActions_def require_def missing_def bindE_eq_Inl split: grant.splits if_splits)

lemma allOf_error: "allOf ns = Inl e \<Longrightarrow> \<not> missing e"
  by (auto simp: allOf_def missing_def split: list.splits)

lemma objectPredicate_error: "objectPredicate m g op = Inl e \<Longrightarrow> \<not> missing e"
  by (auto simp: objectPredicate_def dimensionScope_def selfLinks_def linksPredicate_def bindE_eq_Inl
      split: scope_model.splits dest: linkValues_error refGrant_error allOf_error) (auto simp: missing_def)

lemma jsonInput_error: "jsonInput numText v = Inl e \<Longrightarrow> \<not> missing e"
  by (auto simp: jsonInput_def written_exact writes_def missing_def split: if_splits)

lemma copied_value_error: "copied_value numText m kv = Inl e \<Longrightarrow> \<not> missing e"
  by (auto simp: copied_value_def fileValue_def temporalText_def dayInput_def timestampInput_def
      bindE_eq_Inl Let_def split: if_splits input.splits node_val.splits prim.splits option.splits dest: jsonInput_error) (auto simp: missing_def)

lemma readValues_error: "readValues numText arg allowed m = Inl e \<Longrightarrow> \<not> missing e"
  by (auto simp: readValues_def bindE_eq_Inl split: argument.splits option.splits if_splits dest!: mapE_eq_Inl dest: copied_value_error)
    (auto simp: missing_def)

lemma versionArgument_error: "versionArgument m v = Inl e \<Longrightarrow> \<not> missing e"
  by (auto simp: versionArgument_def missing_def split: option.splits prim.splits if_splits)

text \<open>The meaning of an update's answer under \<open>expectVersion\<close>, for the rows the Ref admits.\<close>

definition version_verdict :: "(sql_row \<Rightarrow> bool) \<Rightarrow> (sql_row \<Rightarrow> bool) \<Rightarrow> sql_row list \<Rightarrow> db_error + 'a \<Rightarrow> bool" where
  "version_verdict admits fresh rows res =
     (case res of
        Inr _ \<Rightarrow> \<exists>x \<in> set rows. admits x \<and> fresh x
      | Inl ConflictError \<Rightarrow> (\<exists>x \<in> set rows. admits x) \<and> \<not> (\<exists>x \<in> set rows. admits x \<and> fresh x)
      | Inl NotFoundError \<Rightarrow> \<not> (\<exists>x \<in> set rows. admits x)
      | Inl _ \<Rightarrow> True)"

lemma not_missing_verdict: "\<not> missing e \<Longrightarrow> version_verdict admits fresh rows (Inl e)"
  by (auto simp: version_verdict_def missing_def split: db_error.splits)

lemma update_verdict:
  assumes keeps: "settle_keeps (rt_env rt)" and wf: "wf_links (cx_model cx)" and v: "tm_version (cx_model cx) = Some version"
    and upd: "dimension_update rt cx (RefGrant r) vs (Some (PNum q)) s = (res, s')"
  shows "version_verdict (\<lambda>x. ref_admits (se_opr (rt_env rt)) [(tm_name (cx_model cx), x)] (cx_model cx) r) (at_version (se_opr (rt_env rt)) version q)
    (table_rows s (tm_name (cx_model cx))) res"
proof (cases res)
  case (Inl err)
  show ?thesis
  proof (cases "missing err")
    case True
    let ?m = "cx_model cx" and ?opr = "se_opr (rt_env rt)"
    have w: "bindE (objectPredicate ?m (RefGrant r) Op_update) (\<lambda>scope. bindE (readValues (rt_numText rt) vs (tm_update ?m) ?m) (\<lambda>changes.
        bindE (versionArgument ?m (Some (PNum q))) (\<lambda>expected. updateRow rt cx (addressing scope) changes expected None s))) = Inl err"
      using upd Inl by (auto simp: dimension_update_def run_write_def split: sum.splits)
    obtain scope given expected where o: "objectPredicate ?m (RefGrant r) Op_update = Inr scope"
      and e: "versionArgument ?m (Some (PNum q)) = Inr expected" and u: "updateRow rt cx (addressing scope) given expected None s = Inl err"
      using w True objectPredicate_error readValues_error versionArgument_error by (auto simp: bindE_eq_Inl)
    obtain c where c: "expected = Some c" "\<And>x. holds ?opr [(tm_name ?m, x)] c \<longleftrightarrow> at_version ?opr version q x" using versionArgument_holds [OF e v] by blast
    have h: "hits rt ?m (addressing scope) cs x \<longleftrightarrow> ref_admits ?opr [(tm_name ?m, x)] ?m r \<and> (\<forall>c. cs = Some c \<longrightarrow> holds ?opr [(tm_name ?m, x)] c)" for cs x
      using hits_addressing [OF object_single [OF o]] object_ref [OF wf o] by simp
    show ?thesis
      using updateRow_missing [OF u [unfolded c(1)] True keeps] Inl True by (auto simp: h c(2) version_verdict_def missing_def)
  qed (simp add: Inl not_missing_verdict)
next
  case (Inr a)
  let ?m = "cx_model cx" and ?opr = "se_opr (rt_env rt)"
  obtain scope given expected where o: "objectPredicate ?m (RefGrant r) Op_update = Inr scope"
    and e: "versionArgument ?m (Some (PNum q)) = Inr expected" and u: "updateRow rt cx (addressing scope) given expected None s = Inr (a, s')"
    using run_write_cases [OF upd [unfolded dimension_update_def]] Inr by (auto simp: bindE_eq_Inr)
  obtain c where c: "expected = Some c" "\<And>x. holds ?opr [(tm_name ?m, x)] c \<longleftrightarrow> at_version ?opr version q x" using versionArgument_holds [OF e v] by blast
  show ?thesis
    using updateRow_Inr [OF u keeps] hits_addressing [OF object_single [OF o]] object_ref [OF wf o] c Inr by (auto simp: version_verdict_def)
qed

lemma changed_not_at_version:
  assumes "\<forall>a b. opr ''='' (PNum a) (PNum b) \<longleftrightarrow> a = b" and "at_version opr version q x"
  shows "\<not> at_version opr version q (changed_row t changes (Some version) x)"
  using assms by (auto simp: at_version_def changed_cells bumped_def compare3_def split: option.splits prim.splits)



subsection \<open>Inserts\<close>

lemma zip_fst_snd: "zip (map fst vs) (map snd vs) = vs"
  by (induction vs) auto

lemma insertNode_parts:
  "items_of (read (Some (insertNode t vs ret conflict)) ''columns'') = map (columnNode \<circ> fst) vs"
  "read (Some (insertNode t vs ret conflict)) ''into'' = Some (tableNode t)"
  "items_of (read (read (Some (insertNode t vs ret conflict)) ''values'') ''values'') = [valueListNode (map (valueNode \<circ> snd) vs)]"
  "kindOf (Some (insertNode t vs ret conflict)) = Some ''InsertQueryNode''"
  "read (Some (insertNode t vs ret None)) ''onConflict'' = None"
  by (simp_all add: insertNode_def opt_prop_def)

lemma execute_insert:
  assumes "settle_keeps env" and "execute env (insertNode t vs ret None) s = Inr (answers, s')"
  shows "table_rows s' t = table_rows s t @ [inserted_row (se_defaults env t) vs]"
proof -
  have "map (\<lambda>x. operand [] (Some x)) (map (valueNode \<circ> snd) vs) = map snd vs" "map (\<lambda>c. column_text (Some c)) (map (columnNode \<circ> fst) vs) = map fst vs"
    by simp_all
  then have "\<exists>as. settled env t (table_rows s t @ [inserted_row (se_defaults env t) vs]) as s = Inr (answers, s')"
    using assms(2) by (auto simp: execute_def exec_insert_def insertNode_parts Let_def valueListNode_def zip_fst_snd simp del: map_map)
  then show ?thesis using settled_Inr [OF assms(1)] by blast
qed

lemma insertRow_Inr:
  assumes "insertRow rt cx given destination s = Inr (row, s')" and "settle_keeps (rt_env rt)"
  shows "\<exists>vs. boundValues (rt_dialect rt) (cx_model cx) given = Inr vs \<and> lock_for rt cx destination s = Inr () \<and>
    table_rows s' (tm_name (cx_model cx)) = table_rows s (tm_name (cx_model cx)) @ [inserted_row (se_defaults (rt_env rt) (tm_name (cx_model cx))) vs]"
proof -
  let ?m = "cx_model cx"
  obtain vs where 1: "boundValues (rt_dialect rt) ?m given = Inr vs" using assms(1) by (auto simp: insertRow_def bindE_eq_Inr Let_def)
  have 2: "lock_for rt cx destination s = Inr ()" using assms(1) by (auto simp: insertRow_def bindE_eq_Inr Let_def)
  obtain ret where 3: "answer ?m = Inr ret" using assms(1) by (auto simp: insertRow_def bindE_eq_Inr Let_def)
  obtain rows s1 where g: "guarded_run rt cx (insertNode (tm_name ?m) vs ret None) InsertRoot None s = Inr (rows, s1)"
    and a: "(case rows of [] \<Rightarrow> Inl (QueryRefusedError Unexpected_row)
      | row # _ \<Rightarrow> bindE (checkVersion ?m row) (\<lambda>_. bindE (referenceFiles ?m vs) (\<lambda>_. Inr (row, s1)))) = Inr (row, s')"
    using assms(1) by (simp only: insertRow_def Let_def 1 2 3 bindE_Inr) (auto simp: bindE_eq_Inr)
  have "s1 = s'" using a by (cases rows) (auto simp: bindE_eq_Inr)
  then have "guarded_run rt cx (insertNode (tm_name ?m) vs ret None) InsertRoot None s = Inr (rows, s')" using g by simp
  then show ?thesis using 1 2 execute_insert [OF assms(2) guarded_run_Inr] by blast
qed

lemma inserted_cell: "map_of vs c = Some (Some p) \<Longrightarrow> map_of (inserted_row d vs) c = Some p"
proof -
  have "map_of vs c = Some (Some p) \<Longrightarrow> map_of (concat (map (\<lambda>(c, v). case v of None \<Rightarrow> [] | Some p \<Rightarrow> [(c, p)]) vs)) c = Some p"
    by (induction vs) (auto split: option.splits if_splits)
  then show "map_of vs c = Some (Some p) \<Longrightarrow> map_of (inserted_row d vs) c = Some p" by (simp add: inserted_row_def map_add_def)
qed

lemma boundValues_other:
  assumes "boundValues d m vs = Inr bs" and "c \<notin> set (tm_timestamps m)"
  shows "map_of bs c = map_of vs c"
proof (cases "d = Postgres \<or> tm_timestamps m = []")
  case False
  then have "mapE (\<lambda>(name, v). case v of None \<Rightarrow> Inr (name, v)
      | Some p \<Rightarrow> if name \<in> set (tm_timestamps m) then bindE (boundTimestamp p) (\<lambda>q. Inr (name, Some q)) else Inr (name, v)) vs = Inr bs"
    using assms(1) by (simp add: boundValues_def)
  then show ?thesis using assms(2)
    by (induction vs arbitrary: bs) (auto simp: bindE_eq_Inr split: option.splits if_splits)
qed (use assms(1) in \<open>simp add: boundValues_def\<close>)

lemma stampChain_other: "c \<notin> co_column ` fst ` set links \<Longrightarrow> map_of (stampChain row links) c = map_of row c"
  unfolding stampChain_def by (induction links arbitrary: row) (auto simp: update_conv')

lemma stampChain_cell:
  "distinct (map (co_column \<circ> fst) links) \<Longrightarrow> (l, v) \<in> set links \<Longrightarrow> map_of (stampChain row links) (co_column l) = Some (Some (PStr v))"
proof (induction links arbitrary: row)
  case (Cons a links)
  have step: "stampChain row (a # links) = stampChain (AList.update (co_column (fst a)) (Some (PStr (snd a))) row) links"
    by (simp add: stampChain_def case_prod_unfold)
  show ?case
  proof (cases "a = (l, v)")
    case True
    then have "co_column l \<notin> co_column ` fst ` set links" using Cons.prems(1) by (auto simp: image_image)
    then show ?thesis unfolding step using True by (simp add: stampChain_other update_conv')
  next
    case False
    then show ?thesis using Cons by (simp add: step)
  qed
qed simp

lemma stampInsert_key:
  assumes "tm_version m \<noteq> Some key" and "tm_createdBy m \<noteq> Some key"
  shows "map_of (stampInsert m who vs key kv) key = Some (Some (PStr kv))"
  using assms by (auto simp: stampInsert_def update_conv' Let_def split: option.splits)

lemma lockDestination_Inr:
  assumes "lockDestination rt cx r s = Inr ()" and "cx_destination cx = Some owner" and "wf_links owner"
    and "tm_scope owner = DimensionScope (rg_dimension r) k c"
  shows "\<exists>x \<in> set (table_rows s (tm_name owner)). ref_admits (se_opr (rt_env rt)) [(tm_name owner, x)] owner r"
proof -
  obtain links vals scope key rows s' where l: "selfLinks owner = Inr links" "linkValues links r = Inr vals" "linksPredicate (tm_name owner) vals = Inr scope"
    and e: "execute (rt_env rt) (lockNode (tm_name owner) key scope True) s = Inr (rows, s')" "rows \<noteq> []"
    using assms(1,2) by (auto simp: lockDestination_def bindE_eq_Inr dest!: session_run_Inr)
  have "\<exists>x \<in> set (table_rows s (tm_name owner)). holds (se_opr (rt_env rt)) [(tm_name owner, x)] scope"
    using e by (auto simp: lockNode_def existsNode_def mk_def fromNode_def limitNode_def limited_def execute_def exec_select_def kindOf_def tableNode_def
        table_text_def identifierNode_def filter_empty_conv take_eq_Nil Let_def valueNode_def operand_def)
  moreover have "dropWhile (\<lambda>l. co_dimension l \<noteq> rg_dimension r) (links_of owner) = links" using assms(4) l(1) by (auto simp: links_of_def selfLinks_def)
  ultimately show ?thesis using holds_linksPredicate [OF l(3)] ref_values [OF assms(3)] l(2) by auto
qed

text \<open>The links below the Ref's dimension are not the chain's, so a row stamped with the chain's values is a row of the Ref's object.\<close>

lemma chain_dropWhile:
  assumes "wf_links m" and "tm_chain m = c # cs" and "co_dimension c = d"
  shows "dropWhile (\<lambda>l. co_dimension l \<noteq> d) (links_of m) = tm_chain m"
proof -
  obtain pre where pre: "links_of m = pre @ tm_chain m" using chain_links by blast
  have "distinct (map co_dimension (pre @ c # cs))" using assms(1,2) pre by (simp only: wf_links_def)
  then have "co_dimension c \<notin> co_dimension ` set pre" by simp
  then have "\<forall>l \<in> set pre. co_dimension l \<noteq> d" using assms(3) by (metis image_eqI)
  then show ?thesis using pre assms(2,3) by (simp add: dropWhile_append2)
qed

lemma chain_stamped:
  assumes wf: "wf_links m" and "tm_chain m = c # cs" and "co_dimension c = rg_dimension r"
    and v: "linkValues (tm_chain m) r = Inr vals" and eq: "\<forall>v. opr ''='' (PStr v) (PStr v)"
    and cells: "\<And>l v. (l, v) \<in> set vals \<Longrightarrow> map_of x (co_column l) = Some (PStr v)"
  shows "ref_admits opr [(tm_name m, x)] m r"
proof -
  have "list_all (\<lambda>(l, v). test_holds opr [(tm_name m, x)] (tm_name m) (co_column l, [v])) vals"
    using cells eq by (auto simp: list_all_iff test_holds_def)
  then show ?thesis using ref_values [OF wf, of r vals] v chain_dropWhile [OF wf assms(2,3)] by simp
qed

lemma linkValues_links: "linkValues ls r = Inr vals \<Longrightarrow> map fst vals = ls"
  using linkValues_parts [of ls r vals] by (auto simp: comp_def)

text \<open>What an insert stamps: a row with the chain's columns and its key, when none of them is a timestamp.\<close>

lemma stamped_row:
  assumes st: "distinct (layer_stamps m)" and key: "keyOf m = Inr key" and ts: "key \<notin> set (tm_timestamps m)"
      "\<forall>l \<in> set (tm_chain m). co_column l \<notin> set (tm_timestamps m)"
    and links: "linkValues (tm_chain m) r = Inr links"
    and b: "boundValues d m (stampChain (stampInsert m who vs key kv) links) = Inr bs"
  shows "map_of (inserted_row ds bs) key = Some (PStr kv)"
    and "(l, v) \<in> set links \<Longrightarrow> map_of (inserted_row ds bs) (co_column l) = Some (PStr v)"
proof -
  have f: "map fst links = tm_chain m" by (rule linkValues_links [OF links])
  have dist: "distinct (map (co_column \<circ> fst) links)" using st f by (auto simp: layer_stamps_def simp flip: map_map)
  have "key \<notin> co_column ` set (tm_chain m)" "tm_version m \<noteq> Some key" "tm_createdBy m \<noteq> Some key"
    using st key by (auto simp: layer_stamps_def split: option.splits)
  then have "map_of (stampChain (stampInsert m who vs key kv) links) key = Some (Some (PStr kv))"
    using stampInsert_key f by (subst stampChain_other) (auto simp flip: set_map)
  then show "map_of (inserted_row ds bs) key = Some (PStr kv)" using boundValues_other [OF b ts(1)] by (intro inserted_cell) simp
  assume lv: "(l, v) \<in> set links"
  then have "l \<in> set (tm_chain m)" using f by (metis fst_conv image_eqI list.set_map)
  then show "map_of (inserted_row ds bs) (co_column l) = Some (PStr v)"
    using boundValues_other [OF b] ts(2) stampChain_cell [OF dist lv] by (intro inserted_cell) simp
qed

text \<open>A Ref's insert that ends in a row of its object: the destination it names, the key, and the chain.\<close>

definition inserts_under :: "store_runtime \<Rightarrow> table_context \<Rightarrow> ref_grant \<Rightarrow> table_model \<Rightarrow> sql_tables \<Rightarrow> sql_tables \<Rightarrow> bool" where
  "inserts_under rt cx r owner s s' \<longleftrightarrow>
     (\<exists>new key. table_rows s' (tm_name (cx_model cx)) = table_rows s (tm_name (cx_model cx)) @ [new] \<and>
        ref_admits (se_opr (rt_env rt)) [(tm_name (cx_model cx), new)] (cx_model cx) r \<and>
        keyOf (cx_model cx) = Inr key \<and> map_of new key = Some (PStr (rt_uuid rt))) \<and>
     (\<exists>x \<in> set (table_rows s (tm_name owner)). ref_admits (se_opr (rt_env rt)) [(tm_name owner, x)] owner r)"

lemma insert_under:
  assumes keeps: "settle_keeps (rt_env rt)" and wf: "wf_links (cx_model cx)" "wf_links owner"
    and st: "distinct (layer_stamps (cx_model cx))" and key: "keyOf (cx_model cx) = Inr key"
    and ts: "key \<notin> set (tm_timestamps (cx_model cx))" "\<forall>l \<in> set (tm_chain (cx_model cx)). co_column l \<notin> set (tm_timestamps (cx_model cx))"
    and eq: "\<forall>v. se_opr (rt_env rt) ''='' (PStr v) (PStr v)"
    and chain: "tm_chain (cx_model cx) = c # cs" "co_dimension c = rg_dimension r"
    and links: "linkValues (tm_chain (cx_model cx)) r = Inr links"
    and dest: "cx_destination cx = Some owner" "tm_scope owner = DimensionScope (rg_dimension r) k ct"
    and ins: "insertRow rt cx (stampChain (stampInsert (cx_model cx) who vs key (rt_uuid rt)) links) (Some r) s = Inr (row, s')"
  shows "inserts_under rt cx r owner s s'"
proof -
  let ?m = "cx_model cx"
  obtain bs where b: "boundValues (rt_dialect rt) ?m (stampChain (stampInsert ?m who vs key (rt_uuid rt)) links) = Inr bs"
    and l: "lockDestination rt cx r s = Inr ()"
    and t: "table_rows s' (tm_name ?m) = table_rows s (tm_name ?m) @ [inserted_row (se_defaults (rt_env rt) (tm_name ?m)) bs]"
    using insertRow_Inr [OF ins keeps] by (auto simp: lock_for_def)
  note cells = stamped_row [OF st key ts links b]
  have "ref_admits (se_opr (rt_env rt)) [(tm_name ?m, inserted_row (se_defaults (rt_env rt) (tm_name ?m)) bs)] ?m r"
    by (rule chain_stamped [where opr = "se_opr (rt_env rt)", OF wf(1) chain links eq]) (rule cells(2))
  then show ?thesis using t key cells(1) lockDestination_Inr [OF l dest(1) wf(2) dest(2)] by (auto simp: inserts_under_def)
qed

lemma ownerOf_scope:
  assumes "ownerOf models d = Some owner"
  shows "\<exists>k c. tm_scope owner = DimensionScope d k c"
proof -
  have "case tm_scope owner of DimensionScope d' _ _ \<Rightarrow> d' = d | _ \<Rightarrow> False"
    using assms unfolding ownerOf_def by (induction models) (auto split: if_splits)
  then show ?thesis by (simp split: scope_model.splits)
qed

text \<open>C12: a row inserted into a container, or under a parent, through a Ref is a row of the object the Ref names, with a new key of the layer's, and
  it is the only row added; and the container or the parent was there, where the Ref's chain says, when it was inserted. A refused insert
  writes nothing.\<close>

theorem inserted_row_contained:
  assumes keeps: "settle_keeps (rt_env rt)" and wf: "wf_links (cx_model cx)" "wf_links owner" and st: "distinct (layer_stamps (cx_model cx))"
    and key: "keyOf (cx_model cx) = Inr key"
    and ts: "key \<notin> set (tm_timestamps (cx_model cx))" "\<forall>l \<in> set (tm_chain (cx_model cx)). co_column l \<notin> set (tm_timestamps (cx_model cx))"
    and eq: "\<forall>v. se_opr (rt_env rt) ''='' (PStr v) (PStr v)"
    and dest: "cx_destination cx = Some owner" "destinationOf models (cx_model cx) (cx_parent cx) = Some owner"
    and ins: "insertIntoDimension rt cx (RefGrant r) vs s = (res, s') \<or> wf_child (cx_model cx) owner \<and> insertIntoChild rt cx (RefGrant r) vs s = (res, s')"
  shows "case res of Inl _ \<Rightarrow> s' = s | Inr _ \<Rightarrow> inserts_under rt cx r owner s s'"
proof (cases res)
  case (Inl e)
  then have "s' = s" using ins by (auto simp: insertIntoDimension_def insertIntoChild_def dest!: run_write_cases)
  then show ?thesis using Inl by simp
next
  case (Inr a)
  let ?m = "cx_model cx"
  from ins consider
      (dimension) p where "prepareDimensionInsert rt ?m (RefGrant r) vs None = Inr p" "insertRow rt cx (pi_row p) (pi_destination p) s = Inr (a, s')"
    | (child) p where "wf_child ?m owner" "prepareChildInsert rt cx (RefGrant r) vs None = Inr p" "insertRow rt cx (pi_row p) (pi_destination p) s = Inr (a, s')"
    using Inr by (auto simp: insertIntoDimension_def insertIntoChild_def bindE_eq_Inr dest!: run_write_cases)
  then show ?thesis
  proof cases
    case dimension
    obtain d k c where sc: "tm_scope ?m = DimensionScope d k (Some c)" using dimension(1) dest(2)
      by (auto simp: prepareDimensionInsert_def dimensionScope_def destinationOf_def bindE_eq_Inr split: scope_model.splits option.splits)
    then obtain row links where p: "linkValues (tm_chain ?m) r = Inr links" "rg_dimension r = co_dimension c"
        "pi_row p = stampChain (stampInsert ?m (rg_principal r) row key (rt_uuid rt)) links" "pi_destination p = Some r"
      using dimension(1) key by (auto simp: prepareDimensionInsert_def dimensionScope_def refGrant_def checkGrant_def listDimension_def keyOf_def bindE_eq_Inr)
    obtain cs where "tm_chain ?m = c # cs" using wf(1) sc by (cases "tm_chain ?m") (auto simp: wf_links_def)
    moreover obtain k' c' where "tm_scope owner = DimensionScope (rg_dimension r) k' c'"
      using ownerOf_scope dest(2) sc p(2) by (fastforce simp: destinationOf_def)
    ultimately show ?thesis using insert_under [OF keeps wf st key ts eq _ _ p(1) dest(1)] dimension(2) p Inr by simp
  next
    case child
    obtain pn k col inh where sc: "tm_scope ?m = ChildScope pn k col inh" "cx_parent cx = Some owner" using child(2) dest(2)
      by (auto simp: prepareChildInsert_def childScope_def destinationOf_def bindE_eq_Inr Let_def split: scope_model.splits option.splits)
    then obtain d k' c' row links where p: "linkValues (tm_chain ?m) r = Inr links" "tm_scope owner = DimensionScope d k' c'" "rg_dimension r = d"
        "pi_row p = stampChain (stampInsert ?m (rg_principal r) row key (rt_uuid rt)) links" "pi_destination p = Some r"
      using child(2) key
      by (auto simp: prepareChildInsert_def childScope_def dimensionScope_def refGrant_def checkGrant_def keyOf_def bindE_eq_Inr Let_def
          split: scope_model.splits)
    have "\<exists>c cs. tm_chain ?m = c # cs \<and> co_dimension c = d" using child(1) sc p(2) by (auto simp: wf_child_def)
    then show ?thesis using insert_under [OF keeps wf st key ts eq _ _ p(1) dest(1)] child(3) p Inr by auto
  qed
qed

text \<open>Witness: a project inserted into the second tenant.\<close>

theorem inserted_row_contained_witness:
  "fst (demo_insert) = Inr [(''id'', Some (PStr ''p3'')), (''version'', Some (PNum 1))] \<and>
   inserts_under demo_runtime demo_context demo_tenant demo_tenants demo_tables
     (snd (demo_insert))"
proof -
  have e: "fst (demo_insert) = Inr [(''id'', Some (PStr ''p3'')), (''version'', Some (PNum 1))]" by code_simp
  have k: "keyOf (cx_model demo_context) = Inr ''id''" "''id'' \<notin> set (tm_timestamps (cx_model demo_context))"
    "\<forall>l \<in> set (tm_chain (cx_model demo_context)). co_column l \<notin> set (tm_timestamps (cx_model demo_context))"
    by (simp_all add: demo_context_def demo_projects_def keyOf_def)
  from inserted_row_contained [OF demo_wf k demo_equality(1) demo_owner disjI1 [OF surjective_pairing [of demo_insert]]] e
  show ?thesis by simp
qed

subsection \<open>Moves\<close>

lemma map_of_rev_distinct: "distinct (map fst xs) \<Longrightarrow> map_of (rev xs) = map_of xs"
  using map_of_inject_set [of "rev xs" xs] by (simp add: rev_map [symmetric])

lemma stampChain_distinct: "distinct (map fst row) \<Longrightarrow> distinct (map fst (stampChain row links))"
  unfolding stampChain_def by (induction links arbitrary: row) (auto simp: distinct_update)

text \<open>One step of a move: a row of the moved object becomes a row of the destination's, with its key unchanged.\<close>

definition moves_to :: "sql_operators \<Rightarrow> table_model \<Rightarrow> ref_grant \<Rightarrow> ref_grant \<Rightarrow> sql_row \<Rightarrow> sql_row \<Rightarrow> bool" where
  "moves_to opr m r to x y \<longleftrightarrow>
     ref_admits opr [(tm_name m, x)] m r \<and> ref_admits opr [(tm_name m, y)] m to \<and> (\<forall>key. keyOf m = Inr key \<longrightarrow> map_of y key = map_of x key)"

lemma moved_row:
  assumes wf: "wf_links m" and st: "distinct (layer_stamps m)" and ts: "\<forall>l \<in> set (tm_chain m). co_column l \<notin> set (tm_timestamps m)"
    and eq: "\<forall>v. opr ''='' (PStr v) (PStr v)" and chain: "tm_chain m = c # cs" "co_dimension c = rg_dimension to"
    and links: "linkValues (tm_chain m) to = Inr links" and b: "boundValues d m (stampChain [] links) = Inr bs"
    and x: "ref_admits opr [(tm_name m, x)] m r"
  shows "moves_to opr m r to x (changed_row (tm_name m) bs (tm_version m) x)"
proof -
  let ?y = "changed_row (tm_name m) bs (tm_version m) x"
  have f: "map fst links = tm_chain m" by (rule linkValues_links [OF links])
  have dist: "distinct (map (co_column \<circ> fst) links)" using st f by (auto simp: layer_stamps_def simp flip: map_map)
  have names: "map fst bs = map fst (stampChain [] links)" by (rule boundValues_names [OF b])
  have rev: "map_of (rev bs) = map_of bs" using names stampChain_distinct [of "[]" links] by (intro map_of_rev_distinct) simp
  have cells: "map_of ?y (co_column l) = Some (PStr v)" if lv: "(l, v) \<in> set links" for l v
  proof -
    have l: "l \<in> set (tm_chain m)" using f lv by (metis fst_conv image_eqI list.set_map)
    have "tm_version m \<noteq> Some (co_column l)" using l st by (auto simp: layer_stamps_def split: option.splits)
    moreover have "map_of bs (co_column l) = Some (Some (PStr v))" using boundValues_other [OF b] ts l stampChain_cell [OF dist lv] by simp
    ultimately show ?thesis by (simp add: changed_cells rev)
  qed
  have "map_of ?y key = map_of x key" if "keyOf m = Inr key" for key
  proof (rule changed_keeps)
    have "fst ` set bs = co_column ` set (tm_chain m)" using names stampChain_names [of "[]" links] f by (metis (no_types) image_empty list.set(1) list.set_map sup_bot_left)
    then show "key \<notin> fst ` set bs" using st that by (auto simp: layer_stamps_def)
    show "tm_version m \<noteq> Some key" using st that by (auto simp: layer_stamps_def split: option.splits)
  qed
  moreover have "ref_admits opr [(tm_name m, ?y)] m to" by (rule chain_stamped [where opr = opr, OF wf chain links eq]) (rule cells)
  ultimately show ?thesis using x by (simp add: moves_to_def)
qed

text \<open>C14: a move takes rows of the object its first Ref names, and no other, to the container its second Ref names: each moved row keeps its key and
  lies where that Ref's chain says, and the container was there when it moved. A refused move writes nothing.\<close>

theorem ref_moves_confined:
  assumes keeps: "settle_keeps (rt_env rt)" and wf: "wf_links (cx_model cx)" "wf_links owner" and st: "distinct (layer_stamps (cx_model cx))"
    and ts: "\<forall>l \<in> set (tm_chain (cx_model cx)). co_column l \<notin> set (tm_timestamps (cx_model cx))"
    and eq: "\<forall>v. se_opr (rt_env rt) ''='' (PStr v) (PStr v)"
    and dest: "cx_destination cx = Some owner" "destinationOf models (cx_model cx) (cx_parent cx) = Some owner"
    and mv: "dimension_move rt cx (RefGrant r) (RefGrant to) s = (res, s')"
  shows "case res of
      Inl _ \<Rightarrow> s' = s
    | Inr _ \<Rightarrow> rewritten (moves_to (se_opr (rt_env rt)) (cx_model cx) r to) (\<lambda>_. False)
          (table_rows s (tm_name (cx_model cx))) (table_rows s' (tm_name (cx_model cx))) \<and>
        (\<exists>x \<in> set (table_rows s (tm_name owner)). ref_admits (se_opr (rt_env rt)) [(tm_name owner, x)] owner to)"
proof (cases res)
  case (Inl e)
  then have "s' = s" using run_write_cases [OF mv [unfolded dimension_move_def]] by auto
  then show ?thesis using Inl by simp
next
  case (Inr a)
  let ?m = "cx_model cx" and ?opr = "se_opr (rt_env rt)"
  obtain d key ct scope links where sc: "tm_scope ?m = DimensionScope d key (Some ct)" and o: "objectPredicate ?m (RefGrant r) Op_delete = Inr scope"
    and to: "rg_dimension to = co_dimension ct" and links: "linkValues (tm_chain ?m) to = Inr links"
    and u: "updateRow rt cx (addressing scope) (stampChain [] links) None (Some to) s = Inr (fst a, s')"
    using run_write_cases [OF mv [unfolded dimension_move_def]] Inr
    by (auto simp: bindE_eq_Inr dimensionScope_def refGrant_def checkGrant_def split: scope_model.splits option.splits)
  obtain cs where chain: "tm_chain ?m = ct # cs" using wf(1) sc by (cases "tm_chain ?m") (auto simp: wf_links_def)
  obtain bs where b: "boundValues (rt_dialect rt) ?m (stampChain [] links) = Inr bs" and l: "lockDestination rt cx to s = Inr ()"
    and t: "if bs = [] then s' = s else table_rows s' (tm_name ?m) =
       map (\<lambda>x. if hits rt ?m (addressing scope) None x then changed_row (tm_name ?m) bs (tm_version ?m) x else x) (table_rows s (tm_name ?m))"
    using updateRow_Inr [OF u keeps] by (auto simp: lock_for_def)
  have "moves_to ?opr ?m r to x (changed_row (tm_name ?m) bs (tm_version ?m) x)" if "hits rt ?m (addressing scope) None x" for x
    using that hits_addressing [OF object_single [OF o]] object_ref [OF wf(1) o] by (intro moved_row [where opr = ?opr, OF wf(1) st ts eq chain to [symmetric] links b]) simp
  then have "rewritten (moves_to ?opr ?m r to) (\<lambda>_. False) (table_rows s (tm_name ?m)) (table_rows s' (tm_name ?m))"
    using t by (auto intro: rewritten_map split: if_splits)
  moreover obtain k c where "tm_scope owner = DimensionScope (rg_dimension to) k c" using ownerOf_scope dest(2) sc to by (fastforce simp: destinationOf_def)
  ultimately show ?thesis using lockDestination_Inr [OF l dest(1) wf(2)] Inr by auto
qed

text \<open>Witness: a project moved to the second tenant.\<close>

theorem ref_moves_confined_witness:
  "fst (demo_move) = Inr ([(''id'', Some (PStr ''p1'')), (''version'', Some (PNum 5))], [(''tenant'', ''t2'')]) \<and>
   rewritten (moves_to (se_opr (rt_env demo_runtime)) (cx_model demo_context) demo_project demo_tenant) (\<lambda>_. False)
     (table_rows demo_tables (tm_name (cx_model demo_context)))
     (table_rows (snd (demo_move)) (tm_name (cx_model demo_context)))"
proof -
  have e: "fst (demo_move) = Inr ([(''id'', Some (PStr ''p1'')), (''version'', Some (PNum 5))], [(''tenant'', ''t2'')])" by code_simp
  have k: "\<forall>l \<in> set (tm_chain (cx_model demo_context)). co_column l \<notin> set (tm_timestamps (cx_model demo_context))"
    by (simp add: demo_context_def demo_projects_def)
  from ref_moves_confined [OF demo_wf k demo_equality(1) demo_owner surjective_pairing [of demo_move]] e
  show ?thesis by simp
qed

subsection \<open>The locator\<close>

lemma project_cell:
  assumes "c \<in> set cols"
  shows "map_of (project env t (Some (NArr (map (selection t) cols))) x) c = Some (map_of x c)"
proof -
  have sel: "selected env t x (selection t n) = (n, map_of x n)" for n
    by (simp add: selected_def selection_def selectionNode_def column_def referenceNode_def expression_def operand_def Let_def)
  show ?thesis using assms by (induction cols) (auto simp: project_def sel)
qed

lemma row_matches_scope: "row_matches env t (Some (scopedWhere None scope)) = (\<lambda>x. holds (se_opr env) [(t, x)] scope)"
  by (rule ext) simp

lemma exec_locate:
  assumes "execute env (locateNode t cols scope) s = Inr (rows, s')"
  shows "(rows = [] \<longleftrightarrow> \<not> (\<exists>x \<in> set (table_rows s t). holds (se_opr env) [(t, x)] scope)) \<and>
    (\<forall>row rest. rows = row # rest \<longrightarrow>
       (\<exists>x \<in> set (table_rows s t). holds (se_opr env) [(t, x)] scope \<and> (\<forall>c \<in> set cols. map_of row c = Some (map_of x c))))"
proof -
  have r: "rows = take 1 (map (project env t (Some (NArr (map (selection t) cols)))) (filter (\<lambda>x. holds (se_opr env) [(t, x)] scope) (table_rows s t)))"
    using assms by (auto simp: locateNode_def execute_def exec_select_def fromNode_def limitNode_def limited_def row_matches_scope Let_def)
  show ?thesis
  proof (cases "filter (\<lambda>x. holds (se_opr env) [(t, x)] scope) (table_rows s t)")
    case (Cons x xs)
    then have "x \<in> set (table_rows s t) \<and> holds (se_opr env) [(t, x)] scope" by (metis (mono_tags, lifting) filter_eq_ConsD in_set_conv_decomp)
    then show ?thesis using r Cons project_cell by (auto simp: take_Cons')
  qed (use r in \<open>auto simp: filter_empty_conv\<close>)
qed

lemma located_chain:
  assumes "mapE (\<lambda>link. case map_of row (co_column link) of Some (Some (PStr v)) \<Rightarrow> Inr (co_dimension link, v) | _ \<Rightarrow> Inl PolicyError) ls = Inr chain"
    and "distinct (map co_dimension ls)" and "l \<in> set ls"
  shows "\<exists>v. map_of chain (co_dimension l) = Some v \<and> map_of row (co_column l) = Some (Some (PStr v))"
  using assms
proof (induction ls arbitrary: chain)
  case (Cons k ls)
  then obtain v rest where v: "map_of row (co_column k) = Some (Some (PStr v))" "chain = (co_dimension k, v) # rest"
    "mapE (\<lambda>link. case map_of row (co_column link) of Some (Some (PStr v)) \<Rightarrow> Inr (co_dimension link, v) | _ \<Rightarrow> Inl PolicyError) ls = Inr rest"
    by (auto simp: bindE_eq_Inr split: option.splits prim.splits)
  show ?case
  proof (cases "l = k")
    case False
    then have l: "l \<in> set ls" using Cons.prems(3) by simp
    then have "co_dimension l \<in> co_dimension ` set ls" by (rule imageI)
    then have "co_dimension l \<noteq> co_dimension k" using Cons.prems(2) by auto
    with l show ?thesis using Cons.IH [OF v(3)] Cons.prems(2) v(2) by simp
  qed (use v in simp)
qed simp

text \<open>C15: the locator answers nothing exactly when the table that owns the dimension has no row of the key, and a Ref of the object with the chain it
  answers admits a row of that key: a Ref minted from a located chain reaches its object.\<close>

theorem located_ref_reaches:
  assumes wf: "wf_links owner" and own: "ownerOf models d = Some owner" and eq: "\<forall>v. se_opr (rt_env rt) ''='' (PStr v) (PStr v)"
    and loc: "locateObject models rt d oid s = Inr found"
    and r: "rg_dimension r = d" "rg_id r = oid" "rg_chain r = (case found of None \<Rightarrow> [] | Some chain \<Rightarrow> chain)"
  shows "(found = None \<longleftrightarrow> \<not> (\<exists>x \<in> set (table_rows s (tm_name owner)). lies_in (se_opr (rt_env rt)) [(tm_name owner, x)] owner d oid)) \<and>
    (found \<noteq> None \<longrightarrow> (\<exists>x \<in> set (table_rows s (tm_name owner)). ref_admits (se_opr (rt_env rt)) [(tm_name owner, x)] owner r))"
proof -
  let ?opr = "se_opr (rt_env rt)" and ?t = "tm_name owner"
  obtain key c where sc: "tm_scope owner = DimensionScope d key c" using ownerOf_scope [OF own] by blast
  let ?scope = "equals ?t key (PStr oid)"
  have links: "links_of owner = \<lparr>co_dimension = d, co_column = key\<rparr> # tm_chain owner" by (simp add: links_of_def selfLinks_def sc)
  have self: "lies_in ?opr [(?t, x)] owner d oid \<longleftrightarrow> holds ?opr [(?t, x)] ?scope" for x
    by (auto simp: lies_in_def links linkOf_def equals_def holds_binary compare3_def split: option.splits)
  obtain rows s' where e: "execute (rt_env rt) (locateNode ?t (key # map co_column (tm_chain owner)) ?scope) s = Inr (rows, s')"
    and f: "(case rows of [] \<Rightarrow> Inr None
      | row # _ \<Rightarrow> bindE (mapE (\<lambda>link. case map_of row (co_column link) of
          Some (Some (PStr v)) \<Rightarrow> Inr (co_dimension link, v) | _ \<Rightarrow> Inl PolicyError) (tm_chain owner)) (\<lambda>chain. Inr (Some chain))) = Inr found"
    using loc own by (auto simp: locateObject_def keyOf_def sc bindE_eq_Inr Let_def dest!: session_run_Inr split: if_splits)
  note ex = exec_locate [OF e]
  show ?thesis
  proof (cases rows)
    case Nil
    then show ?thesis using ex f self by simp
  next
    case (Cons row rest)
    then obtain x chain where x: "x \<in> set (table_rows s ?t)" "holds ?opr [(?t, x)] ?scope" "\<forall>c \<in> set (key # map co_column (tm_chain owner)). map_of row c = Some (map_of x c)"
      and chain: "mapE (\<lambda>link. case map_of row (co_column link) of
          Some (Some (PStr v)) \<Rightarrow> Inr (co_dimension link, v) | _ \<Rightarrow> Inl PolicyError) (tm_chain owner) = Inr chain" "found = Some chain"
      using ex f by (auto simp: bindE_eq_Inr)
    have d: "distinct (map co_dimension (links_of owner))" using wf by (simp add: wf_links_def)
    have "\<exists>v. map_of chain (co_dimension l) = Some v \<and> map_of x (co_column l) = Some (PStr v)" if "l \<in> set (tm_chain owner)" for l
      using located_chain [OF chain(1) _ that] x(3) d that by (auto simp: links)
    then have "\<exists>v. map_of chain (co_dimension l) = Some v \<and> lies_in ?opr [(?t, x)] owner (co_dimension l) v" if "l \<in> set (tm_chain owner)" for l
      using that lies_in_member [OF wf, of l] eq by (fastforce simp: links test_holds_def)
    moreover have "upper_links owner d = tm_chain owner" by (simp add: upper_links_def links)
    ultimately have "ref_admits ?opr [(?t, x)] owner r" using x(2) self r chain(2) by (simp add: ref_admits_def)
    then show ?thesis using x(1,2) self chain(2) by auto
  qed
qed

text \<open>Witness: the project's chain.\<close>

theorem located_ref_reaches_witness:
  "locateObject [(''projects'', demo_projects)] demo_runtime ''project'' ''p1'' demo_tables = Inr (Some [(''tenant'', ''t1'')]) \<and>
   (\<exists>x \<in> set (table_rows demo_tables (tm_name demo_projects)). ref_admits (se_opr (rt_env demo_runtime)) [(tm_name demo_projects, x)] demo_projects demo_project)"
proof -
  have l: "locateObject [(''projects'', demo_projects)] demo_runtime ''project'' ''p1'' demo_tables = Inr (Some [(''tenant'', ''t1'')])" by code_simp
  have o: "ownerOf [(''projects'', demo_projects)] ''project'' = Some demo_projects" by (simp add: ownerOf_def demo_projects_def)
  have w: "wf_links demo_projects" using demo_wf(2) by (simp add: demo_context_def)
  show ?thesis using located_ref_reaches [OF w o demo_equality(1) l, of demo_project] l by (simp add: demo_project_def)
qed

subsection \<open>Inserts with a conflict\<close>

text \<open>A row holds the values the insert gives for these columns, none of them null.\<close>

definition shares :: "sql_operators \<Rightarrow> (string \<times> prim option) list \<Rightarrow> string list \<Rightarrow> sql_row \<Rightarrow> bool" where
  "shares opr vs cols x \<longleftrightarrow>
     list_all (\<lambda>c. case map_of vs c of Some (Some v) \<Rightarrow> compare3 opr ''='' (map_of x c) (Some v) = Some True | _ \<Rightarrow> False) cols"

text \<open>The columns that place an inserted row: its chain, or a top-level object's own key.\<close>

definition placement_columns :: "table_model \<Rightarrow> string list" where
  "placement_columns m = map co_column (tm_chain m) @ (case tm_scope m of DimensionScope _ key None \<Rightarrow> [key] | _ \<Rightarrow> [])"

lemma value_terms_holds:
  assumes "value_terms t vs names = Inr terms"
  shows "list_all (\<lambda>n. single (Some n)) terms \<and> (list_all (holds opr [(t, x)]) terms \<longleftrightarrow> shares opr vs names x)"
  using assms
proof (induction names arbitrary: terms)
  case (Cons c names)
  obtain v where v: "map_of vs c = Some (Some v)" using Cons.prems by (auto simp: value_terms_def split: option.splits)
  obtain rest where "terms = equals t c v # rest" "value_terms t vs names = Inr rest"
    using Cons.prems by (auto simp: value_terms_def v bindE_eq_Inr)
  then show ?case using Cons.IH v by (simp add: shares_def equals_def holds_binary)
qed (simp add: value_terms_def shares_def)

lemma insertedScope_holds:
  assumes "insertedScope m vs = Inr scope"
  shows "single (Some scope) \<and> (holds opr [(tm_name m, x)] scope \<longleftrightarrow> shares opr vs (placement_columns m) x)"
proof -
  obtain terms where t: "value_terms (tm_name m) vs (placement_columns m) = Inr terms" "(if terms = [] then Inr everything else allOf terms) = Inr scope"
    using assms by (auto simp: insertedScope_def placement_columns_def bindE_eq_Inr)
  then show ?thesis
    using value_terms_holds [OF t(1), of opr x] allOf_single [of terms scope] holds_allOf [of terms scope opr] by (auto split: if_splits)
qed

lemma insert_conflict:
  assumes "settle_keeps env" and "execute env (insertNode t vs ret (Some cols)) s = Inr (answers, s')"
  shows "if answers = [] then s' = s else \<exists>new. table_rows s' t = table_rows s t @ [new]"
proof -
  obtain new as where "Inr (answers, s') = Inr ([], s) \<or> settled env t (table_rows s t @ [new]) [as] s = Inr (answers, s')"
    using assms(2) by (auto simp: execute_def exec_insert_def insertNode_parts Let_def split: if_splits)
  then show ?thesis using settled_Inr [OF assms(1)] by (auto dest: settled_Inr [OF assms(1)])
qed

text \<open>What one attempt, and all of them, do to the rows of the table.\<close>

definition conflict_effect :: "sql_operators \<Rightarrow> (string \<times> prim option) list \<Rightarrow> string list \<Rightarrow> string list \<Rightarrow> insert_answer option \<Rightarrow> sql_row list \<Rightarrow>
    sql_row list \<Rightarrow> bool" where
  "conflict_effect opr vs cols placed result old new =
     (case result of
        Some (Inserted _) \<Rightarrow> \<exists>x. new = old @ [x]
      | Some (Updated _) \<Rightarrow> rewritten (\<lambda>x y. shares opr vs cols x \<and> shares opr vs placed x) (\<lambda>_. False) old new
      | _ \<Rightarrow> new = old)"

lemma conflict_attempt_effect:
  assumes keeps: "settle_keeps (rt_env rt)" and m: "value_terms (tm_name (cx_model cx)) vs cols = Inr matches"
    and sc: "\<And>sc. scope = Some sc \<Longrightarrow> insertedScope (cx_model cx) vs = Inr sc"
    and a: "conflict_attempt rt cx vs updates cols matches scope s = Inr (result, s')"
  shows "conflict_effect (se_opr (rt_env rt)) vs cols (placement_columns (cx_model cx)) result
    (table_rows s (tm_name (cx_model cx))) (table_rows s' (tm_name (cx_model cx)))"
proof -
  let ?m = "cx_model cx" and ?t = "tm_name (cx_model cx)" and ?opr = "se_opr (rt_env rt)"
  obtain ret c where 1: "answer ?m = Inr ret" "guard cx InsertRoot None = Inr c"
    using a by (auto simp: conflict_attempt_def bindE_eq_Inr Let_def)
  obtain rows s1 where r: "session_run rt (insertNode ?t vs ret (Some cols)) (c\<lparr>gc_onConflict := True\<rparr>) s = Inr (rows, s1)"
    using a by (auto simp: conflict_attempt_def 1 bindE_eq_Inr Let_def)
  note ins = insert_conflict [OF keeps session_run_Inr [OF r]]
  show ?thesis
  proof (cases "rows = [] \<and> scope \<noteq> None")
    case False
    then show ?thesis using a ins by (cases rows; cases scope) (auto simp: conflict_attempt_def 1 r conflict_effect_def bindE_eq_Inr Let_def)
  next
    case True
    then obtain scp where scope: "scope = Some scp" and rows: "rows = []" by blast
    have s1: "s1 = s" using ins rows by simp
    obtain cond key where 2: "allOf matches = Inr cond" "keyOf ?m = Inr key"
      using a by (auto simp: conflict_attempt_def 1 r rows scope s1 bindE_eq_Inr Let_def)
    define whr where "whr = scopedWhere (Some cond) scp"
    obtain n where n: "(if updates = [] then Inr (acknowledgementNode ?t key (tm_version ?m) whr) else updateNode ?t updates (tm_version ?m) whr ret) = Inr n"
      using a unfolding whr_def by (auto simp: conflict_attempt_def 1 2 r rows scope s1 bindE_eq_Inr Let_def)
    obtain ups s2 where g: "guarded_run rt cx n (if updates = [] then SelectRoot else UpdateRoot) (Some scp) s = Inr (ups, s2)"
      and res: "(case ups of row # _ \<Rightarrow> bindE (checkVersion ?m row) (\<lambda>_. bindE (referenceFiles ?m updates) (\<lambda>_. Inr (Some (Updated row), s2)))
        | [] \<Rightarrow> Inr (None, s2)) = Inr (result, s')"
      using a unfolding conflict_attempt_def Let_def 1 2 bindE_Inr r rows scope s1 whr_def [symmetric]
      by (simp only: prod.case list.case option.case n bindE_Inr 2 whr_def [symmetric]) (auto simp: bindE_eq_Inr)
    have hit: "row_matches (rt_env rt) ?t (Some whr) x \<longleftrightarrow> shares ?opr vs cols x \<and> shares ?opr vs (placement_columns ?m) x" for x
      using insertedScope_holds [OF sc [OF scope]] value_terms_holds [OF m] holds_allOf [OF 2(1)]
      by (simp add: whr_def row_matches_conditions)
    have s2: "s2 = s'" using res by (cases ups) (auto simp: bindE_eq_Inr)
    have eff: "rewritten (\<lambda>x y. shares ?opr vs cols x \<and> shares ?opr vs (placement_columns ?m) x) (\<lambda>_. False) (table_rows s ?t) (table_rows s' ?t) \<and>
        (ups = [] \<longrightarrow> table_rows s' ?t = table_rows s ?t)"
    proof (cases "updates = []")
      case True
      then show ?thesis using guarded_run_Inr [OF g] n s2 by (auto simp: acknowledgementNode_def dest: execute_select_tables)
    next
      case False
      then have u: "updateNode ?t updates (tm_version ?m) whr ret = Inr n" using n by simp
      note upd = execute_update [OF keeps u guarded_run_Inr [OF g]]
      have "ups = [] \<Longrightarrow> table_rows s' ?t = table_rows s ?t" using upd s2 by (auto simp: filter_empty_conv intro!: map_idI)
      moreover have "rewritten (\<lambda>x y. shares ?opr vs cols x \<and> shares ?opr vs (placement_columns ?m) x) (\<lambda>_. False) (table_rows s ?t) (table_rows s' ?t)"
        using upd(1) s2 hit by (auto intro: rewritten_map)
      ultimately show ?thesis by blast
    qed
    then show ?thesis using res by (cases ups) (auto simp: conflict_effect_def bindE_eq_Inr)
  qed
qed

lemma conflict_attempts_effect:
  assumes keeps: "settle_keeps (rt_env rt)" and m: "value_terms (tm_name (cx_model cx)) vs cols = Inr matches"
    and sc: "\<And>sc. scope = Some sc \<Longrightarrow> insertedScope (cx_model cx) vs = Inr sc"
    and a: "conflict_attempts k rt cx vs updates cols matches scope s = Inr (ans, s')"
  shows "conflict_effect (se_opr (rt_env rt)) vs cols (placement_columns (cx_model cx)) (Some ans)
    (table_rows s (tm_name (cx_model cx))) (table_rows s' (tm_name (cx_model cx)))"
  using a
proof (induction k arbitrary: s)
  case (Suc k)
  obtain result s1 where r: "conflict_attempt rt cx vs updates cols matches scope s = Inr (result, s1)"
    and c: "(case result of Some a \<Rightarrow> Inr (a, s1) | None \<Rightarrow> conflict_attempts k rt cx vs updates cols matches scope s1) = Inr (ans, s')"
    using Suc.prems by (auto simp: bindE_eq_Inr)
  note eff = conflict_attempt_effect [OF keeps m sc r]
  show ?case
  proof (cases result)
    case None
    then show ?thesis using Suc.IH [of s1] c eff by (simp add: conflict_effect_def [of _ _ _ _ None])
  qed (use c eff in simp)
qed simp


definition demo_upsert :: prepared_insert where
  "demo_upsert =
     \<lparr>pi_row = [(''title'', Some (PStr ''b'')), (''id'', Some (PStr ''p3'')), (''version'', Some (PNum 1)), (''tenant_id'', Some (PStr ''t2''))],
      pi_destination = Some demo_tenant,
      pi_conflict = Some \<lparr>oc_columns = [''title''], oc_update = True, oc_updates = [(''title'', Some (PStr ''b''))]\<rparr>\<rparr>"


end
