(* ===== verification/Uuid7.thy ===== *)
theory Uuid7
  imports Db_Temporal
begin

text \<open>
  The time-ordered ids of \<open>packages/platform/src/uuid.ts\<close>. The generator's module state is a record; the clock and the random bytes of one call are
  its arguments. Milliseconds are integers; a byte of the timestamp is \<open>(lastMillis / 2 ** k) & 0xff\<close>, the truncated quotient modulo 256. The
  version and the variant are or'ed to bits that are zero, so they are added here.
\<close>

subsection \<open>The generator\<close>

definition COUNTER_MAX :: nat where
  "COUNTER_MAX = 4095"

definition COUNTER_SEED_MASK :: nat where
  "COUNTER_SEED_MASK = 255"

record uuid_state =
  us_lastMillis :: int
  us_counter :: nat

definition uuid_start :: uuid_state where
  "uuid_start = \<lparr>us_lastMillis = -1, us_counter = 0\<rparr>"

text \<open>The seed is byte 7 of the sixteen random bytes, read before the counter overwrites it.\<close>

definition uuid_advance :: "int \<Rightarrow> nat \<Rightarrow> uuid_state \<Rightarrow> uuid_state" where
  "uuid_advance millis seed g =
     (if millis > us_lastMillis g then \<lparr>us_lastMillis = millis, us_counter = seed\<rparr>
      else if us_counter g < COUNTER_MAX then g\<lparr>us_counter := us_counter g + 1\<rparr>
      else \<lparr>us_lastMillis = us_lastMillis g + 1, us_counter = seed\<rparr>)"

definition millis_byte :: "int \<Rightarrow> nat \<Rightarrow> nat" where
  "millis_byte ms k = nat (ms div 2 ^ k mod 256)"

definition uuid_bytes :: "uuid_state \<Rightarrow> nat list \<Rightarrow> nat list" where
  "uuid_bytes g random =
     map (millis_byte (us_lastMillis g)) [40, 32, 24, 16, 8, 0] @
     [112 + us_counter g div 256, us_counter g mod 256, 128 + (random ! 8) mod 64] @ drop 9 random"

definition hex_byte :: "nat \<Rightarrow> string" where
  "hex_byte b = [hex_char (b div 16), hex_char (b mod 16)]"

definition uuid_text :: "nat list \<Rightarrow> string" where
  "uuid_text bytes =
     (let s = concat (map hex_byte bytes) in
      take 8 s @ ''-'' @ take 4 (drop 8 s) @ ''-'' @ take 4 (drop 12 s) @ ''-'' @ take 4 (drop 16 s) @ ''-'' @ drop 20 s)"

definition uuidv7 :: "int \<Rightarrow> nat list \<Rightarrow> uuid_state \<Rightarrow> string \<times> uuid_state" where
  "uuidv7 millis random g =
     (let g' = uuid_advance millis ((random ! 7) mod (COUNTER_SEED_MASK + 1)) g in (uuid_text (uuid_bytes g' random), g'))"

text \<open>The ids of one generator's calls, in order.\<close>

fun mint :: "uuid_state \<Rightarrow> (int \<times> nat list) list \<Rightarrow> string list" where
  "mint g [] = []"
| "mint g ((millis, random) # calls) = (case uuidv7 millis random g of (t, g') \<Rightarrow> t # mint g' calls)"

subsection \<open>Hexadecimal order\<close>

lemma hex_code: "m < 16 \<Longrightarrow> (of_char (hex_char m) :: nat) = (if m < 10 then 48 + m else 87 + m)"
proof -
  have "list_all (\<lambda>m. (of_char (hex_char m) :: nat) = (if m < 10 then 48 + m else 87 + m)) [0..<16]" by code_simp
  then show "m < 16 \<Longrightarrow> (of_char (hex_char m) :: nat) = (if m < 10 then 48 + m else 87 + m)" by (simp add: list_all_iff)
qed

lemma hex_order: "m < 16 \<Longrightarrow> n < 16 \<Longrightarrow> (of_char (hex_char m) :: nat) < of_char (hex_char n) \<longleftrightarrow> m < n"
  by (simp add: hex_code)

lemma hex_inj: "m < 16 \<Longrightarrow> n < 16 \<Longrightarrow> hex_char m = hex_char n \<longleftrightarrow> m = n"
  using hex_order [of m n] hex_order [of n m] by (metis less_irrefl linorder_neqE_nat)

lemma hex_byte_less:
  assumes "a < 256" and "b < 256"
  shows "text_less (hex_byte a @ x) (hex_byte b @ y) \<longleftrightarrow> a < b \<or> a = b \<and> text_less x y"
proof -
  have h: "a div 16 < 16" "b div 16 < 16" using assms by (simp_all add: less_mult_imp_div_less)
  have "a < b \<longleftrightarrow> a div 16 < b div 16 \<or> a div 16 = b div 16 \<and> a mod 16 < b mod 16"
    using mult_div_mod_eq [of 16 a] mult_div_mod_eq [of 16 b] mod_less_divisor [of 16 a] mod_less_divisor [of 16 b] by linarith
  moreover have "a = b \<longleftrightarrow> a div 16 = b div 16 \<and> a mod 16 = b mod 16" by (metis mult_div_mod_eq)
  ultimately show ?thesis using h by (auto simp: hex_byte_def hex_order hex_inj)
qed

lemma uuid_text_parts:
  "uuid_text (b0 # b1 # b2 # b3 # b4 # b5 # b6 # b7 # b8 # b9 # rest) =
     hex_byte b0 @ hex_byte b1 @ hex_byte b2 @ hex_byte b3 @ CHR ''-'' # hex_byte b4 @ hex_byte b5 @ CHR ''-'' # hex_byte b6 @ hex_byte b7 @
     CHR ''-'' # hex_byte b8 @ hex_byte b9 @ CHR ''-'' # concat (map hex_byte rest)"
  by (simp add: uuid_text_def hex_byte_def)

subsection \<open>The order of the ids\<close>

lemma millis_byte_less [simp]: "millis_byte ms k < 256"
  by (simp add: millis_byte_def nat_less_iff)

lemma byte_step: "ms div 2 ^ k = 256 * (ms div 2 ^ (k + 8)) + int (millis_byte ms k)" for ms :: int
proof -
  have "ms div 2 ^ (k + 8) = ms div 2 ^ k div 256" by (simp add: power_add zdiv_zmult2_eq)
  then show ?thesis using mult_div_mod_eq [of 256 "ms div 2 ^ k"] by (simp add: millis_byte_def)
qed

lemma byte_order:
  "ms div 2 ^ k < ms' div 2 ^ k \<longleftrightarrow> ms div 2 ^ (k + 8) < ms' div 2 ^ (k + 8) \<or>
     ms div 2 ^ (k + 8) = ms' div 2 ^ (k + 8) \<and> millis_byte ms k < millis_byte ms' k" for ms ms' :: int
  using byte_step [of ms k] byte_step [of ms' k] millis_byte_less [of ms k] millis_byte_less [of ms' k] by linarith

lemma byte_equal:
  "ms div 2 ^ k = ms' div 2 ^ k \<longleftrightarrow> ms div 2 ^ (k + 8) = ms' div 2 ^ (k + 8) \<and> millis_byte ms k = millis_byte ms' k" for ms ms' :: int
proof (intro iffI conjI)
  assume e: "ms div 2 ^ k = ms' div 2 ^ k"
  show "ms div 2 ^ (k + 8) = ms' div 2 ^ (k + 8)" "millis_byte ms k = millis_byte ms' k"
    using e by (simp_all add: millis_byte_def power_add zdiv_zmult2_eq)
qed (simp add: byte_step [of _ k])

lemma millis_order:
  assumes "0 \<le> ms" "ms < 2 ^ 48" "0 \<le> ms'" "ms' < 2 ^ 48"
  shows "ms < ms' \<or> ms = ms' \<and> later \<longleftrightarrow>
    millis_byte ms 40 < millis_byte ms' 40 \<or> millis_byte ms 40 = millis_byte ms' 40 \<and> (millis_byte ms 32 < millis_byte ms' 32 \<or>
    millis_byte ms 32 = millis_byte ms' 32 \<and> (millis_byte ms 24 < millis_byte ms' 24 \<or> millis_byte ms 24 = millis_byte ms' 24 \<and>
    (millis_byte ms 16 < millis_byte ms' 16 \<or> millis_byte ms 16 = millis_byte ms' 16 \<and> (millis_byte ms 8 < millis_byte ms' 8 \<or>
    millis_byte ms 8 = millis_byte ms' 8 \<and> (millis_byte ms 0 < millis_byte ms' 0 \<or> millis_byte ms 0 = millis_byte ms' 0 \<and> later)))))"
proof -
  have z: "ms div 2 ^ (40 + 8) = 0" "ms' div 2 ^ (40 + 8) = 0" using assms by (simp_all add: div_pos_pos_trivial)
  note step = byte_order [of ms 0 ms'] byte_order [of ms 8 ms'] byte_order [of ms 16 ms'] byte_order [of ms 24 ms'] byte_order [of ms 32 ms']
    byte_order [of ms 40 ms', unfolded z] byte_equal [of ms 0 ms'] byte_equal [of ms 8 ms'] byte_equal [of ms 16 ms'] byte_equal [of ms 24 ms']
    byte_equal [of ms 32 ms'] byte_equal [of ms 40 ms', unfolded z]
  have "ms < ms' \<longleftrightarrow> ms div 2 ^ 0 < ms' div 2 ^ 0" "ms = ms' \<longleftrightarrow> ms div 2 ^ 0 = ms' div 2 ^ 0" by simp_all
  then show ?thesis using step by (simp del: power_0) blast
qed

text \<open>The ids of two states compare as the states do: by the millisecond, then by the counter.\<close>

definition uuid_before :: "uuid_state \<Rightarrow> uuid_state \<Rightarrow> bool" where
  "uuid_before g h \<longleftrightarrow> us_lastMillis g < us_lastMillis h \<or> us_lastMillis g = us_lastMillis h \<and> us_counter g < us_counter h"

definition uuid_ok :: "uuid_state \<Rightarrow> bool" where
  "uuid_ok g \<longleftrightarrow> 0 \<le> us_lastMillis g \<and> us_lastMillis g < 2 ^ 48 \<and> us_counter g \<le> COUNTER_MAX"

lemma counter_order:
  assumes "c \<le> 4095" and "d \<le> 4095"
  shows "c < d \<longleftrightarrow> 112 + c div 256 < 112 + d div 256 \<or> 112 + c div 256 = 112 + d div 256 \<and> c mod 256 < d mod (256 :: nat)"
  using mult_div_mod_eq [of 256 c] mult_div_mod_eq [of 256 d] mod_less_divisor [of 256 c] mod_less_divisor [of 256 d] by linarith

lemma uuid_text_order:
  assumes ok: "uuid_ok g" "uuid_ok h" and r: "length r = 16" "length q = 16" and lt: "uuid_before g h"
  shows "text_less (uuid_text (uuid_bytes g r)) (uuid_text (uuid_bytes h q))"
proof -
  obtain r9 rs where rs: "drop 9 r = r9 # rs" using r by (cases "drop 9 r") auto
  obtain q9 qs where qs: "drop 9 q = q9 # qs" using r by (cases "drop 9 q") auto
  let ?m = "us_lastMillis g" and ?n = "us_lastMillis h" and ?c = "us_counter g" and ?d = "us_counter h"
  have b: "112 + ?c div 256 < 256" "112 + ?d div 256 < 256" "?c mod 256 < 256" "?d mod 256 < 256"
    using ok by (auto simp: uuid_ok_def COUNTER_MAX_def)
  define later where "later = (112 + ?c div 256 < 112 + ?d div 256 \<or> 112 + ?c div 256 = 112 + ?d div 256 \<and> (?c mod 256 < ?d mod 256 \<or> ?c mod 256 = ?d mod 256 \<and>
      text_less (CHR ''-'' # hex_byte (128 + r ! 8 mod 64) @ hex_byte r9 @ CHR ''-'' # concat (map hex_byte rs))
        (CHR ''-'' # hex_byte (128 + q ! 8 mod 64) @ hex_byte q9 @ CHR ''-'' # concat (map hex_byte qs))))"
  have dash: "text_less (CHR ''-'' # x) (CHR ''-'' # y) \<longleftrightarrow> text_less x y" for x y by simp
  have "text_less (uuid_text (uuid_bytes g r)) (uuid_text (uuid_bytes h q)) \<longleftrightarrow> ?m < ?n \<or> ?m = ?n \<and> later"
    unfolding millis_order [OF ok(1) [unfolded uuid_ok_def, THEN conjunct1] ok(1) [unfolded uuid_ok_def, THEN conjunct2, THEN conjunct1]
        ok(2) [unfolded uuid_ok_def, THEN conjunct1] ok(2) [unfolded uuid_ok_def, THEN conjunct2, THEN conjunct1]]
      uuid_bytes_def rs qs list.map append.simps uuid_text_parts later_def
    by (simp only: hex_byte_less millis_byte_less b dash)
  moreover have "?c < ?d \<Longrightarrow> later" using counter_order [of ?c ?d] ok by (auto simp: later_def uuid_ok_def COUNTER_MAX_def)
  ultimately show ?thesis using lt by (auto simp: uuid_before_def)
qed

lemma uuid_advance_before: "uuid_before g (uuid_advance millis seed g)"
  by (auto simp: uuid_before_def uuid_advance_def)

lemma uuid_before_trans: "uuid_before g h \<Longrightarrow> uuid_before h k \<Longrightarrow> uuid_before g k"
  by (auto simp: uuid_before_def)

text \<open>The millisecond never runs ahead of the clock by more than one for each call.\<close>

lemma uuid_advance_bounds:
  assumes "us_counter g \<le> COUNTER_MAX" and "seed \<le> COUNTER_MAX" and "us_lastMillis g < b" and "millis < b"
  shows "us_counter (uuid_advance millis seed g) \<le> COUNTER_MAX \<and> us_lastMillis (uuid_advance millis seed g) < b + 1"
  using assms by (auto simp: uuid_advance_def)

fun mint_states :: "uuid_state \<Rightarrow> (int \<times> nat list) list \<Rightarrow> uuid_state list" where
  "mint_states g [] = []"
| "mint_states g ((millis, random) # calls) = snd (uuidv7 millis random g) # mint_states (snd (uuidv7 millis random g)) calls"

lemma mint_texts: "mint g calls = map (\<lambda>(h, random). uuid_text (uuid_bytes h random)) (zip (mint_states g calls) (map snd calls))"
  by (induction g calls rule: mint.induct) (simp_all add: uuidv7_def Let_def)

lemma mint_states_after: "h \<in> set (mint_states g calls) \<Longrightarrow> uuid_before g h"
proof (induction g calls rule: mint_states.induct)
  case (2 g millis random calls)
  have "uuid_before g (snd (uuidv7 millis random g))" by (simp add: uuidv7_def Let_def uuid_advance_before)
  then show ?case using 2 uuid_before_trans by auto
qed simp

lemma mint_states_sorted: "sorted_wrt uuid_before (mint_states g calls)"
  by (induction g calls rule: mint_states.induct) (auto dest: mint_states_after)

lemma mint_states_ok:
  assumes "us_counter g \<le> COUNTER_MAX" and "us_lastMillis g < b" and "\<forall>(millis, random) \<in> set calls. 0 \<le> millis \<and> millis < b"
    and "b + int (length calls) \<le> 2 ^ 48" and "-1 \<le> us_lastMillis g"
  shows "\<forall>h \<in> set (mint_states g calls). uuid_ok h"
  using assms
proof (induction g calls arbitrary: b rule: mint_states.induct)
  case (2 g millis random calls)
  let ?h = "snd (uuidv7 millis random g)"
  have h: "us_counter ?h \<le> COUNTER_MAX" "us_lastMillis ?h < b + 1" "0 \<le> us_lastMillis ?h"
    using 2 uuid_advance_bounds [of g "random ! 7 mod (COUNTER_SEED_MASK + 1)" b millis]
    by (auto simp: uuidv7_def Let_def uuid_advance_def COUNTER_SEED_MASK_def COUNTER_MAX_def)
  moreover have "\<forall>k \<in> set (mint_states ?h calls). uuid_ok k" using 2(1) [of "b + 1"] 2 h by fastforce
  ultimately show ?case using 2 by (auto simp: uuid_ok_def)
qed simp

lemma mint_sorted:
  assumes "\<forall>h \<in> set (mint_states g calls). uuid_ok h" and "\<forall>(millis, random) \<in> set calls. length random = 16"
  shows "sorted_wrt text_less (mint g calls)"
  using assms
proof (induction g calls rule: mint_states.induct)
  case (2 g millis random calls)
  let ?h = "snd (uuidv7 millis random g)"
  have head: "mint g ((millis, random) # calls) = uuid_text (uuid_bytes ?h random) # mint ?h calls" by (simp add: uuidv7_def Let_def)
  have "text_less (uuid_text (uuid_bytes ?h random)) u" if u: "u \<in> set (mint ?h calls)" for u
  proof -
    obtain k q where z: "(k, q) \<in> set (zip (mint_states ?h calls) (map snd calls))" and t: "u = uuid_text (uuid_bytes k q)"
      using u unfolding mint_texts by auto
    have k: "k \<in> set (mint_states ?h calls)" "q \<in> snd ` set calls" using set_zip_leftD [OF z] set_zip_rightD [OF z] by simp_all
    with t show ?thesis using 2(2,3) mint_states_after [OF k(1)] uuid_text_order [of ?h k random q] by fastforce
  qed
  then show ?case unfolding head using 2 by simp
qed simp

text \<open>C36: the ids one generator makes are strictly increasing as texts, in the order it made them, whatever the clock answers (it may stand still or run
  backwards) and whatever the random bytes are, as long as the milliseconds fit their 48 bits. So a table orders by id in the order of its
  inserts, and no id of a generator repeats.\<close>

theorem uuids_increase:
  assumes "\<forall>(millis, random) \<in> set calls. 0 \<le> millis \<and> millis < b \<and> length random = 16" and "0 \<le> b" and "b + int (length calls) \<le> 2 ^ 48"
  shows "sorted_wrt text_less (mint uuid_start calls)"
proof -
  have "\<forall>h \<in> set (mint_states uuid_start calls). uuid_ok h"
    using assms by (intro mint_states_ok [where b = b]) (auto simp: uuid_start_def)
  then show ?thesis using assms(1) by (intro mint_sorted) auto
qed

text \<open>Witness: three calls, the second in the same millisecond and the third with a clock that ran back.\<close>

definition demo_random :: "nat list" where
  "demo_random = [1, 2, 3, 4, 5, 6, 7, 255, 9, 10, 11, 12, 13, 14, 15, 16]"

theorem uuids_increase_witness:
  "sorted_wrt text_less (mint uuid_start [(1700000000000, demo_random), (1700000000000, demo_random), (1600000000000, demo_random)])"
  by (rule uuids_increase [where b = 1700000000001]) (simp_all add: demo_random_def)

end
