(* ===== verification/Spec2Isabelle.thy ===== *)
theory Spec2Isabelle
  imports Verify_Service_Sound Iam_Gateway Job_Recovery Db_Store_Sound Uuid7
begin

text \<open>
  \<^bold>\<open>Verification of the core of the fabrika platform.\<close>

  The platform runs applications behind one proxy. IAM mints short-lived access tokens; the proxy authorizes every
  request before an application sees it; the control plane deploys under leases; the applications' jobs run under
  fenced leases in the application's own database; and their handlers reach that database through a guarded data layer.
  This development models the code those guarantees rest on.

  \<^bold>\<open>The request path\<close> (\<open>packages/auth-core\<close>, \<open>packages/jwks\<close>, \<open>packages/proxy-core\<close>).
  A request enters \<open>createVerifyService\<close> (\<open>service.ts\<close>), which names the application by host, reads the forwarded
  request and asks the authorizer (\<open>authorize.ts\<close>). The authorizer plans the request over the endpoint table
  (\<open>endpoints.ts\<close>), reads a credential (\<open>credentials.ts\<close>, \<open>handoff.ts\<close>), exchanges it with IAM or takes its token from
  the cache (\<open>cache.ts\<close>), verifies the token (\<open>jwks/src/verifier.ts\<close>, \<open>token.ts\<close>), checks the row's callers and requirement
  (\<open>requirement.ts\<close>, \<open>permissions.ts\<close>) and answers; the service renders the answer under the header policy (\<open>headers.ts\<close>).

  \<^item> \<open>Prelude\<close>, \<open>Web_Url\<close>, \<open>Json\<close>: JavaScript strings as character lists, parsed URLs, JSON values (\<open>json.ts\<close>, \<open>oauth.ts\<close>).
  \<^item> \<open>Permissions\<close>, \<open>Requirement\<close>: action patterns and scoped permissions, and what a row requires. \<open>scopedValues\<close> lists
    exactly what \<open>permits\<close> admits; \<open>satisfies\<close> refines a specification over \<open>permits\<close>.
  \<^item> \<open>Token\<close>: the claims of both token profiles, built and parsed: the parser accepts only well-formed claims, parsing what was
    built gives it back, and no token is accepted under the other profile.
  \<^item> \<open>Canonical_Path\<close>, \<open>Endpoints\<close>: the path check characterised by its decoded segments; the table compiler and the
    selection, which picks the most specific row whatever the order of the table.
  \<^item> \<open>Jwks_Verifier\<close>: the key-set cache with the forced refetch. State passing over \<open>verifier_state\<close>; what is accepted, how often
    keys are fetched, and when the verifier is unavailable.
  \<^item> \<open>Token_Cache\<close>: the locale \<open>token_cache\<close> is the cache's interface, interpreted by \<open>MemoryTokenCache\<close> and by the authorizer's
    optional cache; bounded in entries and bytes, and it answers only what was last stored.
  \<^item> \<open>Base64\<close>, \<open>Credentials\<close>, \<open>Header_Policy\<close>: credentials and cookies, and the response headers.
  \<^item> \<open>Sha256\<close>, \<open>Sha256_Fips\<close>: the synchronous SHA-256 (\<open>sha256.ts\<close>) on JavaScript numbers and typed arrays, and that it computes the
    function of FIPS 180-4 on 32-bit words.
  \<^item> \<open>Canonical_Json\<close>, \<open>Endpoint_Digest\<close>: the canonical JSON (\<open>contract-canonical.ts\<close>) and the digests of endpoint rules
    (\<open>endpoint-digest.ts\<close>): two rows have one digested text exactly when the proxy applies the same rules to both.
  \<^item> \<open>Proxy_Manifest\<close>: the entries of the manifest, the rules of its parser and the rows its producers build (\<open>manifest.ts\<close>).
  \<^item> \<open>Authorizer\<close>: the whole decision as state-passing computations that return or throw. \<open>Authorizer_Sound\<close> shows what an
    allow means, \<open>Authorizer_Effects\<close> what a request costs and what the cache may hold, \<open>Authorizer_Outcomes\<close> the outages, the
    login bounce, the handoff, the sign-out and the preflight.
  \<^item> \<open>Verify_Service\<close>, \<open>Verify_Service_Sound\<close>: the service around it, and that a success answer rests on an allow.

  \<^bold>\<open>The leases\<close> (\<open>packages/platform\<close>, \<open>packages/control\<close>, \<open>packages/db\<close>).

  \<^item> \<open>Deploy_Locks\<close>: the lease statements (\<open>deploy-locks-sql.ts\<close>) behind the locale \<open>lease_store\<close>, and the held lease with its
    renewal loop (\<open>lease.ts\<close>) as a step relation over one table, with statements that run late and answers that time
    out: no two leases of one key are held at once, and a dead holder blocks its key for a bounded time.
  \<^item> \<open>Job_Leases\<close>, \<open>Job_Wakes\<close>: the statements of the job tables (\<open>job-leases.ts\<close>, \<open>job-wakes.ts\<close>) as functions on the tables,
    and the operations as transactions that commit all or nothing.
  \<^item> \<open>Job_Fencing\<close>: fenced transactions, and every interleaving of them with the lease operations: a superseded attempt writes
    nothing after its successor. \<open>Job_Recovery\<close>: a crashed job runs again, a wake scheduled during a run survives its
    finish, and the scheduler is woken for every pending wake.

  \<^bold>\<open>The data layer\<close> (\<open>packages/db\<close>). A handler holds capabilities (a Ref of one object, a Within of a dimension, an application
  capability); a table's policy names its dimension, its containment columns and its actions. The layer turns a capability into a scope
  predicate (\<open>store.ts\<close>), builds the statement as a tree (\<open>nodes.ts\<close>), and every tree passes a guard (\<open>guard.ts\<close>) before it is sent.

  \<^item> \<open>Db_Nodes\<close>: errors, identifiers and the trees. A tree is plain data, in the shape of Kysely's nodes, which the guard reads by
    property; the identity test \<open>===\<close> of two nodes is equality of the data, and accessor properties are left out.
  \<^item> \<open>Db_Sql\<close>: what a printed condition means in SQL's three-valued logic, with the precedence of \<open>and\<close> over \<open>or\<close>, where the
    comparison of two values is a parameter; a search text matches literally.
  \<^item> \<open>Db_Guard\<close>, \<open>Db_Guard_Sound\<close>, \<open>Db_Guard_Complete\<close>: the guard. An admitted statement touches no row outside its scope predicate
    and no table but its own and the children it may join; and every statement the layer builds is admitted.
  \<^item> \<open>Db_Scope\<close>, \<open>Db_Scope_Exact\<close>: the capabilities and their predicates. A Ref and a Within admit exactly the rows they name, the
    same on every surface of the layer, \<open>ctx.sql.scope\<close> included.
  \<^item> \<open>Db_Policy\<close>, \<open>Db_Policy_Sound\<close>: the parse of the policies (\<open>policy.ts\<close>). The containment walks end; accepted tables are well formed;
    and under the foreign keys the parse requires, a row lies where its container lies.
  \<^item> \<open>Js_Date\<close>, \<open>Db_Temporal\<close>: the calendar of JavaScript's \<open>Date\<close>, and days and timestamps at the layer's boundary (\<open>temporal.ts\<close>): stored
    texts order as their instants and are read back as them; a day is admitted exactly when it is one of the year 100 or later.
  \<^item> \<open>Db_Values\<close>: the values a handler writes, read through own properties, and JSON columns: exactly the JSON values of bounded depth.
  \<^item> \<open>Db_Execution\<close>, \<open>Db_Store\<close>, \<open>Db_Store_Sound\<close>: sessions, and the stores' inserts, updates, moves and removes over tables of rows. A write
    through a Ref changes only rows of its object and leaves them there, or where a move says; an inserted row lies under its Ref; a stale version is
    refused; a conflict updates no row of another container; and a located chain reaches its object.
  \<^item> \<open>Uuid7\<close>: the ids of new rows (\<open>platform/src/uuid.ts\<close>), strictly increasing texts whatever the clock does.

  \<^bold>\<open>Parameters.\<close> Code outside the repository is an argument of the definitions that use it: the URL parser of the runtime,
  the token library's signature check and the key-set fetch (\<open>verifier_env\<close>), IAM and the delegation issuer (\<open>proxy_env\<close>),
  the random source and the asynchronous SHA-256 of WebCrypto, the decimal text of numbers in JSON, the runtime's \<open>projectWakes\<close>, what a
  database adds to SQL (\<open>sql_env\<close>: comparisons, defaults, casts, constraints and rows that follow a foreign key), the clocks. Hypotheses state what the code relies
  on of them; each such theorem has a witness on a concrete instance.

  \<^bold>\<open>Bounds.\<close> Every modelled loop runs over a list or a text and ends with it, or has a termination proof (the containment
  walks), so no definition takes fuel. JavaScript numbers
  that count seconds, milliseconds, entries or bytes stay far below \<open>2 ^ 53\<close> and are integers here.

  \<^bold>\<open>Not modelled.\<close> HTML and log texts; the decoding of untyped rows and JSON by zod; the composition of processes; IAM's own
  store, the control plane's runs and registries, the application framework, the list reads, the
  invocation handles and the migrations of the data layer, providers, command line and user interfaces. The components of the manifest list them with the reasons.
\<close>

end
